(* ===== verification/Prelude.thy ===== *)
theory Prelude
  imports Main "HOL-Library.Word"
begin

text \<open>
  Shared material of the development: the machine types of the Go code, the byte codecs of
  \<^verbatim>\<open>encoding/binary\<close> and the big-endian magnitude of \<^verbatim>\<open>math/big\<close>, the Euclidean division of
  \<^verbatim>\<open>big.Int\<close>, and the generic facts on lists and words that the components use.
  Three collections are declared: \<open>byte_simps\<close> (codecs and lengths), \<open>heap_simps\<close> (the slice
  heap) and \<open>vm_rules\<close> (the Hoare rules of the virtual machine).
\<close>

named_theorems byte_simps
named_theorems heap_simps
named_theorems vm_rules

type_synonym byte = "8 word"
type_synonym bytes = "8 word list"
type_synonym u8 = "8 word"
type_synonym u16 = "16 word"
type_synonym u32 = "32 word"
type_synonym u64 = "64 word"

text \<open>The bytes of a Go string constant, \<^verbatim>\<open>[]byte("...")\<close>.\<close>

definition of_string :: "string \<Rightarrow> bytes" where
  "of_string s = map of_char s"

subsection \<open>Fixed-width integers of \<^verbatim>\<open>encoding/binary\<close>\<close>

definition le_fixed :: "nat \<Rightarrow> nat \<Rightarrow> bytes" where
  "le_fixed k n = map (\<lambda>i. word_of_nat (n div 256 ^ i)) [0..<k]"

definition be_fixed :: "nat \<Rightarrow> nat \<Rightarrow> bytes" where
  "be_fixed k n = rev (le_fixed k n)"

primrec le_nat :: "bytes \<Rightarrow> nat" where
  "le_nat [] = 0"
| "le_nat (b # bs) = unat b + 256 * le_nat bs"

definition be_nat :: "bytes \<Rightarrow> nat" where
  "be_nat bs = le_nat (rev bs)"

lemma length_le_fixed [simp, byte_simps]: "length (le_fixed k n) = k"
  by (simp add: le_fixed_def)

lemma length_be_fixed [simp, byte_simps]: "length (be_fixed k n) = k"
  by (simp add: be_fixed_def)

lemma length_of_string [simp, byte_simps]: "length (of_string s) = length s"
  by (simp add: of_string_def)

lemma le_fixed_0 [simp]: "le_fixed 0 n = []"
  by (simp add: le_fixed_def)

lemma le_fixed_Suc: "le_fixed (Suc k) n = word_of_nat n # le_fixed k (n div 256)"
proof -
  have "[0..<Suc k] = 0 # map Suc [0..<k]"
    by (simp add: map_Suc_upt upt_conv_Cons del: upt_Suc)
  then show ?thesis
    by (simp add: le_fixed_def div_mult2_eq comp_def del: upt_Suc)
qed

lemma unat_byte_lt [simp]: "unat (b :: byte) < 256"
  using unsigned_less[of b] by simp

lemma unat_u16_lt [simp]: "unat (x :: u16) < 65536"
  using unsigned_less[of x] by simp

lemma unat_byte_of_nat [simp]: "unat (word_of_nat n :: byte) = n mod 256"
  by (simp add: unat_of_nat)

lemma u16_succ:
  assumes "(cur :: u16) \<le> index" "cur \<noteq> index"
  shows "unat cur < unat index" "unat (cur + 1) = Suc (unat cur)"
proof -
  have "cur < index" using assms by (rule order.not_eq_order_implies_strict [rotated])
  then show lt: "unat cur < unat index" by (simp add: word_less_nat_alt)
  then have "Suc (unat cur) < 65536" using unat_u16_lt [of index] by linarith
  then show "unat (cur + 1) = Suc (unat cur)" by (simp add: unat_word_ariths)
qed

lemma u16_add:
  "unat (x :: u16) + unat y < 65536 \<Longrightarrow> unat (x + y) = unat x + unat y"
  by (simp add: unat_word_ariths)

lemma unat_u16_of_nat: "unat (word_of_nat n :: u16) = n mod 65536"
  by (simp add: unat_of_nat)

lemma le_nat_fixed: "le_nat (le_fixed k n) = n mod 256 ^ k"
proof (induction k arbitrary: n)
  case 0
  then show ?case by simp
next
  case (Suc k)
  then have "le_nat (le_fixed (Suc k) n) = n mod 256 + 256 * (n div 256 mod 256 ^ k)"
    by (simp add: le_fixed_Suc)
  then show ?case
    by (simp add: mod_mult2_eq)
qed

lemma be_nat_fixed: "be_nat (be_fixed k n) = n mod 256 ^ k"
  by (simp add: be_nat_def be_fixed_def le_nat_fixed)

lemma le_nat_append: "le_nat (xs @ ys) = le_nat xs + 256 ^ length xs * le_nat ys"
  by (induction xs) (simp_all add: algebra_simps)

lemma le_nat_bound: "le_nat bs < 256 ^ length bs"
proof (induction bs)
  case Nil
  then show ?case by simp
next
  case (Cons b bs)
  have "unat b + 256 * le_nat bs < 256 + 256 * le_nat bs" by simp
  also have "\<dots> = 256 * Suc (le_nat bs)" by simp
  also have "\<dots> \<le> 256 * 256 ^ length bs" using Cons.IH by simp
  finally show ?case by simp
qed

lemma be_nat_bound: "be_nat bs < 256 ^ length bs"
  using le_nat_bound[of "rev bs"] by (simp add: be_nat_def)

lemma be_nat_Nil [simp]: "be_nat [] = 0"
  by (simp add: be_nat_def)

lemma be_nat_snoc: "be_nat (bs @ [b]) = 256 * be_nat bs + unat b"
  by (simp add: be_nat_def)

lemma be_nat_Cons: "be_nat (b # bs) = unat b * 256 ^ length bs + be_nat bs"
  by (simp add: be_nat_def le_nat_append)

subsection \<open>The magnitude bytes of \<^verbatim>\<open>big.Int\<close>\<close>

text \<open>
  \<^verbatim>\<open>Bytes\<close> is the minimal big-endian magnitude: no leading zero byte, empty for 0.
  \<^verbatim>\<open>SetBytes\<close> reads any big-endian byte string.
\<close>

fun big_Bytes :: "nat \<Rightarrow> bytes" where
  "big_Bytes n = (if n = 0 then [] else big_Bytes (n div 256) @ [word_of_nat n])"

declare big_Bytes.simps [simp del]

definition big_SetBytes :: "bytes \<Rightarrow> int" where
  "big_SetBytes bs = int (be_nat bs)"

lemma big_Bytes_0 [simp]: "big_Bytes 0 = []"
  by (simp add: big_Bytes.simps)

lemma be_nat_big_Bytes [simp, byte_simps]: "be_nat (big_Bytes n) = n"
proof (induction n rule: big_Bytes.induct)
  case (1 n)
  then show ?case
    by (subst big_Bytes.simps) (simp add: be_nat_snoc)
qed

lemma length_big_Bytes: "n < 256 ^ k \<Longrightarrow> length (big_Bytes n) \<le> k"
proof (induction k arbitrary: n)
  case 0
  then show ?case by simp
next
  case (Suc k)
  then have "n div 256 < 256 ^ k" by (simp add: less_mult_imp_div_less mult.commute)
  then have "length (big_Bytes (n div 256)) \<le> k" by (rule Suc.IH)
  then show ?case by (subst big_Bytes.simps) simp
qed

lemma big_Bytes_be_nat:
  "bs \<noteq> [] \<Longrightarrow> hd bs \<noteq> 0 \<Longrightarrow> big_Bytes (be_nat bs) = bs"
proof (induction bs rule: rev_induct)
  case Nil
  then show ?case by simp
next
  case (snoc b bs)
  have div: "be_nat (bs @ [b]) div 256 = be_nat bs"
    by (simp add: be_nat_snoc)
  have "unat (word_of_nat (be_nat (bs @ [b])) :: byte) = unat b"
    by (simp only: unat_byte_of_nat be_nat_snoc) simp
  then have low: "(word_of_nat (be_nat (bs @ [b])) :: byte) = b"
    by (simp only: word_unat_eq_iff)
  have nz: "be_nat (bs @ [b]) \<noteq> 0"
  proof (cases bs)
    case Nil
    with snoc.prems show ?thesis by (simp add: be_nat_Cons unat_gt_0)
  next
    case (Cons c cs)
    with snoc.prems have "0 < unat c" by (simp add: unat_gt_0)
    then show ?thesis by (simp add: Cons be_nat_Cons)
  qed
  show ?case
  proof (cases "bs = []")
    case True
    then show ?thesis using nz div low
      by (subst big_Bytes.simps) simp
  next
    case False
    with snoc have "big_Bytes (be_nat bs) = bs" by simp
    then show ?thesis using nz div low
      by (subst big_Bytes.simps) simp
  qed
qed

subsection \<open>Euclidean division of \<^verbatim>\<open>big.Int\<close>\<close>

text \<open>
  \<^verbatim>\<open>Div\<close> and \<^verbatim>\<open>Mod\<close> of \<^verbatim>\<open>math/big\<close> implement Euclidean division: the modulus is never
  negative, whatever the sign of the divisor.
\<close>

definition big_Mod :: "int \<Rightarrow> int \<Rightarrow> int" where
  "big_Mod x y = x mod \<bar>y\<bar>"

definition big_Div :: "int \<Rightarrow> int \<Rightarrow> int" where
  "big_Div x y = sgn y * (x div \<bar>y\<bar>)"

lemma big_Div_Mod: "y \<noteq> 0 \<Longrightarrow> x = big_Div x y * y + big_Mod x y"
proof -
  have "sgn y * (x div \<bar>y\<bar>) * y = (x div \<bar>y\<bar>) * \<bar>y\<bar>"
    by (simp add: abs_sgn [of y] mult.commute mult.left_commute)
  then show ?thesis
    unfolding big_Div_def big_Mod_def by (metis div_mult_mod_eq)
qed

lemma big_Mod_range: "y \<noteq> 0 \<Longrightarrow> 0 \<le> big_Mod x y \<and> big_Mod x y < \<bar>y\<bar>"
  by (simp add: big_Mod_def)

lemma big_Div_abs_le: "\<bar>big_Div x y\<bar> \<le> \<bar>x\<bar>"
proof (cases "y = 0")
  case True
  then show ?thesis by (simp add: big_Div_def)
next
  case False
  then have y: "1 \<le> \<bar>y\<bar>" by simp
  have "\<bar>x div \<bar>y\<bar>\<bar> \<le> \<bar>x\<bar>"
  proof (cases "0 \<le> x")
    case True
    then have "x div \<bar>y\<bar> \<le> x div 1" using y by (intro zdiv_mono2) simp_all
    with True y show ?thesis
      by (simp add: pos_imp_zdiv_nonneg_iff)
  next
    case False
    then have "x div 1 \<le> x div \<bar>y\<bar>" using y by (intro zdiv_mono2_neg) simp_all
    moreover have "x div \<bar>y\<bar> \<le> 0" using False y by (simp add: div_nonpos_pos_le0)
    ultimately show ?thesis by simp
  qed
  then show ?thesis by (simp add: big_Div_def abs_mult)
qed

subsection \<open>Lists\<close>

lemma take_drop_append_upd:
  "take n xs @ ys @ drop (n + length ys) xs = take n xs @ ys @ drop n (drop (length ys) xs)"
  by (simp add: add.commute)

lemma sum_list_append_butlast:
  "xs \<noteq> [] \<Longrightarrow> sum_list (map f (butlast xs)) + f (last xs) = sum_list (map (f :: 'a \<Rightarrow> nat) xs)"
  by (induction xs rule: rev_induct) auto

lemma member_le_sum: "x \<in> set xs \<Longrightarrow> f x \<le> sum_list (map (f :: 'a \<Rightarrow> nat) xs)"
  by (induction xs) auto

lemma sum_list_remove_nth:
  "i < length xs \<Longrightarrow>
   sum_list (map (f :: 'a \<Rightarrow> nat) (take i xs @ drop (Suc i) xs)) + f (xs ! i) = sum_list (map f xs)"
  by (subst (3) id_take_nth_drop[of i xs]) auto

end
