(* ===== verification/GoSlice.thy ===== *)
theory GoSlice
  imports Prelude
begin

text \<open>
  Go byte slices over an explicit store of backing arrays. A slice is a view (array, offset,
  length, capacity), so two slices may share bytes: the virtual machine pushes views of the
  contract code and of the transaction data on its stack, and \<^verbatim>\<open>append\<close> writes in place when the
  capacity allows it. The growth policy of the runtime is not fixed by the language: it is the
  parameter \<open>grow\<close> (old capacity, needed length), and a new array is only known to be large
  enough. Out-of-range accesses, which panic, give \<open>None\<close>.
\<close>

record slice =
  sl_arr :: nat
  sl_off :: nat
  sl_len :: nat
  sl_cap :: nat

type_synonym heap = "bytes list"
type_synonym growth = "nat \<Rightarrow> nat \<Rightarrow> nat"

definition nil_slice :: slice where
  "nil_slice = \<lparr>sl_arr = 0, sl_off = 0, sl_len = 0, sl_cap = 0\<rparr>"

definition sl_bytes :: "heap \<Rightarrow> slice \<Rightarrow> bytes" where
  "sl_bytes h s = (if sl_len s = 0 then [] else take (sl_len s) (drop (sl_off s) (h ! sl_arr s)))"

text \<open>\<^verbatim>\<open>s[i]\<close> as a value and as the target of an assignment.\<close>

definition sl_get :: "heap \<Rightarrow> slice \<Rightarrow> nat \<Rightarrow> byte option" where
  "sl_get h s i = (if i < sl_len s then Some (sl_bytes h s ! i) else None)"

definition sl_set :: "heap \<Rightarrow> slice \<Rightarrow> nat \<Rightarrow> byte \<Rightarrow> heap option" where
  "sl_set h s i b =
     (if i < sl_len s then Some (h[sl_arr s := (h ! sl_arr s)[sl_off s + i := b]]) else None)"

text \<open>\<^verbatim>\<open>s[i:j]\<close>: the bounds are checked against the capacity, not the length.\<close>

definition sl_sub :: "slice \<Rightarrow> nat \<Rightarrow> nat \<Rightarrow> slice option" where
  "sl_sub s i j =
     (if i \<le> j \<and> j \<le> sl_cap s
      then Some \<lparr>sl_arr = sl_arr s, sl_off = sl_off s + i, sl_len = j - i, sl_cap = sl_cap s - i\<rparr>
      else None)"

text \<open>A composite literal or \<^verbatim>\<open>make\<close>: a new array with capacity equal to the length.\<close>

definition sl_new :: "heap \<Rightarrow> bytes \<Rightarrow> heap \<times> slice" where
  "sl_new h bs =
     (h @ [bs], \<lparr>sl_arr = length h, sl_off = 0, sl_len = length bs, sl_cap = length bs\<rparr>)"

text \<open>The built-in \<^verbatim>\<open>append(s, bs...)\<close>.\<close>

definition sl_write :: "heap \<Rightarrow> nat \<Rightarrow> nat \<Rightarrow> bytes \<Rightarrow> heap" where
  "sl_write h a p bs = h[a := take p (h ! a) @ bs @ drop (p + length bs) (h ! a)]"

definition sl_append :: "growth \<Rightarrow> heap \<Rightarrow> slice \<Rightarrow> bytes \<Rightarrow> heap \<times> slice" where
  "sl_append grow h s bs =
     (let need = sl_len s + length bs in
      if need \<le> sl_cap s
      then (if bs = [] then h else sl_write h (sl_arr s) (sl_off s + sl_len s) bs,
            s\<lparr>sl_len := need\<rparr>)
      else
        let c = max need (grow (sl_cap s) need) in
        (h @ [sl_bytes h s @ bs @ replicate (c - need) 0],
         \<lparr>sl_arr = length h, sl_off = 0, sl_len = need, sl_cap = c\<rparr>))"

subsection \<open>Well-formed slices and heap extension\<close>

definition valid_slice :: "heap \<Rightarrow> slice \<Rightarrow> bool" where
  "valid_slice h s \<longleftrightarrow> sl_len s \<le> sl_cap s \<and>
     (sl_cap s = 0 \<or> sl_arr s < length h \<and> sl_off s + sl_cap s \<le> length (h ! sl_arr s))"

definition heap_ext :: "heap \<Rightarrow> heap \<Rightarrow> bool" where
  "heap_ext h h' \<longleftrightarrow>
     length h \<le> length h' \<and> (\<forall>i < length h. length (h' ! i) = length (h ! i))"

lemma heap_ext_refl [simp, intro]: "heap_ext h h"
  by (simp add: heap_ext_def)

lemma heap_ext_trans [trans]: "heap_ext h h' \<Longrightarrow> heap_ext h' h'' \<Longrightarrow> heap_ext h h''"
  by (auto simp: heap_ext_def)

lemma valid_slice_ext: "valid_slice h s \<Longrightarrow> heap_ext h h' \<Longrightarrow> valid_slice h' s"
  by (auto simp: valid_slice_def heap_ext_def)

lemma valid_nil [simp]: "valid_slice h nil_slice"
  by (simp add: valid_slice_def nil_slice_def)

lemma sl_bytes_nil [simp]: "sl_bytes h nil_slice = []"
  by (simp add: sl_bytes_def nil_slice_def)

lemma length_sl_bytes [simp, heap_simps]: "valid_slice h s \<Longrightarrow> length (sl_bytes h s) = sl_len s"
  by (auto simp: sl_bytes_def valid_slice_def)

lemma length_sl_bytes_le: "length (sl_bytes h s) \<le> sl_len s"
  by (simp add: sl_bytes_def)

lemma heap_ext_append [simp]: "heap_ext h (h @ xs)"
  by (simp add: heap_ext_def nth_append)

lemma sl_bytes_append_heap [simp, heap_simps]:
  "valid_slice h t \<Longrightarrow> sl_bytes (h @ xs) t = sl_bytes h t"
  by (auto simp: sl_bytes_def valid_slice_def nth_append)

lemma sl_sub_props:
  assumes "sl_sub s i j = Some t"
  shows "i \<le> j" "j \<le> sl_cap s" "sl_len t = j - i"
    "valid_slice h s \<Longrightarrow> valid_slice h t"
  using assms by (auto simp: sl_sub_def valid_slice_def split: if_splits)

lemma sl_sub_bytes:
  assumes "sl_sub s i j = Some t" "j \<le> sl_len s" "valid_slice h s"
  shows "sl_bytes h t = take (j - i) (drop i (sl_bytes h s))"
proof -
  have t: "sl_arr t = sl_arr s" "sl_off t = sl_off s + i" "sl_len t = j - i" "i \<le> j"
    using assms(1) by (auto simp: sl_sub_def split: if_splits)
  have "take (j - i) (drop i (take (sl_len s) xs)) = take (j - i) (drop i xs)" for xs :: bytes
    using assms(2) t(4) by (simp add: drop_take min_def)
  then show ?thesis
    using assms(2) t by (simp add: sl_bytes_def add.commute)
qed

subsection \<open>Allocation\<close>

lemma sl_new_props:
  assumes "sl_new h bs = (h', s)"
  shows "valid_slice h' s" "sl_bytes h' s = bs" "sl_len s = length bs" "sl_cap s = length bs"
    "heap_ext h h'"
    "valid_slice h t \<Longrightarrow> sl_bytes h' t = sl_bytes h t"
  using assms by (auto simp: sl_new_def valid_slice_def sl_bytes_def nth_append)

lemma heap_ext_write:
  assumes "a < length h" "p + length bs \<le> length (h ! a)"
  shows "heap_ext h (sl_write h a p bs)"
  using assms by (auto simp: heap_ext_def sl_write_def nth_list_update)

lemma sl_set_props:
  assumes "sl_set h s i b = Some h'" "valid_slice h s"
  shows "heap_ext h h'" "i < sl_len s" "sl_bytes h' s = (sl_bytes h s)[i := b]"
proof -
  have i: "i < sl_len s" and h': "h' = h[sl_arr s := (h ! sl_arr s)[sl_off s + i := b]]"
    using assms(1) by (auto simp: sl_set_def split: if_splits)
  with assms(2) have a: "sl_arr s < length h" "sl_off s + sl_len s \<le> length (h ! sl_arr s)"
    by (auto simp: valid_slice_def)
  show "heap_ext h h'"
    using a(1) by (simp add: h' heap_ext_def nth_list_update)
  show "i < sl_len s" by (rule i)
  show "sl_bytes h' s = (sl_bytes h s)[i := b]"
    using i a by (simp add: sl_bytes_def h' drop_update_swap take_update_swap)
qed

lemma sl_set_Some: "i < sl_len s \<Longrightarrow> \<exists>h'. sl_set h s i b = Some h'"
  by (simp add: sl_set_def)

lemma sl_append_props:
  assumes "sl_append g h s bs = (h', t)" "valid_slice h s"
  shows "valid_slice h' t" "sl_bytes h' t = sl_bytes h s @ bs" "sl_len t = sl_len s + length bs"
    "heap_ext h h'"
proof -
  consider (inplace) "sl_len s + length bs \<le> sl_cap s" "bs \<noteq> []"
    | (same) "sl_len s + length bs \<le> sl_cap s" "bs = []"
    | (fresh) "sl_cap s < sl_len s + length bs" by linarith
  then have "valid_slice h' t \<and> sl_bytes h' t = sl_bytes h s @ bs \<and>
      sl_len t = sl_len s + length bs \<and> heap_ext h h'"
  proof cases
    case inplace
    with assms(2) have a: "sl_arr s < length h" "sl_off s + sl_cap s \<le> length (h ! sl_arr s)"
      by (auto simp: valid_slice_def)
    have ht: "h' = sl_write h (sl_arr s) (sl_off s + sl_len s) bs" "t = s\<lparr>sl_len := sl_len s + length bs\<rparr>"
      using assms(1) inplace by (auto simp: sl_append_def)
    have ext: "heap_ext h h'"
      using a inplace unfolding ht by (intro heap_ext_write) auto
    then have "valid_slice h' t"
      using assms(2) inplace by (auto simp: ht(2) valid_slice_def heap_ext_def)
    moreover have "sl_bytes h' t = sl_bytes h s @ bs"
      using a inplace
      by (simp add: sl_bytes_def ht sl_write_def drop_take add.commute)
    ultimately show ?thesis using ext by (simp add: ht)
  next
    case same
    then show ?thesis using assms by (auto simp: sl_append_def)
  next
    case fresh
    then have ht: "h' = h @ [sl_bytes h s @ bs @
          replicate (max (sl_len s + length bs) (g (sl_cap s) (sl_len s + length bs)) - (sl_len s + length bs)) 0]"
      and t: "t = \<lparr>sl_arr = length h, sl_off = 0, sl_len = sl_len s + length bs,
          sl_cap = max (sl_len s + length bs) (g (sl_cap s) (sl_len s + length bs))\<rparr>"
      using assms(1) by (auto simp: sl_append_def Let_def)
    have len: "length (sl_bytes h s) = sl_len s" using assms(2) by (rule length_sl_bytes)
    have "valid_slice h' t" unfolding valid_slice_def ht t by (simp add: len)
    moreover have "sl_bytes h' t = take (sl_len t) (drop (sl_off t) (h' ! sl_arr t))"
      using fresh by (simp add: sl_bytes_def t)
    then have "sl_bytes h' t = sl_bytes h s @ bs"
      unfolding ht t by (simp add: len)
    ultimately show ?thesis by (simp add: ht t)
  qed
  then show "valid_slice h' t" "sl_bytes h' t = sl_bytes h s @ bs" "sl_len t = sl_len s + length bs"
    "heap_ext h h'" by simp_all
qed

text \<open>
  What an append leaves alone: every slice when a new array is allocated; otherwise every slice
  of another array and every slice that ends before the written region.
\<close>

lemma sl_append_frame:
  assumes "sl_append g h s bs = (h', t)" "valid_slice h u" "valid_slice h s"
    and "sl_cap s < sl_len s + length bs \<or> sl_arr u \<noteq> sl_arr s \<or>
         sl_off u + sl_len u \<le> sl_off s + sl_len s"
  shows "sl_bytes h' u = sl_bytes h u"
proof -
  have "sl_off u + sl_len u \<le> k \<Longrightarrow>
      take (sl_len u) (drop (sl_off u) (take k xs)) = take (sl_len u) (drop (sl_off u) xs)"
    for k and xs :: bytes
    by (simp add: drop_take min_def)
  then show ?thesis
    using assms
    by (auto simp: sl_append_def sl_write_def Let_def sl_bytes_def nth_append valid_slice_def
        nth_list_update split: if_splits)
qed

lemma sl_append_nil_props:
  assumes "sl_append g h nil_slice bs = (h', t)"
  shows "valid_slice h' t" "sl_bytes h' t = bs" "sl_len t = length bs" "heap_ext h h'"
    "valid_slice h u \<Longrightarrow> sl_bytes h' u = sl_bytes h u"
proof -
  note p = sl_append_props [OF assms valid_nil]
  show "valid_slice h' t" "sl_bytes h' t = bs" "heap_ext h h'" using p by simp_all
  show "sl_len t = length bs" using p by (simp add: nil_slice_def)
  show "valid_slice h u \<Longrightarrow> sl_bytes h' u = sl_bytes h u"
    using assms by (auto simp: sl_append_def nil_slice_def Let_def split: if_splits)
qed

text \<open>
  Slices whose bytes an append to \<open>s\<close> cannot reach: empty ones, those of another array, and all
  of them when \<open>s\<close> has no spare capacity.
\<close>

definition apart :: "slice \<Rightarrow> slice \<Rightarrow> bool" where
  "apart s x \<longleftrightarrow> sl_len x = 0 \<or> sl_arr x \<noteq> sl_arr s \<or> sl_len s = sl_cap s"

lemma sl_append_apart:
  assumes "sl_append g h s bs = (h', t)" "valid_slice h s" "valid_slice h x" "apart s x"
  shows "sl_bytes h' x = sl_bytes h x" "valid_slice h' x" "apart t x"
proof -
  show "valid_slice h' x" using assms(3) sl_append_props(4)[OF assms(1,2)] by (rule valid_slice_ext)
  have arr: "0 < sl_len x \<Longrightarrow> sl_arr x < length h" using assms(3) by (auto simp: valid_slice_def)
  show "apart t x"
  proof (cases "sl_len x = 0")
    case False
    with arr have "sl_arr x < length h" by simp
    then show ?thesis using assms(1,4) False
      by (cases "bs = []") (auto simp: apart_def sl_append_def Let_def split: if_splits)
  qed (simp add: apart_def)
  show "sl_bytes h' x = sl_bytes h x"
  proof (cases "sl_len x = 0 \<or> bs = []")
    case True
    then show ?thesis
      using assms(1,3)
      by (cases "sl_len x = 0") (auto simp: sl_bytes_def sl_append_def Let_def nth_append arr split: if_splits)
  next
    case False
    then show ?thesis using assms(4) sl_append_frame[OF assms(1,3,2)]
      by (auto simp: apart_def)
  qed
qed

subsection \<open>Operations that leave the first \<open>n\<close> arrays alone\<close>

lemma sl_new_fresh:
  "sl_new h bs = (h', t) \<Longrightarrow> take (length h) h' = h \<and> length h \<le> sl_arr t \<and> length h \<le> length h'"
  by (auto simp: sl_new_def)

lemma sl_append_fresh:
  assumes "sl_append g h s bs = (h', t)" "n \<le> length h" "n \<le> sl_arr s"
  shows "take n h' = take n h \<and> n \<le> sl_arr t \<and> n \<le> length h'"
  using assms by (auto simp: sl_append_def sl_write_def Let_def split: if_splits)

lemma sl_set_fresh:
  "sl_set h s i b = Some h' \<Longrightarrow> n \<le> sl_arr s \<Longrightarrow> take n h' = take n h"
  by (auto simp: sl_set_def split: if_splits)

lemma sl_bytes_prefix:
  assumes "valid_slice h x" "take (length h) h' = h"
  shows "sl_bytes h' x = sl_bytes h x"
proof -
  have "i < length h \<Longrightarrow> h' ! i = h ! i" for i using assms(2) by (metis nth_take)
  then show ?thesis using assms(1) by (auto simp: sl_bytes_def valid_slice_def)
qed

end
