(* ===== verification/VMUtils.thy ===== *)
theory VMUtils
  imports Prelude
begin

text \<open>
  \<^verbatim>\<open>src/vm/utils.go\<close>: the conversions between the byte strings of the evaluation stack and
  integers, booleans and sizes. An error return \<^verbatim>\<open>(value, err)\<close> is a sum with the error message
  on the left; \<open>None\<close> around it is a panic (an index out of range).
\<close>

definition UINT16_MAX :: nat where
  "UINT16_MAX = 65535"

definition UInt64ToByteArray :: "u64 \<Rightarrow> bytes" where
  "UInt64ToByteArray element = be_fixed 8 (unat element)"

definition UInt16ToByteArray :: "u16 \<Rightarrow> bytes" where
  "UInt16ToByteArray element = le_fixed 2 (unat element)"

definition ByteArrayToUI16 :: "bytes \<Rightarrow> string + u16" where
  "ByteArrayToUI16 element =
     (if element = [] then Inr 0
      else if length element \<noteq> 2 then Inl ''byte array to uint16 invalid parameters provided''
      else Inr (word_of_nat (le_nat element)))"

text \<open>\<^verbatim>\<open>make([]byte, 8-len(element))\<close> panics on more than eight bytes.\<close>

definition ByteArrayToInt :: "bytes \<Rightarrow> int option" where
  "ByteArrayToInt element =
     (if length element \<le> 8
      then Some (sint (word_of_nat (be_nat (replicate (8 - length element) 0 @ element)) :: u64))
      else None)"

definition BigIntToString :: "int \<Rightarrow> bytes" where
  "BigIntToString element = big_Bytes (nat \<bar>element\<bar>)"

definition BoolToByteArray :: "bool \<Rightarrow> bytes" where
  "BoolToByteArray value = (if value then [1] else [0])"

definition ByteArrayToBool :: "bytes \<Rightarrow> bool option" where
  "ByteArrayToBool ba = (case ba of [] \<Rightarrow> None | b # _ \<Rightarrow> Some (b = 1))"

definition SignedBigIntConversion :: "bytes \<Rightarrow> (string + int) option" where
  "SignedBigIntConversion ba =
     (case ba of
        [] \<Rightarrow> None
      | b # bs \<Rightarrow>
          if b \<noteq> 1 \<and> b \<noteq> 0 then Some (Inl ''Invalid signing bit'')
          else let result = big_SetBytes bs in
               Some (Inr (if b = 1 then - result else result)))"

definition UnsignedBigIntConversion :: "bytes \<Rightarrow> int" where
  "UnsignedBigIntConversion ba = big_SetBytes ba"

definition SignedByteArrayConversion :: "int \<Rightarrow> bytes" where
  "SignedByteArrayConversion bi = (if 0 \<le> bi then [0] else [1]) @ big_Bytes (nat \<bar>bi\<bar>)"

text \<open>\<^verbatim>\<open>IsUint64\<close> holds for the values 0 to 2^64-1 only.\<close>

definition BigIntToPushableBytes :: "int \<Rightarrow> bytes" where
  "BigIntToPushableBytes element =
     [word_of_nat (length (big_Bytes (nat \<bar>element\<bar>)))] @
     (if 0 \<le> element \<and> element < 2 ^ 64 then [0] else [1]) @
     big_Bytes (nat \<bar>element\<bar>)"

subsection \<open>Round trips\<close>

lemma le_nat_less_65536: "length bs = 2 \<Longrightarrow> le_nat bs < 65536"
  using le_nat_bound[of bs] by simp

lemma length_UInt16ToByteArray [simp, byte_simps]: "length (UInt16ToByteArray x) = 2"
  by (simp add: UInt16ToByteArray_def)

lemma length_UInt64ToByteArray [simp, byte_simps]: "length (UInt64ToByteArray x) = 8"
  by (simp add: UInt64ToByteArray_def)

lemma length_BoolToByteArray [simp, byte_simps]: "length (BoolToByteArray b) = 1"
  by (simp add: BoolToByteArray_def)

lemma ByteArrayToUI16_UInt16ToByteArray [simp, byte_simps]:
  "ByteArrayToUI16 (UInt16ToByteArray x) = Inr x"
proof -
  have "UInt16ToByteArray x \<noteq> []"
    by (metis length_UInt16ToByteArray list.size(3) zero_neq_numeral)
  moreover have "le_nat (UInt16ToByteArray x) = unat x"
    by (simp add: UInt16ToByteArray_def le_nat_fixed)
  ultimately show ?thesis by (simp add: ByteArrayToUI16_def)
qed

lemma ByteArrayToUI16_ok: "length bs = 2 \<Longrightarrow> ByteArrayToUI16 bs = Inr (word_of_nat (le_nat bs))"
  by (auto simp: ByteArrayToUI16_def)

lemma ByteArrayToBool_BoolToByteArray [simp]: "ByteArrayToBool (BoolToByteArray b) = Some b"
  by (simp add: ByteArrayToBool_def BoolToByteArray_def)

lemma Signed_roundtrip [simp]:
  "SignedBigIntConversion (SignedByteArrayConversion bi) = Some (Inr bi)"
  by (simp add: SignedBigIntConversion_def SignedByteArrayConversion_def big_SetBytes_def)

lemma SignedByteArrayConversion_nonempty [simp]: "SignedByteArrayConversion bi \<noteq> []"
  by (simp add: SignedByteArrayConversion_def)

lemma length_SignedByteArrayConversion:
  "\<bar>bi\<bar> < 256 ^ k \<Longrightarrow> length (SignedByteArrayConversion bi) \<le> Suc k"
  using length_big_Bytes[of "nat \<bar>bi\<bar>" k]
  by (auto simp: SignedByteArrayConversion_def nat_less_iff)

lemma SignedBigIntConversion_bound:
  assumes "SignedBigIntConversion ba = Some (Inr bi)" "length ba \<le> k"
  shows "\<bar>bi\<bar> < 256 ^ k"
proof -
  obtain b bs where ba: "ba = b # bs" using assms(1)
    by (auto simp: SignedBigIntConversion_def split: list.splits)
  then have "\<bar>bi\<bar> = int (be_nat bs)"
    using assms(1) by (auto simp: SignedBigIntConversion_def big_SetBytes_def Let_def split: if_splits)
  moreover have "be_nat bs < 256 ^ k"
    by (rule order.strict_trans2 [OF be_nat_bound]) (use assms(2) ba in \<open>simp add: power_increasing\<close>)
  ultimately show ?thesis by (metis of_nat_less_iff of_nat_numeral of_nat_power)
qed

lemma UnsignedBigIntConversion_bound:
  "length ba \<le> k \<Longrightarrow> \<bar>UnsignedBigIntConversion ba\<bar> < 256 ^ k"
proof -
  assume "length ba \<le> k"
  then have "be_nat ba < 256 ^ k"
    by (intro order.strict_trans2 [OF be_nat_bound]) (simp add: power_increasing)
  then show ?thesis
    by (simp add: UnsignedBigIntConversion_def big_SetBytes_def)
qed

lemma SignedBigIntConversion_total: "ba \<noteq> [] \<Longrightarrow> \<exists>r. SignedBigIntConversion ba = Some r"
  by (auto simp: SignedBigIntConversion_def Let_def split: list.splits)

lemma ByteArrayToInt_two:
  assumes "length bs = 2"
  shows "ByteArrayToInt bs = Some (int (be_nat bs))"
proof -
  have lt: "be_nat bs < 65536" using be_nat_bound[of bs] assms by simp
  have "le_nat (ys @ replicate k 0) = le_nat ys" for ys :: bytes and k
    by (simp add: le_nat_append) (induction k; simp)
  then have be: "be_nat (replicate (8 - length bs) 0 @ bs) = be_nat bs"
    by (simp add: be_nat_def)
  have "signed_take_bit 63 (int (be_nat bs)) = int (be_nat bs)"
    using lt by (subst signed_take_bit_int_eq_self) simp_all
  then have "sint (word_of_nat (be_nat bs) :: u64) = int (be_nat bs)"
    by (simp add: signed_of_nat)
  then show ?thesis
    using assms be by (simp add: ByteArrayToInt_def)
qed

end
