(* ===== verification/VMArray.thy ===== *)
theory VMArray
  imports GoSlice VMUtils
begin

text \<open>
  \<^verbatim>\<open>src/vm/array.go\<close>: the array value of the virtual machine, a byte string with a tag byte 2, a
  16-bit element count and the elements, each behind its 16-bit length. The operations work in
  place on a slice: they take the heap and the slice \<^verbatim>\<open>*a\<close> and return both, with the error or the
  value on top; \<open>None\<close> is a panic. All offsets are 16-bit and wrap around.

  The abstract array is a list of byte strings, \<open>enc_array\<close> its encoding, and the lemmas at the
  end show that on an encoding the operations compute the list operations.
\<close>

type_synonym 'a objres = "(heap \<times> slice \<times> (string + 'a)) option"

definition sl_read :: "heap \<Rightarrow> slice \<Rightarrow> nat \<Rightarrow> nat \<Rightarrow> bytes option" where
  "sl_read h s i j = map_option (sl_bytes h) (sl_sub s i j)"

definition NewArray :: "growth \<Rightarrow> heap \<Rightarrow> heap \<times> slice" where
  "NewArray g h = (let (h, ba) = sl_new h [2] in sl_append g h ba [0, 0])"

definition ArrayFromByteArray :: "heap \<Rightarrow> slice \<Rightarrow> string + slice" where
  "ArrayFromByteArray h arr =
     (if sl_len arr = 0 then Inl ''not a valid array''
      else if sl_bytes h arr ! 0 \<noteq> 2 then Inl ''not a valid array''
      else Inr arr)"

definition Array_getSize :: "heap \<Rightarrow> slice \<Rightarrow> (string + u16) option" where
  "Array_getSize h a =
     (if sl_len a < 3 then Some (Inl ''not a valid array'')
      else case sl_read h a 1 3 of
             None \<Rightarrow> None
           | Some bs \<Rightarrow>
               (case ByteArrayToUI16 bs of
                  Inl _ \<Rightarrow> Some (Inl ''cannot get size of array'')
                | Inr value \<Rightarrow> Some (Inr value)))"

definition setSize :: "heap \<Rightarrow> slice \<Rightarrow> bytes \<Rightarrow> heap option" where
  "setSize h a ba =
     (case sl_set h a 1 (ba ! 0) of None \<Rightarrow> None | Some h \<Rightarrow> sl_set h a 2 (ba ! 1))"

definition Array_IncrementSize :: "heap \<Rightarrow> slice \<Rightarrow> unit objres" where
  "Array_IncrementSize h a =
     (case Array_getSize h a of
        None \<Rightarrow> None
      | Some (Inl _) \<Rightarrow> Some (h, a, Inl ''could not increase size'')
      | Some (Inr s) \<Rightarrow>
          map_option (\<lambda>h. (h, a, Inr ())) (setSize h a (UInt16ToByteArray (s + 1))))"

definition Array_DecrementSize :: "heap \<Rightarrow> slice \<Rightarrow> unit objres" where
  "Array_DecrementSize h a =
     (case Array_getSize h a of
        None \<Rightarrow> None
      | Some (Inl e) \<Rightarrow> Some (h, a, Inl e)
      | Some (Inr s) \<Rightarrow>
          if s \<le> 0 then Some (h, a, Inl ''Array size is already 0'')
          else map_option (\<lambda>h. (h, a, Inr ())) (setSize h a (UInt16ToByteArray (s - 1))))"

definition Array_Append :: "growth \<Rightarrow> heap \<Rightarrow> slice \<Rightarrow> slice \<Rightarrow> unit objres" where
  "Array_Append g h a ba =
     (if sl_len ba > UINT16_MAX then Some (h, a, Inl ''Element Size overflow'')
      else let sb = UInt16ToByteArray (word_of_nat (sl_len ba));
               (h, a) = sl_append g h a (sb @ sl_bytes h ba)
           in Array_IncrementSize h a)"

text \<open>
  The loop of \<^verbatim>\<open>goToIndex\<close>: it visits the elements up to \<open>index\<close> and returns the offset and the
  size of the element found there.
\<close>

function Array_goLoop :: "heap \<Rightarrow> slice \<Rightarrow> u16 \<Rightarrow> u16 \<Rightarrow> u16 \<Rightarrow> (string + u16 \<times> u16) option" where
  "Array_goLoop h a index currentElement indexOnByteArray =
     (if indexOnByteArray < word_of_nat (sl_len a) \<and> currentElement \<le> index
      then (case sl_read h a (unat indexOnByteArray) (unat (indexOnByteArray + 2)) of
              None \<Rightarrow> None
            | Some bs \<Rightarrow>
                (case ByteArrayToUI16 bs of
                   Inl e \<Rightarrow> Some (Inl e)
                 | Inr elementSize \<Rightarrow>
                     if currentElement = index then Some (Inr (indexOnByteArray, elementSize))
                     else Array_goLoop h a index (currentElement + 1)
                            (indexOnByteArray + (2 + elementSize))))
      else Some (Inl ''array internals error''))"
  by pat_completeness auto
termination
proof (relation "measure (\<lambda>(h, a, index, cur, i). unat index - unat cur)", goal_cases)
  case 1
  show ?case by simp
next
  case (2 h a index cur i bs sz)
  then show ?case using u16_succ[of cur index] by simp
qed

declare Array_goLoop.simps [simp del]

definition Array_goToIndex ::
    "heap \<Rightarrow> slice \<Rightarrow> u16 \<Rightarrow> (heap \<Rightarrow> slice \<Rightarrow> u16 \<Rightarrow> u16 \<Rightarrow> 'a objres) \<Rightarrow> 'a objres" where
  "Array_goToIndex h a index f =
     (case Array_getSize h a of
        None \<Rightarrow> None
      | Some (Inl e) \<Rightarrow> Some (h, a, Inl e)
      | Some (Inr sz) \<Rightarrow>
          if sz < index then Some (h, a, Inl ''array index out of bounds'')
          else (case Array_goLoop h a index 0 3 of
                  None \<Rightarrow> None
                | Some (Inl e) \<Rightarrow> Some (h, a, Inl e)
                | Some (Inr (i, s)) \<Rightarrow> f h a i s))"

definition Array_At :: "heap \<Rightarrow> slice \<Rightarrow> u16 \<Rightarrow> slice objres" where
  "Array_At h a index =
     Array_goToIndex h a index
       (\<lambda>h a i s. map_option (\<lambda>r. (h, a, Inr r)) (sl_sub a (unat (i + 2)) (unat (i + 2 + s))))"

definition Array_Remove :: "growth \<Rightarrow> heap \<Rightarrow> slice \<Rightarrow> u16 \<Rightarrow> unit objres" where
  "Array_Remove g h a index =
     (case Array_goToIndex h a index
        (\<lambda>h a k s.
           case (sl_read h a 0 (unat k), sl_read h a (unat (k + 2 + s)) (sl_len a)) of
             (Some front, Some rear) \<Rightarrow>
               let (h, tmp) = sl_new h [];
                   (h, tmp) = sl_append g h tmp front;
                   (h, a) = sl_append g h tmp rear
               in Some (h, a, Inr ())
           | _ \<Rightarrow> None) of
        None \<Rightarrow> None
      | Some (h, a, Inl e) \<Rightarrow> Some (h, a, Inl e)
      | Some (h, a, Inr _) \<Rightarrow> Array_DecrementSize h a)"

definition Array_Insert :: "growth \<Rightarrow> heap \<Rightarrow> slice \<Rightarrow> u16 \<Rightarrow> slice \<Rightarrow> unit objres" where
  "Array_Insert g h a index element =
     (case Array_Remove g h a index of
        None \<Rightarrow> None
      | Some (h, a, Inl e) \<Rightarrow> Some (h, a, Inl e)
      | Some (h, a, Inr _) \<Rightarrow>
          Array_goToIndex h a index
            (\<lambda>h a i s.
               case (sl_read h a 0 (unat i), sl_read h a (unat i) (sl_len a)) of
                 (Some front, Some rear) \<Rightarrow>
                   let (h, tmp) = sl_new h [];
                       (h, tmp) = sl_append g h tmp front
                   in (case Array_Append g h tmp element of
                         None \<Rightarrow> None
                       | Some (h, tmp, _) \<Rightarrow>
                           let (h, a) = sl_append g h tmp rear in Some (h, a, Inr ()))
               | _ \<Rightarrow> None))"

subsection \<open>The abstract array\<close>

definition enc_elem :: "bytes \<Rightarrow> bytes" where
  "enc_elem x = UInt16ToByteArray (word_of_nat (length x)) @ x"

definition enc_array :: "bytes list \<Rightarrow> bytes" where
  "enc_array xs = [2] @ UInt16ToByteArray (word_of_nat (length xs)) @ concat (map enc_elem xs)"

definition is_array :: "heap \<Rightarrow> slice \<Rightarrow> bytes list \<Rightarrow> bool" where
  "is_array h a xs \<longleftrightarrow> valid_slice h a \<and> sl_bytes h a = enc_array xs \<and> length xs \<le> 65535 \<and>
     (\<forall>x \<in> set xs. length x \<le> 65535)"

definition elem_pos :: "bytes list \<Rightarrow> nat \<Rightarrow> nat" where
  "elem_pos xs k = 3 + length (concat (map enc_elem (take k xs)))"

lemma length_enc_elem [simp]: "length (enc_elem x) = 2 + length x"
  by (simp add: enc_elem_def)

lemma length_enc_array: "length (enc_array xs) = elem_pos xs (length xs)"
  by (simp add: enc_array_def elem_pos_def)

lemma elem_pos_0 [simp]: "elem_pos xs 0 = 3"
  by (simp add: elem_pos_def)

lemma elem_pos_Suc:
  "k < length xs \<Longrightarrow> elem_pos xs (Suc k) = elem_pos xs k + (2 + length (xs ! k))"
  by (simp add: elem_pos_def take_Suc_conv_app_nth)

lemma elem_pos_mono: "k \<le> l \<Longrightarrow> elem_pos xs k \<le> elem_pos xs l"
proof -
  assume "k \<le> l"
  then obtain d where l: "l = k + d" using le_Suc_ex by blast
  show ?thesis by (simp add: l elem_pos_def take_add)
qed

definition array_header :: "nat \<Rightarrow> bytes" where
  "array_header n = 2 # UInt16ToByteArray (word_of_nat n)"

lemma length_array_header [simp]: "length (array_header n) = 3"
  by (simp add: array_header_def)

lemma enc_array_header: "enc_array xs = array_header (length xs) @ concat (map enc_elem xs)"
  by (simp add: enc_array_def array_header_def)

lemma enc_array_split:
  "enc_array xs = (array_header (length xs) @ concat (map enc_elem (take k xs))) @
     concat (map enc_elem (drop k xs))"
proof -
  have "concat (map enc_elem xs) =
      concat (map enc_elem (take k xs)) @ concat (map enc_elem (drop k xs))"
    by (metis append_take_drop_id concat_append map_append)
  then show ?thesis by (simp add: enc_array_header)
qed

lemma drop_elem_pos: "drop (elem_pos xs k) (enc_array xs) = concat (map enc_elem (drop k xs))"
  by (subst enc_array_split[of xs k]) (simp add: elem_pos_def)

lemma take_elem_pos:
  "take (elem_pos xs k) (enc_array xs) =
     array_header (length xs) @ concat (map enc_elem (take k xs))"
  by (subst enc_array_split[of xs k]) (simp add: elem_pos_def)

text \<open>Reading a range that lies inside the slice.\<close>

lemma sl_sub_inside:
  assumes "valid_slice h a" "i \<le> j" "j \<le> sl_len a"
  obtains t where "sl_sub a i j = Some t" "valid_slice h t" "sl_len t = j - i"
    "sl_bytes h t = take (j - i) (drop i (sl_bytes h a))"
proof -
  have "j \<le> sl_cap a" using assms by (auto simp: valid_slice_def)
  then obtain t where t: "sl_sub a i j = Some t" using assms(2) by (auto simp: sl_sub_def)
  with that show thesis using sl_sub_props[OF t] sl_sub_bytes[OF t assms(3,1)] assms(1) by blast
qed

lemma sl_read_inside:
  "valid_slice h a \<Longrightarrow> i \<le> j \<Longrightarrow> j \<le> sl_len a \<Longrightarrow>
   sl_read h a i j = Some (take (j - i) (drop i (sl_bytes h a)))"
  by (metis option.simps(9) sl_read_def sl_sub_inside)

lemma is_array_len: "is_array h a xs \<Longrightarrow> sl_len a = elem_pos xs (length xs)"
  by (metis is_array_def length_enc_array length_sl_bytes)

lemma Array_getSize_enc:
  assumes "is_array h a xs"
  shows "Array_getSize h a = Some (Inr (word_of_nat (length xs)))"
proof -
  have len: "3 \<le> sl_len a" using is_array_len[OF assms] by (simp add: elem_pos_def)
  then have "sl_read h a 1 3 = Some (UInt16ToByteArray (word_of_nat (length xs)))"
    using assms by (subst sl_read_inside) (auto simp: is_array_def enc_array_def)
  then show ?thesis using len by (simp add: Array_getSize_def)
qed

lemma setSize_enc:
  assumes "valid_slice h a" "sl_bytes h a = [b0] @ UInt16ToByteArray s @ rest"
  obtains h' where "setSize h a (UInt16ToByteArray s') = Some h'" "heap_ext h h'"
    "sl_bytes h' a = [b0] @ UInt16ToByteArray s' @ rest"
proof -
  obtain p q u v where pq: "UInt16ToByteArray s' = [p, q]" and uv: "UInt16ToByteArray s = [u, v]"
    by (simp add: UInt16ToByteArray_def le_fixed_Suc numeral_2_eq_2)
  have len: "3 \<le> sl_len a" using length_sl_bytes[OF assms(1)] assms(2) by (simp add: uv)
  obtain h1 where h1: "sl_set h a 1 p = Some h1" using sl_set_Some[of 1 a h p] len by auto
  note p1 = sl_set_props[OF h1 assms(1)]
  have v1: "valid_slice h1 a" using assms(1) p1(1) by (rule valid_slice_ext)
  obtain h2 where h2: "sl_set h1 a 2 q = Some h2" using sl_set_Some[of 2 a h1 q] len by auto
  note p2 = sl_set_props[OF h2 v1]
  have "sl_bytes h2 a = [b0] @ [p, q] @ rest"
    using p1 p2 assms(2) by (simp add: uv numeral_2_eq_2)
  moreover have "setSize h a [p, q] = Some h2" using h1 h2 by (simp add: setSize_def)
  ultimately show thesis using that p1 p2 heap_ext_trans by (simp add: pq)
qed

lemma Array_IncrementSize_enc:
  assumes "valid_slice h a" "sl_bytes h a = [b0] @ UInt16ToByteArray s @ rest"
  obtains h' where "Array_IncrementSize h a = Some (h', a, Inr ())" "heap_ext h h'"
    "sl_bytes h' a = [b0] @ UInt16ToByteArray (s + 1) @ rest"
proof -
  have "length (sl_bytes h a) = 3 + length rest" by (simp add: assms(2))
  then have len: "3 \<le> sl_len a" using assms(1) by simp
  have "sl_read h a 1 3 = Some (UInt16ToByteArray s)"
    using assms len by (subst sl_read_inside) auto
  then have "Array_getSize h a = Some (Inr s)" using len by (simp add: Array_getSize_def)
  moreover obtain h' where "setSize h a (UInt16ToByteArray (s + 1)) = Some h'" "heap_ext h h'"
    "sl_bytes h' a = [b0] @ UInt16ToByteArray (s + 1) @ rest"
    using setSize_enc[OF assms] by blast
  ultimately show thesis using that by (simp add: Array_IncrementSize_def)
qed

lemma Array_DecrementSize_enc:
  assumes "valid_slice h a" "sl_bytes h a = [b0] @ UInt16ToByteArray s @ rest" "s \<noteq> 0"
  obtains h' where "Array_DecrementSize h a = Some (h', a, Inr ())" "heap_ext h h'"
    "sl_bytes h' a = [b0] @ UInt16ToByteArray (s - 1) @ rest"
proof -
  have "length (sl_bytes h a) = 3 + length rest" by (simp add: assms(2))
  then have len: "3 \<le> sl_len a" using assms(1) by simp
  have "sl_read h a 1 3 = Some (UInt16ToByteArray s)"
    using assms len by (subst sl_read_inside) auto
  then have "Array_getSize h a = Some (Inr s)" using len by (simp add: Array_getSize_def)
  moreover obtain h' where "setSize h a (UInt16ToByteArray (s - 1)) = Some h'" "heap_ext h h'"
    "sl_bytes h' a = [b0] @ UInt16ToByteArray (s - 1) @ rest"
    using setSize_enc[OF assms(1,2)] by blast
  ultimately show thesis using that assms(3) by (simp add: Array_DecrementSize_def)
qed

lemma Array_Append_bytes:
  assumes "valid_slice h a" "sl_bytes h a = [b0] @ UInt16ToByteArray s @ rest"
    and "valid_slice h v" "sl_len v \<le> 65535"
  obtains h' a' where "Array_Append g h a v = Some (h', a', Inr ())" "valid_slice h' a'"
    "heap_ext h h'"
    "sl_bytes h' a' = [b0] @ UInt16ToByteArray (s + 1) @ rest @ enc_elem (sl_bytes h v)"
proof -
  obtain h1 a1 where ap: "sl_append g h a (enc_elem (sl_bytes h v)) = (h1, a1)" by fastforce
  note p = sl_append_props[OF ap assms(1)]
  have b1: "sl_bytes h1 a1 = [b0] @ UInt16ToByteArray s @ (rest @ enc_elem (sl_bytes h v))"
    using p assms(2) by simp
  obtain h2 where h2: "Array_IncrementSize h1 a1 = Some (h2, a1, Inr ())" "heap_ext h1 h2"
    "sl_bytes h2 a1 = [b0] @ UInt16ToByteArray (s + 1) @ (rest @ enc_elem (sl_bytes h v))"
    using Array_IncrementSize_enc[OF p(1) b1] by blast
  have "Array_Append g h a v = Some (h2, a1, Inr ())"
    using assms(3,4) ap h2(1) by (simp add: Array_Append_def UINT16_MAX_def enc_elem_def Let_def)
  moreover have "valid_slice h2 a1" "heap_ext h h2"
    using valid_slice_ext[OF p(1) h2(2)] heap_ext_trans[OF p(4) h2(2)] by simp_all
  ultimately show thesis using that h2(3) by simp
qed

lemma Array_Append_enc:
  assumes "is_array h a xs" "length xs < 65535" "valid_slice h v" "sl_len v \<le> 65535"
  obtains h' a' where "Array_Append g h a v = Some (h', a', Inr ())"
    "is_array h' a' (xs @ [sl_bytes h v])" "heap_ext h h'"
proof -
  have "sl_bytes h a = [2] @ UInt16ToByteArray (word_of_nat (length xs)) @ concat (map enc_elem xs)"
    using assms(1) by (simp add: is_array_def enc_array_def)
  then obtain h' a' where *: "Array_Append g h a v = Some (h', a', Inr ())" "valid_slice h' a'"
    "heap_ext h h'"
    "sl_bytes h' a' = [2] @ UInt16ToByteArray (word_of_nat (length xs) + 1) @
       concat (map enc_elem xs) @ enc_elem (sl_bytes h v)"
    using Array_Append_bytes[of h a 2 "word_of_nat (length xs)" "concat (map enc_elem xs)" v g]
      assms by (auto simp: is_array_def)
  have "is_array h' a' (xs @ [sl_bytes h v])"
    using * assms by (auto simp: is_array_def enc_array_def add.commute)
  with * that show thesis by blast
qed

lemma elem_read:
  assumes arr: "is_array h a xs" and k: "k < length xs"
  shows "elem_pos xs k + 2 \<le> sl_len a"
    "sl_read h a (elem_pos xs k) (elem_pos xs k + 2) =
       Some (UInt16ToByteArray (word_of_nat (length (xs ! k))))"
proof -
  have "elem_pos xs (Suc k) \<le> elem_pos xs (length xs)" using k by (intro elem_pos_mono) simp
  then show le: "elem_pos xs k + 2 \<le> sl_len a"
    using is_array_len[OF arr] elem_pos_Suc[OF k] by simp
  have "drop (elem_pos xs k) (sl_bytes h a) = enc_elem (xs ! k) @ concat (map enc_elem (drop (Suc k) xs))"
    using arr k by (simp add: is_array_def drop_elem_pos Cons_nth_drop_Suc [symmetric])
  then show "sl_read h a (elem_pos xs k) (elem_pos xs k + 2) =
       Some (UInt16ToByteArray (word_of_nat (length (xs ! k))))"
    using arr le by (simp add: sl_read_inside is_array_def enc_elem_def)
qed

lemma Array_goLoop_step:
  assumes arr: "is_array h a xs" and small: "length (enc_array xs) \<le> 65535"
    and k: "k < length xs" and n: "k \<le> n" "n \<le> 65535"
  shows "Array_goLoop h a (word_of_nat n) (word_of_nat k) (word_of_nat (elem_pos xs k)) =
    (if k = n then Some (Inr (word_of_nat (elem_pos xs k), word_of_nat (length (xs ! k))))
     else Array_goLoop h a (word_of_nat n) (word_of_nat (Suc k)) (word_of_nat (elem_pos xs (Suc k))))"
proof -
  have len: "sl_len a \<le> 65535" using small is_array_len[OF arr] by (simp add: length_enc_array)
  note r = elem_read[OF arr k]
  have p: "unat (word_of_nat (elem_pos xs k) :: u16) = elem_pos xs k"
      "unat (word_of_nat (elem_pos xs k) + 2 :: u16) = elem_pos xs k + 2"
    using r(1) len by (simp_all add: unat_word_ariths unat_u16_of_nat)
  have guard: "(word_of_nat (elem_pos xs k) :: u16) < word_of_nat (sl_len a)"
      "(word_of_nat k :: u16) \<le> word_of_nat n" "(word_of_nat k = (word_of_nat n :: u16)) = (k = n)"
    using r(1) len n
    by (simp_all add: word_less_nat_alt word_le_nat_alt word_unat_eq_iff unat_u16_of_nat)
  have next_pos: "(word_of_nat (elem_pos xs (Suc k)) :: u16) =
      word_of_nat (elem_pos xs k) + (2 + word_of_nat (length (xs ! k)))"
    "(word_of_nat (Suc k) :: u16) = word_of_nat k + 1"
    by (simp_all add: elem_pos_Suc[OF k])
  show ?thesis
    using r(2) by (subst Array_goLoop.simps) (simp add: guard p next_pos del: of_nat_Suc)
qed

lemma Array_goLoop_enc:
  assumes arr: "is_array h a xs" and small: "length (enc_array xs) \<le> 65535"
    and n: "n < length xs" and k: "k \<le> n"
  shows "Array_goLoop h a (word_of_nat n) (word_of_nat k) (word_of_nat (elem_pos xs k)) =
    Some (Inr (word_of_nat (elem_pos xs n), word_of_nat (length (xs ! n))))"
  using k
proof (induction rule: inc_induct)
  case base
  show ?case using Array_goLoop_step[OF arr small n] n arr by (simp add: is_array_def)
next
  case (step k)
  then show ?case using Array_goLoop_step[OF arr small, of k n] n arr by (simp add: is_array_def)
qed

lemma Array_goLoop_end:
  assumes arr: "is_array h a xs" and small: "length (enc_array xs) \<le> 65535"
    and n: "length xs \<le> n" "n \<le> 65535" and k: "k \<le> length xs"
  shows "Array_goLoop h a (word_of_nat n) (word_of_nat k) (word_of_nat (elem_pos xs k)) =
    Some (Inl ''array internals error'')"
  using k
proof (induction rule: inc_induct)
  case base
  show ?case using is_array_len[OF arr] by (subst Array_goLoop.simps) simp
next
  case (step k)
  then show ?case using Array_goLoop_step[OF arr small, of k n] n by simp
qed

lemma Array_goToIndex_enc:
  assumes arr: "is_array h a xs" and small: "length (enc_array xs) \<le> 65535"
    and n: "unat index < length xs"
  shows "Array_goToIndex h a index f =
    f h a (word_of_nat (elem_pos xs (unat index))) (word_of_nat (length (xs ! unat index)))"
proof -
  have "\<not> (word_of_nat (length xs) :: u16) < index"
    using n arr by (simp add: word_less_nat_alt is_array_def unat_u16_of_nat)
  moreover have "Array_goLoop h a index 0 3 =
      Some (Inr (word_of_nat (elem_pos xs (unat index)), word_of_nat (length (xs ! unat index))))"
    using Array_goLoop_enc[OF arr small n, of 0] by simp
  ultimately show ?thesis
    by (simp add: Array_goToIndex_def Array_getSize_enc[OF arr])
qed

lemma elem_pos_words:
  assumes arr: "is_array h a xs" and small: "length (enc_array xs) \<le> 65535" and k: "k < length xs"
  shows "unat (word_of_nat (elem_pos xs k) :: u16) = elem_pos xs k"
    "unat (word_of_nat (elem_pos xs k) + 2 :: u16) = elem_pos xs k + 2"
    "unat (word_of_nat (elem_pos xs k) + 2 + word_of_nat (length (xs ! k)) :: u16) = elem_pos xs (Suc k)"
    "elem_pos xs (Suc k) \<le> sl_len a" "elem_pos xs (Suc k) \<le> 65535"
proof -
  show le: "elem_pos xs (Suc k) \<le> sl_len a"
    using elem_pos_mono[of "Suc k" "length xs" xs] k is_array_len[OF arr] by simp
  then show le': "elem_pos xs (Suc k) \<le> 65535"
    using small is_array_len[OF arr] by (simp add: length_enc_array)
  with elem_pos_Suc[OF k]
  show p: "unat (word_of_nat (elem_pos xs k) :: u16) = elem_pos xs k"
    and p2: "unat (word_of_nat (elem_pos xs k) + 2 :: u16) = elem_pos xs k + 2"
    by (simp_all add: unat_word_ariths unat_u16_of_nat)
  show "unat (word_of_nat (elem_pos xs k) + 2 + word_of_nat (length (xs ! k)) :: u16) = elem_pos xs (Suc k)"
    using le' elem_pos_Suc[OF k] p2 by (subst u16_add) (simp_all add: p2 unat_u16_of_nat)
qed

lemma Array_At_enc:
  assumes arr: "is_array h a xs" and small: "length (enc_array xs) \<le> 65535"
    and n: "unat index < length xs"
  obtains t where "Array_At h a index = Some (h, a, Inr t)" "valid_slice h t"
    "sl_bytes h t = xs ! unat index"
proof -
  let ?k = "unat index"
  note w = elem_pos_words[OF arr small n]
  have va: "valid_slice h a" using arr by (simp add: is_array_def)
  obtain t where t: "sl_sub a (elem_pos xs ?k + 2) (elem_pos xs (Suc ?k)) = Some t"
      "valid_slice h t" "sl_bytes h t =
        take (elem_pos xs (Suc ?k) - (elem_pos xs ?k + 2)) (drop (elem_pos xs ?k + 2) (sl_bytes h a))"
    using sl_sub_inside[OF va _ w(4), of "elem_pos xs ?k + 2"] elem_pos_Suc[OF n] by auto
  have "drop (elem_pos xs ?k) (sl_bytes h a) =
      enc_elem (xs ! ?k) @ concat (map enc_elem (drop (Suc ?k) xs))"
    using arr n by (simp add: is_array_def drop_elem_pos Cons_nth_drop_Suc [symmetric])
  then have "drop (elem_pos xs ?k + 2) (sl_bytes h a) =
      drop 2 (enc_elem (xs ! ?k) @ concat (map enc_elem (drop (Suc ?k) xs)))"
    by (metis add.commute drop_drop)
  then have "sl_bytes h t = xs ! ?k"
    using t(3) elem_pos_Suc[OF n] by (simp add: enc_elem_def)
  moreover have "Array_At h a index = Some (h, a, Inr t)"
    using t(1) by (simp add: Array_At_def Array_goToIndex_enc[OF arr small n] w)
  ultimately show thesis using that t(2) by blast
qed

text \<open>
  \<^verbatim>\<open>Remove\<close> builds a new array: the slices the caller holds keep their bytes.
\<close>

lemma rebuild_enc:
  assumes "valid_slice h a" and r1: "sl_read h a 0 i = Some front" and r2: "sl_read h a j (sl_len a) = Some rear"
  obtains h' a' where
    "(let (h, tmp) = sl_new h []; (h, tmp) = sl_append g h tmp front; (h, a) = sl_append g h tmp rear
      in Some (h, a, Inr ())) = Some (h', a', Inr ())"
    "valid_slice h' a'" "heap_ext h h'" "sl_bytes h' a' = front @ rear"
    "take (length h) h' = h" "length h \<le> sl_arr a'" "length h \<le> length h'"
proof -
  obtain h1 t1 where n: "sl_new h [] = (h1, t1)" by fastforce
  note pn = sl_new_props[OF n]
  obtain h2 t2 where a1: "sl_append g h1 t1 front = (h2, t2)" by fastforce
  note p1 = sl_append_props[OF a1 pn(1)]
  obtain h3 t3 where a2: "sl_append g h2 t2 rear = (h3, t3)" by fastforce
  note p2 = sl_append_props[OF a2 p1(1)]
  have "heap_ext h h3" using pn(5) p1(4) p2(4) heap_ext_trans by blast
  moreover have "take (length h) h3 = h \<and> length h \<le> sl_arr t3 \<and> length h \<le> length h3"
    using sl_new_fresh[OF n] sl_append_fresh[OF a1, of "length h"] sl_append_fresh[OF a2, of "length h"] by simp
  ultimately show thesis using that[of h3 t3] p2 p1(2) pn(2) by (simp add: n a1 a2)
qed

lemma Array_Remove_enc:
  assumes arr: "is_array h a xs" and small: "length (enc_array xs) \<le> 65535"
    and n: "unat index < length xs"
  obtains h' a' where "Array_Remove g h a index = Some (h', a', Inr ())" "heap_ext h h'"
    "is_array h' a' (take (unat index) xs @ drop (Suc (unat index)) xs)"
proof -
  let ?k = "unat index" let ?ys = "take ?k xs @ drop (Suc ?k) xs"
  note w = elem_pos_words[OF arr small n]
  have va: "valid_slice h a" and ba: "sl_bytes h a = enc_array xs" using arr by (simp_all add: is_array_def)
  have le: "elem_pos xs ?k \<le> sl_len a" using w(4) elem_pos_Suc[OF n] by simp
  have r1: "sl_read h a 0 (elem_pos xs ?k) = Some (array_header (length xs) @ concat (map enc_elem (take ?k xs)))"
    using va le by (simp add: sl_read_inside ba take_elem_pos)
  have r2: "sl_read h a (elem_pos xs (Suc ?k)) (sl_len a) = Some (concat (map enc_elem (drop (Suc ?k) xs)))"
    using va w(4) is_array_len[OF arr]
    by (simp add: sl_read_inside ba drop_elem_pos [symmetric] length_enc_array)
  obtain h1 a1 where f: "(let (h, tmp) = sl_new h [];
        (h, tmp) = sl_append g h tmp (array_header (length xs) @ concat (map enc_elem (take ?k xs)));
        (h, a) = sl_append g h tmp (concat (map enc_elem (drop (Suc ?k) xs)))
      in Some (h, a, Inr () :: string + unit)) = Some (h1, a1, Inr ())" and v1: "valid_slice h1 a1" "heap_ext h h1"
    and b1: "sl_bytes h1 a1 = (array_header (length xs) @ concat (map enc_elem (take ?k xs))) @
        concat (map enc_elem (drop (Suc ?k) xs))"
    using rebuild_enc[OF va r1 r2, of g] by blast
  have b1': "sl_bytes h1 a1 = [2] @ UInt16ToByteArray (word_of_nat (length xs)) @ concat (map enc_elem ?ys)"
    using b1 by (simp add: array_header_def)
  have "length xs \<le> 65535" "length xs \<noteq> 0" using arr n by (auto simp: is_array_def)
  then have nz: "(word_of_nat (length xs) :: u16) \<noteq> 0"
    by (simp add: word_unat_eq_iff unat_u16_of_nat)
  obtain h2 where h2: "Array_DecrementSize h1 a1 = Some (h2, a1, Inr ())" "heap_ext h1 h2"
    "sl_bytes h2 a1 = [2] @ UInt16ToByteArray (word_of_nat (length xs) - 1) @ concat (map enc_elem ?ys)"
    using Array_DecrementSize_enc[OF v1(1) b1' nz] by blast
  have "(word_of_nat (length xs) - 1 :: u16) = word_of_nat (length ?ys)"
    using n by (cases "length xs") (auto simp: min_def)
  then have "is_array h2 a1 ?ys"
    using h2 v1 arr n valid_slice_ext[OF v1(1) h2(2)]
    by (auto simp: is_array_def enc_array_def dest: in_set_takeD in_set_dropD)
  moreover have "Array_Remove g h a index = Some (h2, a1, Inr ())"
    using f h2(1) by (simp add: Array_Remove_def Array_goToIndex_enc[OF arr small n] w r1 r2)
  ultimately show thesis using that heap_ext_trans[OF v1(2) h2(2)] by blast
qed

text \<open>
  \<^verbatim>\<open>Insert\<close> removes the element at the index and inserts the new one before the element that then
  stands there: it replaces an element, provided it is not the last one.
\<close>

lemma Array_Insert_enc:
  assumes arr: "is_array h a xs" and small: "length (enc_array xs) \<le> 65535"
    and n: "Suc (unat index) < length xs" and v: "valid_slice h v" "sl_len v \<le> 65535"
  obtains h' a' bs where "Array_Insert g h a index v = Some (h', a', Inr ())" "heap_ext h h'"
    "is_array h' a' (xs[unat index := bs])" "length bs = sl_len v"
proof -
  let ?k = "unat index" let ?ys = "take ?k xs @ drop (Suc ?k) xs"
  have nk: "?k < length xs" using n by simp
  obtain h1 a1 where rm: "Array_Remove g h a index = Some (h1, a1, Inr ())" "heap_ext h h1"
    and arr1: "is_array h1 a1 ?ys" using Array_Remove_enc[OF arr small nk] by blast
  have n1: "?k < length ?ys" using n by simp
  have len: "length (enc_array ?ys) \<le> length (enc_array xs)"
  proof -
    have "length (concat (map enc_elem ?ys)) \<le> length (concat (map enc_elem xs))"
      by (subst (3) id_take_nth_drop[OF nk]) simp
    then show ?thesis by (simp add: enc_array_header)
  qed
  then have small1: "length (enc_array ?ys) \<le> 65535" using small by simp
  note w = elem_pos_words[OF arr1 small1 n1]
  have va: "valid_slice h1 a1" and ba: "sl_bytes h1 a1 = enc_array ?ys"
    using arr1 by (simp_all add: is_array_def)
  have le: "elem_pos ?ys ?k \<le> sl_len a1" using w(4) elem_pos_Suc[OF n1] by simp
  let ?front = "array_header (length ?ys) @ concat (map enc_elem (take ?k ?ys))"
  let ?rear = "concat (map enc_elem (drop ?k ?ys))"
  have r1: "sl_read h1 a1 0 (elem_pos ?ys ?k) = Some ?front"
    using va le by (simp add: sl_read_inside ba take_elem_pos)
  have r2: "sl_read h1 a1 (elem_pos ?ys ?k) (sl_len a1) = Some ?rear"
    using va le is_array_len[OF arr1]
    by (simp add: sl_read_inside ba drop_elem_pos [symmetric] length_enc_array del: drop_append)
  obtain h2 t2 where s2: "sl_new h1 [] = (h2, t2)" by fastforce
  note p2 = sl_new_props[OF s2]
  obtain h3 t3 where s3: "sl_append g h2 t2 ?front = (h3, t3)" by fastforce
  note p3 = sl_append_props[OF s3 p2(1)]
  have e3: "heap_ext h h3" using rm(2) p2(5) p3(4) heap_ext_trans by blast
  have v3: "valid_slice h3 v" using v(1) e3 by (rule valid_slice_ext)
  have b3: "sl_bytes h3 t3 = [2] @ UInt16ToByteArray (word_of_nat (length ?ys)) @ concat (map enc_elem (take ?k ?ys))"
    using p3(2) p2(2) by (simp add: array_header_def)
  obtain h4 t4 where s4: "Array_Append g h3 t3 v = Some (h4, t4, Inr ())" "valid_slice h4 t4" "heap_ext h3 h4"
    and b4: "sl_bytes h4 t4 = [2] @ UInt16ToByteArray (word_of_nat (length ?ys) + 1) @
        concat (map enc_elem (take ?k ?ys)) @ enc_elem (sl_bytes h3 v)"
    using Array_Append_bytes[OF p3(1) b3 v3 v(2)] by blast
  obtain h5 t5 where s5: "sl_append g h4 t4 ?rear = (h5, t5)" by fastforce
  note p5 = sl_append_props[OF s5 s4(2)]
  have xs: "xs[?k := sl_bytes h3 v] = take ?k ?ys @ [sl_bytes h3 v] @ drop ?k ?ys"
    using nk by (simp add: upd_conv_take_nth_drop)
  have enc: "enc_array (xs[?k := sl_bytes h3 v]) = [2] @ UInt16ToByteArray (word_of_nat (length xs)) @
      concat (map enc_elem (take ?k ?ys @ [sl_bytes h3 v] @ drop ?k ?ys))"
    unfolding enc_array_def length_list_update unfolding xs ..
  have "(word_of_nat (length ?ys) + 1 :: u16) = word_of_nat (length xs)"
    using n by (cases "length xs") (auto simp: min_def)
  then have "sl_bytes h5 t5 = enc_array (xs[?k := sl_bytes h3 v])"
    using p5(2) b4 unfolding enc by (simp del: take_append drop_append)
  moreover have "length (sl_bytes h3 v) = sl_len v" using v3 by simp
  ultimately have "is_array h5 t5 (xs[?k := sl_bytes h3 v])"
    using arr p5(1) v(2) by (auto simp: is_array_def dest: set_update_subset_insert [THEN subsetD])
  moreover have "Array_Insert g h a index v = Some (h5, t5, Inr ())"
    using rm(1) by (simp add: Array_Insert_def Array_goToIndex_enc[OF arr1 small1 n1] w r1 r2 s2 s3 s4 s5
        del: take_append drop_append length_append)
  moreover have "heap_ext h h5" using e3 s4(3) p5(4) heap_ext_trans by blast
  ultimately show thesis using that \<open>length (sl_bytes h3 v) = sl_len v\<close> by blast
qed

text \<open>On the last element the second search of \<^verbatim>\<open>Insert\<close> runs off the end.\<close>

lemma Array_Insert_last_enc:
  assumes arr: "is_array h a xs" and small: "length (enc_array xs) \<le> 65535"
    and n: "Suc (unat index) = length xs"
  obtains h' a' where "Array_Insert g h a index v = Some (h', a', Inl ''array internals error'')"
    "is_array h' a' (butlast xs)"
proof -
  let ?k = "unat index"
  have nk: "?k < length xs" using n by simp
  have ys: "take ?k xs @ drop (Suc ?k) xs = butlast xs"
    using n by (simp add: butlast_conv_take [of xs] n [symmetric])
  obtain h1 a1 where rm: "Array_Remove g h a index = Some (h1, a1, Inr ())"
    and arr1: "is_array h1 a1 (butlast xs)" using Array_Remove_enc[OF arr small nk] ys by metis
  have "length (concat (map enc_elem (butlast xs))) \<le> length (concat (map enc_elem xs))"
    by (metis append_take_drop_id butlast_conv_take concat_append le_add1 length_append map_append)
  then have small1: "length (enc_array (butlast xs)) \<le> 65535"
    using small by (simp add: enc_array_header)
  have lb: "length (butlast xs) = ?k" using n by simp
  have "Array_goLoop h1 a1 index 0 3 = Some (Inl ''array internals error'')"
    using Array_goLoop_end[OF arr1 small1, of ?k 0] lb unat_u16_lt[of index] by simp
  then have "Array_Insert g h a index v = Some (h1, a1, Inl ''array internals error'')"
    using rm Array_getSize_enc[OF arr1] lb
    by (simp add: Array_Insert_def Array_goToIndex_def del: length_butlast)
  with that arr1 show thesis by blast
qed

subsection \<open>The sequence interface\<close>

locale byte_seq =
  fixes rep :: "heap \<Rightarrow> slice \<Rightarrow> bytes list \<Rightarrow> bool"
    and room :: "bytes list \<Rightarrow> bool"
    and app :: "heap \<Rightarrow> slice \<Rightarrow> slice \<Rightarrow> unit objres"
    and elem_at :: "heap \<Rightarrow> slice \<Rightarrow> u16 \<Rightarrow> slice objres"
    and rem :: "heap \<Rightarrow> slice \<Rightarrow> u16 \<Rightarrow> unit objres"
  assumes app_rep: "rep h a xs \<Longrightarrow> valid_slice h v \<Longrightarrow> room (xs @ [sl_bytes h v]) \<Longrightarrow>
      \<exists>h' a'. app h a v = Some (h', a', Inr ()) \<and> rep h' a' (xs @ [sl_bytes h v])"
    and at_rep: "rep h a xs \<Longrightarrow> room xs \<Longrightarrow> unat i < length xs \<Longrightarrow>
      \<exists>t. elem_at h a i = Some (h, a, Inr t) \<and> sl_bytes h t = xs ! unat i"
    and rem_rep: "rep h a xs \<Longrightarrow> room xs \<Longrightarrow> unat i < length xs \<Longrightarrow>
      \<exists>h' a'. rem h a i = Some (h', a', Inr ()) \<and>
        rep h' a' (take (unat i) xs @ drop (Suc (unat i)) xs)"
    and room_size: "room xs \<Longrightarrow> length xs \<le> 65535"
begin

lemma app_then_at:
  assumes "rep h a xs" "valid_slice h v" "room (xs @ [sl_bytes h v])" "unat i \<le> length xs"
  shows "\<exists>h' a' t. app h a v = Some (h', a', Inr ()) \<and> elem_at h' a' i = Some (h', a', Inr t) \<and>
    sl_bytes h' t = (if unat i = length xs then sl_bytes h v else xs ! unat i)"
  using app_rep[OF assms(1-3)] at_rep[OF _ assms(3)] assms(4)
  by (force simp: nth_append)

lemma app_then_rem:
  assumes "rep h a xs" "valid_slice h v" "room (xs @ [sl_bytes h v])"
  shows "\<exists>h' a' h'' a''. app h a v = Some (h', a', Inr ()) \<and>
    rem h' a' (word_of_nat (length xs)) = Some (h'', a'', Inr ()) \<and> rep h'' a'' xs"
proof -
  have "length xs < 65535" using room_size[OF assms(3)] by simp
  then have "unat (word_of_nat (length xs) :: u16) = length xs" by (simp add: unat_u16_of_nat)
  then show ?thesis
    using app_rep[OF assms] rem_rep[OF _ assms(3), of _ _ "word_of_nat (length xs)"] by fastforce
qed

end

lemma enc_array_room:
  assumes "length (enc_array (xs @ [v])) \<le> 65535"
  shows "length xs < 65535" "length v \<le> 65535"
proof -
  have "length ys \<le> length (concat (map enc_elem ys))" for ys by (induction ys) auto
  from this[of xs] assms show "length xs < 65535" "length v \<le> 65535"
    by (simp_all add: enc_array_def)
qed

interpretation arr: byte_seq is_array "\<lambda>xs. length (enc_array xs) \<le> 65535" "Array_Append g" Array_At
    "Array_Remove g" for g
proof unfold_locales
  fix h a xs v
  assume "is_array h a xs" "valid_slice h v" "length (enc_array (xs @ [sl_bytes h v])) \<le> 65535"
  then show "\<exists>h' a'. Array_Append g h a v = Some (h', a', Inr ()) \<and> is_array h' a' (xs @ [sl_bytes h v])"
    using Array_Append_enc[of h a xs v g] enc_array_room[of xs "sl_bytes h v"] by fastforce
next
  fix h a xs i
  assume "is_array h a xs" "length (enc_array xs) \<le> 65535" "unat (i :: u16) < length xs"
  then show "\<exists>t. Array_At h a i = Some (h, a, Inr t) \<and> sl_bytes h t = xs ! unat i"
    using Array_At_enc[of h a xs i] by metis
next
  fix h a xs i
  assume "is_array h a xs" "length (enc_array xs) \<le> 65535" "unat (i :: u16) < length xs"
  then show "\<exists>h' a'. Array_Remove g h a i = Some (h', a', Inr ()) \<and>
      is_array h' a' (take (unat i) xs @ drop (Suc (unat i)) xs)"
    using Array_Remove_enc[of h a xs i g] by metis
next
  fix xs
  assume "length (enc_array xs) \<le> 65535"
  moreover have "length ys \<le> length (concat (map enc_elem ys))" for ys by (induction ys) auto
  ultimately show "length xs \<le> 65535"
    using order_trans[of "length xs" "length (concat (map enc_elem xs))" 65535]
    by (simp add: enc_array_def)
qed

end
