(* ===== verification/VMMap.thy ===== *)
theory VMMap
  imports VMArray
begin

text \<open>
  \<^verbatim>\<open>src/vm/map.go\<close>: the map value of the virtual machine, a byte string with a tag byte 1, a 16-bit
  size and the keys and values in turn, each behind its 16-bit length. As for arrays, the
  operations thread the heap and the slice \<^verbatim>\<open>*m\<close>; \<open>None\<close> is a panic. The loop of
  \<^verbatim>\<open>MapContainsKey\<close> ignores the error of \<^verbatim>\<open>getElement\<close> and may run forever: it is a partial
  function, whose outer \<open>None\<close> means that it does not return.

  The abstract map is an association list, \<open>enc_map\<close> its encoding; on encodings the operations
  compute the association-list operations (\<open>map_obj\<close>).
\<close>

definition NewMap :: "heap \<Rightarrow> heap \<times> slice" where
  "NewMap h = sl_new h [1, 0, 0]"

definition MapFromByteArray :: "heap \<Rightarrow> slice \<Rightarrow> string + slice" where
  "MapFromByteArray h m =
     (if sl_len m \<le> 0 then Inl ''empty map''
      else if sl_bytes h m ! 0 \<noteq> 1 then Inl ''invalid datatype supplied''
      else Inr m)"

definition Map_getSize :: "heap \<Rightarrow> slice \<Rightarrow> (string + u16) option" where
  "Map_getSize h m =
     (case sl_read h m 1 3 of
        None \<Rightarrow> None
      | Some bs \<Rightarrow>
          (case ByteArrayToUI16 bs of
             Inl _ \<Rightarrow> Some (Inl ''cannot get size of map'')
           | Inr value \<Rightarrow> Some (Inr value)))"

text \<open>An error of \<^verbatim>\<open>getSize\<close> ends the process (\<^verbatim>\<open>log.Fatal\<close>): no more than a panic is observable.\<close>

definition Map_IncrementSize :: "heap \<Rightarrow> slice \<Rightarrow> heap option" where
  "Map_IncrementSize h m =
     (case Map_getSize h m of
        Some (Inr s) \<Rightarrow> setSize h m (UInt16ToByteArray (s + 1))
      | _ \<Rightarrow> None)"

definition Map_DecrementSize :: "heap \<Rightarrow> slice \<Rightarrow> (heap \<times> (string + unit)) option" where
  "Map_DecrementSize h m =
     (case Map_getSize h m of
        Some (Inr s) \<Rightarrow>
          if s \<le> 0 then Some (h, Inl ''Map size already 0'')
          else map_option (\<lambda>h. (h, Inr ())) (setSize h m (UInt16ToByteArray (s - 1)))
      | _ \<Rightarrow> None)"

definition nextElementStartsAt :: "nat \<Rightarrow> u16 \<Rightarrow> nat" where
  "nextElementStartsAt index elementSize = index + 2 + unat elementSize"

definition getElementSize :: "heap \<Rightarrow> slice \<Rightarrow> nat \<Rightarrow> (string + u16) option" where
  "getElementSize h m index = map_option ByteArrayToUI16 (sl_read h m index (index + 2))"

definition getBytesOfElement :: "heap \<Rightarrow> slice \<Rightarrow> nat \<Rightarrow> nat \<Rightarrow> (string + slice) option" where
  "getBytesOfElement h m startsAt endsBefore =
     (if startsAt \<ge> endsBefore then Some (Inl ''can't retrieve element'')
      else if sl_len m < startsAt + 2 \<or> sl_len m < endsBefore
      then Some (Inl ''map internals error'')
      else map_option Inr (sl_sub m (startsAt + 2) endsBefore))"

definition getElement :: "heap \<Rightarrow> slice \<Rightarrow> nat \<Rightarrow> (string + slice \<times> nat) option" where
  "getElement h m startsAt =
     (case getElementSize h m startsAt of
        None \<Rightarrow> None
      | Some (Inl e) \<Rightarrow> Some (Inl e)
      | Some (Inr sz) \<Rightarrow>
          let endsBefore = nextElementStartsAt startsAt sz in
          (case getBytesOfElement h m startsAt endsBefore of
             None \<Rightarrow> None
           | Some (Inl e) \<Rightarrow> Some (Inl e)
           | Some (Inr element) \<Rightarrow> Some (Inr (element, endsBefore))))"

lemma getElement_ends: "getElement h m s = Some (Inr (k, e)) \<Longrightarrow> s < e"
  by (auto simp: getElement_def nextElementStartsAt_def Let_def
      split: option.splits sum.splits)

partial_function (option) Map_containsLoop ::
    "heap \<Rightarrow> slice \<Rightarrow> bytes \<Rightarrow> nat \<Rightarrow> (string + bool) option option" where
  "Map_containsLoop h m key index =
     (if index < sl_len m then
        if sl_len m = 3 then Some (Some (Inr False))
        else (case getElement h m index of
                None \<Rightarrow> Some None
              | Some r \<Rightarrow>
                  let k = (case r of Inl _ \<Rightarrow> [] | Inr (k, _) \<Rightarrow> sl_bytes h k);
                      keyEndsBefore = (case r of Inl _ \<Rightarrow> 0 | Inr (_, e) \<Rightarrow> e) in
                  (case getElementSize h m keyEndsBefore of
                     None \<Rightarrow> Some None
                   | Some (Inl e) \<Rightarrow> Some (Some (Inl e))
                   | Some (Inr sizeOfValue) \<Rightarrow>
                       if key = k then Some (Some (Inr True))
                       else let valueEndsBefore = nextElementStartsAt keyEndsBefore sizeOfValue in
                            if index = valueEndsBefore
                            then Some (Some (Inl ''element sizes are 0''))
                            else Map_containsLoop h m key valueEndsBefore))
      else Some (Some (Inr False)))"

definition MapContainsKey :: "heap \<Rightarrow> slice \<Rightarrow> slice \<Rightarrow> (string + bool) option option" where
  "MapContainsKey h m key = Map_containsLoop h m (sl_bytes h key) 3"

text \<open>
  The four appends of \<^verbatim>\<open>Append\<close> run one after the other, and the bytes of the key and the value
  are read when their append is reached.
\<close>

definition Map_Append :: "growth \<Rightarrow> heap \<Rightarrow> slice \<Rightarrow> slice \<Rightarrow> slice \<Rightarrow> unit objres" where
  "Map_Append g h m key value =
     (if sl_len key > UINT16_MAX \<or> sl_len value > UINT16_MAX
      then Some (h, m, Inl ''key or value size overflows uint16'')
      else let (h, tmp) = sl_append g h m (UInt16ToByteArray (word_of_nat (sl_len key)));
               (h, tmp) = sl_append g h tmp (sl_bytes h key);
               (h, tmp) = sl_append g h tmp (UInt16ToByteArray (word_of_nat (sl_len value)));
               (h, tmp) = sl_append g h tmp (sl_bytes h value)
           in map_option (\<lambda>h. (h, tmp, Inr ())) (Map_IncrementSize h tmp))"

function Map_getValLoop :: "heap \<Rightarrow> slice \<Rightarrow> bytes \<Rightarrow> nat \<Rightarrow> (string + slice) option" where
  "Map_getValLoop h m key index =
     (if index < sl_len m then
        if sl_len m = 3 then Some (Inl ''no elements in map'')
        else (case getElement h m index of
                None \<Rightarrow> None
              | Some (Inl e) \<Rightarrow> Some (Inl e)
              | Some (Inr (k, valueStartsAt)) \<Rightarrow>
                  (case getElement h m valueStartsAt of
                     None \<Rightarrow> None
                   | Some (Inl e) \<Rightarrow> Some (Inl e)
                   | Some (Inr (v, nextStartsAt)) \<Rightarrow>
                       if key = sl_bytes h k then Some (Inr v)
                       else if index = nextStartsAt then Some (Inl ''element sizes are 0'')
                       else Map_getValLoop h m key nextStartsAt))
      else Some (Inl ''key not found''))"
  by pat_completeness auto
termination
proof (relation "measure (\<lambda>(h, m, key, index). sl_len m - index)", goal_cases)
  case (2 h m key index r kv k vs r' vn v nx)
  then have "index < vs" "vs < nx" using getElement_ends by blast+
  with 2 show ?case by simp
qed simp

declare Map_getValLoop.simps [simp del]

definition Map_GetVal :: "heap \<Rightarrow> slice \<Rightarrow> slice \<Rightarrow> (string + slice) option" where
  "Map_GetVal h m key = Map_getValLoop h m (sl_bytes h key) 3"

function Map_removeLoop :: "growth \<Rightarrow> heap \<Rightarrow> slice \<Rightarrow> bytes \<Rightarrow> nat \<Rightarrow> unit objres" where
  "Map_removeLoop g h m key index =
     (if index < sl_len m then
        if sl_len m = 3 then Some (h, m, Inl ''no elements in map'')
        else (case getElement h m index of
                None \<Rightarrow> None
              | Some (Inl e) \<Rightarrow> Some (h, m, Inl e)
              | Some (Inr (k, keyEndsBefore)) \<Rightarrow>
                  (case getElementSize h m keyEndsBefore of
                     None \<Rightarrow> None
                   | Some (Inl e) \<Rightarrow> Some (h, m, Inl e)
                   | Some (Inr sizeOfValue) \<Rightarrow>
                       let valueEndsBefore = nextElementStartsAt keyEndsBefore sizeOfValue in
                       if key = sl_bytes h k
                       then (case (sl_read h m 0 index, sl_read h m valueEndsBefore (sl_len m)) of
                               (Some front, Some rear) \<Rightarrow>
                                 let (h, tmp) = sl_new h [];
                                     (h, tmp) = sl_append g h tmp front;
                                     (h, m) = sl_append g h tmp rear
                                 in map_option (\<lambda>(h, _). (h, m, Inr ())) (Map_DecrementSize h m)
                             | _ \<Rightarrow> None)
                       else if index = valueEndsBefore
                       then Some (h, m, Inl ''element sizes are 0'')
                       else Map_removeLoop g h m key valueEndsBefore))
      else Some (h, m, Inl ''key not found''))"
  by pat_completeness auto
termination
proof (relation "measure (\<lambda>(g, h, m, key, index). sl_len m - index)", goal_cases)
  case (2 g h m key index r kv k ke r' sz ve)
  then have "index < ke" using getElement_ends by blast
  with 2 show ?case by (simp add: nextElementStartsAt_def)
qed simp

declare Map_removeLoop.simps [simp del]

definition Map_Remove :: "growth \<Rightarrow> heap \<Rightarrow> slice \<Rightarrow> slice \<Rightarrow> unit objres" where
  "Map_Remove g h m key = Map_removeLoop g h m (sl_bytes h key) 3"

text \<open>The append is done even when the removal failed; its error is dropped.\<close>

definition Map_SetVal :: "growth \<Rightarrow> heap \<Rightarrow> slice \<Rightarrow> slice \<Rightarrow> slice \<Rightarrow> unit objres" where
  "Map_SetVal g h m key value =
     (case Map_Remove g h m key of
        None \<Rightarrow> None
      | Some (h, m, err) \<Rightarrow>
          (case Map_Append g h m key value of
             None \<Rightarrow> None
           | Some (h, m, _) \<Rightarrow> Some (h, m, err)))"

subsection \<open>The abstract map\<close>

definition enc_pair :: "bytes \<times> bytes \<Rightarrow> bytes" where
  "enc_pair kv = enc_elem (fst kv) @ enc_elem (snd kv)"

definition enc_map :: "(bytes \<times> bytes) list \<Rightarrow> bytes" where
  "enc_map kvs = [1] @ UInt16ToByteArray (word_of_nat (length kvs)) @ concat (map enc_pair kvs)"

definition small_pairs :: "(bytes \<times> bytes) list \<Rightarrow> bool" where
  "small_pairs kvs \<longleftrightarrow> (\<forall>(k, v) \<in> set kvs. length k \<le> 65535 \<and> length v \<le> 65535)"

definition is_map :: "heap \<Rightarrow> slice \<Rightarrow> (bytes \<times> bytes) list \<Rightarrow> bool" where
  "is_map h m kvs \<longleftrightarrow> valid_slice h m \<and> sl_bytes h m = enc_map kvs \<and> length kvs \<le> 65535 \<and>
     small_pairs kvs"

primrec del_first :: "bytes \<Rightarrow> (bytes \<times> bytes) list \<Rightarrow> (bytes \<times> bytes) list" where
  "del_first k [] = []"
| "del_first k (kv # kvs) = (if fst kv = k then kvs else kv # del_first k kvs)"

lemma small_pairs_simps [simp]:
  "small_pairs []"
  "small_pairs (kv # kvs) \<longleftrightarrow> length (fst kv) \<le> 65535 \<and> length (snd kv) \<le> 65535 \<and> small_pairs kvs"
  "small_pairs (xs @ ys) \<longleftrightarrow> small_pairs xs \<and> small_pairs ys"
  by (auto simp: small_pairs_def)

lemma set_del_first: "set (del_first k kvs) \<subseteq> set kvs"
  by (induction kvs) auto

lemma small_pairs_del_first [simp]: "small_pairs kvs \<Longrightarrow> small_pairs (del_first k kvs)"
  using set_del_first by (force simp: small_pairs_def)

lemma length_del_first:
  "length (del_first k kvs) = (if k \<in> fst ` set kvs then length kvs - 1 else length kvs)"
  by (induction kvs) (auto simp: Suc_diff_le dest: length_pos_if_in_set)

lemma del_first_absent: "k \<notin> fst ` set kvs \<Longrightarrow> del_first k kvs = kvs"
  by (induction kvs) auto

lemma map_of_del_first_distinct:
  "distinct (map fst kvs) \<Longrightarrow> map_of (del_first k kvs) = (map_of kvs)(k := None)"
proof (induction kvs)
  case Nil
  then show ?case by simp
next
  case (Cons kv kvs)
  show ?case
  proof (cases "fst kv = k")
    case True
    then have "map_of kvs k = None" using Cons.prems by (auto simp: map_of_eq_None_iff)
    with True show ?thesis by (cases kv) (auto simp: fun_eq_iff)
  next
    case False
    with Cons show ?thesis by (cases kv) (auto simp: fun_eq_iff)
  qed
qed

text \<open>One element of the encoding, at offset \<open>p\<close>.\<close>

lemma getElement_at:
  assumes "valid_slice h m" "drop p (sl_bytes h m) = enc_elem k @ rest" "length k \<le> 65535"
  shows "getElementSize h m p = Some (Inr (word_of_nat (length k)))"
    "nextElementStartsAt p (word_of_nat (length k)) = p + 2 + length k"
    "\<exists>t. getElement h m p = Some (Inr (t, p + 2 + length k)) \<and> valid_slice h t \<and> sl_bytes h t = k"
    "p + 2 + length k \<le> sl_len m" "drop (p + 2 + length k) (sl_bytes h m) = rest"
proof -
  have "length (drop p (sl_bytes h m)) = 2 + length k + length rest" using assms(2) by simp
  then show le: "p + 2 + length k \<le> sl_len m" using assms(1) by simp
  have d: "drop (p + n) (sl_bytes h m) = drop n (enc_elem k @ rest)" for n
    by (metis add.commute assms(2) drop_drop)
  show "drop (p + 2 + length k) (sl_bytes h m) = rest"
    using d[of "2 + length k"] by (simp add: add.assoc)
  show n: "nextElementStartsAt p (word_of_nat (length k)) = p + 2 + length k"
    using assms(3) by (simp add: nextElementStartsAt_def unat_u16_of_nat)
  show sz: "getElementSize h m p = Some (Inr (word_of_nat (length k)))"
    using assms le by (simp add: getElementSize_def sl_read_inside enc_elem_def)
  obtain t where "sl_sub m (p + 2) (p + 2 + length k) = Some t" "valid_slice h t"
    "sl_bytes h t = take (p + 2 + length k - (p + 2)) (drop (p + 2) (sl_bytes h m))"
    using sl_sub_inside[OF assms(1), of "p + 2" "p + 2 + length k"] le by auto
  moreover have "drop (p + 2) (sl_bytes h m) = k @ rest" using d[of 2] by (simp add: enc_elem_def)
  ultimately show "\<exists>t. getElement h m p = Some (Inr (t, p + 2 + length k)) \<and> valid_slice h t \<and> sl_bytes h t = k"
    using le by (simp add: getElement_def sz n getBytesOfElement_def)
qed

lemma pair_at:
  assumes "valid_slice h m" "drop p (sl_bytes h m) = concat (map enc_pair (kv # kvs))"
    "small_pairs (kv # kvs)"
  shows "drop p (sl_bytes h m) = enc_elem (fst kv) @ enc_elem (snd kv) @ concat (map enc_pair kvs)"
    "drop (p + 2 + length (fst kv)) (sl_bytes h m) = enc_elem (snd kv) @ concat (map enc_pair kvs)"
    "drop (p + 2 + length (fst kv) + 2 + length (snd kv)) (sl_bytes h m) = concat (map enc_pair kvs)"
    "p + 2 + length (fst kv) + 2 + length (snd kv) \<le> sl_len m"
proof -
  show d: "drop p (sl_bytes h m) = enc_elem (fst kv) @ enc_elem (snd kv) @ concat (map enc_pair kvs)"
    using assms(2) by (simp add: enc_pair_def)
  show d2: "drop (p + 2 + length (fst kv)) (sl_bytes h m) = enc_elem (snd kv) @ concat (map enc_pair kvs)"
    using getElement_at(5)[OF assms(1) d] assms(3) by simp
  show "drop (p + 2 + length (fst kv) + 2 + length (snd kv)) (sl_bytes h m) = concat (map enc_pair kvs)"
    "p + 2 + length (fst kv) + 2 + length (snd kv) \<le> sl_len m"
    using getElement_at(4,5)[OF assms(1) d2] assms(3) by simp_all
qed

lemma drop_end: "valid_slice h m \<Longrightarrow> drop p (sl_bytes h m) = [] \<Longrightarrow> \<not> p < sl_len m"
  by simp

lemma Map_getValLoop_enc:
  assumes v: "valid_slice h m"
  shows "drop p (sl_bytes h m) = concat (map enc_pair kvs) \<Longrightarrow> small_pairs kvs \<Longrightarrow> 3 \<le> p \<Longrightarrow>
    (case map_of kvs key of
       None \<Rightarrow> Map_getValLoop h m key p = Some (Inl ''key not found'')
     | Some x \<Rightarrow> \<exists>t. Map_getValLoop h m key p = Some (Inr t) \<and> valid_slice h t \<and> sl_bytes h t = x)"
proof (induction kvs arbitrary: p)
  case Nil
  then show ?case using drop_end[OF v] by (subst Map_getValLoop.simps) simp
next
  case (Cons kv kvs)
  note pa = pair_at[OF v Cons.prems(1,2)]
  have len: "length (fst kv) \<le> 65535" "length (snd kv) \<le> 65535" "small_pairs kvs" using Cons.prems(2) by auto
  obtain t where t: "getElement h m p = Some (Inr (t, p + 2 + length (fst kv)))" "sl_bytes h t = fst kv"
    using getElement_at(3)[OF v pa(1) len(1)] by blast
  obtain u where u: "getElement h m (p + 2 + length (fst kv)) =
      Some (Inr (u, p + 2 + length (fst kv) + 2 + length (snd kv)))" "valid_slice h u" "sl_bytes h u = snd kv"
    using getElement_at(3)[OF v pa(2) len(2)] by blast
  have eq: "Map_getValLoop h m key p = (if key = fst kv then Some (Inr u)
      else Map_getValLoop h m key (p + 2 + length (fst kv) + 2 + length (snd kv)))"
    using pa(4) Cons.prems(3) t u by (subst Map_getValLoop.simps) (simp split: if_splits)
  show ?case
  proof (cases "key = fst kv")
    case True
    then show ?thesis using eq u by (cases kv) simp
  next
    case False
    then have "map_of (kv # kvs) key = map_of kvs key" by (cases kv) simp
    then show ?thesis
      using eq False Cons.IH[OF pa(3) len(3)] Cons.prems(3) by (simp split: option.splits)
  qed
qed

lemma Map_containsLoop_enc:
  assumes v: "valid_slice h m"
  shows "drop p (sl_bytes h m) = concat (map enc_pair kvs) \<Longrightarrow> small_pairs kvs \<Longrightarrow> 3 \<le> p \<Longrightarrow>
    Map_containsLoop h m key p = Some (Some (Inr (key \<in> fst ` set kvs)))"
proof (induction kvs arbitrary: p)
  case Nil
  then show ?case using drop_end[OF v] by (subst Map_containsLoop.simps) simp
next
  case (Cons kv kvs)
  note pa = pair_at[OF v Cons.prems(1,2)]
  have len: "length (fst kv) \<le> 65535" "length (snd kv) \<le> 65535" "small_pairs kvs" using Cons.prems(2) by auto
  obtain t where t: "getElement h m p = Some (Inr (t, p + 2 + length (fst kv)))" "sl_bytes h t = fst kv"
    using getElement_at(3)[OF v pa(1) len(1)] by blast
  note e2 = getElement_at(1,2)[OF v pa(2) len(2)]
  have eq: "Map_containsLoop h m key p = (if key = fst kv then Some (Some (Inr True))
      else Map_containsLoop h m key (p + 2 + length (fst kv) + 2 + length (snd kv)))"
    using pa(4) Cons.prems(3) t e2 by (subst Map_containsLoop.simps) (simp add: Let_def split: if_splits)
  then show ?case
    using Cons.IH[OF pa(3) len(3)] Cons.prems(3) by auto
qed

lemma Map_getSize_enc:
  assumes "valid_slice h m" "sl_bytes h m = [b0] @ UInt16ToByteArray s @ rest"
  shows "Map_getSize h m = Some (Inr s)"
proof -
  have "length (sl_bytes h m) = 3 + length rest" by (simp add: assms(2))
  then have "3 \<le> sl_len m" using assms(1) by simp
  then have "sl_read h m 1 3 = Some (UInt16ToByteArray s)"
    using assms by (subst sl_read_inside) auto
  then show ?thesis by (simp add: Map_getSize_def)
qed

text \<open>A hit of the removal loop: the pair is cut out of a new array and the size goes down.\<close>

lemma Map_remove_hit:
  assumes v: "valid_slice h m"
    and b: "sl_bytes h m = ([1] @ UInt16ToByteArray s @ pre) @ enc_pair kv @ rest"
    and p: "p = 3 + length pre" and s: "s \<noteq> 0"
    and q: "q = p + length (enc_pair kv)"
  obtains h' m' where
    "(case (sl_read h m 0 p, sl_read h m q (sl_len m)) of
        (Some front, Some rear) \<Rightarrow>
          let (h, tmp) = sl_new h []; (h, tmp) = sl_append g h tmp front; (h, m) = sl_append g h tmp rear
          in map_option (\<lambda>(h, _). (h, m, Inr () :: string + unit)) (Map_DecrementSize h m)
      | _ \<Rightarrow> None) = Some (h', m', Inr ())"
    "valid_slice h' m'" "heap_ext h h'" "sl_bytes h' m' = [1] @ UInt16ToByteArray (s - 1) @ pre @ rest"
    "take (length h) h' = h" "length h \<le> sl_arr m'"
proof -
  let ?front = "[1] @ UInt16ToByteArray s @ pre"
  have lf: "length ?front = p" by (simp add: p)
  have len: "sl_len m = q + length rest" using length_sl_bytes[OF v] b q lf by simp
  have r1: "sl_read h m 0 p = Some ?front"
    using v len q b lf by (subst sl_read_inside) auto
  have r2: "sl_read h m q (sl_len m) = Some rest"
    using v len q b lf by (subst sl_read_inside) auto
  obtain h1 m1 where f: "(let (h, tmp) = sl_new h []; (h, tmp) = sl_append g h tmp ?front;
        (h, m) = sl_append g h tmp rest in Some (h, m, Inr () :: string + unit)) = Some (h1, m1, Inr ())"
    and m1: "valid_slice h1 m1" "heap_ext h h1" "sl_bytes h1 m1 = ?front @ rest"
      "take (length h) h1 = h" "length h \<le> sl_arr m1"
    using rebuild_enc[OF v r1 r2, of g] by blast
  have b1: "sl_bytes h1 m1 = [1] @ UInt16ToByteArray s @ (pre @ rest)" using m1(3) by simp
  obtain h2 where h2: "setSize h1 m1 (UInt16ToByteArray (s - 1)) = Some h2" "heap_ext h1 h2"
      "sl_bytes h2 m1 = [1] @ UInt16ToByteArray (s - 1) @ (pre @ rest)"
    using setSize_enc[OF m1(1) b1] by blast
  have "Map_DecrementSize h1 m1 = Some (h2, Inr ())"
    using Map_getSize_enc[OF m1(1) b1] s h2(1) by (simp add: Map_DecrementSize_def)
  moreover have "valid_slice h2 m1" "heap_ext h h2"
    using valid_slice_ext[OF m1(1) h2(2)] heap_ext_trans[OF m1(2) h2(2)] by simp_all
  moreover have "take (length h) h2 = h"
    using h2(1) m1(4,5) sl_set_fresh by (fastforce simp: setSize_def split: option.splits)
  ultimately show thesis
    using that[of h2 m1] f r1 r2 h2(3) m1(5) by (simp split: prod.splits)
qed

lemma Map_removeLoop_enc:
  assumes v: "valid_slice h m" and s: "s \<noteq> 0"
  shows "sl_bytes h m = [1] @ UInt16ToByteArray s @ pre @ concat (map enc_pair kvs) \<Longrightarrow>
    small_pairs kvs \<Longrightarrow> p = 3 + length pre \<Longrightarrow>
    (if key \<in> fst ` set kvs
     then \<exists>h' m'. Map_removeLoop g h m key p = Some (h', m', Inr ()) \<and> valid_slice h' m' \<and> heap_ext h h' \<and>
            take (length h) h' = h \<and> length h \<le> sl_arr m' \<and>
            sl_bytes h' m' = [1] @ UInt16ToByteArray (s - 1) @ pre @ concat (map enc_pair (del_first key kvs))
     else Map_removeLoop g h m key p = Some (h, m, Inl ''key not found''))"
proof (induction kvs arbitrary: p pre)
  case Nil
  then have "\<not> p < sl_len m" using length_sl_bytes[OF v] by simp
  then show ?case by (subst Map_removeLoop.simps) simp
next
  case (Cons kv kvs)
  have "sl_bytes h m = ([1] @ UInt16ToByteArray s @ pre) @ concat (map enc_pair (kv # kvs))"
    using Cons.prems(1) by simp
  moreover have "length ([1] @ UInt16ToByteArray s @ pre) = p" using Cons.prems(3) by simp
  ultimately have d: "drop p (sl_bytes h m) = concat (map enc_pair (kv # kvs))"
    by (metis append_eq_conv_conj)
  note pa = pair_at[OF v d Cons.prems(2)]
  have len: "length (fst kv) \<le> 65535" "length (snd kv) \<le> 65535" "small_pairs kvs" using Cons.prems(2) by auto
  obtain t where t: "getElement h m p = Some (Inr (t, p + 2 + length (fst kv)))" "sl_bytes h t = fst kv"
    using getElement_at(3)[OF v pa(1) len(1)] by blast
  note e2 = getElement_at(1,2)[OF v pa(2) len(2)]
  define q where "q = p + 2 + length (fst kv) + 2 + length (snd kv)"
  have q: "q = p + length (enc_pair kv)" by (simp add: q_def enc_pair_def)
  have b: "sl_bytes h m = ([1] @ UInt16ToByteArray s @ pre) @ enc_pair kv @ concat (map enc_pair kvs)"
    using Cons.prems(1) by simp
  note lt = pa(4)[folded q_def] and e2' = e2[folded q_def]
  have guard: "p < sl_len m" "sl_len m \<noteq> 3" "p \<noteq> q" using lt Cons.prems(3) by (auto simp: q_def)
  show ?case
  proof (cases "fst kv = key")
    case True
    obtain h' m' where h': "(case (sl_read h m 0 p, sl_read h m q (sl_len m)) of
        (Some front, Some rear) \<Rightarrow>
          let (h, tmp) = sl_new h []; (h, tmp) = sl_append g h tmp front; (h, m) = sl_append g h tmp rear
          in map_option (\<lambda>(h, _). (h, m, Inr () :: string + unit)) (Map_DecrementSize h m)
      | _ \<Rightarrow> None) = Some (h', m', Inr ())"
      and m': "valid_slice h' m'" "heap_ext h h'" "take (length h) h' = h" "length h \<le> sl_arr m'"
        "sl_bytes h' m' = [1] @ UInt16ToByteArray (s - 1) @ pre @ concat (map enc_pair kvs)"
      using Map_remove_hit[OF v b Cons.prems(3) s q] by blast
    have "Map_removeLoop g h m key p = Some (h', m', Inr ())"
      using guard t e2' True h' by (subst Map_removeLoop.simps) (simp add: Let_def)
    then show ?thesis using True m' by auto
  next
    case False
    have "Map_removeLoop g h m key p = Map_removeLoop g h m key q"
      using guard t e2' False by (subst Map_removeLoop.simps) (simp add: Let_def)
    then show ?thesis
      using Cons.IH[of "pre @ enc_pair kv" q] Cons.prems len False q by (auto split: if_splits)
  qed
qed

lemma Map_Append_enc:
  assumes m: "is_map h m kvs" and n: "length kvs < 65535"
    and k: "valid_slice h key" "sl_len key \<le> 65535" "apart m key"
    and v: "valid_slice h val" "sl_len val \<le> 65535" "apart m val"
  obtains h' m' where "Map_Append g h m key val = Some (h', m', Inr ())" "heap_ext h h'"
    "is_map h' m' (kvs @ [(sl_bytes h key, sl_bytes h val)])"
proof -
  have vm: "valid_slice h m" using m by (simp add: is_map_def)
  obtain h1 t1 where a1: "sl_append g h m (UInt16ToByteArray (word_of_nat (sl_len key))) = (h1, t1)" by fastforce
  note p1 = sl_append_props[OF a1 vm] and k1 = sl_append_apart[OF a1 vm k(1,3)]
    and v1 = sl_append_apart[OF a1 vm v(1,3)]
  obtain h2 t2 where a2: "sl_append g h1 t1 (sl_bytes h1 key) = (h2, t2)" by fastforce
  note p2 = sl_append_props[OF a2 p1(1)] and v2 = sl_append_apart[OF a2 p1(1) v1(2,3)]
  obtain h3 t3 where a3: "sl_append g h2 t2 (UInt16ToByteArray (word_of_nat (sl_len val))) = (h3, t3)" by fastforce
  note p3 = sl_append_props[OF a3 p2(1)] and v3 = sl_append_apart[OF a3 p2(1) v2(2,3)]
  obtain h4 t4 where a4: "sl_append g h3 t3 (sl_bytes h3 val) = (h4, t4)" by fastforce
  note p4 = sl_append_props[OF a4 p3(1)]
  let ?kv = "(sl_bytes h key, sl_bytes h val)"
  have b4: "sl_bytes h4 t4 = [1] @ UInt16ToByteArray (word_of_nat (length kvs)) @ concat (map enc_pair (kvs @ [?kv]))"
    using m p4(2) p3(2) p2(2) p1(2) k1(1) v1(1) v2(1) v3(1) k(1) v(1)
    by (simp add: is_map_def enc_map_def enc_pair_def enc_elem_def)
  obtain h5 where h5: "setSize h4 t4 (UInt16ToByteArray (word_of_nat (length kvs) + 1)) = Some h5" "heap_ext h4 h5"
      "sl_bytes h5 t4 = [1] @ UInt16ToByteArray (word_of_nat (length kvs) + 1) @ concat (map enc_pair (kvs @ [?kv]))"
    using setSize_enc[OF p4(1) b4] by blast
  have "Map_Append g h m key val = Some (h5, t4, Inr ())"
    using k(2) v(2) h5(1) Map_getSize_enc[OF p4(1) b4]
    by (simp add: Map_Append_def UINT16_MAX_def a1 a2 a3 a4 Map_IncrementSize_def)
  moreover have "heap_ext h h5" using p1(4) p2(4) p3(4) p4(4) h5(2) heap_ext_trans by blast
  moreover have "is_map h5 t4 (kvs @ [?kv])"
    using m n h5 valid_slice_ext[OF p4(1) h5(2)] k v by (simp add: is_map_def enc_map_def add.commute)
  ultimately show thesis using that by blast
qed

lemma is_map_drop: "is_map h m kvs \<Longrightarrow> drop 3 (sl_bytes h m) = concat (map enc_pair kvs)"
  by (simp add: is_map_def enc_map_def numeral_3_eq_3)

lemma Map_Remove_enc:
  assumes m: "is_map h m kvs" and k: "sl_bytes h key \<in> fst ` set kvs"
  obtains h' m' where "Map_Remove g h m key = Some (h', m', Inr ())" "heap_ext h h'"
    "is_map h' m' (del_first (sl_bytes h key) kvs)" "take (length h) h' = h" "length h \<le> sl_arr m'"
proof -
  have ne: "kvs \<noteq> []" and n: "length kvs \<le> 65535" using m k by (auto simp: is_map_def)
  then have nz: "(word_of_nat (length kvs) :: u16) \<noteq> 0"
    by (simp add: word_unat_eq_iff unat_u16_of_nat)
  have b: "sl_bytes h m = [1] @ UInt16ToByteArray (word_of_nat (length kvs)) @ [] @ concat (map enc_pair kvs)"
    using m by (simp add: is_map_def enc_map_def)
  obtain h' m' where *: "Map_removeLoop g h m (sl_bytes h key) 3 = Some (h', m', Inr ())" "valid_slice h' m'"
      "heap_ext h h'" "take (length h) h' = h" "length h \<le> sl_arr m'"
      "sl_bytes h' m' = [1] @ UInt16ToByteArray (word_of_nat (length kvs) - 1) @ [] @
         concat (map enc_pair (del_first (sl_bytes h key) kvs))"
    using Map_removeLoop_enc[OF _ nz b, of 3 "sl_bytes h key" g] m k by (auto simp: is_map_def)
  have "(word_of_nat (length kvs) - 1 :: u16) = word_of_nat (length kvs - 1)"
    using ne by (cases "length kvs") auto
  then have "is_map h' m' (del_first (sl_bytes h key) kvs)"
    using * m k n by (simp add: is_map_def enc_map_def length_del_first)
  with * that show thesis by (auto simp: Map_Remove_def)
qed

lemma Map_Remove_absent:
  assumes m: "is_map h m kvs" and k: "sl_bytes h key \<notin> fst ` set kvs"
  shows "Map_Remove g h m key = Some (h, m, Inl ''key not found'')"
proof (cases "kvs = []")
  case True
  then have "\<not> 3 < sl_len m" using m length_sl_bytes[of h m] by (simp add: is_map_def enc_map_def)
  then show ?thesis unfolding Map_Remove_def by (subst Map_removeLoop.simps) simp
next
  case False
  then have nz: "(word_of_nat (length kvs) :: u16) \<noteq> 0"
    using m by (simp add: is_map_def word_unat_eq_iff unat_u16_of_nat)
  have b: "sl_bytes h m = [1] @ UInt16ToByteArray (word_of_nat (length kvs)) @ [] @ concat (map enc_pair kvs)"
    using m by (simp add: is_map_def enc_map_def)
  then show ?thesis
    using Map_removeLoop_enc[OF _ nz b, of 3 "sl_bytes h key" g] m k by (simp add: is_map_def Map_Remove_def)
qed

lemma Map_SetVal_enc:
  assumes m: "is_map h m kvs" and key: "sl_bytes h key \<in> fst ` set kvs"
    and k: "valid_slice h key" "sl_len key \<le> 65535" and v: "valid_slice h val" "sl_len val \<le> 65535"
  obtains h' m' where "Map_SetVal g h m key val = Some (h', m', Inr ())"
    "is_map h' m' (del_first (sl_bytes h key) kvs @ [(sl_bytes h key, sl_bytes h val)])"
proof -
  obtain h1 m1 where r: "Map_Remove g h m key = Some (h1, m1, Inr ())" "heap_ext h h1"
      "is_map h1 m1 (del_first (sl_bytes h key) kvs)" "take (length h) h1 = h" "length h \<le> sl_arr m1"
    using Map_Remove_enc[OF m key] by blast
  have "0 < sl_len x \<Longrightarrow> valid_slice h x \<Longrightarrow> sl_arr x \<noteq> sl_arr m1" for x
    using r(5) by (auto simp: valid_slice_def)
  then have ap: "apart m1 key" "apart m1 val" using k v by (auto simp: apart_def)
  have bs: "sl_bytes h1 key = sl_bytes h key" "sl_bytes h1 val = sl_bytes h val"
    using sl_bytes_prefix[OF _ r(4)] k v by simp_all
  have n: "length (del_first (sl_bytes h key) kvs) < 65535"
    using m key by (auto simp: length_del_first is_map_def)
  obtain h2 m2 where "Map_Append g h1 m1 key val = Some (h2, m2, Inr ())"
      "is_map h2 m2 (del_first (sl_bytes h key) kvs @ [(sl_bytes h key, sl_bytes h val)])"
    using Map_Append_enc[OF r(3) n valid_slice_ext[OF k(1) r(2)] k(2) ap(1) valid_slice_ext[OF v(1) r(2)] v(2) ap(2)]
    by (metis bs)
  then show thesis using that r(1) by (simp add: Map_SetVal_def)
qed

subsection \<open>The map interface\<close>

locale map_obj =
  fixes rep :: "heap \<Rightarrow> slice \<Rightarrow> (bytes \<times> bytes) list \<Rightarrow> bool"
    and get :: "heap \<Rightarrow> slice \<Rightarrow> slice \<Rightarrow> (string + slice) option"
    and has :: "heap \<Rightarrow> slice \<Rightarrow> slice \<Rightarrow> (string + bool) option option"
    and put :: "heap \<Rightarrow> slice \<Rightarrow> slice \<Rightarrow> slice \<Rightarrow> unit objres"
    and del :: "heap \<Rightarrow> slice \<Rightarrow> slice \<Rightarrow> unit objres"
    and full :: nat
  assumes get_rep: "rep h m kvs \<Longrightarrow>
      (case map_of kvs (sl_bytes h key) of
         None \<Rightarrow> get h m key = Some (Inl ''key not found'')
       | Some x \<Rightarrow> \<exists>t. get h m key = Some (Inr t) \<and> sl_bytes h t = x)"
    and has_rep: "rep h m kvs \<Longrightarrow> has h m key = Some (Some (Inr (sl_bytes h key \<in> fst ` set kvs)))"
    and put_rep: "rep h m kvs \<Longrightarrow> length kvs < full \<Longrightarrow>
      valid_slice h key \<Longrightarrow> sl_len key \<le> full \<Longrightarrow> apart m key \<Longrightarrow>
      valid_slice h val \<Longrightarrow> sl_len val \<le> full \<Longrightarrow> apart m val \<Longrightarrow>
      \<exists>h' m'. put h m key val = Some (h', m', Inr ()) \<and> rep h' m' (kvs @ [(sl_bytes h key, sl_bytes h val)])"
    and del_rep: "rep h m kvs \<Longrightarrow> sl_bytes h key \<in> fst ` set kvs \<Longrightarrow>
      \<exists>h' m'. del h m key = Some (h', m', Inr ()) \<and> rep h' m' (del_first (sl_bytes h key) kvs) \<and>
        take (length h) h' = h"
begin

lemma has_iff_get:
  assumes "rep h m kvs"
  shows "has h m key = Some (Some (Inr (\<exists>t. get h m key = Some (Inr t))))"
proof (cases "map_of kvs (sl_bytes h key)")
  case None
  then have "get h m key = Some (Inl ''key not found'')" using get_rep[OF assms, of key] by simp
  moreover have "sl_bytes h key \<notin> fst ` set kvs" using None by (simp add: map_of_eq_None_iff)
  ultimately show ?thesis using has_rep[OF assms, of key] by simp
next
  case (Some x)
  then have "sl_bytes h key \<in> fst ` set kvs" by (metis map_of_eq_None_iff option.distinct(1))
  with Some show ?thesis using get_rep[OF assms, of key] has_rep[OF assms, of key] by auto
qed

lemma put_then_get:
  assumes "rep h m kvs" "length kvs < full" "map_of kvs (sl_bytes h key) = None"
    and "valid_slice h key" "sl_len key \<le> full" "apart m key"
    and "valid_slice h val" "sl_len val \<le> full" "apart m val"
  shows "\<exists>h' m'. put h m key val = Some (h', m', Inr ()) \<and>
    (\<forall>q. sl_bytes h' q = sl_bytes h key \<longrightarrow>
       (\<exists>t. get h' m' q = Some (Inr t) \<and> sl_bytes h' t = sl_bytes h val))"
proof -
  obtain h' m' where p: "put h m key val = Some (h', m', Inr ())"
    and r: "rep h' m' (kvs @ [(sl_bytes h key, sl_bytes h val)])"
    using put_rep[OF assms(1,2,4-9)] by blast
  have "map_of (kvs @ [(sl_bytes h key, sl_bytes h val)]) (sl_bytes h key) = Some (sl_bytes h val)"
    using assms(3) by (simp add: map_add_def)
  then show ?thesis using p get_rep[OF r] by (fastforce split: option.splits)
qed

lemma del_then_get:
  assumes "rep h m kvs" "distinct (map fst kvs)" "sl_bytes h key \<in> fst ` set kvs" "valid_slice h key"
  shows "\<exists>h' m'. del h m key = Some (h', m', Inr ()) \<and> get h' m' key = Some (Inl ''key not found'')"
proof -
  obtain h' m' where p: "del h m key = Some (h', m', Inr ())" "take (length h) h' = h"
    and r: "rep h' m' (del_first (sl_bytes h key) kvs)" using del_rep[OF assms(1,3)] by blast
  have "sl_bytes h' key = sl_bytes h key" using sl_bytes_prefix[OF assms(4) p(2)] .
  then show ?thesis
    using p(1) get_rep[OF r, of key] map_of_del_first_distinct[OF assms(2), of "sl_bytes h key"] by simp
qed

end

interpretation mo: map_obj is_map Map_GetVal MapContainsKey "Map_Append g" "Map_Remove g" 65535 for g
proof unfold_locales
  fix h m kvs key
  assume m: "is_map h m kvs"
  then have v: "valid_slice h m" "small_pairs kvs" by (simp_all add: is_map_def)
  show "case map_of kvs (sl_bytes h key) of None \<Rightarrow> Map_GetVal h m key = Some (Inl ''key not found'')
     | Some x \<Rightarrow> \<exists>t. Map_GetVal h m key = Some (Inr t) \<and> sl_bytes h t = x"
    using Map_getValLoop_enc[OF v(1) is_map_drop[OF m] v(2), of "sl_bytes h key"]
    by (auto simp: Map_GetVal_def split: option.splits)
  show "MapContainsKey h m key = Some (Some (Inr (sl_bytes h key \<in> fst ` set kvs)))"
    using Map_containsLoop_enc[OF v(1) is_map_drop[OF m] v(2)] by (simp add: MapContainsKey_def)
next
  fix h m kvs key val
  assume "is_map h m kvs" "length kvs < 65535"
    "valid_slice h key" "sl_len key \<le> 65535" "apart m key"
    "valid_slice h val" "sl_len val \<le> 65535" "apart m val"
  then show "\<exists>h' m'. Map_Append g h m key val = Some (h', m', Inr ()) \<and>
      is_map h' m' (kvs @ [(sl_bytes h key, sl_bytes h val)])"
    using Map_Append_enc by metis
next
  fix h m kvs key
  assume "is_map h m kvs" "sl_bytes h key \<in> fst ` set kvs"
  then show "\<exists>h' m'. Map_Remove g h m key = Some (h', m', Inr ()) \<and>
      is_map h' m' (del_first (sl_bytes h key) kvs) \<and> take (length h) h' = h"
    using Map_Remove_enc by metis
qed

subsection \<open>A malformed map on which the key search never returns\<close>

definition bad_map :: bytes where
  "bad_map = [1, 0, 0, 1, 0, 7, 1, 0, 8, 255, 255]"

lemma bad_map_elements:
  assumes v: "valid_slice h m" and b: "sl_bytes h m = bad_map"
  shows "sl_len m = 11" "getElementSize h m 6 = Some (Inr 1)" "getElementSize h m 0 = Some (Inr 1)"
    "\<exists>t. getElement h m 3 = Some (Inr (t, 6)) \<and> sl_bytes h t = [7]"
    "getElement h m 9 = Some (Inl ''map internals error'')"
proof -
  show len: "sl_len m = 11" using length_sl_bytes[OF v] b by (simp add: bad_map_def)
  have rd: "sl_read h m i (i + 2) = Some (take 2 (drop i bad_map))" if "i \<le> 9" for i
    using sl_read_inside[OF v, of i "i + 2"] len b that by simp
  have le: "le_nat [1, 0] = 1" by simp
  show "getElementSize h m 6 = Some (Inr 1)" "getElementSize h m 0 = Some (Inr 1)"
    using rd[of 6] rd[of 0] by (simp_all add: getElementSize_def bad_map_def ByteArrayToUI16_def)
  have "drop 3 (sl_bytes h m) = enc_elem [7] @ [1, 0, 8, 255, 255]"
    by (simp add: b bad_map_def enc_elem_def UInt16ToByteArray_def le_fixed_def numeral_2_eq_2)
  from getElement_at(3)[OF v this]
  show "\<exists>t. getElement h m 3 = Some (Inr (t, 6)) \<and> sl_bytes h t = [7]" by auto
  have "getElementSize h m 9 = Some (Inr 65535)"
    using rd[of 9] by (simp add: getElementSize_def bad_map_def ByteArrayToUI16_def)
  then show "getElement h m 9 = Some (Inl ''map internals error'')"
    by (simp add: getElement_def nextElementStartsAt_def getBytesOfElement_def len)
qed

lemma Map_containsLoop_bad:
  assumes v: "valid_slice h m" and b: "sl_bytes h m = bad_map" and k: "key \<noteq> []" "key \<noteq> [7]"
  shows "Map_containsLoop h m key 3 = None"
proof (rule ccontr)
  note e = bad_map_elements[OF v b]
  obtain t where t: "getElement h m 3 = Some (Inr (t, 6))" "sl_bytes h t = [7]" using e(4) by blast
  assume "Map_containsLoop h m key 3 \<noteq> None"
  then obtain r where ret: "Map_containsLoop h m key 3 = Some r" by blast
  let ?P = "\<lambda>h' m' key' i r. \<not> (h' = h \<and> m' = m \<and> key' = key \<and> (i = (3 :: nat) \<or> i = 9))"
  have "?P h m key 3 r"
  proof (rule Map_containsLoop.raw_induct [where P = ?P, OF _ ret], goal_cases)
    case (1 f h' m' key' i r')
    show ?case
    proof
      assume a: "h' = h \<and> m' = m \<and> key' = key \<and> (i = 3 \<or> i = 9)"
      have "f h m key 9 = Some r' \<or> f h m key 3 = Some r'"
        using 1(2) a t e k by (auto simp: nextElementStartsAt_def numeral_3_eq_3)
      with 1(1) show False by blast
    qed
  qed
  then show False by simp
qed

end
