(* ===== verification/VMObjects.thy ===== *)
theory VMObjects
  imports VMMap
begin

text \<open>
  Arrays and maps come from the evaluation stack, so a contract may hand any byte string to the
  operations of \<^verbatim>\<open>array.go\<close> and \<^verbatim>\<open>map.go\<close>. Here no encoding is assumed: whatever the bytes, an
  operation that does not panic extends the heap, returns a well-formed slice and lets it grow
  only by what it was given, and its error message is short.
\<close>

definition good :: "nat \<Rightarrow> heap \<Rightarrow> slice \<Rightarrow> bool" where
  "good n h s \<longleftrightarrow> valid_slice h s \<and> sl_len s \<le> n"

definition short :: "string \<Rightarrow> bool" where
  "short m \<longleftrightarrow> length m \<le> 1000"

definition obj_post :: "nat \<Rightarrow> heap \<Rightarrow> ('a \<Rightarrow> heap \<Rightarrow> bool) \<Rightarrow> heap \<times> slice \<times> (string + 'a) \<Rightarrow> bool" where
  "obj_post n h Q r \<longleftrightarrow> (case r of (h', a', v) \<Rightarrow>
     heap_ext h h' \<and> good n h' a' \<and> (case v of Inl m \<Rightarrow> short m | Inr x \<Rightarrow> Q x h'))"

lemma good_ext: "good n h s \<Longrightarrow> heap_ext h h' \<Longrightarrow> good n h' s"
  by (auto simp: good_def intro: valid_slice_ext)

lemma good_mono: "good n h s \<Longrightarrow> n \<le> m \<Longrightarrow> good m h s"
  by (simp add: good_def)

lemma good_append:
  assumes "good n h s" "sl_append g h s bs = (h', s')" "length bs \<le> k"
  shows "good (n + k) h' s'" "heap_ext h h'"
  using sl_append_props [OF assms(2)] assms by (auto simp: good_def)

lemma good_new: "sl_new h bs = (h', s) \<Longrightarrow> length bs \<le> n \<Longrightarrow> good n h' s"
  "sl_new h bs = (h', s) \<Longrightarrow> heap_ext h h'"
  using sl_new_props by (auto simp: good_def)

lemma good_nil [simp]: "good n h nil_slice"
  by (simp add: good_def) (simp add: nil_slice_def)

lemma sl_set_ext: "sl_set h s i b = Some h' \<Longrightarrow> heap_ext h h'"
  using heap_ext_refl [of h]
  by (cases "sl_arr s < length h")
    (auto simp: sl_set_def heap_ext_def nth_list_update split: if_splits)

lemma setSize_ext: "setSize h a ba = Some h' \<Longrightarrow> heap_ext h h'"
  by (auto simp: setSize_def split: option.splits dest!: sl_set_ext intro: heap_ext_trans)

lemma sl_read_len: "sl_read h s i j = Some bs \<Longrightarrow> length bs \<le> j - i"
proof -
  assume "sl_read h s i j = Some bs"
  then obtain t where "sl_sub s i j = Some t" "bs = sl_bytes h t" by (auto simp: sl_read_def)
  then show ?thesis using length_sl_bytes_le [of h t] by (simp add: sl_sub_props(3))
qed

lemma u16_le: "unat (x :: u16) \<le> 65535"
  using unat_u16_lt [of x] by linarith

lemma Array_getSize_short: "Array_getSize h a = Some (Inl m) \<Longrightarrow> short m"
  by (auto simp: Array_getSize_def short_def split: if_splits option.splits sum.splits)

lemma ByteArrayToUI16_short: "ByteArrayToUI16 bs = Inl m \<Longrightarrow> short m"
  by (auto simp: ByteArrayToUI16_def short_def split: if_splits)

lemma Array_IncrementSize_post:
  "good n h a \<Longrightarrow> Array_IncrementSize h a = Some r \<Longrightarrow> obj_post n h (\<lambda>_ _. True) r"
  by (auto simp: Array_IncrementSize_def obj_post_def short_def split: option.splits sum.splits
      intro: good_ext dest!: setSize_ext)

lemma Array_DecrementSize_post:
  "good n h a \<Longrightarrow> Array_DecrementSize h a = Some r \<Longrightarrow> obj_post n h (\<lambda>_ _. True) r"
  by (auto simp: Array_DecrementSize_def obj_post_def split: option.splits sum.splits if_splits
      intro: good_ext Array_getSize_short dest!: setSize_ext) (simp add: short_def)

lemma obj_post_trans:
  assumes "heap_ext h h1" "obj_post n h1 Q r"
  shows "obj_post n h Q r"
  using assms by (auto simp: obj_post_def intro: heap_ext_trans)

lemma obj_post_mono: "obj_post n h Q r \<Longrightarrow> n \<le> m \<Longrightarrow> obj_post m h Q r"
  by (auto simp: obj_post_def intro: good_mono)

lemma Array_Append_post:
  assumes "good n h a" "good k h ba" "Array_Append g h a ba = Some r"
  shows "obj_post (n + (2 + k)) h (\<lambda>_ _. True) r"
proof (cases "sl_len ba > UINT16_MAX")
  case True
  with assms show ?thesis
    by (auto simp: Array_Append_def obj_post_def short_def intro: good_mono)
next
  case False
  let ?bs = "UInt16ToByteArray (word_of_nat (sl_len ba)) @ sl_bytes h ba"
  obtain h1 a1 where ap: "sl_append g h a ?bs = (h1, a1)" by fastforce
  have "length ?bs \<le> 2 + k" using assms(2) by (simp add: good_def)
  note ga = good_append [OF assms(1) ap this]
  from False assms(3) ap have "Array_IncrementSize h1 a1 = Some r"
    by (simp add: Array_Append_def Let_def)
  from obj_post_trans [OF ga(2) Array_IncrementSize_post [OF ga(1) this]] show ?thesis .
qed

lemma Array_goLoop_short: "Array_goLoop h a index cur i = Some (Inl m) \<Longrightarrow> short m"
proof (induction h a index cur i rule: Array_goLoop.induct)
  case (1 h a index cur i)
  from "1.prems" show ?case
    by (subst (asm) Array_goLoop.simps)
      (auto split: if_splits option.splits sum.splits simp: short_def [of "_ # _"]
        intro: ByteArrayToUI16_short "1.IH")
qed

lemma Array_goToIndex_post:
  assumes "good n h a" "Array_goToIndex h a index f = Some r"
    and "\<And>i s r. f h a i s = Some r \<Longrightarrow> obj_post n h Q r"
  shows "obj_post n h Q r"
  using assms(2,1) unfolding Array_goToIndex_def
  by (auto split: option.splits sum.splits if_splits intro: assms(3))
    (auto simp: obj_post_def intro: Array_getSize_short Array_goLoop_short, simp_all add: short_def)

lemma sl_sub_good: "sl_sub s i j = Some t \<Longrightarrow> good n h s \<Longrightarrow> j - i \<le> m \<Longrightarrow> good m h t"
  using sl_sub_props(3,4) [of s i j t] by (simp add: good_def)

lemma Array_At_post:
  assumes "good n h a" "Array_At h a index = Some r"
  shows "obj_post n h (\<lambda>x h'. good 65535 h' x) r"
proof (rule Array_goToIndex_post [OF assms(1) assms(2) [unfolded Array_At_def]])
  fix i s :: u16 and r :: "heap \<times> slice \<times> (string + slice)"
  have le: "unat x - k \<le> 65535" for x :: u16 and k
    using unat_u16_lt [of x] by linarith
  assume "map_option (\<lambda>r. (h, a, Inr r)) (sl_sub a (unat (i + 2)) (unat (i + 2 + s))) = Some r"
  with assms(1) show "obj_post n h (\<lambda>x h'. good 65535 h' x) r"
    by (auto simp: obj_post_def intro!: sl_sub_good [OF _ assms(1)] le)
qed

text \<open>A new slice built from two appended pieces, as the removals do.\<close>

lemma rebuild_good:
  assumes "sl_new h [] = (h1, t1)" "sl_append g h1 t1 front = (h2, t2)" "sl_append g h2 t2 rear = (h3, t3)"
    and "length front \<le> k" "length rear \<le> l"
  shows "good (k + l) h3 t3" "heap_ext h h3"
proof -
  have "good 0 h1 t1" using good_new(1) [OF assms(1)] by simp
  from good_append [OF this assms(2,4)] have 2: "good k h2 t2" "heap_ext h1 h2" by simp_all
  from good_append [OF 2(1) assms(3,5)] show "good (k + l) h3 t3" "heap_ext h h3"
    using 2(2) good_new(2) [OF assms(1)] by (auto intro: heap_ext_trans)
qed

lemma Array_Remove_post:
  assumes "good n h a" "Array_Remove g h a index = Some r"
  shows "obj_post (65535 + n) h (\<lambda>_ _. True) r"
proof -
  let ?f = "\<lambda>h a k s. case (sl_read h a 0 (unat k), sl_read h a (unat (k + 2 + s)) (sl_len a)) of
             (Some front, Some rear) \<Rightarrow>
               let (h, tmp) = sl_new h [];
                   (h, tmp) = sl_append g h tmp front;
                   (h, a) = sl_append g h tmp rear
               in Some (h, a, Inr ())
           | _ \<Rightarrow> None"
  have go: "obj_post (65535 + n) h (\<lambda>_ _. True) r'"
    if "Array_goToIndex h a index ?f = Some r'" for r' :: "heap \<times> slice \<times> (string + unit)"
  proof (rule Array_goToIndex_post [OF good_mono [OF assms(1)] that])
    fix i s :: u16 and q :: "heap \<times> slice \<times> (string + unit)"
    assume "?f h a i s = Some q"
    then obtain front rear where fb: "sl_read h a 0 (unat i) = Some front"
        "sl_read h a (unat (i + 2 + s)) (sl_len a) = Some rear"
      and q: "(let (h, tmp) = sl_new h []; (h, tmp) = sl_append g h tmp front;
                (h, a) = sl_append g h tmp rear in Some (h, a, Inr ())) = Some q"
      by (auto split: option.splits)
    have len: "length front \<le> 65535" "length rear \<le> n"
      using sl_read_len [OF fb(1)] sl_read_len [OF fb(2)] u16_le [of i] assms(1)
      unfolding good_def by linarith+
    from q show "obj_post (65535 + n) h (\<lambda>_ _. True) q"
      by (auto simp: obj_post_def Let_def split: prod.splits dest: rebuild_good [OF _ _ _ len])
  qed simp
  from assms(2) obtain h' a' e where r': "Array_goToIndex h a index ?f = Some (h', a', e)"
      "case e of Inl m \<Rightarrow> r = (h', a', Inl m) | Inr _ \<Rightarrow> Array_DecrementSize h' a' = Some r"
    unfolding Array_Remove_def by (auto split: option.splits sum.splits)
  from go [OF r'(1)] r'(2) show ?thesis
    by (auto simp: obj_post_def [of _ _ _ "(h', a', e)"] split: sum.splits
        intro: obj_post_trans Array_DecrementSize_post) (simp add: obj_post_def)
qed

lemma Array_Insert_post:
  assumes "good n h a" "good k h el" "Array_Insert g h a index el = Some r"
  shows "obj_post (65535 + (2 + k) + (65535 + n)) h (\<lambda>_ _. True) r"
proof -
  let ?f = "\<lambda>h a i s. case (sl_read h a 0 (unat i), sl_read h a (unat i) (sl_len a)) of
                 (Some front, Some rear) \<Rightarrow>
                   let (h, tmp) = sl_new h [];
                       (h, tmp) = sl_append g h tmp front
                   in (case Array_Append g h tmp el of
                         None \<Rightarrow> None
                       | Some (h, tmp, _) \<Rightarrow>
                           let (h, a) = sl_append g h tmp rear in Some (h, a, Inr ()))
               | _ \<Rightarrow> None"
  let ?N = "65535 + (2 + k) + (65535 + n)"
  from assms(3) obtain h1 a1 e where rm: "Array_Remove g h a index = Some (h1, a1, e)"
      "case e of Inl m \<Rightarrow> r = (h1, a1, Inl m) | Inr _ \<Rightarrow> Array_goToIndex h1 a1 index ?f = Some r"
    unfolding Array_Insert_def by (auto split: option.splits sum.splits)
  note p = Array_Remove_post [OF assms(1) rm(1)]
  then have e1: "heap_ext h h1" "good (65535 + n) h1 a1" by (auto simp: obj_post_def)
  show ?thesis
  proof (cases e)
    case (Inl m)
    with p rm(2) show ?thesis by (auto simp: obj_post_def intro: good_mono)
  next
    case (Inr u)
    with rm(2) have go: "Array_goToIndex h1 a1 index ?f = Some r" by simp
    have "obj_post ?N h1 (\<lambda>_ _. True) r"
    proof (rule Array_goToIndex_post [OF good_mono [OF e1(2)] go])
      fix i s :: u16 and q :: "heap \<times> slice \<times> (string + unit)"
      assume "?f h1 a1 i s = Some q"
      then obtain front rear h2 t2 h3 t3 h4 t4 x h5 t5
        where fb: "sl_read h1 a1 0 (unat i) = Some front" "sl_read h1 a1 (unat i) (sl_len a1) = Some rear"
          and st: "sl_new h1 [] = (h2, t2)" "sl_append g h2 t2 front = (h3, t3)"
            "Array_Append g h3 t3 el = Some (h4, t4, x)" "sl_append g h4 t4 rear = (h5, t5)"
          and q: "q = (h5, t5, Inr ())"
        by (auto simp: Let_def split: option.splits prod.splits)
      have len: "length front \<le> 65535" "length rear \<le> 65535 + n"
        using sl_read_len [OF fb(1)] sl_read_len [OF fb(2)] u16_le [of i] e1(2)
        unfolding good_def by linarith+
      have e2: "heap_ext h1 h2" "good 0 h2 t2" using good_new [OF st(1)] by simp_all
      from good_append [OF e2(2) st(2) len(1)] have e3: "good 65535 h3 t3" "heap_ext h2 h3" by simp_all
      have "good k h3 el" using assms(2) e1 e2 e3 by (meson good_ext)
      from Array_Append_post [OF e3(1) this st(3)]
      have e4: "good (65535 + (2 + k)) h4 t4" "heap_ext h3 h4" by (auto simp: obj_post_def)
      from good_append [OF e4(1) st(4) len(2)] have e5: "good ?N h5 t5" "heap_ext h4 h5" by simp_all
      with e2 e3 e4 show "obj_post ?N h1 (\<lambda>_ _. True) q"
        by (auto simp: obj_post_def q intro: heap_ext_trans)
    qed simp
    with e1(1) show ?thesis by (rule obj_post_trans)
  qed
qed

subsection \<open>Maps\<close>

lemma getElement_short: "getElement h m i = Some (Inl e) \<Longrightarrow> short e"
  by (auto simp: getElement_def getElementSize_def getBytesOfElement_def Let_def
      split: option.splits sum.splits if_splits dest!: ByteArrayToUI16_short)
    (simp_all add: short_def)

lemma getElementSize_short: "getElementSize h m i = Some (Inl e) \<Longrightarrow> short e"
  by (auto simp: getElementSize_def intro: ByteArrayToUI16_short)

lemma getElement_good: "getElement h m i = Some (Inr (k, j)) \<Longrightarrow> good n h m \<Longrightarrow> good 65535 h k"
proof -
  assume a: "getElement h m i = Some (Inr (k, j))" "good n h m"
  then obtain sz where "sl_sub m (i + 2) (nextElementStartsAt i sz) = Some k"
    by (auto simp: getElement_def getBytesOfElement_def Let_def
        split: option.splits sum.splits if_splits)
  from sl_sub_good [OF this a(2), of 65535] show ?thesis
    using unat_u16_lt [of sz] by (simp add: nextElementStartsAt_def)
qed

lemma Map_getValLoop_post:
  "good n h m \<Longrightarrow> Map_getValLoop h m key i = Some r \<Longrightarrow>
   (case r of Inl e \<Rightarrow> short e | Inr v \<Rightarrow> good 65535 h v)"
proof (induction h m key i rule: Map_getValLoop.induct)
  case (1 h m key i)
  from "1.prems" show ?case
    by (subst (asm) Map_getValLoop.simps)
      (auto split: if_splits option.splits sum.splits prod.splits dest: "1.IH"
        intro: getElement_short getElement_good simp: short_def [of "_ # _"])
qed

lemma Map_IncrementSize_ext: "Map_IncrementSize h m = Some h' \<Longrightarrow> heap_ext h h'"
  by (auto simp: Map_IncrementSize_def split: option.splits sum.splits dest: setSize_ext)

lemma Map_DecrementSize_ext: "Map_DecrementSize h m = Some (h', r) \<Longrightarrow> heap_ext h h'"
  by (auto simp: Map_DecrementSize_def split: option.splits sum.splits if_splits dest: setSize_ext)

lemma Map_Append_post:
  assumes "good n h m" "good k h key" "good l h v" "Map_Append g h m key v = Some r"
  shows "obj_post (n + 2 + k + 2 + l) h (\<lambda>_ _. True) r"
proof (cases "sl_len key > UINT16_MAX \<or> sl_len v > UINT16_MAX")
  case True
  with assms show ?thesis
    by (auto simp: Map_Append_def obj_post_def short_def intro: good_mono)
next
  case False
  let ?kl = "UInt16ToByteArray (word_of_nat (sl_len key))"
  let ?vl = "UInt16ToByteArray (word_of_nat (sl_len v))"
  obtain h1 t1 where s1: "sl_append g h m ?kl = (h1, t1)" by fastforce
  obtain h2 t2 where s2: "sl_append g h1 t1 (sl_bytes h1 key) = (h2, t2)" by fastforce
  obtain h3 t3 where s3: "sl_append g h2 t2 ?vl = (h3, t3)" by fastforce
  obtain h4 t4 where s4: "sl_append g h3 t3 (sl_bytes h3 v) = (h4, t4)" by fastforce
  have kl: "length (sl_bytes h1 key) \<le> k" "length (sl_bytes h3 v) \<le> l"
    using assms(2,3) length_sl_bytes_le [of h1 key] length_sl_bytes_le [of h3 v]
    unfolding good_def by linarith+
  from good_append [OF assms(1) s1, of 2] have e1: "good (n + 2) h1 t1" "heap_ext h h1"
    by (simp_all del: add_2_eq_Suc')
  from good_append [OF e1(1) s2 kl(1)] have e2: "good (n + 2 + k) h2 t2" "heap_ext h1 h2" .
  from good_append [OF e2(1) s3, of 2] have e3: "good (n + 2 + k + 2) h3 t3" "heap_ext h2 h3"
    by (simp_all del: add_2_eq_Suc')
  from good_append [OF e3(1) s4 kl(2)] have e4: "good (n + 2 + k + 2 + l) h4 t4" "heap_ext h3 h4" .
  from False assms(4) s1 s2 s3 s4 obtain h5 where r: "Map_IncrementSize h4 t4 = Some h5"
      "r = (h5, t4, Inr ())"
    by (auto simp: Map_Append_def Let_def)
  with e1 e2 e3 e4 Map_IncrementSize_ext [OF r(1)] show ?thesis
    by (simp add: obj_post_def) (meson heap_ext_trans good_ext)
qed

lemma Map_removeLoop_post:
  "good n h m \<Longrightarrow> Map_removeLoop g h m key i = Some r \<Longrightarrow>
   obj_post (n + n) h (\<lambda>_ _. True) r"
proof (induction g h m key i rule: Map_removeLoop.induct)
  case (1 g h m key i)
  have keep: "good (n + n) h m" using "1.prems"(1) by (rule good_mono) simp
  have hit: "obj_post (n + n) h (\<lambda>_ _. True) r'"
    if i: "i < sl_len m" and fb: "sl_read h m 0 i = Some front" "sl_read h m j (sl_len m) = Some rear"
      and r': "(let (h, tmp) = sl_new h []; (h, tmp) = sl_append g h tmp front;
              (h, m) = sl_append g h tmp rear
            in map_option (\<lambda>(h, _). (h, m, Inr ())) (Map_DecrementSize h m)) = Some r'"
    for front rear j and r' :: "heap \<times> slice \<times> (string + unit)"
  proof -
    have len: "length front \<le> n" "length rear \<le> n"
      using sl_read_len [OF fb(1)] sl_read_len [OF fb(2)] i "1.prems"(1) unfolding good_def
      by linarith+
    obtain h1 t1 h2 t2 h3 t3 h4 e where s: "sl_new h [] = (h1, t1)" "sl_append g h1 t1 front = (h2, t2)"
        "sl_append g h2 t2 rear = (h3, t3)" "Map_DecrementSize h3 t3 = Some (h4, e)"
        "r' = (h4, t3, Inr ())"
      using r' by (auto simp: Let_def split: prod.splits)
    from rebuild_good [OF s(1-3) len] Map_DecrementSize_ext [OF s(4)] show ?thesis
      by (auto simp: obj_post_def s(5) intro: good_ext good_mono heap_ext_trans)
  qed
  show ?case
  proof (cases "i < sl_len m \<and> sl_len m \<noteq> 3")
    case False
    with "1.prems" keep show ?thesis
      by (subst (asm) Map_removeLoop.simps) (auto simp: obj_post_def short_def split: if_splits)
  next
    case True
    then have i: "i < sl_len m" by simp
    note prems = "1.prems"(2) [unfolded Map_removeLoop.simps [of g h m key i]]
    show ?thesis
    proof (cases "getElement h m i")
      case None
      with True prems show ?thesis by simp
    next
      case (Some ge)
      show ?thesis
      proof (cases ge)
        case (Inl e)
        with Some True prems keep getElement_short [of h m i e] show ?thesis
          by (auto simp: obj_post_def)
      next
        case (Inr ke)
        obtain k j where ke: "ke = (k, j)" by fastforce
        show ?thesis
          using prems True Some Inr ke keep "1.IH" [OF i _ Some Inr ke [symmetric]] "1.prems"(1)
          by (auto simp: Let_def intro: hit [OF i] split: option.splits sum.splits if_splits)
            (auto simp: obj_post_def short_def [of "_ # _"] dest: getElementSize_short)
      qed
    qed
  qed
qed

lemma Map_Remove_post:
  "good n h m \<Longrightarrow> Map_Remove g h m key = Some r \<Longrightarrow> obj_post (n + n) h (\<lambda>_ _. True) r"
  unfolding Map_Remove_def by (rule Map_removeLoop_post)

lemma Map_SetVal_post:
  assumes "good n h m" "good k h key" "good l h v" "Map_SetVal g h m key v = Some r"
  shows "obj_post (n + n + 2 + k + 2 + l) h (\<lambda>_ _. True) r"
proof -
  from assms(4) obtain h1 m1 e h2 m2 e2 where s: "Map_Remove g h m key = Some (h1, m1, e)"
      "Map_Append g h1 m1 key v = Some (h2, m2, e2)" "r = (h2, m2, e)"
    by (auto simp: Map_SetVal_def split: option.splits)
  have 1: "heap_ext h h1" "good (n + n) h1 m1" "case e of Inl m \<Rightarrow> short m | Inr _ \<Rightarrow> True"
    using Map_Remove_post [OF assms(1) s(1)] by (auto simp: obj_post_def)
  from Map_Append_post [OF 1(2) good_ext [OF assms(2) 1(1)] good_ext [OF assms(3) 1(1)] s(2)]
  show ?thesis using 1 s(3) by (auto simp: obj_post_def intro: heap_ext_trans)
qed

lemma Map_containsLoop_post:
  assumes "Map_containsLoop h m key i = Some (Some (Inl e))"
  shows "short e"
proof -
  have "r = Some (Inl e) \<longrightarrow> short e" if "Map_containsLoop h m key i = Some r" for r
  proof (rule Map_containsLoop.raw_induct [of "\<lambda>h m key i r. r = Some (Inl e) \<longrightarrow> short e",
        OF _ that], goal_cases)
    case (1 loop h m key i r)
    from "1"(2) show ?case
      by (auto split: if_splits option.splits sum.splits simp: Let_def short_def [of "_ # _"]
          intro: getElementSize_short dest: "1"(1))
  qed
  with assms show ?thesis by blast
qed

lemma MapContainsKey_post: "MapContainsKey h m key = Some (Some (Inl e)) \<Longrightarrow> short e"
  unfolding MapContainsKey_def by (rule Map_containsLoop_post)

end
