(* ===== verification/VMStack.thy ===== *)
theory VMStack
  imports GoSlice VMUtils
begin

text \<open>
  \<^verbatim>\<open>src/vm/stack.go\<close> and \<^verbatim>\<open>src/vm/call_stack.go\<close>. The last element of a list is the top, as in
  the code. The evaluation stack accounts the bytes it holds in a 32-bit counter and refuses a
  push beyond its limit of one million bytes. Both stacks are instances of the interface
  \<open>lifo\<close>.
\<close>

record Stack =
  stk :: "slice list"
  memoryUsage :: u32
  memoryMax :: u32

definition NewStack :: Stack where
  "NewStack = \<lparr>stk = [], memoryUsage = 0, memoryMax = 1000000\<rparr>"

definition GetLength :: "Stack \<Rightarrow> nat" where
  "GetLength s = length (stk s)"

definition hasEnoughMemory :: "Stack \<Rightarrow> nat \<Rightarrow> bool" where
  "hasEnoughMemory s elementSize \<longleftrightarrow> word_of_nat elementSize + memoryUsage s \<le> memoryMax s"

definition Stack_Push :: "Stack \<Rightarrow> slice \<Rightarrow> Stack \<times> string option" where
  "Stack_Push s element =
     (if hasEnoughMemory s (sl_len element)
      then (s\<lparr>memoryUsage := memoryUsage s + word_of_nat (sl_len element),
              stk := stk s @ [element]\<rparr>, None)
      else (s, Some ''Stack out of memory''))"

text \<open>The guard lets \<^verbatim>\<open>index = GetLength()\<close> through: the access then panics.\<close>

definition PopIndexAt :: "Stack \<Rightarrow> int \<Rightarrow> (Stack \<times> (string + slice)) option" where
  "PopIndexAt s index =
     (if int (GetLength s) \<ge> index
      then (if 0 \<le> index \<and> index < int (GetLength s)
            then let i = nat index; element = stk s ! i in
                 Some (s\<lparr>memoryUsage := memoryUsage s - word_of_nat (sl_len element),
                         stk := take i (stk s) @ drop (Suc i) (stk s)\<rparr>, Inr element)
            else None)
      else Some (s, Inl ''index out of bounds''))"

definition Stack_Pop :: "Stack \<Rightarrow> Stack \<times> (string + slice)" where
  "Stack_Pop s =
     (if GetLength s > 0
      then let element = last (stk s) in
           (s\<lparr>memoryUsage := memoryUsage s - word_of_nat (sl_len element),
              stk := butlast (stk s)\<rparr>, Inr element)
      else (s, Inl ''pop() on empty stack''))"

definition PeekBytes :: "Stack \<Rightarrow> string + slice" where
  "PeekBytes s = (if GetLength s > 0 then Inr (last (stk s)) else Inl ''peek() on empty Stack'')"

record Frame =
  variables :: "int \<Rightarrow> int option"
  returnAddress :: nat

record CallStack =
  cs_values :: "Frame list"

definition NewCallStack :: CallStack where
  "NewCallStack = \<lparr>cs_values = []\<rparr>"

definition CallStack_GetLength :: "CallStack \<Rightarrow> nat" where
  "CallStack_GetLength cs = length (cs_values cs)"

definition CallStack_Push :: "CallStack \<Rightarrow> Frame \<Rightarrow> CallStack" where
  "CallStack_Push cs element = cs\<lparr>cs_values := cs_values cs @ [element]\<rparr>"

definition CallStack_Pop :: "CallStack \<Rightarrow> CallStack \<times> (string + Frame)" where
  "CallStack_Pop cs =
     (if CallStack_GetLength cs > 0
      then (cs\<lparr>cs_values := butlast (cs_values cs)\<rparr>, Inr (last (cs_values cs)))
      else (cs, Inl ''pop() on empty callStack''))"

definition CallStack_Peek :: "CallStack \<Rightarrow> string + Frame" where
  "CallStack_Peek cs =
     (if CallStack_GetLength cs > 0 then Inr (last (cs_values cs))
      else Inl ''peek() on empty callStack'')"

text \<open>
  \<^verbatim>\<open>Peek\<close> returns a pointer, through which the \<^verbatim>\<open>STORE\<close> instruction updates the variables of the
  frame on top.
\<close>

definition CallStack_SetTop :: "CallStack \<Rightarrow> Frame \<Rightarrow> CallStack" where
  "CallStack_SetTop cs f =
     (if cs_values cs = [] then cs else cs\<lparr>cs_values := butlast (cs_values cs) @ [f]\<rparr>)"

subsection \<open>The stack interface\<close>

locale lifo =
  fixes push :: "'s \<Rightarrow> 'e \<Rightarrow> 's \<times> string option"
    and pop :: "'s \<Rightarrow> 's \<times> (string + 'e)"
    and peek :: "'s \<Rightarrow> string + 'e"
    and elems :: "'s \<Rightarrow> 'e list"
    and inv :: "'s \<Rightarrow> bool"
    and fits :: "'e \<Rightarrow> bool"
  assumes push_ok: "inv s \<Longrightarrow> fits e \<Longrightarrow> push s e = (s', None) \<Longrightarrow> inv s' \<and> elems s' = elems s @ [e]"
    and push_err: "push s e = (s', Some m) \<Longrightarrow> s' = s"
    and pop_ok: "inv s \<Longrightarrow> pop s = (s', Inr e) \<Longrightarrow> inv s' \<and> elems s = elems s' @ [e]"
    and pop_err: "pop s = (s', Inl m) \<Longrightarrow> s' = s \<and> elems s = []"
    and peek_ok: "peek s = Inr e \<longleftrightarrow> elems s \<noteq> [] \<and> last (elems s) = e"
begin

lemma pop_push:
  assumes "inv s" "fits e" "push s e = (s', None)"
  shows "\<exists>s''. pop s' = (s'', Inr e) \<and> inv s'' \<and> elems s'' = elems s"
proof -
  have s': "inv s'" "elems s' = elems s @ [e]" using push_ok [OF assms] by auto
  obtain s'' r where r: "pop s' = (s'', r)" by fastforce
  show ?thesis
  proof (cases r)
    case (Inl m)
    with r pop_err s' show ?thesis by force
  next
    case (Inr x)
    with r pop_ok [of s' s'' x] s' show ?thesis by auto
  qed
qed

lemma peek_push:
  "inv s \<Longrightarrow> fits e \<Longrightarrow> push s e = (s', None) \<Longrightarrow> peek s' = Inr e"
  using push_ok by (simp add: peek_ok)

lemma pop_peek: "inv s \<Longrightarrow> pop s = (s', Inr e) \<Longrightarrow> peek s = Inr e"
  using pop_ok [of s s' e] by (simp add: peek_ok)

lemma pop_empty_iff: "inv s \<Longrightarrow> (\<exists>s' m. pop s = (s', Inl m)) \<longleftrightarrow> elems s = []"
proof
  assume "\<exists>s' m. pop s = (s', Inl m)"
  then show "elems s = []" using pop_err by blast
next
  assume i: "inv s" and e: "elems s = []"
  show "\<exists>s' m. pop s = (s', Inl m)"
  proof (cases "pop s")
    case (Pair s' r)
    with i e pop_ok [of s s'] show ?thesis by (cases r) auto
  qed
qed

end

text \<open>
  The accounting invariant of the evaluation stack: the counter is the exact number of bytes
  held (no wrap-around) and stays below the limit. \<open>elem_bound\<close> is more than any instruction
  ever pushes and keeps the 32-bit sum of \<^verbatim>\<open>hasEnoughMemory\<close> from overflowing.
\<close>

definition elem_bound :: nat where
  "elem_bound = 4000000000"

definition stack_ok :: "Stack \<Rightarrow> bool" where
  "stack_ok s \<longleftrightarrow> memoryMax s = 1000000 \<and> memoryUsage s \<le> memoryMax s \<and>
     unat (memoryUsage s) = sum_list (map sl_len (stk s))"

lemma stack_ok_total: "stack_ok s \<Longrightarrow> sum_list (map sl_len (stk s)) \<le> 1000000"
  by (auto simp: stack_ok_def word_le_nat_alt)

lemma stack_ok_elem: "stack_ok s \<Longrightarrow> x \<in> set (stk s) \<Longrightarrow> sl_len x \<le> 1000000"
  using member_le_sum[of x "stk s" sl_len] stack_ok_total[of s] by linarith

lemma stack_ok_New [simp]: "stack_ok NewStack"
  by (simp add: stack_ok_def NewStack_def)

lemma hasEnoughMemory_iff:
  assumes "stack_ok s" "n \<le> elem_bound"
  shows "hasEnoughMemory s n \<longleftrightarrow> sum_list (map sl_len (stk s)) + n \<le> 1000000"
proof -
  have u: "unat (memoryUsage s) \<le> 1000000" "unat (memoryUsage s) = sum_list (map sl_len (stk s))"
    using stack_ok_total[OF assms(1)] assms(1) by (auto simp: stack_ok_def)
  have n: "n < 4294967296" "n \<le> 4000000000" using assms(2) by (simp_all add: elem_bound_def)
  have "unat (word_of_nat n + memoryUsage s :: u32) = n + unat (memoryUsage s)"
    using u n by (subst unat_plus_if') (simp add: unat_of_nat)
  then show ?thesis
    using assms(1) u by (auto simp: hasEnoughMemory_def word_le_nat_alt stack_ok_def)
qed

lemma stack_ok_Push:
  assumes "stack_ok s" "sl_len e \<le> elem_bound" "Stack_Push s e = (s', r)"
  shows "stack_ok s'" "r = None \<Longrightarrow> stk s' = stk s @ [e]" "r \<noteq> None \<Longrightarrow> s' = s"
proof -
  have "stack_ok s'"
  proof (cases "hasEnoughMemory s (sl_len e)")
    case True
    then have le: "sum_list (map sl_len (stk s)) + sl_len e \<le> 1000000"
      using hasEnoughMemory_iff[OF assms(1,2)] by simp
    have n: "sl_len e < 4294967296" using assms(2) by (simp add: elem_bound_def)
    have "unat (memoryUsage s + word_of_nat (sl_len e)) = unat (memoryUsage s) + sl_len e"
      using le n assms(1) by (subst unat_plus_if') (auto simp: unat_of_nat stack_ok_def)
    then show ?thesis
      using True assms le by (auto simp: Stack_Push_def stack_ok_def word_le_nat_alt)
  next
    case False
    then show ?thesis using assms by (auto simp: Stack_Push_def)
  qed
  then show "stack_ok s'" .
  show "r = None \<Longrightarrow> stk s' = stk s @ [e]" "r \<noteq> None \<Longrightarrow> s' = s"
    using assms(3) by (auto simp: Stack_Push_def split: if_splits)
qed

lemma unat_sub_elem:
  assumes "stack_ok s" "x \<in> set (stk s)"
  shows "unat (memoryUsage s - word_of_nat (sl_len x)) = unat (memoryUsage s) - sl_len x"
    "sl_len x \<le> unat (memoryUsage s)"
proof -
  show le: "sl_len x \<le> unat (memoryUsage s)"
    using assms member_le_sum[of x "stk s" sl_len] by (simp add: stack_ok_def)
  have "sl_len x < 4294967296" using stack_ok_elem[OF assms] by simp
  then have "unat (word_of_nat (sl_len x) :: u32) = sl_len x" by (simp add: unat_of_nat)
  with le show "unat (memoryUsage s - word_of_nat (sl_len x)) = unat (memoryUsage s) - sl_len x"
    by (subst unat_sub) (simp_all add: word_le_nat_alt)
qed

lemma stack_ok_Pop:
  assumes "stack_ok s" "Stack_Pop s = (s', r)"
  shows "stack_ok s'" "r = Inr e \<Longrightarrow> stk s = stk s' @ [e]"
    "r = Inr e \<Longrightarrow> e \<in> set (stk s)" "r = Inl m \<Longrightarrow> s' = s \<and> stk s = []"
proof -
  show "stack_ok s'"
  proof (cases "stk s = []")
    case True
    then show ?thesis using assms by (simp add: Stack_Pop_def GetLength_def)
  next
    case False
    then have m: "last (stk s) \<in> set (stk s)" by simp
    note u = unat_sub_elem[OF assms(1) m]
    have "sum_list (map sl_len (butlast (stk s))) + sl_len (last (stk s)) = sum_list (map sl_len (stk s))"
      using False by (rule sum_list_append_butlast)
    then show ?thesis using assms False u
      by (auto simp: Stack_Pop_def GetLength_def stack_ok_def word_le_nat_alt Let_def)
  qed
  show "r = Inr e \<Longrightarrow> stk s = stk s' @ [e]" "r = Inr e \<Longrightarrow> e \<in> set (stk s)"
    "r = Inl m \<Longrightarrow> s' = s \<and> stk s = []"
    using assms(2) by (auto simp: Stack_Pop_def GetLength_def Let_def split: if_splits)
qed

lemma stack_ok_PopIndexAt:
  assumes "stack_ok s" "PopIndexAt s i = Some (s', r)"
  shows "stack_ok s'" "r = Inr e \<Longrightarrow> e \<in> set (stk s)"
    "set (stk s') \<subseteq> set (stk s)" "r = Inl m \<Longrightarrow> s' = s"
proof -
  show "stack_ok s'"
  proof (cases "0 \<le> i \<and> i < int (GetLength s)")
    case True
    then have i: "nat i < length (stk s)" by (simp add: GetLength_def nat_less_iff)
    then have m: "stk s ! nat i \<in> set (stk s)" by simp
    note u = unat_sub_elem[OF assms(1) m]
    let ?rest = "sum_list (map sl_len (take (nat i) (stk s))) +
        sum_list (map sl_len (drop (Suc (nat i)) (stk s)))"
    have "sum_list (map sl_len (stk s)) - sl_len (stk s ! nat i) = ?rest" "?rest \<le> 1000000"
      using sum_list_remove_nth[OF i, of sl_len] stack_ok_total[OF assms(1)] by simp_all
    then show ?thesis using assms True u
      by (auto simp: PopIndexAt_def stack_ok_def word_le_nat_alt Let_def)
  next
    case False
    then show ?thesis using assms by (auto simp: PopIndexAt_def split: if_splits)
  qed
  show "r = Inr e \<Longrightarrow> e \<in> set (stk s)" "r = Inl m \<Longrightarrow> s' = s"
    using assms(2) by (auto simp: PopIndexAt_def GetLength_def Let_def nat_less_iff split: if_splits)
  show "set (stk s') \<subseteq> set (stk s)"
    using assms(2)
    by (auto simp: PopIndexAt_def Let_def split: if_splits dest: in_set_takeD in_set_dropD)
qed

interpretation ev: lifo Stack_Push Stack_Pop PeekBytes stk stack_ok "\<lambda>e. sl_len e \<le> elem_bound"
proof unfold_locales
  fix s e s'
  assume "stack_ok s" "sl_len e \<le> elem_bound" "Stack_Push s e = (s', None)"
  then show "stack_ok s' \<and> stk s' = stk s @ [e]" using stack_ok_Push by blast
next
  fix s s' e
  assume "stack_ok s" "Stack_Pop s = (s', Inr e)"
  then show "stack_ok s' \<and> stk s = stk s' @ [e]" using stack_ok_Pop by blast
qed (auto simp: Stack_Push_def Stack_Pop_def PeekBytes_def GetLength_def Let_def split: if_splits)

interpretation cs: lifo "\<lambda>s e. (CallStack_Push s e, None)" CallStack_Pop CallStack_Peek cs_values
    "\<lambda>_. True" "\<lambda>_. True"
  by unfold_locales
    (auto simp: CallStack_Push_def CallStack_Pop_def CallStack_Peek_def CallStack_GetLength_def
      split: if_splits)

end
