(* ===== verification/VMOpCodes.thy ===== *)
theory VMOpCodes
  imports Prelude
begin

text \<open>\<^verbatim>\<open>src/vm/op_codes.go\<close>: the instructions of the machine and their table of names and prices.\<close>

datatype Op =
    PUSH | DUP | ROLL | POP | ADD | SUB | MULT | DIV | MOD | NEG
  | EQ | NEQ | LT | GT | LTE | GTE | SHIFTL | SHIFTR | NOP | JMP
  | JMPIF | CALL | CALLIF | CALLEXT | RET | SIZE | STORE | SSTORE | LOAD | SLOAD
  | ADDRESS | ISSUER | BALANCE | CALLER | CALLVAL | CALLDATA | NEWMAP | MAPHASKEY | MAPPUSH | MAPGETVAL
  | MAPSETVAL | MAPREMOVE | NEWARR | ARRAPPEND | ARRINSERT | ARRREMOVE | ARRAT | SHA3 | CHECKSIG | ERRHALT
  | HALT

datatype ArgType = BYTES | BYTE | LABEL | ADDR

record OpCode =
  op_code :: Op
  op_Name :: string
  op_Nargs :: nat
  op_ArgTypes :: "ArgType list"
  gasPrice :: u64
  gasFactor :: u64

definition mkOp :: "Op \<Rightarrow> string \<Rightarrow> nat \<Rightarrow> ArgType list \<Rightarrow> u64 \<Rightarrow> u64 \<Rightarrow> OpCode" where
  "mkOp c name nargs args price factor =
     \<lparr>op_code = c, op_Name = name, op_Nargs = nargs, op_ArgTypes = args,
      gasPrice = price, gasFactor = factor\<rparr>"

definition OpCodes :: "OpCode list" where
  "OpCodes = [
     mkOp PUSH ''push'' 1 [BYTES] 1 1,
     mkOp DUP ''dup'' 0 [] 1 2,
     mkOp ROLL ''roll'' 1 [BYTE] 1 2,
     mkOp POP ''pop'' 0 [] 1 1,
     mkOp ADD ''add'' 0 [] 1 2,
     mkOp SUB ''sub'' 0 [] 1 2,
     mkOp MULT ''mult'' 0 [] 1 2,
     mkOp DIV ''div'' 0 [] 1 2,
     mkOp MOD ''mod'' 0 [] 1 2,
     mkOp NEG ''neg'' 0 [] 1 2,
     mkOp EQ ''eq'' 0 [] 1 2,
     mkOp NEQ ''neq'' 0 [] 1 2,
     mkOp LT ''lt'' 0 [] 1 2,
     mkOp GT ''gt'' 0 [] 1 2,
     mkOp LTE ''lte'' 0 [] 1 2,
     mkOp GTE ''gte'' 0 [] 1 2,
     mkOp SHIFTL ''shiftl'' 1 [BYTE] 1 2,
     mkOp SHIFTR ''shiftl'' 1 [BYTE] 1 2,
     mkOp NOP ''nop'' 0 [] 1 1,
     mkOp JMP ''jmp'' 1 [LABEL] 1 1,
     mkOp JMPIF ''jmpif'' 1 [LABEL] 1 1,
     mkOp CALL ''call'' 2 [LABEL, BYTE] 1 1,
     mkOp CALLIF ''callif'' 2 [LABEL, BYTE] 1 1,
     mkOp CALLEXT ''callext'' 3 [ADDR, BYTE, BYTE, BYTE, BYTE, BYTE] 1000 2,
     mkOp RET ''ret'' 0 [] 1 1,
     mkOp SIZE ''size'' 0 [] 1 1,
     mkOp STORE ''store'' 0 [] 1 2,
     mkOp SSTORE ''sstore'' 1 [BYTE] 1000 2,
     mkOp LOAD ''load'' 1 [BYTE] 1 2,
     mkOp SLOAD ''sload'' 1 [BYTE] 10 2,
     mkOp ADDRESS ''address'' 0 [] 1 1,
     mkOp ISSUER ''issuer'' 0 [] 1 1,
     mkOp BALANCE ''balance'' 0 [] 1 1,
     mkOp CALLER ''caller'' 0 [] 1 1,
     mkOp CALLVAL ''callval'' 0 [] 1 1,
     mkOp CALLDATA ''calldata'' 0 [] 1 1,
     mkOp NEWMAP ''newmap'' 0 [] 1 2,
     mkOp MAPHASKEY ''maphaskey'' 0 [] 1 2,
     mkOp MAPPUSH ''mappush'' 0 [] 1 2,
     mkOp MAPGETVAL ''mapgetval'' 0 [] 1 2,
     mkOp MAPSETVAL ''mapsetval'' 0 [] 1 2,
     mkOp MAPREMOVE ''mapremove'' 0 [] 1 2,
     mkOp NEWARR ''newarr'' 0 [] 1 2,
     mkOp ARRAPPEND ''arrappend'' 0 [] 1 2,
     mkOp ARRINSERT ''arrinsert'' 0 [] 1 2,
     mkOp ARRREMOVE ''arrremove'' 0 [] 1 2,
     mkOp ARRAT ''arrat'' 0 [] 1 2,
     mkOp SHA3 ''sha3'' 0 [] 1 2,
     mkOp CHECKSIG ''checksig'' 0 [] 1 2,
     mkOp ERRHALT ''errhalt'' 0 [] 0 1,
     mkOp HALT ''halt'' 0 [] 0 1]"

lemma length_OpCodes [simp]: "length OpCodes = 51"
  by (simp add: OpCodes_def)

text \<open>
  The facts on the table that termination by gas needs: only the two halting instructions are
  free, and the price of a stack word is at most two.
\<close>

definition op_table_ok :: "OpCode \<Rightarrow> bool" where
  "op_table_ok op \<longleftrightarrow>
     (gasPrice op = 0 \<longrightarrow> op_code op = HALT \<or> op_code op = ERRHALT) \<and>
     gasFactor op \<le> 2 \<and> length (op_Name op) \<le> 9"

lemma OpCodes_ok: "list_all op_table_ok OpCodes"
  by (simp add: OpCodes_def op_table_ok_def mkOp_def)

lemma OpCodes_nth_ok: "n < 51 \<Longrightarrow> op_table_ok (OpCodes ! n)"
  using OpCodes_ok by (simp add: list_all_length)

end
