(* ===== verification/VMContext.thy ===== *)
theory VMContext
  imports GoSlice
begin

text \<open>
  \<^verbatim>\<open>src/protocol/vm_context.go\<close>: what the virtual machine sees of the receiving account and of the
  transaction that called it. The contract code and the transaction data are slices (the machine
  pushes views of them); the contract variables are values, since the getter and the setter copy
  them. Writes are collected in \<open>changes\<close> and reach the variables only in \<^verbatim>\<open>PersistChanges\<close>.
\<close>

record Change =
  ch_index :: nat
  ch_value :: bytes

record Context =
  Contract :: slice
  ContractVariables :: "bytes list"
  Address :: bytes
  Issuer :: bytes
  Balance :: u64
  changes :: "Change list"
  From :: bytes
  Amount :: u64
  Data :: slice
  Fee :: u64
  Sig1 :: bytes

definition GetContractVariable :: "Context \<Rightarrow> nat \<Rightarrow> string + bytes" where
  "GetContractVariable c index =
     (if index \<ge> length (ContractVariables c) then Inl ''Index out of bounds''
      else Inr (ContractVariables c ! index))"

definition SetContractVariable :: "Context \<Rightarrow> nat \<Rightarrow> bytes \<Rightarrow> string + Context" where
  "SetContractVariable c index value =
     (if length (ContractVariables c) \<le> index then Inl ''Index out of bounds''
      else Inr (c\<lparr>changes := changes c @ [\<lparr>ch_index = index, ch_value = value\<rparr>]\<rparr>))"

fun applyChanges :: "Change list \<Rightarrow> bytes list \<Rightarrow> bytes list option" where
  "applyChanges [] vars = Some vars"
| "applyChanges (ch # chs) vars =
     (if ch_index ch < length vars then applyChanges chs (vars[ch_index ch := ch_value ch])
      else None)"

definition PersistChanges :: "Context \<Rightarrow> Context option" where
  "PersistChanges c =
     map_option (\<lambda>vars. c\<lparr>ContractVariables := vars\<rparr>) (applyChanges (changes c) (ContractVariables c))"

text \<open>Every recorded index is in range, so that \<^verbatim>\<open>PersistChanges\<close> cannot panic.\<close>

definition changes_ok :: "Context \<Rightarrow> bool" where
  "changes_ok c \<longleftrightarrow> (\<forall>ch \<in> set (changes c). ch_index ch < length (ContractVariables c))"

lemma SetContractVariable_ok:
  assumes "SetContractVariable c i v = Inr c'" "changes_ok c"
  shows "changes_ok c'" "c' = c\<lparr>changes := changes c'\<rparr>"
  using assms by (auto simp: SetContractVariable_def changes_ok_def split: if_splits)

lemma applyChanges_total:
  "\<forall>ch \<in> set chs. ch_index ch < length vars \<Longrightarrow>
   \<exists>vars'. applyChanges chs vars = Some vars' \<and> length vars' = length vars"
proof (induction chs arbitrary: vars)
  case (Cons ch chs)
  then show ?case using Cons.IH [of "vars[ch_index ch := ch_value ch]"] by simp
qed simp

text \<open>The last write to an index wins.\<close>

lemma applyChanges_nth:
  assumes "applyChanges chs vars = Some vars'" "i < length vars"
  shows "vars' ! i = (case find (\<lambda>ch. ch_index ch = i) (rev chs) of
     None \<Rightarrow> vars ! i | Some ch \<Rightarrow> ch_value ch)"
  using assms
proof (induction chs arbitrary: vars)
  case Nil
  then show ?case by simp
next
  case (Cons ch chs)
  have app: "find P (xs @ ys) = (case find P xs of None \<Rightarrow> find P ys | Some x \<Rightarrow> Some x)"
    for P and xs ys :: "Change list" by (induction xs) auto
  from Cons.prems have "applyChanges chs (vars[ch_index ch := ch_value ch]) = Some vars'"
    by (simp split: if_splits)
  with Cons.IH[of "vars[ch_index ch := ch_value ch]"] Cons.prems show ?case
    by (auto simp: app nth_list_update split: option.splits if_splits)
qed

end
