(* ===== verification/VMCore.thy ===== *)
theory VMCore
  imports VMObjects VMStack VMOpCodes VMContext
begin

text \<open>
  \<^verbatim>\<open>src/vm/vm.go\<close>: the state of the virtual machine, its helper methods and one definition per
  instruction. An instruction is a state transformer \<open>VM \<Rightarrow> 'a outcome\<close>: it goes on with a value
  (\<open>Next\<close>), makes \<^verbatim>\<open>Exec\<close> return (\<open>Return\<close>), panics, or never returns (\<open>Diverge\<close>, only through
  \<^verbatim>\<open>MapContainsKey\<close>). Values of type \<^verbatim>\<open>[]byte\<close> are slices of the heap \<open>hp\<close>, so the sharing between the
  contract code, the transaction data and the stack is visible.

  The environment \<open>vm_env\<close> holds what the sources only call: the growth policy of \<^verbatim>\<open>append\<close>, the
  digest of \<^verbatim>\<open>golang.org/x/crypto/sha3\<close> and the verdict of \<^verbatim>\<open>ecdsa.Verify\<close> on P-256.
\<close>

record vm_env =
  grow :: growth
  sha3_256 :: "bytes \<Rightarrow> bytes"
  ecdsa_Verify :: "int \<Rightarrow> int \<Rightarrow> bytes \<Rightarrow> int \<Rightarrow> int \<Rightarrow> bool"

record VM =
  hp :: heap
  code :: slice
  pc :: nat
  fee :: u64
  evaluationStack :: Stack
  callStack :: CallStack
  ctx :: Context

definition NewVM :: "heap \<Rightarrow> Context \<Rightarrow> VM" where
  "NewVM h c = (let (h, s) = sl_new h [] in
     \<lparr>hp = h, code = s, pc = 0, fee = 0, evaluationStack = NewStack, callStack = NewCallStack,
      ctx = c\<rparr>)"

datatype 'a outcome = Next 'a VM | Return bool VM | Panic | Diverge

type_synonym 'a act = "VM \<Rightarrow> 'a outcome"

subsection \<open>Sequencing\<close>

definition vret :: "'a \<Rightarrow> 'a act" where
  "vret a = Next a"

definition vbind :: "'a act \<Rightarrow> ('a \<Rightarrow> 'b act) \<Rightarrow> 'b act" where
  "vbind m f vm =
     (case m vm of
        Next a vm \<Rightarrow> f a vm
      | Return b vm \<Rightarrow> Return b vm
      | Panic \<Rightarrow> Panic
      | Diverge \<Rightarrow> Diverge)"

definition vreturn :: "bool \<Rightarrow> 'a act" where
  "vreturn b = Return b"

definition vget :: "(VM \<Rightarrow> 'a) \<Rightarrow> 'a act" where
  "vget f vm = Next (f vm) vm"

definition vset :: "(VM \<Rightarrow> VM) \<Rightarrow> unit act" where
  "vset f vm = Next () (f vm)"

text \<open>A Go expression that may panic, and one that allocates.\<close>

definition vtry :: "(heap \<Rightarrow> 'a option) \<Rightarrow> 'a act" where
  "vtry f vm = (case f (hp vm) of None \<Rightarrow> Panic | Some a \<Rightarrow> Next a vm)"

definition valloc :: "(heap \<Rightarrow> heap \<times> 'a) \<Rightarrow> 'a act" where
  "valloc f vm = (case f (hp vm) of (h, a) \<Rightarrow> Next a (vm\<lparr>hp := h\<rparr>))"

definition vobj :: "(heap \<Rightarrow> 'a objres) \<Rightarrow> (slice \<times> (string + 'a)) act" where
  "vobj f vm = (case f (hp vm) of None \<Rightarrow> Panic | Some (h, a, r) \<Rightarrow> Next (a, r) (vm\<lparr>hp := h\<rparr>))"

text \<open>The two components of a Go result \<^verbatim>\<open>(value, err)\<close>.\<close>

definition err :: "string + 'a \<Rightarrow> string option" where
  "err r = (case r of Inl e \<Rightarrow> Some e | Inr _ \<Rightarrow> None)"

definition val :: "'a \<Rightarrow> string + 'a \<Rightarrow> 'a" where
  "val d r = (case r of Inl _ \<Rightarrow> d | Inr a \<Rightarrow> a)"

subsection \<open>Helper methods of the machine\<close>

definition fetch :: "(string + byte) act" where
  "fetch vm =
     (if pc vm < sl_len (code vm)
      then Next (Inr (sl_bytes (hp vm) (code vm) ! pc vm)) (vm\<lparr>pc := pc vm + 1\<rparr>)
      else Next (Inl ''Instruction set out of bounds'') vm)"

definition fetchMany :: "nat \<Rightarrow> (string + slice) act" where
  "fetchMany argument vm =
     (if pc vm + argument < sl_len (code vm)
      then (case sl_sub (code vm) (pc vm) (pc vm + argument) of
              None \<Rightarrow> Panic
            | Some s \<Rightarrow> Next (Inr s) (vm\<lparr>pc := pc vm + argument\<rparr>))
      else Next (Inl ''Instruction set out of bounds'') vm)"

definition vpush :: "slice \<Rightarrow> (string option) act" where
  "vpush s vm =
     (case Stack_Push (evaluationStack vm) s of (st, e) \<Rightarrow> Next e (vm\<lparr>evaluationStack := st\<rparr>))"

text \<open>\<^verbatim>\<open>vm.evaluationStack.Push([]byte("..."))\<close>, whose own error is dropped.\<close>

definition pushMsg :: "vm_env \<Rightarrow> string \<Rightarrow> unit act" where
  "pushMsg E m =
     vbind (valloc (\<lambda>h. sl_append (grow E) h nil_slice (of_string m))) (\<lambda>s.
     vbind (vpush s) (\<lambda>_. vret ()))"

definition failWith :: "vm_env \<Rightarrow> OpCode \<Rightarrow> string \<Rightarrow> 'a act" where
  "failWith E opc m = vbind (pushMsg E (op_Name opc @ '': '' @ m)) (\<lambda>_. vreturn False)"

fun checkErrors :: "vm_env \<Rightarrow> string \<Rightarrow> string option list \<Rightarrow> bool act" where
  "checkErrors E errorLocation [] = vret True"
| "checkErrors E errorLocation (None # errs) = checkErrors E errorLocation errs"
| "checkErrors E errorLocation (Some e # errs) =
     vbind (pushMsg E (errorLocation @ '': '' @ e)) (\<lambda>_. vret False)"

text \<open>\<^verbatim>\<open>if !vm.checkErrors(opCode.Name, ...) { return false }\<close>, and the same for a single error.\<close>

definition guardErrors :: "vm_env \<Rightarrow> OpCode \<Rightarrow> string option list \<Rightarrow> unit act" where
  "guardErrors E opc errs =
     vbind (checkErrors E (op_Name opc) errs) (\<lambda>ok. if ok then vret () else vreturn False)"

definition orFail :: "vm_env \<Rightarrow> OpCode \<Rightarrow> string + 'a \<Rightarrow> 'a act" where
  "orFail E opc r = (case r of Inl e \<Rightarrow> failWith E opc e | Inr a \<Rightarrow> vret a)"

definition pushOrFail :: "vm_env \<Rightarrow> OpCode \<Rightarrow> slice \<Rightarrow> unit act" where
  "pushOrFail E opc s =
     vbind (vpush s) (\<lambda>e. case e of None \<Rightarrow> vret () | Some m \<Rightarrow> failWith E opc m)"

definition PopBytes :: "OpCode \<Rightarrow> (string + slice) act" where
  "PopBytes opc vm =
     (case Stack_Pop (evaluationStack vm) of
        (st, Inl e) \<Rightarrow> Next (Inl e) (vm\<lparr>evaluationStack := st\<rparr>)
      | (st, Inr bs) \<Rightarrow>
          let elementSize = (sl_len bs + 64 - 1) div 64;
              gasCost = gasFactor opc * word_of_nat elementSize
          in if sint (fee vm - gasCost) < 0
             then Next (Inl ''Out of gas'') (vm\<lparr>evaluationStack := st\<rparr>)
             else Next (Inr bs) (vm\<lparr>evaluationStack := st, fee := fee vm - gasCost\<rparr>))"

definition PopSignedBigInt :: "OpCode \<Rightarrow> (string + int) act" where
  "PopSignedBigInt opc =
     vbind (PopBytes opc) (\<lambda>r. case r of
        Inl e \<Rightarrow> vret (Inl e)
      | Inr bs \<Rightarrow> vtry (\<lambda>h. SignedBigIntConversion (sl_bytes h bs)))"

definition PopUnsignedBigInt :: "OpCode \<Rightarrow> (string + int) act" where
  "PopUnsignedBigInt opc =
     vbind (PopBytes opc) (\<lambda>r. case r of
        Inl e \<Rightarrow> vret (Inl e)
      | Inr bs \<Rightarrow> vget (\<lambda>vm. Inr (UnsignedBigIntConversion (sl_bytes (hp vm) bs))))"

definition GetErrorMsg :: "VM \<Rightarrow> bytes" where
  "GetErrorMsg vm =
     (case PeekBytes (evaluationStack vm) of
        Inl _ \<Rightarrow> of_string ''Peek on empty Stack''
      | Inr tos \<Rightarrow> sl_bytes (hp vm) tos)"

text \<open>Pop one value or fail, and push the encodings of an integer and of a boolean.\<close>

definition popOrFail :: "vm_env \<Rightarrow> OpCode \<Rightarrow> slice act" where
  "popOrFail E opc = vbind (PopBytes opc) (orFail E opc)"

definition allocSigned :: "vm_env \<Rightarrow> int \<Rightarrow> slice act" where
  "allocSigned E bi =
     valloc (\<lambda>h. let (h, result) = sl_new h (if 0 \<le> bi then [0] else [1])
                 in sl_append (grow E) h result (big_Bytes (nat \<bar>bi\<bar>)))"

definition pushSigned :: "vm_env \<Rightarrow> OpCode \<Rightarrow> int \<Rightarrow> unit act" where
  "pushSigned E opc bi = vbind (allocSigned E bi) (pushOrFail E opc)"

definition pushNew :: "vm_env \<Rightarrow> OpCode \<Rightarrow> bytes \<Rightarrow> unit act" where
  "pushNew E opc bs = vbind (valloc (\<lambda>h. sl_new h bs)) (pushOrFail E opc)"

definition pushBool :: "bool \<Rightarrow> unit act" where
  "pushBool b = vbind (valloc (\<lambda>h. sl_new h (BoolToByteArray b))) (\<lambda>s. vbind (vpush s) (\<lambda>_. vret ()))"

definition popSignedPair :: "vm_env \<Rightarrow> OpCode \<Rightarrow> (int \<times> int) act" where
  "popSignedPair E opc =
     vbind (PopSignedBigInt opc) (\<lambda>r.
     vbind (PopSignedBigInt opc) (\<lambda>l.
     vbind (guardErrors E opc [err r, err l]) (\<lambda>_. vret (val 0 l, val 0 r))))"

definition popUnsignedPair :: "vm_env \<Rightarrow> OpCode \<Rightarrow> (int \<times> int) act" where
  "popUnsignedPair E opc =
     vbind (PopUnsignedBigInt opc) (\<lambda>r.
     vbind (PopUnsignedBigInt opc) (\<lambda>l.
     vbind (guardErrors E opc [err r, err l]) (\<lambda>_. vret (val 0 l, val 0 r))))"

subsection \<open>Stack instructions\<close>

definition op_PUSH :: "vm_env \<Rightarrow> OpCode \<Rightarrow> unit act" where
  "op_PUSH E opc =
     vbind fetch (\<lambda>arg.
     vbind (fetchMany (unat (val 0 arg) + 1)) (\<lambda>bs.
     vbind (guardErrors E opc [err arg, err bs]) (\<lambda>_.
     pushOrFail E opc (val nil_slice bs))))"

definition op_DUP :: "vm_env \<Rightarrow> OpCode \<Rightarrow> unit act" where
  "op_DUP E opc =
     vbind (PopBytes opc) (\<lambda>tos.
     vbind (guardErrors E opc [err tos]) (\<lambda>_.
     vbind (pushOrFail E opc (val nil_slice tos)) (\<lambda>_.
     pushOrFail E opc (val nil_slice tos))))"

definition op_ROLL :: "vm_env \<Rightarrow> OpCode \<Rightarrow> unit act" where
  "op_ROLL E opc =
     vbind fetch (\<lambda>arg.
     vbind (vget (\<lambda>vm. GetLength (evaluationStack vm))) (\<lambda>len.
     let index = int len - (int (unat (val 0 arg)) + 2) in
     vbind (guardErrors E opc [err arg]) (\<lambda>_.
     if index \<noteq> - 1 then
       (if unat (val 0 arg) \<ge> len then failWith E opc ''index out of bounds''
        else vbind (\<lambda>vm. case PopIndexAt (evaluationStack vm) index of
                       None \<Rightarrow> Panic
                     | Some (st, r) \<Rightarrow> Next r (vm\<lparr>evaluationStack := st\<rparr>)) (\<lambda>r.
             vbind (orFail E opc r) (\<lambda>newTos. pushOrFail E opc newTos)))
     else vret ())))"

definition op_POP :: "vm_env \<Rightarrow> OpCode \<Rightarrow> unit act" where
  "op_POP E opc = vbind (PopBytes opc) (\<lambda>r. guardErrors E opc [err r])"

subsection \<open>Arithmetic and comparison\<close>

definition op_ADD :: "vm_env \<Rightarrow> OpCode \<Rightarrow> unit act" where
  "op_ADD E opc = vbind (popSignedPair E opc) (\<lambda>(left, right). pushSigned E opc (left + right))"

definition op_SUB :: "vm_env \<Rightarrow> OpCode \<Rightarrow> unit act" where
  "op_SUB E opc = vbind (popSignedPair E opc) (\<lambda>(left, right). pushSigned E opc (left - right))"

definition op_MULT :: "vm_env \<Rightarrow> OpCode \<Rightarrow> unit act" where
  "op_MULT E opc = vbind (popSignedPair E opc) (\<lambda>(left, right). pushSigned E opc (left * right))"

definition op_DIV :: "vm_env \<Rightarrow> OpCode \<Rightarrow> unit act" where
  "op_DIV E opc = vbind (popSignedPair E opc) (\<lambda>(left, right).
     if right = 0 then failWith E opc ''Division by Zero''
     else pushSigned E opc (big_Div left right))"

definition op_MOD :: "vm_env \<Rightarrow> OpCode \<Rightarrow> unit act" where
  "op_MOD E opc = vbind (popSignedPair E opc) (\<lambda>(left, right).
     if right = 0 then failWith E opc ''Division by Zero''
     else pushSigned E opc (big_Mod left right))"

definition op_NEG :: "vm_env \<Rightarrow> OpCode \<Rightarrow> unit act" where
  "op_NEG E opc =
     vbind (PopSignedBigInt opc) (\<lambda>r.
     vbind (orFail E opc r) (\<lambda>tos.
     vbind (allocSigned E (- tos)) (\<lambda>s. vbind (vpush s) (\<lambda>_. vret ()))))"

definition op_EQ :: "vm_env \<Rightarrow> OpCode \<Rightarrow> unit act" where
  "op_EQ E opc = vbind (popUnsignedPair E opc) (\<lambda>(left, right). pushBool (left = right))"

definition op_NEQ :: "vm_env \<Rightarrow> OpCode \<Rightarrow> unit act" where
  "op_NEQ E opc = vbind (popUnsignedPair E opc) (\<lambda>(left, right). pushBool (left \<noteq> right))"

definition op_LT :: "vm_env \<Rightarrow> OpCode \<Rightarrow> unit act" where
  "op_LT E opc = vbind (popSignedPair E opc) (\<lambda>(left, right). pushBool (left < right))"

definition op_GT :: "vm_env \<Rightarrow> OpCode \<Rightarrow> unit act" where
  "op_GT E opc = vbind (popSignedPair E opc) (\<lambda>(left, right). pushBool (left > right))"

definition op_LTE :: "vm_env \<Rightarrow> OpCode \<Rightarrow> unit act" where
  "op_LTE E opc = vbind (popSignedPair E opc) (\<lambda>(left, right). pushBool (left < right \<or> left = right))"

definition op_GTE :: "vm_env \<Rightarrow> OpCode \<Rightarrow> unit act" where
  "op_GTE E opc = vbind (popSignedPair E opc) (\<lambda>(left, right). pushBool (left > right \<or> left = right))"

text \<open>\<^verbatim>\<open>Rsh\<close> of \<^verbatim>\<open>math/big\<close> is an arithmetic shift: it rounds towards minus infinity.\<close>

definition op_SHIFTL :: "vm_env \<Rightarrow> OpCode \<Rightarrow> unit act" where
  "op_SHIFTL E opc =
     vbind fetch (\<lambda>nrOfShifts.
     vbind (PopSignedBigInt opc) (\<lambda>tos.
     vbind (guardErrors E opc [err nrOfShifts, err tos]) (\<lambda>_.
     pushSigned E opc (val 0 tos * 2 ^ unat (val 0 nrOfShifts)))))"

definition op_SHIFTR :: "vm_env \<Rightarrow> OpCode \<Rightarrow> unit act" where
  "op_SHIFTR E opc =
     vbind fetch (\<lambda>nrOfShifts.
     vbind (PopSignedBigInt opc) (\<lambda>tos.
     vbind (guardErrors E opc [err nrOfShifts, err tos]) (\<lambda>_.
     pushSigned E opc (val 0 tos div 2 ^ unat (val 0 nrOfShifts)))))"

subsection \<open>Control flow\<close>

definition op_NOP :: "vm_env \<Rightarrow> OpCode \<Rightarrow> unit act" where
  "op_NOP E opc = vbind fetch (\<lambda>r. vbind (orFail E opc r) (\<lambda>_. vret ()))"

definition op_JMP :: "vm_env \<Rightarrow> OpCode \<Rightarrow> unit act" where
  "op_JMP E opc =
     vbind (fetchMany 2) (\<lambda>nextInstruction.
     vbind (guardErrors E opc [err nextInstruction]) (\<lambda>_.
     vset (\<lambda>vm. vm\<lparr>pc := be_nat (sl_bytes (hp vm) (val nil_slice nextInstruction))\<rparr>)))"

definition op_JMPIF :: "vm_env \<Rightarrow> OpCode \<Rightarrow> unit act" where
  "op_JMPIF E opc =
     vbind (fetchMany 2) (\<lambda>nextInstruction.
     vbind (PopBytes opc) (\<lambda>right.
     vbind (guardErrors E opc [err nextInstruction, err right]) (\<lambda>_.
     vbind (vtry (\<lambda>h. ByteArrayToBool (sl_bytes h (val nil_slice right)))) (\<lambda>b.
     if b then
       vbind (vtry (\<lambda>h. ByteArrayToInt (sl_bytes h (val nil_slice nextInstruction)))) (\<lambda>target.
       vset (\<lambda>vm. vm\<lparr>pc := nat target\<rparr>))
     else vret ()))))"

text \<open>The loop of \<^verbatim>\<open>CALL\<close> and \<^verbatim>\<open>CALLIF\<close> that fills the variables of a frame, highest index first.\<close>

fun popArgs :: "vm_env \<Rightarrow> OpCode \<Rightarrow> nat \<Rightarrow> (int \<Rightarrow> int option) \<Rightarrow> (int \<Rightarrow> int option) act" where
  "popArgs E opc 0 vars = vret vars"
| "popArgs E opc (Suc i) vars =
     vbind (PopUnsignedBigInt opc) (\<lambda>r.
     vbind (orFail E opc r) (\<lambda>v. popArgs E opc i (vars(int i \<mapsto> v))))"

definition enterFrame :: "vm_env \<Rightarrow> OpCode \<Rightarrow> slice \<Rightarrow> nat \<Rightarrow> unit act" where
  "enterFrame E opc addressBytes argsToLoad =
     vbind (vget (\<lambda>vm. be_nat (sl_bytes (hp vm) addressBytes))) (\<lambda>target.
     vbind (vget (\<lambda>vm. sl_len (code vm))) (\<lambda>codeLen.
     if target = 0 \<or> target > codeLen then failWith E opc ''ReturnAddress out of bounds''
     else
       vbind (vget pc) (\<lambda>ret.
       vbind (popArgs E opc argsToLoad (\<lambda>_. None)) (\<lambda>vars.
       vset (\<lambda>vm. vm\<lparr>callStack := CallStack_Push (callStack vm) \<lparr>variables = vars, returnAddress = ret\<rparr>,
                     pc := target\<rparr>)))))"

definition op_CALL :: "vm_env \<Rightarrow> OpCode \<Rightarrow> unit act" where
  "op_CALL E opc =
     vbind (fetchMany 2) (\<lambda>returnAddressBytes.
     vbind fetch (\<lambda>argsToLoad.
     vbind (guardErrors E opc [err returnAddressBytes, err argsToLoad]) (\<lambda>_.
     enterFrame E opc (val nil_slice returnAddressBytes) (unat (val 0 argsToLoad)))))"

definition op_CALLIF :: "vm_env \<Rightarrow> OpCode \<Rightarrow> unit act" where
  "op_CALLIF E opc =
     vbind (fetchMany 2) (\<lambda>returnAddressBytes.
     vbind fetch (\<lambda>argsToLoad.
     vbind (PopBytes opc) (\<lambda>right.
     vbind (guardErrors E opc [err returnAddressBytes, err argsToLoad, err right]) (\<lambda>_.
     vbind (vtry (\<lambda>h. ByteArrayToBool (sl_bytes h (val nil_slice right)))) (\<lambda>b.
     if b then enterFrame E opc (val nil_slice returnAddressBytes) (unat (val 0 argsToLoad))
     else vret ())))))"

definition op_CALLEXT :: "vm_env \<Rightarrow> OpCode \<Rightarrow> unit act" where
  "op_CALLEXT E opc =
     vbind (fetchMany 32) (\<lambda>transactionAddress.
     vbind (fetchMany 4) (\<lambda>functionHash.
     vbind fetch (\<lambda>argsToLoad.
     guardErrors E opc [err transactionAddress, err functionHash, err argsToLoad])))"

definition op_RET :: "vm_env \<Rightarrow> OpCode \<Rightarrow> unit act" where
  "op_RET E opc =
     vbind (vget (\<lambda>vm. CallStack_Peek (callStack vm))) (\<lambda>callstackTos.
     vbind (guardErrors E opc [err callstackTos]) (\<lambda>_.
     vset (\<lambda>vm. vm\<lparr>callStack := fst (CallStack_Pop (callStack vm)),
                   pc := returnAddress (val \<lparr>variables = (\<lambda>_. None), returnAddress = 0\<rparr> callstackTos)\<rparr>)))"

subsection \<open>Memory and context\<close>

definition op_SIZE :: "vm_env \<Rightarrow> OpCode \<Rightarrow> unit act" where
  "op_SIZE E opc =
     vbind (popOrFail E opc) (\<lambda>element.
     pushNew E opc (UInt64ToByteArray (word_of_nat (sl_len element))))"

definition op_SSTORE :: "vm_env \<Rightarrow> OpCode \<Rightarrow> unit act" where
  "op_SSTORE E opc =
     vbind fetch (\<lambda>index.
     vbind (PopBytes opc) (\<lambda>value.
     vbind (guardErrors E opc [err index, err value]) (\<lambda>_.
     vbind (vget (\<lambda>vm. SetContractVariable (ctx vm) (unat (val 0 index))
                          (sl_bytes (hp vm) (val nil_slice value)))) (\<lambda>r.
     vbind (orFail E opc r) (\<lambda>c. vset (\<lambda>vm. vm\<lparr>ctx := c\<rparr>))))))"

definition op_STORE :: "vm_env \<Rightarrow> OpCode \<Rightarrow> unit act" where
  "op_STORE E opc =
     vbind fetch (\<lambda>address.
     vbind (PopSignedBigInt opc) (\<lambda>right.
     vbind (guardErrors E opc [err address, err right]) (\<lambda>_.
     vbind (vget (\<lambda>vm. CallStack_Peek (callStack vm))) (\<lambda>r.
     vbind (orFail E opc r) (\<lambda>callstackTos.
     vset (\<lambda>vm. vm\<lparr>callStack := CallStack_SetTop (callStack vm)
        (callstackTos\<lparr>variables := (variables callstackTos)(int (unat (val 0 address)) \<mapsto> val 0 right)\<rparr>)\<rparr>))))))"

definition op_SLOAD :: "vm_env \<Rightarrow> OpCode \<Rightarrow> unit act" where
  "op_SLOAD E opc =
     vbind fetch (\<lambda>index.
     vbind (guardErrors E opc [err index]) (\<lambda>_.
     vbind (vget (\<lambda>vm. GetContractVariable (ctx vm) (unat (val 0 index)))) (\<lambda>r.
     vbind (orFail E opc r) (\<lambda>value. pushNew E opc value))))"

text \<open>A missing key of a Go map reads as the zero value.\<close>

definition op_LOAD :: "vm_env \<Rightarrow> OpCode \<Rightarrow> unit act" where
  "op_LOAD E opc =
     vbind fetch (\<lambda>address.
     vbind (vget (\<lambda>vm. CallStack_Peek (callStack vm))) (\<lambda>callstackTos.
     vbind (guardErrors E opc [err address, err callstackTos]) (\<lambda>_.
     let frame = val \<lparr>variables = (\<lambda>_. None), returnAddress = 0\<rparr> callstackTos in
     pushSigned E opc (case variables frame (int (unat (val 0 address))) of None \<Rightarrow> 0 | Some v \<Rightarrow> v))))"

definition op_ADDRESS :: "vm_env \<Rightarrow> OpCode \<Rightarrow> unit act" where
  "op_ADDRESS E opc = vbind (vget (\<lambda>vm. Address (ctx vm))) (pushNew E opc)"

definition op_ISSUER :: "vm_env \<Rightarrow> OpCode \<Rightarrow> unit act" where
  "op_ISSUER E opc = vbind (vget (\<lambda>vm. Issuer (ctx vm))) (pushNew E opc)"

definition op_BALANCE :: "vm_env \<Rightarrow> OpCode \<Rightarrow> unit act" where
  "op_BALANCE E opc = vbind (vget (\<lambda>vm. le_fixed 8 (unat (Balance (ctx vm))))) (pushNew E opc)"

definition op_CALLER :: "vm_env \<Rightarrow> OpCode \<Rightarrow> unit act" where
  "op_CALLER E opc = vbind (vget (\<lambda>vm. From (ctx vm))) (pushNew E opc)"

definition op_CALLVAL :: "vm_env \<Rightarrow> OpCode \<Rightarrow> unit act" where
  "op_CALLVAL E opc = vbind (vget (\<lambda>vm. le_fixed 8 (unat (Amount (ctx vm))))) (pushNew E opc)"

text \<open>
  \<^verbatim>\<open>CALLDATA\<close> splits the transaction data into its parameters, each behind a byte that holds its
  length less one, and pushes views of them.
\<close>

function callDataLoop :: "vm_env \<Rightarrow> OpCode \<Rightarrow> slice \<Rightarrow> nat \<Rightarrow> unit act" where
  "callDataLoop E opc td i =
     (if i < sl_len td
      then vbind (vtry (\<lambda>h. sl_get h td i)) (\<lambda>b.
           if sl_len td - i - 1 \<le> unat b then failWith E opc ''Index out of bounds''
           else vbind (vtry (\<lambda>h. sl_sub td (i + 1) (i + unat b + 2))) (\<lambda>s.
                vbind (pushOrFail E opc s) (\<lambda>_.
                callDataLoop E opc td (i + (unat b + 1) + 1))))
      else vret ())"
  by pat_completeness auto
termination by (relation "measure (\<lambda>(E, opc, td, i). sl_len td - i)") auto

declare callDataLoop.simps [simp del]

definition op_CALLDATA :: "vm_env \<Rightarrow> OpCode \<Rightarrow> unit act" where
  "op_CALLDATA E opc = vbind (vget (\<lambda>vm. Data (ctx vm))) (\<lambda>td. callDataLoop E opc td 0)"

subsection \<open>Maps\<close>

definition op_NEWMAP :: "vm_env \<Rightarrow> OpCode \<Rightarrow> unit act" where
  "op_NEWMAP E opc = vbind (valloc NewMap) (pushOrFail E opc)"

definition op_MAPHASKEY :: "vm_env \<Rightarrow> OpCode \<Rightarrow> unit act" where
  "op_MAPHASKEY E opc =
     vbind (popOrFail E opc) (\<lambda>mba.
     vbind (vget (\<lambda>vm. MapFromByteArray (hp vm) mba)) (\<lambda>r.
     vbind (orFail E opc r) (\<lambda>m.
     vbind (popOrFail E opc) (\<lambda>k.
     vbind (\<lambda>vm. case MapContainsKey (hp vm) m k of
                    None \<Rightarrow> Diverge
                  | Some None \<Rightarrow> Panic
                  | Some (Some r) \<Rightarrow> Next r vm) (\<lambda>r.
     vbind (orFail E opc r) (\<lambda>result. pushBool result))))))"

text \<open>Push the object that an operation of \<^verbatim>\<open>map.go\<close> or \<^verbatim>\<open>array.go\<close> left behind, or fail.\<close>

definition pushObj :: "vm_env \<Rightarrow> OpCode \<Rightarrow> slice \<times> (string + unit) \<Rightarrow> unit act" where
  "pushObj E opc ar = vbind (orFail E opc (snd ar)) (\<lambda>_. pushOrFail E opc (fst ar))"

definition op_MAPPUSH :: "vm_env \<Rightarrow> OpCode \<Rightarrow> unit act" where
  "op_MAPPUSH E opc =
     vbind (popOrFail E opc) (\<lambda>mba.
     vbind (popOrFail E opc) (\<lambda>k.
     vbind (popOrFail E opc) (\<lambda>v.
     vbind (vget (\<lambda>vm. MapFromByteArray (hp vm) mba)) (\<lambda>r.
     vbind (orFail E opc r) (\<lambda>m.
     vbind (vobj (\<lambda>h. Map_Append (grow E) h m k v)) (pushObj E opc))))))"

definition op_MAPGETVAL :: "vm_env \<Rightarrow> OpCode \<Rightarrow> unit act" where
  "op_MAPGETVAL E opc =
     vbind (popOrFail E opc) (\<lambda>mapAsByteArray.
     vbind (popOrFail E opc) (\<lambda>k.
     vbind (vget (\<lambda>vm. MapFromByteArray (hp vm) mapAsByteArray)) (\<lambda>r.
     vbind (orFail E opc r) (\<lambda>m.
     vbind (vtry (\<lambda>h. Map_GetVal h m k)) (\<lambda>r.
     vbind (orFail E opc r) (\<lambda>v. pushOrFail E opc v))))))"

definition op_MAPSETVAL :: "vm_env \<Rightarrow> OpCode \<Rightarrow> unit act" where
  "op_MAPSETVAL E opc =
     vbind (popOrFail E opc) (\<lambda>mapAsByteArray.
     vbind (vget (\<lambda>vm. MapFromByteArray (hp vm) mapAsByteArray)) (\<lambda>r.
     vbind (orFail E opc r) (\<lambda>m.
     vbind (popOrFail E opc) (\<lambda>k.
     vbind (popOrFail E opc) (\<lambda>v.
     vbind (vobj (\<lambda>h. Map_SetVal (grow E) h m k v)) (pushObj E opc))))))"

definition op_MAPREMOVE :: "vm_env \<Rightarrow> OpCode \<Rightarrow> unit act" where
  "op_MAPREMOVE E opc =
     vbind (popOrFail E opc) (\<lambda>mapAsByteArray.
     vbind (popOrFail E opc) (\<lambda>k.
     vbind (vget (\<lambda>vm. MapFromByteArray (hp vm) mapAsByteArray)) (\<lambda>r.
     vbind (orFail E opc r) (\<lambda>m.
     vbind (vobj (\<lambda>h. Map_Remove (grow E) h m k)) (pushObj E opc)))))"

subsection \<open>Arrays\<close>

definition op_NEWARR :: "vm_env \<Rightarrow> OpCode \<Rightarrow> unit act" where
  "op_NEWARR E opc =
     vbind (valloc (NewArray (grow E))) (\<lambda>a. vbind (vpush a) (\<lambda>_. vret ()))"

definition op_ARRAPPEND :: "vm_env \<Rightarrow> OpCode \<Rightarrow> unit act" where
  "op_ARRAPPEND E opc =
     vbind (PopBytes opc) (\<lambda>a.
     vbind (PopBytes opc) (\<lambda>v.
     vbind (guardErrors E opc [err v, err a]) (\<lambda>_.
     vbind (vget (\<lambda>vm. ArrayFromByteArray (hp vm) (val nil_slice a))) (\<lambda>r.
     vbind (orFail E opc r) (\<lambda>arr.
     vbind (vobj (\<lambda>h. Array_Append (grow E) h arr (val nil_slice v))) (\<lambda>(arr, r).
     case r of
       Inl _ \<Rightarrow> failWith E opc ''Invalid argument size of ARRAPPEND''
     | Inr _ \<Rightarrow> pushOrFail E opc arr))))))"

definition op_ARRINSERT :: "vm_env \<Rightarrow> OpCode \<Rightarrow> unit act" where
  "op_ARRINSERT E opc =
     vbind (popOrFail E opc) (\<lambda>a.
     vbind (popOrFail E opc) (\<lambda>i.
     if sl_len i > 2 then failWith E opc ''Wrong index size''
     else
     vbind (popOrFail E opc) (\<lambda>element.
     vbind (vget (\<lambda>vm. ArrayFromByteArray (hp vm) a)) (\<lambda>r.
     vbind (orFail E opc r) (\<lambda>arr.
     vbind (vget (\<lambda>vm. ByteArrayToUI16 (sl_bytes (hp vm) i))) (\<lambda>r.
     vbind (orFail E opc r) (\<lambda>index.
     vbind (vtry (\<lambda>h. Array_getSize h arr)) (\<lambda>r.
     vbind (orFail E opc r) (\<lambda>sz.
     if index \<ge> sz then failWith E opc ''Index out of bounds''
     else vbind (vobj (\<lambda>h. Array_Insert (grow E) h arr index element)) (pushObj E opc))))))))))"

definition op_ARRREMOVE :: "vm_env \<Rightarrow> OpCode \<Rightarrow> unit act" where
  "op_ARRREMOVE E opc =
     vbind (popOrFail E opc) (\<lambda>a.
     vbind (popOrFail E opc) (\<lambda>i.
     if sl_len i > 2 then failWith E opc ''Wrong index size''
     else
     vbind (vget (\<lambda>vm. ByteArrayToUI16 (sl_bytes (hp vm) i))) (\<lambda>r.
     vbind (orFail E opc r) (\<lambda>index.
     vbind (vget (\<lambda>vm. ArrayFromByteArray (hp vm) a)) (\<lambda>r.
     vbind (orFail E opc r) (\<lambda>arr.
     vbind (vobj (\<lambda>h. Array_Remove (grow E) h arr index)) (pushObj E opc)))))))"

definition op_ARRAT :: "vm_env \<Rightarrow> OpCode \<Rightarrow> unit act" where
  "op_ARRAT E opc =
     vbind (popOrFail E opc) (\<lambda>a.
     vbind (popOrFail E opc) (\<lambda>i.
     vbind (vget (\<lambda>vm. ByteArrayToUI16 (sl_bytes (hp vm) i))) (\<lambda>r.
     vbind (orFail E opc r) (\<lambda>index.
     vbind (vget (\<lambda>vm. ArrayFromByteArray (hp vm) a)) (\<lambda>r.
     vbind (orFail E opc r) (\<lambda>arr.
     vbind (vobj (\<lambda>h. Array_At h arr index)) (\<lambda>(_, r).
     vbind (orFail E opc r) (\<lambda>element. pushOrFail E opc element))))))))"

subsection \<open>Cryptography\<close>

definition op_SHA3 :: "vm_env \<Rightarrow> OpCode \<Rightarrow> unit act" where
  "op_SHA3 E opc =
     vbind (popOrFail E opc) (\<lambda>right.
     vbind (valloc (\<lambda>h. sl_append (grow E) h nil_slice (sha3_256 E (sl_bytes h right)))) (\<lambda>hash.
     pushOrFail E opc hash))"

definition op_CHECKSIG :: "vm_env \<Rightarrow> OpCode \<Rightarrow> unit act" where
  "op_CHECKSIG E opc =
     vbind (PopBytes opc) (\<lambda>publicKeySig.
     vbind (PopBytes opc) (\<lambda>hash.
     vbind (guardErrors E opc [err publicKeySig, err hash]) (\<lambda>_.
     let key = val nil_slice publicKeySig; hash = val nil_slice hash in
     if sl_len key \<noteq> 64 then failWith E opc ''Not a valid address''
     else if sl_len hash \<noteq> 32 then failWith E opc ''Not a valid hash''
     else
       vbind (vget (\<lambda>vm. ecdsa_Verify E
           (big_SetBytes (take 32 (sl_bytes (hp vm) key))) (big_SetBytes (drop 32 (sl_bytes (hp vm) key)))
           (sl_bytes (hp vm) hash)
           (big_SetBytes (take 32 (Sig1 (ctx vm)))) (big_SetBytes (drop 32 (Sig1 (ctx vm)))))) (\<lambda>result.
       pushBool result))))"

subsection \<open>Dispatch\<close>

definition exec_op :: "vm_env \<Rightarrow> OpCode \<Rightarrow> unit act" where
  "exec_op E opc =
     (case op_code opc of
        PUSH \<Rightarrow> op_PUSH E opc | DUP \<Rightarrow> op_DUP E opc | ROLL \<Rightarrow> op_ROLL E opc
      | POP \<Rightarrow> op_POP E opc | ADD \<Rightarrow> op_ADD E opc | SUB \<Rightarrow> op_SUB E opc
      | MULT \<Rightarrow> op_MULT E opc | DIV \<Rightarrow> op_DIV E opc | MOD \<Rightarrow> op_MOD E opc
      | NEG \<Rightarrow> op_NEG E opc | EQ \<Rightarrow> op_EQ E opc | NEQ \<Rightarrow> op_NEQ E opc
      | LT \<Rightarrow> op_LT E opc | GT \<Rightarrow> op_GT E opc | LTE \<Rightarrow> op_LTE E opc
      | GTE \<Rightarrow> op_GTE E opc | SHIFTL \<Rightarrow> op_SHIFTL E opc | SHIFTR \<Rightarrow> op_SHIFTR E opc
      | NOP \<Rightarrow> op_NOP E opc | JMP \<Rightarrow> op_JMP E opc | JMPIF \<Rightarrow> op_JMPIF E opc
      | CALL \<Rightarrow> op_CALL E opc | CALLIF \<Rightarrow> op_CALLIF E opc | CALLEXT \<Rightarrow> op_CALLEXT E opc
      | RET \<Rightarrow> op_RET E opc | SIZE \<Rightarrow> op_SIZE E opc | STORE \<Rightarrow> op_STORE E opc
      | SSTORE \<Rightarrow> op_SSTORE E opc | LOAD \<Rightarrow> op_LOAD E opc | SLOAD \<Rightarrow> op_SLOAD E opc
      | ADDRESS \<Rightarrow> op_ADDRESS E opc | ISSUER \<Rightarrow> op_ISSUER E opc | BALANCE \<Rightarrow> op_BALANCE E opc
      | CALLER \<Rightarrow> op_CALLER E opc | CALLVAL \<Rightarrow> op_CALLVAL E opc | CALLDATA \<Rightarrow> op_CALLDATA E opc
      | NEWMAP \<Rightarrow> op_NEWMAP E opc | MAPHASKEY \<Rightarrow> op_MAPHASKEY E opc | MAPPUSH \<Rightarrow> op_MAPPUSH E opc
      | MAPGETVAL \<Rightarrow> op_MAPGETVAL E opc | MAPSETVAL \<Rightarrow> op_MAPSETVAL E opc
      | MAPREMOVE \<Rightarrow> op_MAPREMOVE E opc | NEWARR \<Rightarrow> op_NEWARR E opc
      | ARRAPPEND \<Rightarrow> op_ARRAPPEND E opc | ARRINSERT \<Rightarrow> op_ARRINSERT E opc
      | ARRREMOVE \<Rightarrow> op_ARRREMOVE E opc | ARRAT \<Rightarrow> op_ARRAT E opc | SHA3 \<Rightarrow> op_SHA3 E opc
      | CHECKSIG \<Rightarrow> op_CHECKSIG E opc | ERRHALT \<Rightarrow> vreturn False | HALT \<Rightarrow> vreturn True)"

end
