(* ===== verification/VMSafe.thy ===== *)
theory VMSafe
  imports VMCore
begin

text \<open>
  A small program logic for the instructions. \<open>vm_ok\<close> is the invariant of the machine: the memory
  account of the stack is exact and within its limit, every slice the machine holds is
  well-formed, the recorded writes are in range and the frame variables are bounded. \<open>evolves\<close> is
  what every instruction guarantees about its effect: arrays keep their size, the code slice and
  the context (but for the recorded writes) stay, and the fee never grows.
  \<open>safe G m P Q\<close> is the triple: from a state with the invariant in which the slices of \<open>G\<close> are
  well-formed and bounded, \<open>m\<close> keeps the invariant, evolves the state, returns a value with
  \<open>P\<close> and makes the slices of \<open>Q\<close> known. Panics and divergence are not excluded here.
\<close>

definition max_elem :: nat where
  "max_elem = 1000000"

definition int_bound :: int where
  "int_bound = 256 ^ max_elem"

definition frame_ok :: "Frame \<Rightarrow> bool" where
  "frame_ok f \<longleftrightarrow> (\<forall>i v. variables f i = Some v \<longrightarrow> \<bar>v\<bar> < int_bound)"

definition ctx_ok :: "Context \<Rightarrow> bool" where
  "ctx_ok c \<longleftrightarrow> changes_ok c \<and> (\<forall>v \<in> set (ContractVariables c). length v \<le> elem_bound) \<and>
     length (Address c) \<le> 64 \<and> length (Issuer c) \<le> 32 \<and> length (From c) \<le> 32"

definition vm_ok :: "VM \<Rightarrow> bool" where
  "vm_ok vm \<longleftrightarrow>
     stack_ok (evaluationStack vm) \<and>
     (\<forall>s \<in> set (stk (evaluationStack vm)). valid_slice (hp vm) s) \<and>
     valid_slice (hp vm) (code vm) \<and> valid_slice (hp vm) (Data (ctx vm)) \<and>
     ctx_ok (ctx vm) \<and> (\<forall>f \<in> set (cs_values (callStack vm)). frame_ok f)"

definition evolves :: "VM \<Rightarrow> VM \<Rightarrow> bool" where
  "evolves vm vm' \<longleftrightarrow>
     heap_ext (hp vm) (hp vm') \<and> code vm' = code vm \<and> unat (fee vm') \<le> unat (fee vm) \<and>
     ctx vm' = (ctx vm)\<lparr>changes := changes (ctx vm')\<rparr>"

definition env_ok :: "vm_env \<Rightarrow> bool" where
  "env_ok E \<longleftrightarrow> (\<forall>bs. length (sha3_256 E bs) = 32)"

definition known :: "(nat \<times> slice) list \<Rightarrow> heap \<Rightarrow> bool" where
  "known G h \<longleftrightarrow> (\<forall>(n, s) \<in> set G. good n h s)"

definition knows :: "(nat \<times> slice) list \<Rightarrow> nat \<Rightarrow> slice \<Rightarrow> bool" where
  "knows G N s \<longleftrightarrow> s = nil_slice \<or> (\<exists>n. (n, s) \<in> set G \<and> n \<le> N)"

primrec meets :: "VM \<Rightarrow> ('a \<Rightarrow> bool) \<Rightarrow> ('a \<Rightarrow> (nat \<times> slice) list) \<Rightarrow> 'a outcome \<Rightarrow> bool" where
  "meets vm P Q (Next a vm') \<longleftrightarrow> vm_ok vm' \<and> evolves vm vm' \<and> P a \<and> known (Q a) (hp vm')"
| "meets vm P Q (Return b vm') \<longleftrightarrow> vm_ok vm' \<and> evolves vm vm'"
| "meets vm P Q Panic \<longleftrightarrow> True"
| "meets vm P Q Diverge \<longleftrightarrow> True"

definition safe :: "(nat \<times> slice) list \<Rightarrow> 'a act \<Rightarrow> ('a \<Rightarrow> bool) \<Rightarrow> ('a \<Rightarrow> (nat \<times> slice) list) \<Rightarrow> bool" where
  "safe G m P Q \<longleftrightarrow> (\<forall>vm. vm_ok vm \<longrightarrow> known G (hp vm) \<longrightarrow> meets vm P Q (m vm))"

lemma safeI: "(\<And>vm. vm_ok vm \<Longrightarrow> known G (hp vm) \<Longrightarrow> meets vm P Q (m vm)) \<Longrightarrow> safe G m P Q"
  by (simp add: safe_def)

lemma safeD: "safe G m P Q \<Longrightarrow> vm_ok vm \<Longrightarrow> known G (hp vm) \<Longrightarrow> meets vm P Q (m vm)"
  by (simp add: safe_def)

subsection \<open>The invariant under small updates\<close>

lemma evolves_refl [simp]: "evolves vm vm"
  by (simp add: evolves_def)

lemma evolves_trans: "evolves vm vm' \<Longrightarrow> evolves vm' vm'' \<Longrightarrow> evolves vm vm''"
proof -
  assume a: "evolves vm vm'" "evolves vm' vm''"
  have "c'' = c\<lparr>changes := changes c''\<rparr>"
    if "c' = c\<lparr>changes := x\<rparr>" "c'' = c'\<lparr>changes := y\<rparr>" for c c' c'' :: Context and x y
    using that by simp
  with a show ?thesis unfolding evolves_def by (metis heap_ext_trans le_trans)
qed

lemma evolves_ext: "evolves vm vm' \<Longrightarrow> heap_ext (hp vm) (hp vm')"
  by (simp add: evolves_def)

lemma meets_trans: "meets vm' P Q r \<Longrightarrow> evolves vm vm' \<Longrightarrow> meets vm P Q r"
  by (cases r) (auto intro: evolves_trans)

lemma known_simps [simp]:
  "known [] h" "known ((n, s) # G) h \<longleftrightarrow> good n h s \<and> known G h"
  "known (G @ G') h \<longleftrightarrow> known G h \<and> known G' h"
  by (auto simp: known_def)

lemma known_ext: "known G h \<Longrightarrow> heap_ext h h' \<Longrightarrow> known G h'"
  by (auto simp: known_def intro: good_ext)

lemma knows_good: "knows G N s \<Longrightarrow> known G h \<Longrightarrow> good N h s"
  by (auto simp: knows_def known_def intro: good_mono)

lemma knows_simps [simp]:
  "knows G N nil_slice" "knows [] N s \<longleftrightarrow> s = nil_slice"
  "knows ((n, t) # G) N s \<longleftrightarrow> t = s \<and> n \<le> N \<or> knows G N s"
  by (auto simp: knows_def)

lemma vm_ok_hp: "vm_ok vm \<Longrightarrow> heap_ext (hp vm) h \<Longrightarrow> vm_ok (vm\<lparr>hp := h\<rparr>)"
  by (auto simp: vm_ok_def intro: valid_slice_ext)

lemma vm_ok_updates [simp]:
  "vm_ok (vm\<lparr>pc := p\<rparr>) = vm_ok vm" "vm_ok (vm\<lparr>fee := f\<rparr>) = vm_ok vm"
  by (simp_all add: vm_ok_def)

lemma evolves_updates [simp]:
  "evolves vm (vm'\<lparr>pc := p\<rparr>) = evolves vm vm'"
  "evolves vm (vm'\<lparr>evaluationStack := st\<rparr>) = evolves vm vm'"
  "evolves vm (vm'\<lparr>callStack := cs\<rparr>) = evolves vm vm'"
  "evolves vm (vm\<lparr>hp := h\<rparr>) = heap_ext (hp vm) h"
  "evolves vm (vm\<lparr>fee := f\<rparr>) = (unat f \<le> unat (fee vm))"
  by (simp_all add: evolves_def)

lemma vm_ok_stack:
  assumes "vm_ok vm" "stack_ok st" "set (stk st) \<subseteq> insert s (set (stk (evaluationStack vm)))"
    and "valid_slice (hp vm) s"
  shows "vm_ok (vm\<lparr>evaluationStack := st\<rparr>)"
  using assms by (auto simp: vm_ok_def)

lemma vm_ok_callStack:
  "vm_ok vm \<Longrightarrow> \<forall>f \<in> set (cs_values cs). f \<in> set (cs_values (callStack vm)) \<or> frame_ok f \<Longrightarrow>
   vm_ok (vm\<lparr>callStack := cs\<rparr>)"
  by (auto simp: vm_ok_def)

subsection \<open>Structural rules\<close>

lemma safe_bind:
  assumes "safe G m P Q" "\<And>a. P a \<Longrightarrow> safe (Q a @ G) (f a) P' Q'"
  shows "safe G (vbind m f) P' Q'"
proof (rule safeI)
  fix vm assume vm: "vm_ok vm" "known G (hp vm)"
  note m = safeD [OF assms(1) vm]
  show "meets vm P' Q' (vbind m f vm)"
  proof (cases "m vm")
    case (Next a vm1)
    with m have 1: "vm_ok vm1" "evolves vm vm1" "P a" "known (Q a) (hp vm1)" by simp_all
    moreover have "known G (hp vm1)" using known_ext [OF vm(2) evolves_ext] 1(2) .
    ultimately have "meets vm1 P' Q' (f a vm1)" by (intro safeD [OF assms(2)]) simp_all
    with 1(2) Next show ?thesis by (simp add: vbind_def meets_trans)
  qed (use m in \<open>simp_all add: vbind_def\<close>)
qed

lemma safe_weaken:
  "safe G m P Q \<Longrightarrow> (\<And>a. P a \<Longrightarrow> P' a) \<Longrightarrow> safe G m P' (\<lambda>_. [])"
  unfolding safe_def by (metis (no_types, lifting) known_simps(1) meets.simps outcome.exhaust)

lemma safe_ret: "P a \<Longrightarrow> safe G (vret a) P (\<lambda>_. [])"
  by (simp add: safe_def vret_def)

lemma safe_vreturn: "safe G (vreturn b) P Q"
  by (simp add: safe_def vreturn_def)

lemma safe_vget_any: "safe G (vget f) (\<lambda>_. True) (\<lambda>_. [])"
  by (simp add: safe_def vget_def)

lemma safe_vget: "(\<And>vm. vm_ok vm \<Longrightarrow> known G (hp vm) \<Longrightarrow> P (f vm) \<and> known (Q (f vm)) (hp vm)) \<Longrightarrow>
   safe G (vget f) P Q"
  by (simp add: safe_def vget_def)

lemma safe_vset: "(\<And>vm. vm_ok vm \<Longrightarrow> known G (hp vm) \<Longrightarrow> vm_ok (f vm) \<and> evolves vm (f vm)) \<Longrightarrow>
   safe G (vset f) (\<lambda>_. True) (\<lambda>_. [])"
  by (simp add: safe_def vset_def)

lemma safe_vtry: "(\<And>h a. known G h \<Longrightarrow> f h = Some a \<Longrightarrow> P a \<and> known (Q a) h) \<Longrightarrow> safe G (vtry f) P Q"
  by (auto simp: safe_def vtry_def split: option.splits)

lemma safe_vtry_any: "safe G (vtry f) (\<lambda>_. True) (\<lambda>_. [])"
  by (rule safe_vtry) simp

lemma safe_valloc:
  "(\<And>h h' a. known G h \<Longrightarrow> f h = (h', a) \<Longrightarrow> heap_ext h h' \<and> P a \<and> known (Q a) h') \<Longrightarrow>
   safe G (valloc f) P Q"
  by (rule safeI) (auto simp: valloc_def intro: vm_ok_hp split: prod.splits)

lemma safe_vobj:
  assumes "\<And>h r. known G h \<Longrightarrow> f h = Some r \<Longrightarrow> obj_post N h (\<lambda>x h'. known (Q x) h') r"
  shows "safe G (vobj f) (\<lambda>(_, r). \<forall>e. err r = Some e \<longrightarrow> short e)
    (\<lambda>(a, r). (N, a) # (case r of Inl _ \<Rightarrow> [] | Inr x \<Rightarrow> Q x))"
proof (rule safeI)
  fix vm assume vm: "vm_ok vm" "known G (hp vm)"
  have "obj_post N (hp vm) (\<lambda>x h'. known (Q x) h') r" if "f (hp vm) = Some r" for r
    using assms vm that by blast
  with vm show "meets vm (\<lambda>(_, r). \<forall>e. err r = Some e \<longrightarrow> short e)
      (\<lambda>(a, r). (N, a) # (case r of Inl _ \<Rightarrow> [] | Inr x \<Rightarrow> Q x)) (vobj f vm)"
    by (auto simp: vobj_def obj_post_def err_def split: option.splits sum.splits intro: vm_ok_hp)
qed

lemma safe_if: "(b \<Longrightarrow> safe G m P Q) \<Longrightarrow> (\<not> b \<Longrightarrow> safe G m' P Q) \<Longrightarrow> safe G (if b then m else m') P Q"
  by simp

lemma safe_option:
  "(r = None \<Longrightarrow> safe G m P Q) \<Longrightarrow> (\<And>a. r = Some a \<Longrightarrow> safe G (f a) P Q) \<Longrightarrow>
   safe G (case r of None \<Rightarrow> m | Some a \<Rightarrow> f a) P Q"
  by (cases r) auto

lemma safe_sum:
  "(\<And>e. r = Inl e \<Longrightarrow> safe G (g e) P Q) \<Longrightarrow> (\<And>a. r = Inr a \<Longrightarrow> safe G (f a) P Q) \<Longrightarrow>
   safe G (case r of Inl e \<Rightarrow> g e | Inr a \<Rightarrow> f a) P Q"
  by (cases r) auto

lemma safe_prod: "(\<And>a b. r = (a, b) \<Longrightarrow> safe G (f a b) P Q) \<Longrightarrow> safe G (case r of (a, b) \<Rightarrow> f a b) P Q"
  by (cases r) auto

lemma safe_let: "(\<And>x. x = a \<Longrightarrow> safe G (f x) P Q) \<Longrightarrow> safe G (let x = a in f x) P Q"
  by simp

subsection \<open>The helper methods\<close>

lemma err_simps [simp]: "err (Inl e) = Some e" "err (Inr a) = None"
  by (simp_all add: err_def)

lemma val_simps [simp]: "val d (Inl e) = d" "val d (Inr a) = a"
  by (simp_all add: val_def)

lemma safe_fetch: "safe G fetch (\<lambda>r. \<forall>e. err r = Some e \<longrightarrow> short e) (\<lambda>_. [])"
  by (auto simp: safe_def fetch_def short_def)

lemma vm_ok_code: "vm_ok vm \<Longrightarrow> valid_slice (hp vm) (code vm)"
  by (simp add: vm_ok_def)

lemma safe_fetchMany:
  "safe G (fetchMany n) (\<lambda>r. \<forall>e. err r = Some e \<longrightarrow> short e) (\<lambda>r. [(n, val nil_slice r)])"
proof (rule safeI)
  fix vm assume vm: "vm_ok vm"
  have "good n (hp vm) s" if "sl_sub (code vm) (pc vm) (pc vm + n) = Some s" for s
    using sl_sub_props(3,4) [OF that] vm_ok_code [OF vm] by (simp add: good_def)
  with vm show "meets vm (\<lambda>r. \<forall>e. err r = Some e \<longrightarrow> short e) (\<lambda>r. [(n, val nil_slice r)]) (fetchMany n vm)"
    by (auto simp: fetchMany_def short_def split: option.splits)
qed

lemma safe_vpush:
  assumes k: "knows G elem_bound s"
  shows "safe G (vpush s) (\<lambda>e. \<forall>m. e = Some m \<longrightarrow> short m) (\<lambda>_. [])"
proof (rule safeI)
  fix vm assume vm: "vm_ok vm" "known G (hp vm)"
  have g: "good elem_bound (hp vm) s" using k vm(2) by (rule knows_good)
  obtain st e where p: "Stack_Push (evaluationStack vm) s = (st, e)" by fastforce
  have st: "stack_ok (evaluationStack vm)" using vm by (simp add: vm_ok_def)
  have le: "sl_len s \<le> elem_bound" using g by (simp add: good_def)
  have "set (stk st) \<subseteq> insert s (set (stk (evaluationStack vm)))"
    using p by (auto simp: Stack_Push_def split: if_splits)
  then have "vm_ok (vm\<lparr>evaluationStack := st\<rparr>)"
    using vm_ok_stack [OF vm(1) stack_ok_Push(1) [OF st le p]] g by (simp add: good_def)
  moreover have "\<forall>m. e = Some m \<longrightarrow> short m"
    using p by (auto simp: Stack_Push_def short_def split: if_splits)
  ultimately show "meets vm (\<lambda>e. \<forall>m. e = Some m \<longrightarrow> short m) (\<lambda>_. []) (vpush s vm)"
    by (simp add: vpush_def p)
qed

lemma safe_pushMsg: "length m \<le> 2000 \<Longrightarrow> safe G (pushMsg E m) (\<lambda>_. True) (\<lambda>_. [])"
  unfolding pushMsg_def
proof (rule safe_bind)
  show "length m \<le> 2000 \<Longrightarrow> safe G (valloc (\<lambda>h. sl_append (grow E) h nil_slice (of_string m))) (\<lambda>_. True)
      (\<lambda>s. [(2000, s)])"
    by (rule safe_valloc) (use good_append [of 0 _ nil_slice] in fastforce)
  show "safe ([(2000, s)] @ G) (vbind (vpush s) (\<lambda>_. vret ())) (\<lambda>_. True) (\<lambda>_. [])" for s
    by (rule safe_bind [OF safe_vpush]) (simp_all add: elem_bound_def safe_ret)
qed

lemma safe_failWith: "op_table_ok opc \<Longrightarrow> short m \<Longrightarrow> safe G (failWith E opc m) P Q"
  unfolding failWith_def
  by (rule safe_bind [OF safe_pushMsg])
    (auto simp: op_table_ok_def short_def intro: safe_vreturn)

lemma safe_guardErrors:
  assumes "op_table_ok opc" "\<forall>e m. e \<in> set errs \<longrightarrow> e = Some m \<longrightarrow> short m"
  shows "safe G (guardErrors E opc errs) (\<lambda>_. \<forall>e \<in> set errs. e = None) (\<lambda>_. [])"
proof -
  have "safe G (checkErrors E (op_Name opc) errs) (\<lambda>b. b \<longrightarrow> (\<forall>e \<in> set errs. e = None)) (\<lambda>_. [])"
    using assms(2)
  proof (induction errs)
    case (Cons e errs)
    show ?case
    proof (cases e)
      case None
      with Cons show ?thesis by simp
    next
      case (Some m)
      have "short m" using Cons.prems Some by simp
      then have "length (op_Name opc @ '': '' @ m) \<le> 2000"
        using assms(1) by (simp add: op_table_ok_def short_def)
      then show ?thesis
        unfolding Some checkErrors.simps by (rule safe_bind [OF safe_pushMsg]) (simp add: safe_ret)
    qed
  qed (simp add: safe_ret)
  then show ?thesis
    unfolding guardErrors_def by (rule safe_bind) (auto intro: safe_ret safe_vreturn)
qed

lemma safe_orFail:
  "op_table_ok opc \<Longrightarrow> \<forall>e. err r = Some e \<longrightarrow> short e \<Longrightarrow> safe G (orFail E opc r) (\<lambda>a. r = Inr a) (\<lambda>_. [])"
  unfolding orFail_def by (cases r) (auto intro: safe_failWith safe_ret)

lemma safe_pushOrFail:
  "op_table_ok opc \<Longrightarrow> knows G elem_bound s \<Longrightarrow> safe G (pushOrFail E opc s) (\<lambda>_. True) (\<lambda>_. [])"
  unfolding pushOrFail_def
  by (rule safe_bind [OF safe_vpush]) (auto intro: safe_failWith safe_ret split: option.splits)

text \<open>The price of a pop: the subtraction cannot wrap around, since the cost of a word is small.\<close>

lemma sint_nonneg_unat:
  assumes "0 \<le> sint (w :: u64)"
  shows "unat w < 2 ^ 63"
proof -
  have lt: "sint w < 2 ^ 63" using sint_lt [of w] by simp
  have "uint w = uint (word_of_int (sint w) :: u64)" by simp
  also have "\<dots> = sint w mod 2 ^ 64" by (simp only: uint_word_of_int) simp
  also have "\<dots> = sint w" using assms lt by simp
  finally have "int (unat w) < int (2 ^ 63)" using lt by simp
  then show ?thesis by (rule of_nat_less_imp_less)
qed

lemma gas_no_wrap:
  assumes "gasFactor opc \<le> 2" "n \<le> max_elem"
    and c: "c = gasFactor opc * word_of_nat ((n + 64 - 1) div 64)"
    and "\<not> sint (f - c) < 0"
  shows "unat (f - c) \<le> unat (f :: u64)"
proof -
  let ?k = "(n + 64 - 1) div 64"
  have k: "?k \<le> 15625" using assms(2) by (simp add: max_elem_def)
  have "unat (gasFactor opc) \<le> 2" using assms(1) by (simp add: word_le_nat_alt)
  with k have gk: "unat (gasFactor opc) * ?k \<le> 2 * 15625" by (rule mult_le_mono [rotated])
  have "unat c = unat (gasFactor opc) * ?k mod 2 ^ 64" unfolding c using k
    by (simp add: unat_word_ariths unat_of_nat)
  with gk have c_le: "unat c \<le> 31250" by simp
  have "c \<le> f"
  proof (rule ccontr)
    assume "\<not> c \<le> f"
    then have "unat (f - c) = 2 ^ 64 + unat f - unat c"
      using unat_sub_if' [of f c] by (simp add: word_le_nat_alt)
    moreover have "unat (f - c) < 2 ^ 63"
      using assms(4) by (intro sint_nonneg_unat) simp
    ultimately show False using c_le by simp
  qed
  then show ?thesis by (simp add: unat_sub)
qed

lemma safe_PopBytes:
  assumes opc: "op_table_ok opc"
  shows "safe G (PopBytes opc) (\<lambda>r. \<forall>e. err r = Some e \<longrightarrow> short e) (\<lambda>r. [(max_elem, val nil_slice r)])"
proof (rule safeI)
  fix vm assume vm: "vm_ok vm"
  obtain st r where p: "Stack_Pop (evaluationStack vm) = (st, r)" by fastforce
  have st: "stack_ok (evaluationStack vm)" using vm by (simp add: vm_ok_def)
  note pop = stack_ok_Pop [OF st p]
  show "meets vm (\<lambda>r. \<forall>e. err r = Some e \<longrightarrow> short e) (\<lambda>r. [(max_elem, val nil_slice r)]) (PopBytes opc vm)"
  proof (cases r)
    case (Inl e)
    with pop(4) p have "st = evaluationStack vm" "short e"
      by (auto simp: Stack_Pop_def short_def Let_def split: if_splits)
    with vm p Inl show ?thesis by (simp add: PopBytes_def)
  next
    case (Inr s)
    have s: "s \<in> set (stk (evaluationStack vm))" using pop(3) Inr by simp
    have v: "valid_slice (hp vm) s" using vm s by (simp add: vm_ok_def)
    have len: "sl_len s \<le> max_elem" using stack_ok_elem [OF st s] by (simp add: max_elem_def)
    have sub: "set (stk st) \<subseteq> insert s (set (stk (evaluationStack vm)))"
      using pop(2) Inr by auto
    have ok: "vm_ok (vm\<lparr>evaluationStack := st\<rparr>)" using vm_ok_stack [OF vm pop(1) sub v] .
    then have ok': "vm_ok (vm\<lparr>evaluationStack := st, fee := x\<rparr>)" for x by simp
    have "gasFactor opc \<le> 2" using opc by (simp add: op_table_ok_def)
    note gas = gas_no_wrap [OF this len refl, of "fee vm"]
    have g: "good max_elem (hp vm) s" using v len by (simp add: good_def)
    show ?thesis
    proof (cases "sint (fee vm - gasFactor opc * word_of_nat ((sl_len s + 64 - 1) div 64)) < 0")
      case True
      then show ?thesis using ok p Inr by (simp add: PopBytes_def Let_def short_def)
    next
      case False
      have "evolves vm (vm\<lparr>evaluationStack := st, fee := fee vm - gasFactor opc * word_of_nat ((sl_len s + 64 - 1) div 64)\<rparr>)"
        using gas [OF False] by (simp add: evolves_def)
      then show ?thesis using False ok' p Inr g by (simp add: PopBytes_def Let_def)
    qed
  qed
qed

lemma safe_popOrFail:
  "op_table_ok opc \<Longrightarrow> safe G (popOrFail E opc) (\<lambda>_. True) (\<lambda>s. [(max_elem, s)])"
  unfolding popOrFail_def orFail_def
proof (rule safe_bind [OF safe_PopBytes])
  fix r :: "string + slice"
  assume o: "op_table_ok opc" and r: "\<forall>e. err r = Some e \<longrightarrow> short e"
  show "safe ([(max_elem, val nil_slice r)] @ G)
      (case r of Inl e \<Rightarrow> failWith E opc e | Inr a \<Rightarrow> vret a) (\<lambda>_. True) (\<lambda>s. [(max_elem, s)])"
  proof (cases r)
    case (Inl e)
    with o r show ?thesis by (simp add: safe_failWith)
  next
    case (Inr s)
    then show ?thesis by (simp add: safe_def vret_def)
  qed
qed

lemma int_bound_pos: "0 < int_bound"
  by (simp add: int_bound_def)

definition bounded :: "string + int \<Rightarrow> bool" where
  "bounded r \<longleftrightarrow> (\<forall>e. err r = Some e \<longrightarrow> short e) \<and> \<bar>val 0 r\<bar> < int_bound"

lemma bounded_Inr [simp]: "bounded (Inr v) \<longleftrightarrow> \<bar>v\<bar> < int_bound"
  by (simp add: bounded_def)

lemma bounded_Inl [simp]: "bounded (Inl e) \<longleftrightarrow> short e"
  by (simp add: bounded_def int_bound_pos)

lemma safe_PopSignedBigInt: "op_table_ok opc \<Longrightarrow> safe G (PopSignedBigInt opc) bounded (\<lambda>_. [])"
  unfolding PopSignedBigInt_def
proof (rule safe_bind [OF safe_PopBytes])
  fix r :: "string + slice"
  assume r: "\<forall>e. err r = Some e \<longrightarrow> short e"
  show "safe ([(max_elem, val nil_slice r)] @ G) (case r of
        Inl e \<Rightarrow> vret (Inl e)
      | Inr bs \<Rightarrow> vtry (\<lambda>h. SignedBigIntConversion (sl_bytes h bs))) bounded (\<lambda>_. [])"
  proof (rule safe_sum)
    fix e assume "r = Inl e"
    with r show "safe ([(max_elem, val nil_slice r)] @ G) (vret (Inl e)) bounded (\<lambda>_. [])"
      by (intro safe_ret) simp
  next
    fix s assume s: "r = Inr s"
    have "bounded a" if "good max_elem h s" "SignedBigIntConversion (sl_bytes h s) = Some a" for h a
    proof (cases a)
      case (Inl e)
      with that show ?thesis
        by (auto simp: SignedBigIntConversion_def short_def Let_def split: list.splits if_splits)
    next
      case (Inr v)
      have "length (sl_bytes h s) \<le> max_elem" using that(1) by (simp add: good_def)
      with SignedBigIntConversion_bound [OF _ this] that(2) Inr show ?thesis
        by (simp add: int_bound_def)
    qed
    then show "safe ([(max_elem, val nil_slice r)] @ G)
        (vtry (\<lambda>h. SignedBigIntConversion (sl_bytes h s))) bounded (\<lambda>_. [])"
      by (intro safe_vtry) (auto simp: s)
  qed
qed

lemma safe_PopUnsignedBigInt: "op_table_ok opc \<Longrightarrow> safe G (PopUnsignedBigInt opc) bounded (\<lambda>_. [])"
  unfolding PopUnsignedBigInt_def
proof (rule safe_bind [OF safe_PopBytes])
  fix r :: "string + slice"
  assume r: "\<forall>e. err r = Some e \<longrightarrow> short e"
  show "safe ([(max_elem, val nil_slice r)] @ G) (case r of
        Inl e \<Rightarrow> vret (Inl e)
      | Inr bs \<Rightarrow> vget (\<lambda>vm. Inr (UnsignedBigIntConversion (sl_bytes (hp vm) bs)))) bounded (\<lambda>_. [])"
  proof (rule safe_sum)
    fix e assume "r = Inl e"
    with r show "safe ([(max_elem, val nil_slice r)] @ G) (vret (Inl e)) bounded (\<lambda>_. [])"
      by (intro safe_ret) simp
  next
    fix s assume s: "r = Inr s"
    have "\<bar>UnsignedBigIntConversion (sl_bytes h s)\<bar> < int_bound" if "good max_elem h s" for h
      unfolding int_bound_def
      by (rule UnsignedBigIntConversion_bound) (use that in \<open>simp add: good_def\<close>)
    then show "safe ([(max_elem, val nil_slice r)] @ G)
        (vget (\<lambda>vm. Inr (UnsignedBigIntConversion (sl_bytes (hp vm) s)))) bounded (\<lambda>_. [])"
      by (intro safe_vget) (simp add: s)
  qed
qed

text \<open>What an integer of bounded size occupies on the stack.\<close>

lemma safe_allocSigned:
  assumes "\<bar>bi\<bar> < 256 ^ k" "Suc k \<le> N"
  shows "safe G (allocSigned E bi) (\<lambda>_. True) (\<lambda>s. [(N, s)])"
  unfolding allocSigned_def
proof (rule safe_valloc)
  fix h h' s
  assume a: "(let (h, result) = sl_new h (if 0 \<le> bi then [0] else [1]) in
    sl_append (grow E) h result (big_Bytes (nat \<bar>bi\<bar>))) = (h', s)"
  obtain h1 t where n: "sl_new h (if 0 \<le> bi then [0] else [1]) = (h1, t)" by fastforce
  have g1: "good 1 h1 t" "heap_ext h h1" using good_new [OF n] by simp_all
  have "nat \<bar>bi\<bar> < 256 ^ k" using assms(1) by (simp add: nat_less_iff)
  then have len: "length (big_Bytes (nat \<bar>bi\<bar>)) \<le> k" by (rule length_big_Bytes)
  from a n have "sl_append (grow E) h1 t (big_Bytes (nat \<bar>bi\<bar>)) = (h', s)" by (simp add: Let_def)
  from good_append [OF g1(1) this len] g1(2) assms(2)
  show "heap_ext h h' \<and> True \<and> known [(N, s)] h'"
    by (auto intro: heap_ext_trans good_mono)
qed

lemma safe_pushSigned:
  assumes "op_table_ok opc" "\<bar>bi\<bar> < 256 ^ k" "Suc k \<le> elem_bound"
  shows "safe G (pushSigned E opc bi) (\<lambda>_. True) (\<lambda>_. [])"
  unfolding pushSigned_def
  by (rule safe_bind [OF safe_allocSigned [OF assms(2,3)]]) (simp add: safe_pushOrFail assms(1))

lemma safe_valloc_new: "length bs \<le> N \<Longrightarrow> safe G (valloc (\<lambda>h. sl_new h bs)) (\<lambda>_. True) (\<lambda>s. [(N, s)])"
  by (rule safe_valloc) (auto dest: good_new)

lemma safe_pushNew:
  "op_table_ok opc \<Longrightarrow> length bs \<le> elem_bound \<Longrightarrow> safe G (pushNew E opc bs) (\<lambda>_. True) (\<lambda>_. [])"
  unfolding pushNew_def by (rule safe_bind [OF safe_valloc_new]) (auto intro: safe_pushOrFail)

lemma safe_vpush_drop:
  "knows G elem_bound s \<Longrightarrow> safe G (vbind (vpush s) (\<lambda>_. vret ())) (\<lambda>_. True) (\<lambda>_. [])"
  by (rule safe_bind [OF safe_vpush]) (simp_all add: safe_ret)

lemma safe_pushBool: "safe G (pushBool b) (\<lambda>_. True) (\<lambda>_. [])"
  unfolding pushBool_def
  by (rule safe_bind [OF safe_valloc_new [of _ 1]]) (simp_all add: safe_vpush_drop elem_bound_def)

lemma safe_popSignedPair:
  "op_table_ok opc \<Longrightarrow>
   safe G (popSignedPair E opc) (\<lambda>(l, r). \<bar>l\<bar> < int_bound \<and> \<bar>r\<bar> < int_bound) (\<lambda>_. [])"
  unfolding popSignedPair_def
  by (intro safe_bind [OF safe_PopSignedBigInt] safe_bind [OF safe_guardErrors] safe_ret)
    (auto simp: bounded_def)

lemma safe_popUnsignedPair:
  "op_table_ok opc \<Longrightarrow> safe G (popUnsignedPair E opc) (\<lambda>_. True) (\<lambda>_. [])"
  unfolding popUnsignedPair_def
  by (intro safe_bind [OF safe_PopUnsignedBigInt] safe_bind [OF safe_guardErrors] safe_ret)
    (auto simp: bounded_def)

lemma short_lit [simp]: "short (c # m) \<longleftrightarrow> length m < 1000"
  by (auto simp: short_def)

subsection \<open>The values read from the state\<close>

lemma safe_CallStack_Peek:
  "safe G (vget (\<lambda>vm. CallStack_Peek (callStack vm)))
     (\<lambda>r. (\<forall>e. err r = Some e \<longrightarrow> short e) \<and> (\<forall>f. r = Inr f \<longrightarrow> frame_ok f)) (\<lambda>_. [])"
  by (rule safe_vget) (auto simp: vm_ok_def CallStack_Peek_def CallStack_GetLength_def split: if_splits)

lemma safe_MapFromByteArray:
  "safe G (vget (\<lambda>vm. MapFromByteArray (hp vm) s)) (\<lambda>r. (\<forall>e. err r = Some e \<longrightarrow> short e) \<and>
     (\<forall>m. r = Inr m \<longrightarrow> m = s)) (\<lambda>_. [])"
  by (rule safe_vget) (auto simp: MapFromByteArray_def split: if_splits)

lemma safe_ArrayFromByteArray:
  "safe G (vget (\<lambda>vm. ArrayFromByteArray (hp vm) s)) (\<lambda>r. (\<forall>e. err r = Some e \<longrightarrow> short e) \<and>
     (\<forall>m. r = Inr m \<longrightarrow> m = s)) (\<lambda>_. [])"
  by (rule safe_vget) (auto simp: ArrayFromByteArray_def split: if_splits)

lemma safe_ByteArrayToUI16:
  "safe G (vget (\<lambda>vm. ByteArrayToUI16 (f vm))) (\<lambda>r. \<forall>e. err r = Some e \<longrightarrow> short e) (\<lambda>_. [])"
  by (rule safe_vget) (auto simp: err_def intro: ByteArrayToUI16_short split: sum.splits)

lemma safe_Array_getSize:
  "safe G (vtry (\<lambda>h. Array_getSize h s)) (\<lambda>r. \<forall>e. err r = Some e \<longrightarrow> short e) (\<lambda>_. [])"
  by (rule safe_vtry) (auto simp: err_def intro: Array_getSize_short split: sum.splits)

lemma safe_GetContractVariable:
  "safe G (vget (\<lambda>vm. GetContractVariable (ctx vm) i))
     (\<lambda>r. (\<forall>e. err r = Some e \<longrightarrow> short e) \<and> (\<forall>v. r = Inr v \<longrightarrow> length v \<le> elem_bound)) (\<lambda>_. [])"
  by (rule safe_vget) (auto simp: GetContractVariable_def vm_ok_def ctx_ok_def split: if_splits)

lemma safe_ctx_bytes:
  "safe G (vget (\<lambda>vm. Address (ctx vm))) (\<lambda>bs. length bs \<le> elem_bound) (\<lambda>_. [])"
  "safe G (vget (\<lambda>vm. Issuer (ctx vm))) (\<lambda>bs. length bs \<le> elem_bound) (\<lambda>_. [])"
  "safe G (vget (\<lambda>vm. From (ctx vm))) (\<lambda>bs. length bs \<le> elem_bound) (\<lambda>_. [])"
  "safe G (vget (\<lambda>vm. le_fixed 8 (f vm))) (\<lambda>bs. length bs \<le> elem_bound) (\<lambda>_. [])"
  by (rule safe_vget; auto simp: vm_ok_def ctx_ok_def elem_bound_def)+

lemma safe_setVariable:
  assumes "op_table_ok opc"
  shows "safe G (vbind (vget (\<lambda>vm. SetContractVariable (ctx vm) i (f vm))) (\<lambda>r.
     vbind (orFail E opc r) (\<lambda>c. vset (\<lambda>vm. vm\<lparr>ctx := c\<rparr>)))) (\<lambda>_. True) (\<lambda>_. [])"
proof (rule safeI)
  fix vm assume vm: "vm_ok vm" "known G (hp vm)"
  show "meets vm (\<lambda>_. True) (\<lambda>_. []) (vbind (vget (\<lambda>vm. SetContractVariable (ctx vm) i (f vm))) (\<lambda>r.
     vbind (orFail E opc r) (\<lambda>c. vset (\<lambda>vm. vm\<lparr>ctx := c\<rparr>))) vm)"
  proof (cases "SetContractVariable (ctx vm) i (f vm)")
    case (Inl e)
    then have "short e" by (auto simp: SetContractVariable_def split: if_splits)
    then have "meets vm (\<lambda>_ :: Context. False) (\<lambda>_. []) (failWith E opc e vm)"
      by (rule safeD [OF safe_failWith [OF assms] vm])
    with Inl show ?thesis
      by (cases "failWith E opc e vm :: Context outcome") (auto simp: vbind_def vget_def orFail_def)
  next
    case (Inr c)
    have "changes_ok c" "c = (ctx vm)\<lparr>changes := changes c\<rparr>"
      using SetContractVariable_ok [OF Inr] vm(1) by (auto simp: vm_ok_def ctx_ok_def)
    moreover from this have "Data c = Data (ctx vm)" "ctx_ok c"
      using vm(1) by (cases c; auto simp: vm_ok_def ctx_ok_def)+
    ultimately show ?thesis using vm(1) Inr
      by (auto simp: vbind_def vget_def vset_def orFail_def vret_def vm_ok_def evolves_def)
  qed
qed

end
