(* ===== verification/VMExec.thy ===== *)
theory VMExec
  imports VMSafe
begin

text \<open>
  Every instruction keeps the invariant, and the loop of \<^verbatim>\<open>Exec\<close> in \<^verbatim>\<open>src/vm/vm.go\<close>.
\<close>

subsection \<open>Object operations as actions\<close>

lemma safe_obj_simple:
  assumes "\<And>h r. known G h \<Longrightarrow> f h = Some r \<Longrightarrow> obj_post N h (\<lambda>_ _. True) r" "N \<le> elem_bound"
  shows "safe G (vobj f) (\<lambda>(_, r). \<forall>e. err r = Some e \<longrightarrow> short e) (\<lambda>(a, r). [(elem_bound, a)])"
proof -
  have "safe G (vobj f) (\<lambda>(_, r). \<forall>e. err r = Some e \<longrightarrow> short e)
      (\<lambda>(a, r). (elem_bound, a) # (case r of Inl _ \<Rightarrow> [] | Inr x \<Rightarrow> []))"
    by (rule safe_vobj) (auto intro!: assms(1) obj_post_mono [OF _ assms(2)])
  then show ?thesis by (rule back_subst [of "\<lambda>Q. safe G (vobj f) _ Q"]) (auto split: sum.splits)
qed

lemma safe_Map_Append:
  assumes "knows G max_elem m" "knows G max_elem k" "knows G max_elem v"
  shows "safe G (vobj (\<lambda>h. Map_Append g h m k v)) (\<lambda>(_, r). \<forall>e. err r = Some e \<longrightarrow> short e)
    (\<lambda>(a, r). [(elem_bound, a)])"
  by (rule safe_obj_simple, rule Map_Append_post)
    (use assms in \<open>auto intro: knows_good simp: max_elem_def elem_bound_def\<close>)

lemma safe_Map_SetVal:
  assumes "knows G max_elem m" "knows G max_elem k" "knows G max_elem v"
  shows "safe G (vobj (\<lambda>h. Map_SetVal g h m k v)) (\<lambda>(_, r). \<forall>e. err r = Some e \<longrightarrow> short e)
    (\<lambda>(a, r). [(elem_bound, a)])"
  by (rule safe_obj_simple, rule Map_SetVal_post)
    (use assms in \<open>auto intro: knows_good simp: max_elem_def elem_bound_def\<close>)

lemma safe_Map_Remove:
  assumes "knows G max_elem m"
  shows "safe G (vobj (\<lambda>h. Map_Remove g h m k)) (\<lambda>(_, r). \<forall>e. err r = Some e \<longrightarrow> short e)
    (\<lambda>(a, r). [(elem_bound, a)])"
  by (rule safe_obj_simple, rule Map_Remove_post)
    (use assms in \<open>auto intro: knows_good simp: max_elem_def elem_bound_def\<close>)

lemma safe_Array_Append:
  assumes "knows G max_elem a" "knows G max_elem v"
  shows "safe G (vobj (\<lambda>h. Array_Append g h a v)) (\<lambda>(_, r). \<forall>e. err r = Some e \<longrightarrow> short e)
    (\<lambda>(a, r). [(elem_bound, a)])"
  by (rule safe_obj_simple, rule Array_Append_post)
    (use assms in \<open>auto intro: knows_good simp: max_elem_def elem_bound_def\<close>)

lemma safe_Array_Insert:
  assumes "knows G max_elem a" "knows G max_elem v"
  shows "safe G (vobj (\<lambda>h. Array_Insert g h a i v)) (\<lambda>(_, r). \<forall>e. err r = Some e \<longrightarrow> short e)
    (\<lambda>(a, r). [(elem_bound, a)])"
  by (rule safe_obj_simple, rule Array_Insert_post)
    (use assms in \<open>auto intro: knows_good simp: max_elem_def elem_bound_def\<close>)

lemma safe_Array_Remove:
  assumes "knows G max_elem a"
  shows "safe G (vobj (\<lambda>h. Array_Remove g h a i)) (\<lambda>(_, r). \<forall>e. err r = Some e \<longrightarrow> short e)
    (\<lambda>(a, r). [(elem_bound, a)])"
  by (rule safe_obj_simple, rule Array_Remove_post)
    (use assms in \<open>auto intro: knows_good simp: max_elem_def elem_bound_def\<close>)

lemma safe_Array_At:
  assumes "knows G max_elem a"
  shows "safe G (vobj (\<lambda>h. Array_At h a i)) (\<lambda>(_, r). \<forall>e. err r = Some e \<longrightarrow> short e)
    (\<lambda>(a, r). (max_elem, a) # (case r of Inl _ \<Rightarrow> [] | Inr x \<Rightarrow> [(65535, x)]))"
  by (rule safe_vobj) (use assms in \<open>auto intro: knows_good dest: Array_At_post [rotated]\<close>)

lemma safe_Map_GetVal:
  assumes "knows G max_elem m"
  shows "safe G (vtry (\<lambda>h. Map_GetVal h m k)) (\<lambda>r. \<forall>e. err r = Some e \<longrightarrow> short e)
    (\<lambda>r. [(65535, val nil_slice r)])"
proof (rule safe_vtry)
  fix h r assume h: "known G h" and r: "Map_GetVal h m k = Some r"
  from Map_getValLoop_post [OF knows_good [OF assms h] r [unfolded Map_GetVal_def]]
  show "(\<forall>e. err r = Some e \<longrightarrow> short e) \<and> known [(65535, val nil_slice r)] h"
    by (cases r) auto
qed

lemma safe_MapContainsKey:
  "safe G (\<lambda>vm. case MapContainsKey (hp vm) m k of
       None \<Rightarrow> Diverge | Some None \<Rightarrow> Panic | Some (Some r) \<Rightarrow> Next r vm)
     (\<lambda>r. \<forall>e. err r = Some e \<longrightarrow> short e) (\<lambda>_. [])"
  by (rule safeI) (auto simp: err_def dest: MapContainsKey_post split: option.splits sum.splits)

lemma safe_NewMap: "safe G (valloc NewMap) (\<lambda>_. True) (\<lambda>s. [(3, s)])"
  unfolding NewMap_def by (rule safe_valloc_new) simp

lemma safe_NewArray: "safe G (valloc (NewArray g)) (\<lambda>_. True) (\<lambda>s. [(3, s)])"
proof (rule safe_valloc)
  fix h h' a assume "NewArray g h = (h', a)"
  then obtain h1 t where n: "sl_new h [2] = (h1, t)" "sl_append g h1 t [0, 0] = (h', a)"
    by (auto simp: NewArray_def Let_def split: prod.splits)
  have g1: "good 1 h1 t" "heap_ext h h1" using good_new [OF n(1)] by simp_all
  have "length [0, 0 :: byte] \<le> 2" by simp
  from good_append [OF g1(1) n(2) this] g1(2)
  show "heap_ext h h' \<and> True \<and> known [(3, a)] h'"
    by (auto intro: heap_ext_trans simp: eval_nat_numeral)
qed

lemma safe_sha3:
  "env_ok E \<Longrightarrow> safe G (valloc (\<lambda>h. sl_append (grow E) h nil_slice (sha3_256 E (f h)))) (\<lambda>_. True)
     (\<lambda>s. [(32, s)])"
proof (rule safe_valloc)
  fix h h' a assume E: "env_ok E" and a: "sl_append (grow E) h nil_slice (sha3_256 E (f h)) = (h', a)"
  have "length (sha3_256 E (f h)) \<le> 32" using E by (simp add: env_ok_def)
  from good_append [of 0, OF _ a this] show "heap_ext h h' \<and> True \<and> known [(32, a)] h'" by simp
qed

lemma safe_pushObj:
  "op_table_ok opc \<Longrightarrow> \<forall>e. err (snd ar) = Some e \<longrightarrow> short e \<Longrightarrow> knows G elem_bound (fst ar) \<Longrightarrow>
   safe G (pushObj E opc ar) (\<lambda>_. True) (\<lambda>_. [])"
  unfolding pushObj_def by (rule safe_bind [OF safe_orFail]) (auto intro: safe_pushOrFail)

text \<open>
  The rules for one step of an instruction, in the form the proofs below apply backwards: the
  action is the first of a sequence.
\<close>

lemmas safe_steps [vm_rules] =
  safe_fetch [THEN safe_bind] safe_fetchMany [THEN safe_bind]
  safe_bind [OF safe_PopBytes] safe_bind [OF safe_PopSignedBigInt] safe_bind [OF safe_PopUnsignedBigInt]
  safe_bind [OF safe_popOrFail] safe_bind [OF safe_popSignedPair] safe_bind [OF safe_popUnsignedPair]
  safe_bind [OF safe_guardErrors] safe_bind [OF safe_orFail] safe_bind [OF safe_pushOrFail]
  safe_bind [OF safe_Map_Append] safe_bind [OF safe_Map_SetVal] safe_bind [OF safe_Map_Remove]
  safe_bind [OF safe_Array_Append] safe_bind [OF safe_Array_Insert] safe_bind [OF safe_Array_Remove]
  safe_bind [OF safe_Array_At] safe_bind [OF safe_Map_GetVal] safe_bind [OF safe_MapContainsKey]
  safe_bind [OF safe_NewMap] safe_bind [OF safe_NewArray] safe_bind [OF safe_sha3]
  safe_bind [OF safe_CallStack_Peek] safe_bind [OF safe_MapFromByteArray]
  safe_bind [OF safe_ArrayFromByteArray] safe_bind [OF safe_ByteArrayToUI16]
  safe_bind [OF safe_Array_getSize] safe_bind [OF safe_GetContractVariable]
  safe_ctx_bytes [THEN safe_bind]

lemma safe_guardErrors_end:
  assumes "op_table_ok opc" "\<forall>e m. e \<in> set errs \<longrightarrow> e = Some m \<longrightarrow> short m"
  shows "safe G (guardErrors E opc errs) (\<lambda>_. True) (\<lambda>_. [])"
  using safe_guardErrors [OF assms] by (rule safe_weaken) simp

lemmas safe_ends [vm_rules] =
  safe_guardErrors_end safe_failWith safe_pushOrFail safe_pushBool safe_pushNew safe_vpush_drop
  safe_pushObj safe_ret safe_vreturn safe_if safe_option safe_sum safe_prod safe_let

subsection \<open>The instructions\<close>

lemmas op_defs =
  op_PUSH_def op_DUP_def op_POP_def op_EQ_def op_NEQ_def op_LT_def op_GT_def op_LTE_def op_GTE_def
  op_NOP_def op_CALLEXT_def op_SIZE_def op_SLOAD_def op_ADDRESS_def op_ISSUER_def op_BALANCE_def
  op_CALLER_def op_CALLVAL_def op_NEWMAP_def op_MAPHASKEY_def op_MAPPUSH_def op_MAPGETVAL_def
  op_MAPSETVAL_def op_MAPREMOVE_def op_NEWARR_def op_ARRAPPEND_def op_ARRINSERT_def op_ARRREMOVE_def
  op_ARRAT_def op_SHA3_def

lemma limits: "max_elem \<le> elem_bound" "65535 \<le> elem_bound" "n \<le> 1000 \<Longrightarrow> n \<le> elem_bound"
  by (simp_all add: max_elem_def elem_bound_def)

lemma byte_limit: "unat (b :: byte) + 1 \<le> elem_bound"
  using unat_byte_lt [of b] unfolding elem_bound_def by linarith

lemma stack_safe:
  assumes "op_table_ok opc"
  shows "safe G (op_PUSH E opc) (\<lambda>_. True) (\<lambda>_. [])"
    "safe G (op_DUP E opc) (\<lambda>_. True) (\<lambda>_. [])"
    "safe G (op_POP E opc) (\<lambda>_. True) (\<lambda>_. [])"
  unfolding op_defs by (intro vm_rules assms; auto simp: limits byte_limit[simplified])+

lemma compare_safe:
  assumes "op_table_ok opc"
  shows "safe G (op_EQ E opc) (\<lambda>_. True) (\<lambda>_. [])" "safe G (op_NEQ E opc) (\<lambda>_. True) (\<lambda>_. [])"
    "safe G (op_LT E opc) (\<lambda>_. True) (\<lambda>_. [])" "safe G (op_GT E opc) (\<lambda>_. True) (\<lambda>_. [])"
    "safe G (op_LTE E opc) (\<lambda>_. True) (\<lambda>_. [])" "safe G (op_GTE E opc) (\<lambda>_. True) (\<lambda>_. [])"
  unfolding op_defs by (intro vm_rules assms)+

lemma context_safe:
  assumes "op_table_ok opc"
  shows "safe G (op_NOP E opc) (\<lambda>_. True) (\<lambda>_. [])" "safe G (op_CALLEXT E opc) (\<lambda>_. True) (\<lambda>_. [])"
    "safe G (op_SIZE E opc) (\<lambda>_. True) (\<lambda>_. [])" "safe G (op_SLOAD E opc) (\<lambda>_. True) (\<lambda>_. [])"
    "safe G (op_ADDRESS E opc) (\<lambda>_. True) (\<lambda>_. [])" "safe G (op_ISSUER E opc) (\<lambda>_. True) (\<lambda>_. [])"
    "safe G (op_BALANCE E opc) (\<lambda>_. True) (\<lambda>_. [])" "safe G (op_CALLER E opc) (\<lambda>_. True) (\<lambda>_. [])"
    "safe G (op_CALLVAL E opc) (\<lambda>_. True) (\<lambda>_. [])"
  unfolding op_defs by (intro vm_rules assms; auto simp: limits)+

lemma map_safe:
  assumes "op_table_ok opc"
  shows "safe G (op_NEWMAP E opc) (\<lambda>_. True) (\<lambda>_. [])" "safe G (op_MAPHASKEY E opc) (\<lambda>_. True) (\<lambda>_. [])"
    "safe G (op_MAPPUSH E opc) (\<lambda>_. True) (\<lambda>_. [])" "safe G (op_MAPGETVAL E opc) (\<lambda>_. True) (\<lambda>_. [])"
    "safe G (op_MAPSETVAL E opc) (\<lambda>_. True) (\<lambda>_. [])" "safe G (op_MAPREMOVE E opc) (\<lambda>_. True) (\<lambda>_. [])"
  unfolding op_defs by (intro vm_rules assms; auto simp: limits)+

lemma array_safe:
  assumes "op_table_ok opc"
  shows "safe G (op_NEWARR E opc) (\<lambda>_. True) (\<lambda>_. [])" "safe G (op_ARRAPPEND E opc) (\<lambda>_. True) (\<lambda>_. [])"
    "safe G (op_ARRINSERT E opc) (\<lambda>_. True) (\<lambda>_. [])" "safe G (op_ARRREMOVE E opc) (\<lambda>_. True) (\<lambda>_. [])"
    "safe G (op_ARRAT E opc) (\<lambda>_. True) (\<lambda>_. [])"
  unfolding op_defs by (intro vm_rules assms; auto simp: limits)+

lemma safe_pushBounded:
  assumes "op_table_ok opc" "\<bar>bi\<bar> < int_bound * int_bound"
  shows "safe G (pushSigned E opc bi) (\<lambda>_. True) (\<lambda>_. [])"
proof (rule safe_pushSigned [OF assms(1)])
  show "\<bar>bi\<bar> < 256 ^ (max_elem + max_elem)" using assms(2) by (simp add: int_bound_def power_add)
  show "Suc (max_elem + max_elem) \<le> elem_bound" by (simp add: max_elem_def elem_bound_def)
qed

lemma int_bound_big: "2 ^ 256 \<le> int_bound"
proof -
  have "(2 :: int) ^ 256 = 256 ^ 32" by simp
  also have "\<dots> \<le> int_bound" unfolding int_bound_def max_elem_def by (rule power_increasing) simp_all
  finally show ?thesis .
qed

lemma int_bound_arith:
  assumes "\<bar>l\<bar> < int_bound" "\<bar>r\<bar> < int_bound"
  shows "\<bar>l + r\<bar> < int_bound * int_bound" "\<bar>l - r\<bar> < int_bound * int_bound"
    "\<bar>l * r\<bar> < int_bound * int_bound" "\<bar>big_Div l r\<bar> < int_bound * int_bound"
    "r \<noteq> 0 \<Longrightarrow> \<bar>big_Mod l r\<bar> < int_bound * int_bound" "\<bar>l\<bar> < int_bound * int_bound"
    "\<bar>l * 2 ^ unat (b :: byte)\<bar> < int_bound * int_bound"
    "\<bar>l div 2 ^ unat b\<bar> < int_bound * int_bound"
proof -
  have two: "2 \<le> int_bound" using int_bound_big by simp
  then have sq: "2 * int_bound \<le> int_bound * int_bound" by (intro mult_right_mono) simp_all
  with two have le: "int_bound \<le> int_bound * int_bound" by linarith
  show "\<bar>l + r\<bar> < int_bound * int_bound" "\<bar>l - r\<bar> < int_bound * int_bound" "\<bar>l\<bar> < int_bound * int_bound"
    using assms sq two by linarith+
  show "\<bar>l * r\<bar> < int_bound * int_bound"
    using assms by (simp add: abs_mult mult_strict_mono')
  show "\<bar>big_Div l r\<bar> < int_bound * int_bound"
    using big_Div_abs_le [of l r] assms(1) le by linarith
  show "r \<noteq> 0 \<Longrightarrow> \<bar>big_Mod l r\<bar> < int_bound * int_bound"
    using big_Mod_range [of r l] assms(2) le by linarith
  have "(2 :: int) ^ unat b \<le> 2 ^ 256"
    using less_imp_le [OF unat_byte_lt [of b]] by (intro power_increasing) simp_all
  then have p: "(2 :: int) ^ unat b \<le> int_bound" using int_bound_big by linarith
  have "\<bar>l * 2 ^ unat b\<bar> = \<bar>l\<bar> * 2 ^ unat b" by (simp add: abs_mult)
  also have "\<dots> < int_bound * int_bound"
    using assms(1) p by (intro mult_less_le_imp_less) simp_all
  finally show "\<bar>l * 2 ^ unat b\<bar> < int_bound * int_bound" .
  have "big_Div l (2 ^ unat b) = l div 2 ^ unat b" by (simp add: big_Div_def)
  with big_Div_abs_le [of l "2 ^ unat b"] assms(1) le show "\<bar>l div 2 ^ unat b\<bar> < int_bound * int_bound"
    by linarith
qed

lemma arith_safe:
  assumes "op_table_ok opc"
  shows "safe G (op_ADD E opc) (\<lambda>_. True) (\<lambda>_. [])" "safe G (op_SUB E opc) (\<lambda>_. True) (\<lambda>_. [])"
    "safe G (op_MULT E opc) (\<lambda>_. True) (\<lambda>_. [])" "safe G (op_DIV E opc) (\<lambda>_. True) (\<lambda>_. [])"
    "safe G (op_MOD E opc) (\<lambda>_. True) (\<lambda>_. [])" "safe G (op_SHIFTL E opc) (\<lambda>_. True) (\<lambda>_. [])"
    "safe G (op_SHIFTR E opc) (\<lambda>_. True) (\<lambda>_. [])"
  unfolding op_ADD_def op_SUB_def op_MULT_def op_DIV_def op_MOD_def op_SHIFTL_def op_SHIFTR_def
  by (intro vm_rules safe_pushBounded assms; auto simp: int_bound_arith bounded_def)+

lemma safe_allocBounded:
  "\<bar>bi\<bar> < int_bound \<Longrightarrow> safe G (allocSigned E bi) (\<lambda>_. True) (\<lambda>s. [(elem_bound, s)])"
proof (rule safe_allocSigned [where k = max_elem])
  show "Suc max_elem \<le> elem_bound" by (simp add: max_elem_def elem_bound_def)
qed (simp add: int_bound_def)

lemma NEG_safe: "op_table_ok opc \<Longrightarrow> safe G (op_NEG E opc) (\<lambda>_. True) (\<lambda>_. [])"
  unfolding op_NEG_def
  by (intro vm_rules safe_bind [OF safe_allocBounded]) (auto simp: bounded_def)

lemma safe_setpc: "safe G (vset (\<lambda>vm. vm\<lparr>pc := f vm\<rparr>)) (\<lambda>_. True) (\<lambda>_. [])"
  by (rule safe_vset) simp

lemma jump_safe:
  assumes "op_table_ok opc"
  shows "safe G (op_JMP E opc) (\<lambda>_. True) (\<lambda>_. [])" "safe G (op_JMPIF E opc) (\<lambda>_. True) (\<lambda>_. [])"
  unfolding op_JMP_def op_JMPIF_def
  by (intro vm_rules safe_bind [OF safe_vtry_any] safe_setpc assms; auto)+

lemma safe_popArgs:
  "op_table_ok opc \<Longrightarrow> \<forall>i v. vars i = Some v \<longrightarrow> \<bar>v\<bar> < int_bound \<Longrightarrow>
   safe G (popArgs E opc n vars) (\<lambda>vars. \<forall>i v. vars i = Some v \<longrightarrow> \<bar>v\<bar> < int_bound) (\<lambda>_. [])"
proof (induction n arbitrary: vars G)
  case 0
  then show ?case by (simp add: safe_ret)
next
  case (Suc n)
  then show ?case
    by (simp only: popArgs.simps) (intro vm_rules Suc.IH; auto simp: bounded_def split: if_splits)
qed

lemma safe_enterFrame:
  assumes "op_table_ok opc"
  shows "safe G (enterFrame E opc s n) (\<lambda>_. True) (\<lambda>_. [])"
  unfolding enterFrame_def
proof (intro vm_rules safe_bind [OF safe_vget_any] safe_bind [OF safe_popArgs] safe_vset assms)
  fix vm target codeLen ret and vars :: "int \<Rightarrow> int option"
  assume "\<forall>i v. vars i = Some v \<longrightarrow> \<bar>v\<bar> < int_bound" and vm: "vm_ok vm"
  then have "frame_ok \<lparr>variables = vars, returnAddress = ret\<rparr>" by (simp add: frame_ok_def)
  with vm show "vm_ok (vm\<lparr>callStack := CallStack_Push (callStack vm) \<lparr>variables = vars, returnAddress = ret\<rparr>,
      pc := target\<rparr>) \<and> evolves vm (vm\<lparr>callStack := CallStack_Push (callStack vm)
        \<lparr>variables = vars, returnAddress = ret\<rparr>, pc := target\<rparr>)"
    by (auto intro: vm_ok_callStack simp: CallStack_Push_def)
qed auto

lemma call_safe:
  assumes "op_table_ok opc"
  shows "safe G (op_CALL E opc) (\<lambda>_. True) (\<lambda>_. [])" "safe G (op_CALLIF E opc) (\<lambda>_. True) (\<lambda>_. [])"
  unfolding op_CALL_def op_CALLIF_def
  by (intro vm_rules safe_bind [OF safe_vtry_any] safe_enterFrame assms; auto)+

lemma RET_safe:
  assumes "op_table_ok opc"
  shows "safe G (op_RET E opc) (\<lambda>_. True) (\<lambda>_. [])"
proof -
  have "vm_ok (vm\<lparr>callStack := fst (CallStack_Pop (callStack vm))\<rparr>)" if "vm_ok vm" for vm
    using that by (intro vm_ok_callStack)
      (auto simp: CallStack_Pop_def split: if_splits dest: in_set_butlastD)
  then show ?thesis
    unfolding op_RET_def by (intro vm_rules safe_vset assms) auto
qed

lemma STORE_safe:
  assumes "op_table_ok opc"
  shows "safe G (op_STORE E opc) (\<lambda>_. True) (\<lambda>_. [])"
proof -
  have "vm_ok (vm\<lparr>callStack := CallStack_SetTop (callStack vm) (f\<lparr>variables := (variables f)(i \<mapsto> v)\<rparr>)\<rparr>)"
    if "vm_ok vm" "frame_ok f" "\<bar>v\<bar> < int_bound" for vm f i v
    using that by (intro vm_ok_callStack)
      (auto simp: CallStack_SetTop_def frame_ok_def dest: in_set_butlastD)
  then show ?thesis
    unfolding op_STORE_def by (intro vm_rules safe_vset assms) (auto simp: bounded_def)
qed

lemma LOAD_safe:
  assumes "op_table_ok opc"
  shows "safe G (op_LOAD E opc) (\<lambda>_. True) (\<lambda>_. [])"
  unfolding op_LOAD_def
proof (intro vm_rules safe_pushBounded assms)
  fix address :: "string + byte" and r :: "string + Frame" and f :: Frame
  assume "(\<forall>e. err r = Some e \<longrightarrow> short e) \<and> (\<forall>f. r = Inr f \<longrightarrow> frame_ok f)"
    and "\<forall>e \<in> set [err address, err r]. e = None"
    and f: "f = val \<lparr>variables = (\<lambda>_. None), returnAddress = 0\<rparr> r"
  then have "frame_ok f" by (cases r) auto
  then have "\<bar>case variables f i of None \<Rightarrow> 0 | Some v \<Rightarrow> v\<bar> < int_bound" for i
    using int_bound_pos by (auto simp: frame_ok_def split: option.splits)
  then show "\<bar>case variables f (int (unat (val 0 address))) of None \<Rightarrow> 0 | Some v \<Rightarrow> v\<bar> < int_bound * int_bound"
    by (rule int_bound_arith(6) [where r = 0]) (simp add: int_bound_pos)
qed auto

lemma SSTORE_safe: "op_table_ok opc \<Longrightarrow> safe G (op_SSTORE E opc) (\<lambda>_. True) (\<lambda>_. [])"
  unfolding op_SSTORE_def
  by (intro vm_rules safe_setVariable) auto

lemma safe_PopIndexAt:
  "safe G (\<lambda>vm. case PopIndexAt (evaluationStack vm) i of
       None \<Rightarrow> Panic | Some (st, r) \<Rightarrow> Next r (vm\<lparr>evaluationStack := st\<rparr>))
     (\<lambda>r. \<forall>e. err r = Some e \<longrightarrow> short e) (\<lambda>r. [(max_elem, val nil_slice r)])"
proof (rule safeI)
  fix vm assume vm: "vm_ok vm"
  then have ok: "stack_ok (evaluationStack vm)" by (simp add: vm_ok_def)
  show "meets vm (\<lambda>r. \<forall>e. err r = Some e \<longrightarrow> short e) (\<lambda>r. [(max_elem, val nil_slice r)])
     (case PopIndexAt (evaluationStack vm) i of
       None \<Rightarrow> Panic | Some (st, r) \<Rightarrow> Next r (vm\<lparr>evaluationStack := st\<rparr>))"
  proof (cases "PopIndexAt (evaluationStack vm) i")
    case (Some sr)
    obtain st r where sr: "sr = (st, r)" by fastforce
    note p = stack_ok_PopIndexAt [OF ok Some [unfolded sr]]
    have st: "vm_ok (vm\<lparr>evaluationStack := st\<rparr>)"
      using vm_ok_stack [OF vm p(1), of nil_slice] p(3) by auto
    have "good max_elem (hp vm) (val nil_slice r)"
    proof (cases r)
      case (Inr s)
      with p(2) have "s \<in> set (stk (evaluationStack vm))" by simp
      with vm stack_ok_elem [OF ok this] Inr show ?thesis
        by (auto simp: good_def vm_ok_def max_elem_def)
    qed simp
    moreover have "\<forall>e. err r = Some e \<longrightarrow> short e"
      using Some sr by (cases r) (auto simp: PopIndexAt_def Let_def split: if_splits)
    ultimately show ?thesis using Some sr st by simp
  qed simp
qed

lemma ROLL_safe:
  assumes "op_table_ok opc"
  shows "safe G (op_ROLL E opc) (\<lambda>_. True) (\<lambda>_. [])"
  unfolding op_ROLL_def
  by (intro vm_rules safe_bind [OF safe_vget_any] safe_bind [OF safe_PopIndexAt] assms)
    (auto simp: limits)

lemma safe_callDataLoop:
  assumes "op_table_ok opc"
  shows "knows G N td \<Longrightarrow> safe G (callDataLoop E opc td i) (\<lambda>_. True) (\<lambda>_. [])"
  using assms
proof (induction E opc td i arbitrary: G rule: callDataLoop.induct)
  case (1 E opc td i)
  have sub: "safe G (vtry (\<lambda>h. sl_sub td (i + 1) (i + unat b + 2))) (\<lambda>_. True) (\<lambda>s. [(1000, s)])"
    if "knows G N td" for b :: byte and G
  proof (rule safe_vtry)
    fix h s assume h: "known G h" "sl_sub td (i + 1) (i + unat b + 2) = Some s"
    have "i + unat b + 2 - (i + 1) \<le> 1000" using unat_byte_lt [of b] by linarith
    with sl_sub_good [OF h(2) knows_good [OF that h(1)]] show "True \<and> known [(1000, s)] h" by simp
  qed
  show ?case
    by (subst callDataLoop.simps, intro vm_rules safe_bind [OF safe_vtry_any] safe_bind [OF sub] "1.IH")
      (use "1.prems" in \<open>auto simp: limits\<close>)
qed

lemma CALLDATA_safe:
  assumes "op_table_ok opc"
  shows "safe G (op_CALLDATA E opc) (\<lambda>_. True) (\<lambda>_. [])"
proof (rule safeI)
  fix vm assume vm: "vm_ok vm" "known G (hp vm)"
  let ?td = "Data (ctx vm)"
  have "known [(sl_len ?td, ?td)] (hp vm)" using vm by (simp add: vm_ok_def good_def)
  from safeD [OF safe_callDataLoop [OF assms, of _ "sl_len ?td"] vm(1) this]
  show "meets vm (\<lambda>_. True) (\<lambda>_. []) (op_CALLDATA E opc vm)"
    by (simp add: op_CALLDATA_def vbind_def vget_def)
qed

lemma crypto_safe:
  assumes "op_table_ok opc" "env_ok E"
  shows "safe G (op_SHA3 E opc) (\<lambda>_. True) (\<lambda>_. [])" "safe G (op_CHECKSIG E opc) (\<lambda>_. True) (\<lambda>_. [])"
  unfolding op_SHA3_def op_CHECKSIG_def
  by (intro vm_rules safe_bind [OF safe_vget_any] assms; auto simp: limits)+

theorem exec_op_safe:
  assumes "op_table_ok opc" "env_ok E"
  shows "safe G (exec_op E opc) (\<lambda>_. True) (\<lambda>_. [])"
  unfolding exec_op_def
  by (cases "op_code opc")
    (simp_all add: stack_safe ROLL_safe arith_safe NEG_safe compare_safe context_safe jump_safe call_safe
      RET_safe STORE_safe SSTORE_safe LOAD_safe CALLDATA_safe map_safe array_safe crypto_safe safe_vreturn
      assms)

subsection \<open>The execution loop\<close>

text \<open>
  One round of the loop of \<^verbatim>\<open>Exec\<close>: fetch, price, decode and execute. The messages are pushed with
  the location \<^verbatim>\<open>vm.exec()\<close>.
\<close>

definition exec_step :: "vm_env \<Rightarrow> unit act" where
  "exec_step E =
     vbind fetch (\<lambda>r. case r of
       Inl e \<Rightarrow> vbind (pushMsg E (''vm.exec(): '' @ e)) (\<lambda>_. vreturn False)
     | Inr byteCode \<Rightarrow>
         if length OpCodes \<le> unat byteCode
         then vbind (pushMsg E ''vm.exec(): Not a valid opCode'') (\<lambda>_. vreturn False)
         else let opc = OpCodes ! unat byteCode in
           vbind (vget fee) (\<lambda>f.
           if f < gasPrice opc
           then vbind (pushMsg E ''vm.exec(): out of gas'') (\<lambda>_. vreturn False)
           else vbind (vset (\<lambda>vm. vm\<lparr>fee := fee vm - gasPrice opc\<rparr>)) (\<lambda>_. exec_op E opc)))"

text \<open>The loop with a bound on its rounds: \<open>None\<close> when the bound is reached.\<close>

fun exec_loop :: "vm_env \<Rightarrow> nat \<Rightarrow> VM \<Rightarrow> unit outcome option" where
  "exec_loop E 0 vm = None"
| "exec_loop E (Suc n) vm =
     (case exec_step E vm of
        Next _ vm \<Rightarrow> exec_loop E n vm
      | r \<Rightarrow> Some r)"

definition Exec :: "vm_env \<Rightarrow> nat \<Rightarrow> VM \<Rightarrow> unit outcome option" where
  "Exec E fuel vm =
     (let vm = vm\<lparr>code := Contract (ctx vm), fee := Fee (ctx vm)\<rparr> in
      if sl_len (code vm) > 100000
      then Some (vbind (pushMsg E ''vm.exec(): Instruction set to big'') (\<lambda>_. vreturn False) vm)
      else exec_loop E fuel vm)"

subsection \<open>A loop with a decreasing measure\<close>

text \<open>
  The interface between a step function and the bounded loop that iterates it: the step keeps the
  invariant and either lowers the measure or delivers a result that satisfies \<open>out\<close>.
\<close>

locale bounded_loop =
  fixes step :: "'s \<Rightarrow> 's + 'r"
    and run :: "nat \<Rightarrow> 's \<Rightarrow> 'r option"
    and inv :: "'s \<Rightarrow> bool"
    and msr :: "'s \<Rightarrow> nat"
    and out :: "'s \<Rightarrow> 'r \<Rightarrow> bool"
  assumes run_0: "run 0 s = None"
    and run_Suc: "run (Suc n) s = (case step s of Inl s' \<Rightarrow> run n s' | Inr r \<Rightarrow> Some r)"
    and step_inv: "inv s \<Longrightarrow> step s = Inl s' \<Longrightarrow> inv s'"
    and step_msr: "inv s \<Longrightarrow> step s = Inl s' \<Longrightarrow> msr s' < msr s"
    and step_out: "inv s \<Longrightarrow> step s = Inr r \<Longrightarrow> out s r"
    and out_back: "inv s \<Longrightarrow> step s = Inl s' \<Longrightarrow> out s' r \<Longrightarrow> out s r"
begin

lemma terminates: "inv s \<Longrightarrow> msr s < n \<Longrightarrow> \<exists>r. run n s = Some r"
proof (induction n arbitrary: s)
  case (Suc n)
  show ?case
  proof (cases "step s")
    case (Inl s')
    with Suc.prems step_inv [of s s'] step_msr [of s s'] Suc.IH [of s'] show ?thesis
      by (simp add: run_Suc)
  qed (simp add: run_Suc)
qed simp

lemma run_mono: "run n s = Some r \<Longrightarrow> n \<le> k \<Longrightarrow> run k s = Some r"
proof (induction n arbitrary: s k)
  case (Suc n)
  then obtain j where k: "k = Suc j" "n \<le> j" by (cases k) auto
  with Suc show ?case by (auto simp: run_Suc split: sum.splits)
qed (simp add: run_0)

lemma run_out: "inv s \<Longrightarrow> run n s = Some r \<Longrightarrow> out s r"
proof (induction n arbitrary: s)
  case (Suc n)
  then show ?case
    by (auto simp: run_Suc split: sum.splits intro: step_inv step_out out_back)
qed (simp add: run_0)

end

definition step_view :: "vm_env \<Rightarrow> VM \<Rightarrow> VM + unit outcome" where
  "step_view E vm = (case exec_step E vm of Next _ vm' \<Rightarrow> Inl vm' | r \<Rightarrow> Inr r)"

primrec final_ok :: "VM \<Rightarrow> unit outcome \<Rightarrow> bool" where
  "final_ok vm (Next a vm') \<longleftrightarrow> False"
| "final_ok vm (Return b vm') \<longleftrightarrow> vm_ok vm' \<and> evolves vm vm'"
| "final_ok vm Panic \<longleftrightarrow> True"
| "final_ok vm Diverge \<longleftrightarrow> True"

lemma OpCodes_fetch_ok: "\<not> length OpCodes \<le> unat b \<Longrightarrow> op_table_ok (OpCodes ! unat (b :: byte))"
  using OpCodes_nth_ok by simp

text \<open>A round that goes on has paid at least one unit of gas: only the halting instructions are free.\<close>

lemma exec_op_halt: "op_code opc = HALT \<or> op_code opc = ERRHALT \<Longrightarrow> exec_op E opc vm \<noteq> Next a vm'"
  by (auto simp: exec_op_def vreturn_def)

lemma exec_fail_meets:
  assumes "vm_ok vm" "evolves v0 vm" "length m \<le> 2000"
  shows "meets v0 (\<lambda>_ :: unit. True) (\<lambda>_. []) (vbind (pushMsg E m) (\<lambda>_. vreturn False) vm)"
proof -
  have "safe [] (vbind (pushMsg E m) (\<lambda>_. vreturn False)) (\<lambda>_ :: unit. True) (\<lambda>_. [])"
    by (rule safe_bind [OF safe_pushMsg [OF assms(3)]]) (rule safe_vreturn)
  from safeD [OF this assms(1)] show ?thesis by (intro meets_trans [OF _ assms(2)]) simp
qed

lemma exec_fail_stops: "vbind (pushMsg E m) (\<lambda>_. vreturn False) vm \<noteq> Next (x :: unit) vm'"
  by (simp add: vbind_def vreturn_def split: outcome.splits)

lemma exec_step_cases:
  obtains (fail) m vm1 where "vm1 = vm \<or> vm1 = vm\<lparr>pc := pc vm + 1\<rparr>" "length m \<le> 2000"
      "exec_step E vm = vbind (pushMsg E m) (\<lambda>_. vreturn False) vm1"
  | (run) opc where "op_table_ok opc" "gasPrice opc \<le> fee vm"
      "exec_step E vm = exec_op E opc (vm\<lparr>pc := pc vm + 1, fee := fee vm - gasPrice opc\<rparr>)"
proof (cases "pc vm < sl_len (code vm)")
  case False
  then have "exec_step E vm =
      vbind (pushMsg E (''vm.exec(): '' @ ''Instruction set out of bounds'')) (\<lambda>_. vreturn False) vm"
    by (simp add: exec_step_def vbind_def [of fetch] fetch_def)
  then show ?thesis by (rule fail [of vm, rotated 2]) simp_all
next
  case pc: True
  let ?b = "sl_bytes (hp vm) (code vm) ! pc vm"
  let ?opc = "OpCodes ! unat ?b"
  let ?v1 = "vm\<lparr>pc := pc vm + 1\<rparr>"
  consider (bad) "length OpCodes \<le> unat ?b" | (poor) "\<not> length OpCodes \<le> unat ?b" "fee vm < gasPrice ?opc"
    | (good) "\<not> length OpCodes \<le> unat ?b" "\<not> fee vm < gasPrice ?opc" by blast
  then show ?thesis
  proof cases
    case bad
    then have "exec_step E vm = vbind (pushMsg E ''vm.exec(): Not a valid opCode'') (\<lambda>_. vreturn False) ?v1"
      using pc by (simp add: exec_step_def vbind_def [of fetch] fetch_def)
    then show ?thesis by (rule fail [of ?v1, rotated 2]) simp_all
  next
    case poor
    then have "exec_step E vm = vbind (pushMsg E ''vm.exec(): out of gas'') (\<lambda>_. vreturn False) ?v1"
      using pc by (simp add: exec_step_def vbind_def [of fetch] vbind_def [of "vget fee"] fetch_def vget_def Let_def)
    then show ?thesis by (rule fail [of ?v1, rotated 2]) simp_all
  next
    case good
    then have "exec_step E vm = exec_op E ?opc (vm\<lparr>pc := pc vm + 1, fee := fee vm - gasPrice ?opc\<rparr>)"
      using pc by (simp add: exec_step_def vbind_def fetch_def vget_def vset_def Let_def)
    then show ?thesis using good by (intro run [of ?opc] OpCodes_fetch_ok) simp_all
  qed
qed

lemma exec_step_meets:
  assumes E: "env_ok E" and vm: "vm_ok vm"
  shows "meets vm (\<lambda>_. True) (\<lambda>_. []) (exec_step E vm)"
    "exec_step E vm = Next a vm' \<Longrightarrow> unat (fee vm') < unat (fee vm)"
proof -
  have "meets vm (\<lambda>_. True) (\<lambda>_. []) (exec_step E vm) \<and>
    (exec_step E vm = Next a vm' \<longrightarrow> unat (fee vm') < unat (fee vm))"
  proof (cases rule: exec_step_cases [of vm E])
    case (fail m vm1)
    then have "vm_ok vm1" "evolves vm vm1" using vm by auto
    then have "meets vm (\<lambda>_. True) (\<lambda>_. []) (exec_step E vm)"
      unfolding fail(3) using fail(2) by (rule exec_fail_meets)
    moreover have "exec_step E vm \<noteq> Next a vm'" unfolding fail(3) by (rule exec_fail_stops)
    ultimately show ?thesis by blast
  next
    case (run opc)
    let ?v2 = "vm\<lparr>pc := pc vm + 1, fee := fee vm - gasPrice opc\<rparr>"
    have sub: "unat (fee vm - gasPrice opc) = unat (fee vm) - unat (gasPrice opc)"
      using run(2) by (rule unat_sub)
    have ev2: "evolves vm ?v2" using sub by (simp add: evolves_def)
    have "vm_ok ?v2" using vm by simp
    from safeD [OF exec_op_safe [OF run(1) E, of "[]"] this]
    have m: "meets ?v2 (\<lambda>_. True) (\<lambda>_. []) (exec_op E opc ?v2)" by simp
    have "unat (fee vm') < unat (fee vm)" if n: "exec_op E opc ?v2 = Next a vm'"
    proof -
      have "gasPrice opc \<noteq> 0" using run(1) n exec_op_halt by (auto simp: op_table_ok_def)
      then have "0 < unat (gasPrice opc)" by (simp add: unat_gt_0)
      moreover have "unat (gasPrice opc) \<le> unat (fee vm)" using run(2) by (simp add: word_le_nat_alt)
      moreover have "unat (fee vm') \<le> unat (fee vm - gasPrice opc)"
        using m n by (simp add: evolves_def)
      ultimately show ?thesis using sub by linarith
    qed
    with meets_trans [OF m ev2] run(3) show ?thesis by simp
  qed
  then show "meets vm (\<lambda>_. True) (\<lambda>_. []) (exec_step E vm)"
    "exec_step E vm = Next a vm' \<Longrightarrow> unat (fee vm') < unat (fee vm)" by blast+
qed

lemma step_view_cases:
  assumes "env_ok E" "vm_ok vm"
  shows "step_view E vm = Inl vm' \<Longrightarrow> vm_ok vm' \<and> evolves vm vm' \<and> unat (fee vm') < unat (fee vm)"
    "step_view E vm = Inr r \<Longrightarrow> final_ok vm r"
  using exec_step_meets(1) [OF assms] exec_step_meets(2) [OF assms, of "()" vm']
  by (cases "exec_step E vm"; auto simp: step_view_def)+

interpretation ex: bounded_loop "step_view E" "exec_loop E" "\<lambda>vm. env_ok E \<and> vm_ok vm"
    "\<lambda>vm. unat (fee vm)" final_ok for E
proof unfold_locales
  fix vm vm' r
  assume i: "env_ok E \<and> vm_ok vm"
  show "step_view E vm = Inr r \<Longrightarrow> final_ok vm r" using i step_view_cases(2) by blast
  assume s: "step_view E vm = Inl vm'"
  note c = step_view_cases(1) [OF conjunct1 [OF i] conjunct2 [OF i] s]
  show "env_ok E \<and> vm_ok vm'" using i c by blast
  show "unat (fee vm') < unat (fee vm)" using c by blast
  show "final_ok vm' r \<Longrightarrow> final_ok vm r" using c by (cases r) (auto intro: evolves_trans)
qed (simp_all add: step_view_def split: outcome.splits)

subsection \<open>Starting the machine\<close>

text \<open>
  What the caller provides: well-formed contract and data slices, contract variables of bounded
  length, no writes recorded yet out of range.
\<close>

definition start_ok :: "heap \<Rightarrow> Context \<Rightarrow> bool" where
  "start_ok h c \<longleftrightarrow> valid_slice h (Contract c) \<and> valid_slice h (Data c) \<and> ctx_ok c"

definition start_vm :: "heap \<Rightarrow> Context \<Rightarrow> VM" where
  "start_vm h c = (NewVM h c)\<lparr>code := Contract c, fee := Fee c\<rparr>"

lemma start_vm_ok: "start_ok h c \<Longrightarrow> vm_ok (start_vm h c)"
proof -
  assume "start_ok h c"
  then have "valid_slice (fst (sl_new h [])) (Contract c)" "valid_slice (fst (sl_new h [])) (Data c)" "ctx_ok c"
    by (auto simp: start_ok_def sl_new_def intro: valid_slice_ext)
  then show ?thesis
    by (auto simp: start_vm_def NewVM_def vm_ok_def NewCallStack_def split: prod.splits)
      (simp_all add: NewStack_def)
qed

lemma Exec_start:
  "Exec E fuel (NewVM h c) =
     (if sl_len (Contract c) > 100000
      then Some (vbind (pushMsg E ''vm.exec(): Instruction set to big'') (\<lambda>_. vreturn False) (start_vm h c))
      else exec_loop E fuel (start_vm h c))"
  by (simp add: Exec_def start_vm_def NewVM_def Let_def split: prod.splits)

lemma Exec_final:
  assumes "env_ok E" "start_ok h c" "Exec E fuel (NewVM h c) = Some r"
  shows "final_ok (start_vm h c) r"
proof (cases "sl_len (Contract c) > 100000")
  case True
  with assms(3) have r: "r = vbind (pushMsg E ''vm.exec(): Instruction set to big'') (\<lambda>_. vreturn False) (start_vm h c)"
    by (simp add: Exec_start)
  have "meets (start_vm h c) (\<lambda>_. True) (\<lambda>_. []) r"
    unfolding r using start_vm_ok [OF assms(2)] by (intro exec_fail_meets) simp_all
  moreover have "r \<noteq> Next () vm'" for vm' unfolding r by (rule exec_fail_stops)
  ultimately show ?thesis by (cases r) auto
next
  case False
  with assms start_vm_ok [OF assms(2)] ex.run_out show ?thesis by (simp add: Exec_start)
qed

end
