(* ===== verification/VMProps.thy ===== *)
theory VMProps
  imports VMExec
begin

text \<open>
  What the virtual machine guarantees: termination by gas, the memory and context invariants of
  a whole execution, and the functional behaviour of its instructions. The last part records what
  the machine does not guarantee: programs that overwrite their own code, panic or never return.
\<close>

subsection \<open>Running an instruction on concrete operands\<close>

definition pop_cost :: "OpCode \<Rightarrow> slice \<Rightarrow> nat" where
  "pop_cost opc s = unat (gasFactor opc) * ((sl_len s + 63) div 64)"

lemma sint_small: "unat (w :: u64) < 2 ^ 63 \<Longrightarrow> 0 \<le> sint w"
proof -
  assume a: "unat w < 2 ^ 63"
  then have u: "uint w < 2 ^ 63" by (metis of_nat_less_iff of_nat_numeral of_nat_power uint_nat)
  have "sint w = signed_take_bit 63 (uint w)" by (simp add: sint_uint)
  also have "\<dots> = uint w"
  proof (rule signed_take_bit_int_eq_self)
    have "- (2 ^ 63) \<le> (0 :: int)" by simp
    also have "0 \<le> uint w" by simp
    finally show "- (2 ^ 63) \<le> uint w" .
  qed (rule u)
  finally show ?thesis by simp
qed

lemma PopBytes_ok:
  assumes "stack_ok (evaluationStack vm)" "stk (evaluationStack vm) = S @ [s]"
    and "pop_cost opc s \<le> unat (fee vm)" "unat (fee vm) < 2 ^ 63"
  obtains st f where "PopBytes opc vm = Next (Inr s) (vm\<lparr>evaluationStack := st, fee := f\<rparr>)"
    "stack_ok st" "stk st = S" "unat f = unat (fee vm) - pop_cost opc s"
proof -
  obtain st r where p: "Stack_Pop (evaluationStack vm) = (st, r)" by fastforce
  have r: "r = Inr s" using p assms(2) by (auto simp: Stack_Pop_def GetLength_def Let_def)
  have st: "stk st = S" using p assms(2) by (auto simp: Stack_Pop_def GetLength_def Let_def)
  let ?c = "gasFactor opc * word_of_nat ((sl_len s + 64 - 1) div 64)"
  have "s \<in> set (stk (evaluationStack vm))" using assms(2) by simp
  from stack_ok_elem [OF assms(1) this] have k: "(sl_len s + 64 - 1) div 64 < 2 ^ 64" by simp
  have c: "unat ?c = pop_cost opc s"
  proof -
    have "unat ?c = unat (gasFactor opc) * ((sl_len s + 64 - 1) div 64) mod 2 ^ 64"
      using k by (simp add: unat_word_ariths unat_of_nat)
    then have "unat ?c = pop_cost opc s mod 2 ^ 64" by (simp add: pop_cost_def add.commute)
    then show ?thesis using assms(3,4) by simp
  qed
  then have le: "?c \<le> fee vm" using assms(3) by (simp add: word_le_nat_alt)
  then have f: "unat (fee vm - ?c) = unat (fee vm) - pop_cost opc s" using c by (simp add: unat_sub)
  then have "unat (fee vm - ?c) < 2 ^ 63" using assms(4) by linarith
  then have "\<not> sint (fee vm - ?c) < 0" using sint_small [of "fee vm - ?c"] by linarith
  then have "PopBytes opc vm = Next (Inr s) (vm\<lparr>evaluationStack := st, fee := fee vm - ?c\<rparr>)"
    using p r by (simp add: PopBytes_def Let_def)
  then show ?thesis using that stack_ok_Pop(1) [OF assms(1) p] st f by blast
qed

lemma PopSigned_ok:
  assumes "stack_ok (evaluationStack vm)" "stk (evaluationStack vm) = S @ [s]"
    and "pop_cost opc s \<le> unat (fee vm)" "unat (fee vm) < 2 ^ 63"
    and "SignedBigIntConversion (sl_bytes (hp vm) s) = Some (Inr x)"
  obtains st f where "PopSignedBigInt opc vm = Next (Inr x) (vm\<lparr>evaluationStack := st, fee := f\<rparr>)"
    "stack_ok st" "stk st = S" "unat f = unat (fee vm) - pop_cost opc s"
proof -
  obtain st f where p: "PopBytes opc vm = Next (Inr s) (vm\<lparr>evaluationStack := st, fee := f\<rparr>)"
    "stack_ok st" "stk st = S" "unat f = unat (fee vm) - pop_cost opc s"
    using PopBytes_ok [OF assms(1-4)] .
  have "PopSignedBigInt opc vm = Next (Inr x) (vm\<lparr>evaluationStack := st, fee := f\<rparr>)"
    using p(1) assms(5) by (simp add: PopSignedBigInt_def vbind_def vtry_def)
  with p(2-4) that show ?thesis by blast
qed

lemma popSignedPair_ok:
  assumes st: "stack_ok (evaluationStack vm)" "stk (evaluationStack vm) = S @ [l, r]"
    and gas: "pop_cost opc l + pop_cost opc r \<le> unat (fee vm)" "unat (fee vm) < 2 ^ 63"
    and x: "SignedBigIntConversion (sl_bytes (hp vm) l) = Some (Inr x)"
    and y: "SignedBigIntConversion (sl_bytes (hp vm) r) = Some (Inr y)"
  obtains st' f where "popSignedPair E opc vm = Next (x, y) (vm\<lparr>evaluationStack := st', fee := f\<rparr>)"
    "stack_ok st'" "stk st' = S" "unat f = unat (fee vm) - (pop_cost opc l + pop_cost opc r)"
proof -
  have "stk (evaluationStack vm) = (S @ [l]) @ [r]" using st(2) by simp
  from PopSigned_ok [OF st(1) this _ gas(2) y, of opc] gas(1) obtain s1 f1 where
    1: "PopSignedBigInt opc vm = Next (Inr y) (vm\<lparr>evaluationStack := s1, fee := f1\<rparr>)"
      "stack_ok s1" "stk s1 = S @ [l]" "unat f1 = unat (fee vm) - pop_cost opc r"
    by (metis add_leE)
  let ?v1 = "vm\<lparr>evaluationStack := s1, fee := f1\<rparr>"
  have "stack_ok (evaluationStack ?v1)" "stk (evaluationStack ?v1) = S @ [l]"
    "pop_cost opc l \<le> unat (fee ?v1)" "unat (fee ?v1) < 2 ^ 63"
    "SignedBigIntConversion (sl_bytes (hp ?v1) l) = Some (Inr x)"
    using 1 gas x by simp_all
  from PopSigned_ok [OF this] obtain s2 f2 where
    2: "PopSignedBigInt opc ?v1 = Next (Inr x) (?v1\<lparr>evaluationStack := s2, fee := f2\<rparr>)"
      "stack_ok s2" "stk s2 = S" "unat f2 = unat (fee ?v1) - pop_cost opc l" .
  have "popSignedPair E opc vm = Next (x, y) (vm\<lparr>evaluationStack := s2, fee := f2\<rparr>)"
    using 1(1) 2(1) by (simp add: popSignedPair_def vbind_def guardErrors_def vret_def)
  with 2 1(4) that show ?thesis by simp
qed

lemma pushSigned_ok:
  assumes "stack_ok (evaluationStack vm)"
    and "sum_list (map sl_len (stk (evaluationStack vm))) + length (SignedByteArrayConversion z) \<le> 1000000"
  obtains h st t where "pushSigned E opc z vm = Next () (vm\<lparr>hp := h, evaluationStack := st\<rparr>)"
    "stk st = stk (evaluationStack vm) @ [t]" "stack_ok st" "sl_bytes h t = SignedByteArrayConversion z"
    "heap_ext (hp vm) h" "\<And>u. valid_slice (hp vm) u \<Longrightarrow> sl_bytes h u = sl_bytes (hp vm) u"
proof -
  let ?sg = "if 0 \<le> z then [0] else [1] :: bytes"
  obtain h1 t1 where n: "sl_new (hp vm) ?sg = (h1, t1)" by fastforce
  obtain h t where a: "sl_append (grow E) h1 t1 (big_Bytes (nat \<bar>z\<bar>)) = (h, t)" by fastforce
  note np = sl_new_props [OF n]
  note ap = sl_append_props [OF a np(1)]
  have b: "sl_bytes h t = SignedByteArrayConversion z"
    using ap(2) np(2) by (simp add: SignedByteArrayConversion_def)
  have len: "sl_len t = length (SignedByteArrayConversion z)"
    using length_sl_bytes [OF ap(1)] b by simp
  then have small: "sl_len t \<le> elem_bound" using assms(2) by (simp add: elem_bound_def)
  have "hasEnoughMemory (evaluationStack vm) (sl_len t)"
    using hasEnoughMemory_iff [OF assms(1) small] assms(2) len by simp
  then obtain st where p: "Stack_Push (evaluationStack vm) t = (st, None)"
    by (simp add: Stack_Push_def)
  note sp = stack_ok_Push [OF assms(1) small p]
  have "pushSigned E opc z vm = Next () (vm\<lparr>hp := h, evaluationStack := st\<rparr>)"
    using n a p
    by (simp add: pushSigned_def allocSigned_def vbind_def valloc_def pushOrFail_def vpush_def vret_def Let_def)
  moreover have "sl_bytes h u = sl_bytes (hp vm) u" if u: "valid_slice (hp vm) u" for u
  proof -
    have u1: "valid_slice h1 u" using u np(5) by (rule valid_slice_ext)
    have "sl_bytes h u = sl_bytes h1 u"
    proof (cases "big_Bytes (nat \<bar>z\<bar>) = []")
      case True
      with a show ?thesis by (simp add: sl_append_def np(3,4) split: if_splits)
    next
      case False
      then have "sl_cap t1 < sl_len t1 + length (big_Bytes (nat \<bar>z\<bar>))" using np(3,4) by simp
      then show ?thesis by (intro sl_append_frame [OF a u1 np(1)] disjI1)
    qed
    then show ?thesis using np(6) [OF u] by simp
  qed
  ultimately show ?thesis using that sp(1) sp(2) b heap_ext_trans [OF np(5) ap(4)] by blast
qed

subsection \<open>Arithmetic against its reference\<close>

fun arith_rel :: "Op \<Rightarrow> int \<Rightarrow> int \<Rightarrow> int \<Rightarrow> bool" where
  "arith_rel ADD x y z \<longleftrightarrow> z = x + y"
| "arith_rel SUB x y z \<longleftrightarrow> z = x - y"
| "arith_rel MULT x y z \<longleftrightarrow> z = x * y"
| "arith_rel DIV x y z \<longleftrightarrow> 0 \<le> x - z * y \<and> x - z * y < \<bar>y\<bar>"
| "arith_rel MOD x y z \<longleftrightarrow> y dvd x - z \<and> 0 \<le> z \<and> z < \<bar>y\<bar>"
| "arith_rel _ x y z \<longleftrightarrow> False"

definition arith_ops :: "Op list" where
  "arith_ops = [ADD, SUB, MULT, DIV, MOD]"

lemma arith_bound:
  assumes "\<bar>x\<bar> < 256 ^ m" "\<bar>y\<bar> < 256 ^ n"
  shows "\<bar>x + y\<bar> < 256 ^ (m + n + 1)" "\<bar>x - y\<bar> < 256 ^ (m + n + 1)" "\<bar>x * y\<bar> < 256 ^ (m + n + 1)"
    "\<bar>big_Div x y\<bar> < 256 ^ (m + n + 1)" "y \<noteq> 0 \<Longrightarrow> \<bar>big_Mod x y\<bar> < 256 ^ (m + n + 1)"
proof -
  have p: "(256 :: int) ^ m \<le> 256 ^ (m + n)" "(256 :: int) ^ n \<le> 256 ^ (m + n)"
    by (simp_all add: power_increasing)
  have q: "(256 :: int) ^ (m + n + 1) = 256 * 256 ^ (m + n)" by simp
  note b = assms p q
  show "\<bar>x + y\<bar> < 256 ^ (m + n + 1)" "\<bar>x - y\<bar> < 256 ^ (m + n + 1)" using b by linarith+
  have "\<bar>x * y\<bar> < 256 ^ m * 256 ^ n" using assms by (simp add: abs_mult mult_strict_mono')
  then show "\<bar>x * y\<bar> < 256 ^ (m + n + 1)" using q p by (simp add: power_add)
  show "\<bar>big_Div x y\<bar> < 256 ^ (m + n + 1)" using b big_Div_abs_le [of x y] by linarith
  show "y \<noteq> 0 \<Longrightarrow> \<bar>big_Mod x y\<bar> < 256 ^ (m + n + 1)" using b big_Mod_range [of y x] by linarith
qed

definition arith_result :: "Op \<Rightarrow> int \<Rightarrow> int \<Rightarrow> int" where
  "arith_result op x y =
     (case op of ADD \<Rightarrow> x + y | SUB \<Rightarrow> x - y | MULT \<Rightarrow> x * y | DIV \<Rightarrow> big_Div x y | _ \<Rightarrow> big_Mod x y)"

lemma arith_result_rel:
  assumes "op \<in> set arith_ops" "op \<in> {DIV, MOD} \<longrightarrow> y \<noteq> 0"
  shows "arith_rel op x y (arith_result op x y)"
proof -
  have "x - big_Div x y * y = big_Mod x y" "y dvd x - big_Mod x y" if "y \<noteq> 0"
    using big_Div_Mod [OF that, of x] by (metis add_diff_cancel_left', metis add_diff_cancel_right' dvd_triv_right)
  with assms big_Mod_range [of y x] show ?thesis
    by (auto simp: arith_ops_def arith_result_def)
qed

lemma exec_arith:
  assumes "op_code opc \<in> set arith_ops" "op_code opc \<in> {DIV, MOD} \<longrightarrow> y \<noteq> 0"
    and "popSignedPair E opc vm = Next (x, y) vm1"
  shows "exec_op E opc vm = pushSigned E opc (arith_result (op_code opc) x y) vm1"
  using assms
  by (auto simp: arith_ops_def exec_op_def op_ADD_def op_SUB_def op_MULT_def op_DIV_def op_MOD_def
      vbind_def arith_result_def)

lemma signed_len:
  assumes "SignedBigIntConversion bs = Some (Inr x)"
  shows "\<bar>x\<bar> < 256 ^ (length bs - 1)" "0 < length bs"
proof -
  obtain b cs where bs: "bs = b # cs" using assms
    by (cases bs) (auto simp: SignedBigIntConversion_def)
  then have "\<bar>x\<bar> = int (be_nat cs)"
    using assms by (auto simp: SignedBigIntConversion_def big_SetBytes_def Let_def split: if_splits)
  then show "\<bar>x\<bar> < 256 ^ (length bs - 1)" "0 < length bs"
    using be_nat_bound [of cs] bs by (simp_all flip: of_nat_less_iff)
qed

lemma arith_result_bound:
  assumes "op \<in> set arith_ops" "op \<in> {DIV, MOD} \<longrightarrow> y \<noteq> 0" "\<bar>x\<bar> < 256 ^ m" "\<bar>y\<bar> < 256 ^ n"
  shows "\<bar>arith_result op x y\<bar> < 256 ^ (m + n + 1)"
  using assms arith_bound [OF assms(3,4)] by (auto simp: arith_ops_def arith_result_def)

text \<open>
  C19: on two signed operands the arithmetic instructions leave exactly one value, the encoding of
  the mathematical result (Euclidean quotient and remainder for \<^verbatim>\<open>DIV\<close> and \<^verbatim>\<open>MOD\<close>): they do not
  run out of memory, charge the price of the two operands and leave the rest of the stack alone.
\<close>

theorem arith_correct:
  assumes ok: "vm_ok vm" and stk: "stk (evaluationStack vm) = S @ [l, r]"
    and op: "op_code opc \<in> set arith_ops" "op_code opc \<in> {DIV, MOD} \<longrightarrow> y \<noteq> 0"
    and x: "SignedBigIntConversion (sl_bytes (hp vm) l) = Some (Inr x)"
    and y: "SignedBigIntConversion (sl_bytes (hp vm) r) = Some (Inr y)"
    and gas: "pop_cost opc l + pop_cost opc r \<le> unat (fee vm)" "unat (fee vm) < 2 ^ 63"
  shows "\<exists>vm' t z. exec_op E opc vm = Next () vm' \<and> arith_rel (op_code opc) x y z \<and>
    stk (evaluationStack vm') = S @ [t] \<and> sl_bytes (hp vm') t = SignedByteArrayConversion z \<and>
    (\<forall>s \<in> set S. sl_bytes (hp vm') s = sl_bytes (hp vm) s) \<and> pc vm' = pc vm \<and>
    unat (fee vm') = unat (fee vm) - (pop_cost opc l + pop_cost opc r)"
proof -
  have st: "stack_ok (evaluationStack vm)" using ok by (simp add: vm_ok_def)
  have val: "valid_slice (hp vm) s" if "s \<in> set S \<union> {l, r}" for s
    using ok stk that by (auto simp: vm_ok_def)
  obtain st1 f where pop: "popSignedPair E opc vm = Next (x, y) (vm\<lparr>evaluationStack := st1, fee := f\<rparr>)"
      "stack_ok st1" "stk st1 = S" "unat f = unat (fee vm) - (pop_cost opc l + pop_cost opc r)"
    using popSignedPair_ok [OF st stk gas x y] .
  let ?z = "arith_result (op_code opc) x y"
  let ?v1 = "vm\<lparr>evaluationStack := st1, fee := f\<rparr>"
  have len: "\<bar>x\<bar> < 256 ^ (sl_len l - 1)" "\<bar>y\<bar> < 256 ^ (sl_len r - 1)" "0 < sl_len l" "0 < sl_len r"
    using signed_len [OF x] signed_len [OF y] val by simp_all
  have "length (SignedByteArrayConversion ?z) \<le> Suc (sl_len l - 1 + (sl_len r - 1) + 1)"
    by (rule length_SignedByteArrayConversion arith_result_bound op len)+
  then have room: "sum_list (map sl_len (stk (evaluationStack ?v1))) + length (SignedByteArrayConversion ?z) \<le> 1000000"
    using stack_ok_total [OF st] stk len(3,4) pop(3) by simp
  have "stack_ok (evaluationStack ?v1)" using pop(2) by simp
  from pushSigned_ok [OF this room, of E opc] obtain h st2 t where
    push: "pushSigned E opc ?z ?v1 = Next () (?v1\<lparr>hp := h, evaluationStack := st2\<rparr>)"
      "stk st2 = stk (evaluationStack ?v1) @ [t]" "sl_bytes h t = SignedByteArrayConversion ?z"
      "\<And>u. valid_slice (hp ?v1) u \<Longrightarrow> sl_bytes h u = sl_bytes (hp ?v1) u" by metis
  show ?thesis
    using exec_arith [OF op pop(1)] push arith_result_rel [OF op, of x] pop(3,4) val
    by (intro exI [of _ "?v1\<lparr>hp := h, evaluationStack := st2\<rparr>"] exI [of _ t] exI [of _ ?z]) simp
qed

text \<open>An environment and contexts for concrete runs.\<close>

definition demo_env :: vm_env where
  "demo_env = \<lparr>grow = (\<lambda>c n. 2 * c), sha3_256 = (\<lambda>_. replicate 32 0), ecdsa_Verify = (\<lambda>_ _ _ _ _. False)\<rparr>"

definition demo_ctx :: "bytes \<Rightarrow> bytes list \<Rightarrow> u64 \<Rightarrow> Context" where
  "demo_ctx contract vars f =
     \<lparr>Contract = \<lparr>sl_arr = 0, sl_off = 0, sl_len = length contract, sl_cap = length contract\<rparr>,
      ContractVariables = vars, Address = replicate 64 0, Issuer = replicate 32 0, Balance = 0,
      changes = [], From = replicate 32 0, Amount = 0, Data = nil_slice, Fee = f, Sig1 = replicate 64 0\<rparr>"

definition demo_vm :: "bytes list \<Rightarrow> VM" where
  "demo_vm bss = (start_vm (bss @ [[]]) (demo_ctx [] [] 100))
     \<lparr>evaluationStack := \<lparr>stk = map (\<lambda>i. \<lparr>sl_arr = i, sl_off = 0, sl_len = length (bss ! i),
        sl_cap = length (bss ! i)\<rparr>) [0..<length bss],
        memoryUsage = word_of_nat (sum_list (map length bss)), memoryMax = 1000000\<rparr>\<rparr>"

theorem arith_correct_witness:
  "\<exists>vm' t z. exec_op demo_env (mkOp MOD ''mod'' 0 [] 1 2) (demo_vm [[1, 7], [0, 3]]) = Next () vm' \<and>
    arith_rel MOD (- 7) 3 z \<and> stk (evaluationStack vm') = [t] \<and>
    sl_bytes (hp vm') t = SignedByteArrayConversion z"
proof -
  let ?l = "\<lparr>sl_arr = 0, sl_off = 0, sl_len = 2, sl_cap = 2\<rparr>"
  let ?r = "\<lparr>sl_arr = 1, sl_off = 0, sl_len = 2, sl_cap = 2\<rparr>"
  let ?vm = "demo_vm [[1, 7], [0, 3]]"
  let ?opc = "mkOp MOD ''mod'' 0 [] 1 2"
  have defs: "vm_ok ?vm" "stk (evaluationStack ?vm) = [] @ [?l, ?r]"
    by (auto simp: demo_vm_def start_vm_def NewVM_def sl_new_def vm_ok_def stack_ok_def valid_slice_def
        ctx_ok_def changes_ok_def demo_ctx_def NewCallStack_def nil_slice_def)
  have c: "op_code ?opc \<in> set arith_ops" "op_code ?opc \<in> {DIV, MOD} \<longrightarrow> (3 :: int) \<noteq> 0"
    by (simp_all add: mkOp_def arith_ops_def)
  have b: "SignedBigIntConversion (sl_bytes (hp ?vm) ?l) = Some (Inr (- 7))"
      "SignedBigIntConversion (sl_bytes (hp ?vm) ?r) = Some (Inr 3)"
    by (simp_all add: demo_vm_def start_vm_def NewVM_def sl_new_def sl_bytes_def SignedBigIntConversion_def
        big_SetBytes_def be_nat_def)
  have g: "pop_cost ?opc ?l + pop_cost ?opc ?r \<le> unat (fee ?vm)" "unat (fee ?vm) < 2 ^ 63"
    by (simp_all add: pop_cost_def mkOp_def demo_vm_def start_vm_def demo_ctx_def)
  from arith_correct [OF defs c b g, of demo_env] show ?thesis by (auto simp: mkOp_def)
qed

lemma failWith_ok:
  assumes "stack_ok (evaluationStack vm)" "m = op_Name opc @ '': '' @ e"
    and "sum_list (map sl_len (stk (evaluationStack vm))) + length m \<le> 1000000"
  shows "\<exists>vm'. failWith E opc e vm = Return False vm' \<and> GetErrorMsg vm' = of_string m \<and>
    butlast (stk (evaluationStack vm')) = stk (evaluationStack vm)"
proof -
  obtain h t where a: "sl_append (grow E) (hp vm) nil_slice (of_string m) = (h, t)" by fastforce
  note p = sl_append_nil_props [OF a]
  have small: "sl_len t \<le> elem_bound" using assms(3) p(3) by (simp add: elem_bound_def)
  have "hasEnoughMemory (evaluationStack vm) (sl_len t)"
    using hasEnoughMemory_iff [OF assms(1) small] assms(3) p(3) by simp
  then obtain st where st: "Stack_Push (evaluationStack vm) t = (st, None)" "stk st = stk (evaluationStack vm) @ [t]"
    by (simp add: Stack_Push_def)
  have "failWith E opc e vm = Return False (vm\<lparr>hp := h, evaluationStack := st\<rparr>)"
    using a st(1) assms(2)
    by (simp add: failWith_def pushMsg_def vbind_def valloc_def vpush_def vret_def vreturn_def)
  then show ?thesis using st(2) p(2)
    by (intro exI [of _ "vm\<lparr>hp := h, evaluationStack := st\<rparr>"])
      (simp add: GetErrorMsg_def PeekBytes_def GetLength_def)
qed

text \<open>
  A division by zero ends the execution with the result false, the error message on top of
  the stack and the operands consumed.
\<close>

theorem div_by_zero:
  assumes ok: "vm_ok vm" and stk: "stk (evaluationStack vm) = S @ [l, r]"
    and op: "op_code opc = DIV \<or> op_code opc = MOD" and name: "length (op_Name opc) \<le> 9"
    and x: "SignedBigIntConversion (sl_bytes (hp vm) l) = Some (Inr x)"
    and y: "SignedBigIntConversion (sl_bytes (hp vm) r) = Some (Inr 0)"
    and gas: "pop_cost opc l + pop_cost opc r \<le> unat (fee vm)" "unat (fee vm) < 2 ^ 63"
    and room: "sum_list (map sl_len S) + 30 \<le> 1000000"
  shows "\<exists>vm'. exec_op E opc vm = Return False vm' \<and> butlast (stk (evaluationStack vm')) = S \<and>
    GetErrorMsg vm' = of_string (op_Name opc @ '': Division by Zero'')"
proof -
  have st: "stack_ok (evaluationStack vm)" using ok by (simp add: vm_ok_def)
  obtain st1 f where pop: "popSignedPair E opc vm = Next (x, 0) (vm\<lparr>evaluationStack := st1, fee := f\<rparr>)"
      "stack_ok st1" "stk st1 = S"
    using popSignedPair_ok [OF st stk gas x y] by metis
  let ?v1 = "vm\<lparr>evaluationStack := st1, fee := f\<rparr>"
  have "exec_op E opc vm = failWith E opc ''Division by Zero'' ?v1"
    using op pop(1) by (auto simp: exec_op_def op_DIV_def op_MOD_def vbind_def)
  moreover have "stack_ok (evaluationStack ?v1)"
    "sum_list (map sl_len (stk (evaluationStack ?v1))) + length (op_Name opc @ '': '' @ ''Division by Zero'') \<le> 1000000"
    using pop room name by simp_all
  note failWith_ok [OF this(1) refl this(2), of E]
  ultimately show ?thesis using pop(3) by auto
qed

theorem div_by_zero_witness:
  "\<exists>vm'. exec_op demo_env (mkOp DIV ''div'' 0 [] 1 2) (demo_vm [[0, 9], [0]]) = Return False vm' \<and>
    GetErrorMsg vm' = of_string ''div: Division by Zero''"
proof -
  let ?l = "\<lparr>sl_arr = 0, sl_off = 0, sl_len = 2, sl_cap = 2\<rparr>"
  let ?r = "\<lparr>sl_arr = 1, sl_off = 0, sl_len = 1, sl_cap = 1\<rparr>"
  let ?vm = "demo_vm [[0, 9], [0]]"
  let ?opc = "mkOp DIV ''div'' 0 [] 1 2"
  have defs: "vm_ok ?vm" "stk (evaluationStack ?vm) = [] @ [?l, ?r]"
    by (auto simp: demo_vm_def start_vm_def NewVM_def sl_new_def vm_ok_def stack_ok_def valid_slice_def
        ctx_ok_def changes_ok_def demo_ctx_def NewCallStack_def nil_slice_def)
  have c: "op_code ?opc = DIV \<or> op_code ?opc = MOD" "length (op_Name ?opc) \<le> 9"
    by (simp_all add: mkOp_def)
  have b: "SignedBigIntConversion (sl_bytes (hp ?vm) ?l) = Some (Inr 9)"
      "SignedBigIntConversion (sl_bytes (hp ?vm) ?r) = Some (Inr 0)"
    by (simp_all add: demo_vm_def start_vm_def NewVM_def sl_new_def sl_bytes_def SignedBigIntConversion_def
        big_SetBytes_def be_nat_def)
  have g: "pop_cost ?opc ?l + pop_cost ?opc ?r \<le> unat (fee ?vm)" "unat (fee ?vm) < 2 ^ 63"
      "sum_list (map sl_len ([] :: slice list)) + 30 \<le> 1000000"
    by (simp_all add: pop_cost_def mkOp_def demo_vm_def start_vm_def demo_ctx_def)
  from div_by_zero [OF defs c b g, of demo_env] show ?thesis by (auto simp: mkOp_def)
qed

subsection \<open>Whole executions\<close>

lemma demo_env_ok [simp]: "env_ok demo_env"
  by (simp add: env_ok_def demo_env_def)

lemma demo_start_ok: "list_all (\<lambda>v. length v \<le> elem_bound) vars \<Longrightarrow> start_ok [bs] (demo_ctx bs vars f)"
  by (auto simp: start_ok_def valid_slice_def demo_ctx_def nil_slice_def ctx_ok_def changes_ok_def list_all_iff)

text \<open>The definitions that evaluate a concrete program round by round.\<close>

lemma exec_loop_numeral:
  "exec_loop E (numeral k) vm =
     (case exec_step E vm of Next _ vm \<Rightarrow> exec_loop E (pred_numeral k) vm | r \<Rightarrow> Some r)"
  by (simp add: numeral_eq_Suc)

lemmas vm_eval =
  Exec_def NewVM_def exec_loop_numeral exec_step_def vbind_def fetch_def vret_def vreturn_def vget_def
  vset_def vtry_def valloc_def vobj_def fetchMany_def vpush_def pushMsg_def failWith_def guardErrors_def
  orFail_def pushOrFail_def PopBytes_def popOrFail_def exec_op_def OpCodes_def mkOp_def
  sl_new_def sl_bytes_def sl_sub_def sl_get_def sl_set_def sl_append_def sl_write_def nil_slice_def
  Stack_Push_def Stack_Pop_def hasEnoughMemory_def GetLength_def NewStack_def NewCallStack_def Let_def
  demo_env_def demo_ctx_def

definition returns :: "bool \<Rightarrow> unit outcome option \<Rightarrow> bool" where
  "returns b r = (case r of Some (Return b' vm) \<Rightarrow> b' = b | _ \<Rightarrow> False)"

lemma returnsE: "returns b r \<Longrightarrow> \<exists>vm. r = Some (Return b vm)"
  by (auto simp: returns_def split: option.splits outcome.splits)

text \<open>\<^verbatim>\<open>PUSH 5; SSTORE 0; HALT\<close>, and the same with the literal of a map after it.\<close>

definition store_prog :: bytes where
  "store_prog = [0, 0, 5, 27, 0, 50, 50]"

lemma store_prog_returns:
  "returns True (Exec demo_env 10 (NewVM [store_prog] (demo_ctx store_prog [[]] 2000)))"
  by (simp add: vm_eval op_PUSH_def op_SSTORE_def SetContractVariable_def store_prog_def returns_def)

lemma Exec_enough_fuel:
  assumes "env_ok E" "start_ok h c" "unat (Fee c) < fuel"
  shows "\<exists>r. \<forall>n \<ge> fuel. Exec E n (NewVM h c) = Some r"
proof (cases "sl_len (Contract c) > 100000")
  case True
  then show ?thesis by (simp add: Exec_start)
next
  case False
  have "fee (start_vm h c) = Fee c" by (simp add: start_vm_def)
  then obtain r where "exec_loop E fuel (start_vm h c) = Some r"
    using ex.terminates [of E "start_vm h c" fuel] assms(1,3) start_vm_ok [OF assms(2)] by auto
  then have "\<forall>n \<ge> fuel. exec_loop E n (start_vm h c) = Some r" using ex.run_mono by blast
  with False show ?thesis by (simp add: Exec_start)
qed

text \<open>Only \<^verbatim>\<open>MAPHASKEY\<close> can keep the machine in one instruction for ever.\<close>

definition settles :: "'a act \<Rightarrow> bool" where
  "settles m \<longleftrightarrow> (\<forall>vm. m vm \<noteq> Diverge)"

lemma settles_basic:
  "settles (vret a)" "settles (vreturn b)" "settles (vget g)" "settles (vset u)" "settles (vtry t)" "settles (valloc l)" "settles (vobj ob)"
  "settles fetch" "settles (fetchMany n)" "settles (vpush s)" "settles (PopBytes opc)"
  by (auto simp: settles_def vret_def vreturn_def vget_def vset_def vtry_def valloc_def vobj_def fetch_def fetchMany_def vpush_def PopBytes_def Let_def
      split: option.splits prod.splits sum.splits if_splits)

lemma settles_bind: "settles m \<Longrightarrow> (\<And>a. settles (f a)) \<Longrightarrow> settles (vbind m f)"
  by (auto simp: settles_def vbind_def split: outcome.splits)

lemma settles_split:
  "(c \<Longrightarrow> settles a) \<Longrightarrow> (\<not> c \<Longrightarrow> settles b) \<Longrightarrow> settles (if c then a else b)"
  "(\<And>x. settles (f x)) \<Longrightarrow> (\<And>y. settles (g y)) \<Longrightarrow> settles (case r of Inl x \<Rightarrow> f x | Inr y \<Rightarrow> g y)"
  "settles k \<Longrightarrow> (\<And>x. settles (h x)) \<Longrightarrow> settles (case q of None \<Rightarrow> k | Some x \<Rightarrow> h x)"
  "(\<And>x y. settles (p x y)) \<Longrightarrow> settles (case z of (x, y) \<Rightarrow> p x y)"
  by (auto split: sum.split option.split prod.split)

lemmas settles_rules = settles_basic settles_bind settles_split

lemma settles_pushMsg: "settles (pushMsg E m)"
  unfolding pushMsg_def by (intro settles_rules)

lemma settles_stop: "settles (vbind (pushMsg E m) (\<lambda>_. vreturn b))"
  by (intro settles_rules settles_pushMsg)

lemma settles_failWith: "settles (failWith E opc m)"
  unfolding failWith_def by (rule settles_stop)

lemma settles_checkErrors: "settles (checkErrors E l errs)"
proof (induction errs)
  case (Cons e errs)
  then show ?case by (cases e) (auto intro: settles_rules settles_pushMsg)
qed (simp add: settles_rules)

lemma settles_guardErrors: "settles (guardErrors E opc errs)"
  unfolding guardErrors_def by (intro settles_rules settles_checkErrors)

lemma settles_orFail: "settles (orFail E opc r)"
  unfolding orFail_def by (intro settles_rules settles_failWith)

lemma settles_pushOrFail: "settles (pushOrFail E opc s)"
  unfolding pushOrFail_def by (intro settles_rules settles_failWith)

lemmas settles_helpers = settles_rules settles_failWith settles_guardErrors settles_orFail settles_pushOrFail

lemma settles_pops: "settles (PopSignedBigInt opc)" "settles (PopUnsignedBigInt opc)" "settles (popOrFail E opc)"
  unfolding PopSignedBigInt_def PopUnsignedBigInt_def popOrFail_def by (intro settles_helpers)+

lemma settles_pushes: "settles (pushSigned E opc bi)" "settles (pushNew E opc bs)" "settles (pushBool b)" "settles (allocSigned E bi)" "settles (pushObj E opc ar)"
  unfolding pushSigned_def pushNew_def pushBool_def allocSigned_def pushObj_def by (intro settles_helpers)+

lemma settles_pairs: "settles (popSignedPair E opc)" "settles (popUnsignedPair E opc)"
  unfolding popSignedPair_def popUnsignedPair_def by (intro settles_helpers settles_pops)+

lemma settles_popArgs: "settles (popArgs E opc n vars)"
  by (induction n arbitrary: vars) (auto intro!: settles_helpers settles_pops)

lemma settles_callDataLoop: "settles (callDataLoop E opc td i)"
proof (induction E opc td i rule: callDataLoop.induct)
  case (1 E opc td i)
  then show ?case by (subst callDataLoop.simps) (intro settles_helpers, blast)
qed

lemma settles_index: "settles (\<lambda>vm. case PopIndexAt (evaluationStack vm) index of None \<Rightarrow> Panic | Some (st, r) \<Rightarrow> Next r (vm\<lparr>evaluationStack := st\<rparr>))"
  by (auto simp: settles_def split: option.split)

lemmas settles_all = settles_helpers settles_pops settles_pushes settles_pairs settles_popArgs settles_callDataLoop settles_index

lemma exec_op_settles: "op_code opc \<noteq> MAPHASKEY \<Longrightarrow> settles (exec_op E opc)"
  unfolding exec_op_def enterFrame_def Let_def
  op_PUSH_def op_DUP_def op_ROLL_def op_POP_def op_ADD_def op_SUB_def op_MULT_def op_DIV_def
  op_MOD_def op_NEG_def op_EQ_def op_NEQ_def op_LT_def op_GT_def op_LTE_def op_GTE_def
  op_SHIFTL_def op_SHIFTR_def op_NOP_def op_JMP_def op_JMPIF_def op_CALL_def op_CALLIF_def op_CALLEXT_def
  op_RET_def op_SIZE_def op_STORE_def op_SSTORE_def op_LOAD_def op_SLOAD_def op_ADDRESS_def op_ISSUER_def
  op_BALANCE_def op_CALLER_def op_CALLVAL_def op_CALLDATA_def op_NEWMAP_def op_MAPPUSH_def op_MAPGETVAL_def op_MAPSETVAL_def
  op_MAPREMOVE_def op_NEWARR_def op_ARRAPPEND_def op_ARRINSERT_def op_ARRREMOVE_def op_ARRAT_def op_SHA3_def op_CHECKSIG_def
  by (cases "op_code opc"; simp only: Op.case simp_thms) (intro settles_all)+

text \<open>The states that \<^verbatim>\<open>Exec\<close> goes through.\<close>

inductive visits :: "vm_env \<Rightarrow> VM \<Rightarrow> VM \<Rightarrow> bool" for E where
  visits_start: "visits E vm vm"
| visits_step: "exec_step E vm = Next () vm1 \<Longrightarrow> visits E vm1 vm2 \<Longrightarrow> visits E vm vm2"

definition stuckOn :: "vm_env \<Rightarrow> Op \<Rightarrow> VM \<Rightarrow> bool" where
  "stuckOn E c vm \<longleftrightarrow> exec_step E vm = Diverge \<and> op_code (OpCodes ! unat (sl_bytes (hp vm) (code vm) ! pc vm)) = c"

lemma exec_step_Diverge:
  assumes "exec_step E vm = Diverge"
  shows "stuckOn E MAPHASKEY vm"
proof -
  let ?opc = "OpCodes ! unat (sl_bytes (hp vm) (code vm) ! pc vm)"
  have stop: "vbind (pushMsg E m) (\<lambda>_. vreturn False) v \<noteq> (Diverge :: unit outcome)" for m v
    using settles_stop unfolding settles_def by blast
  have "\<exists>v. exec_op E ?opc v = Diverge"
    using assms stop by (auto simp: exec_step_def vbind_def [of fetch] vbind_def [of "vget f" for f] vbind_def [of "vset f" for f] fetch_def vget_def vset_def Let_def
        split: if_splits)
  then have "op_code ?opc = MAPHASKEY" using exec_op_settles unfolding settles_def by blast
  then show ?thesis using assms by (simp add: stuckOn_def)
qed

lemma exec_loop_Diverge: "exec_loop E n vm = Some Diverge \<Longrightarrow> \<exists>vm'. visits E vm vm' \<and> stuckOn E MAPHASKEY vm'"
proof (induction n arbitrary: vm)
  case (Suc n)
  show ?case
  proof (cases "exec_step E vm")
    case (Next u vm1)
    then show ?thesis using Suc visits_step by fastforce
  next
    case Diverge
    then show ?thesis using exec_step_Diverge visits_start by blast
  qed (use Suc.prems in simp_all)
qed simp

text \<open>
  C7: gas bounds the number of instructions. From any well-formed start, one round more than the fee decides the outcome of \<^verbatim>\<open>Exec\<close>,
  and a larger bound gives the same outcome: it returns or panics, or the run reaches a state in which the next instruction is
  \<^verbatim>\<open>MAPHASKEY\<close> and that instruction never ends. No other instruction can run for ever.
\<close>

theorem Exec_terminates:
  assumes "env_ok E" "start_ok h c" "unat (Fee c) < fuel"
  shows "\<exists>r. (\<forall>n \<ge> fuel. Exec E n (NewVM h c) = Some r) \<and>
    ((\<exists>b vm. r = Return b vm) \<or> r = Panic \<or> r = Diverge \<and> (\<exists>vm. visits E (start_vm h c) vm \<and> stuckOn E MAPHASKEY vm))"
proof -
  obtain r where r: "\<forall>n \<ge> fuel. Exec E n (NewVM h c) = Some r" using Exec_enough_fuel [OF assms] by blast
  have "final_ok (start_vm h c) r" using Exec_final [OF assms(1,2)] r by blast
  moreover have "\<exists>vm. visits E (start_vm h c) vm \<and> stuckOn E MAPHASKEY vm" if "r = Diverge"
  proof (cases "sl_len (Contract c) > 100000")
    case True
    then have "vbind (pushMsg E ''vm.exec(): Instruction set to big'') (\<lambda>_. vreturn False) (start_vm h c) = (Diverge :: unit outcome)"
      using r that by (auto simp: Exec_start)
    then show ?thesis using settles_stop unfolding settles_def by blast
  next
    case False
    then show ?thesis using r that exec_loop_Diverge [of E fuel] by (auto simp: Exec_start)
  qed
  ultimately show ?thesis using r by (cases r) auto
qed

theorem Exec_terminates_witness:
  "\<exists>r. \<forall>n \<ge> 51. Exec demo_env n (NewVM [[19, 0, 0, 0]] (demo_ctx [19, 0, 0, 0] [] 50)) = Some r"
proof -
  have "start_ok [[19, 0, 0, 0]] (demo_ctx [19, 0, 0, 0] [] 50)" by (rule demo_start_ok) simp
  moreover have "unat (Fee (demo_ctx [19, 0, 0, 0] [] 50)) < 51" by (simp add: demo_ctx_def)
  ultimately show ?thesis using Exec_terminates [OF demo_env_ok] by blast
qed

text \<open>
  C9: whatever bytes the contract consists of, an execution that returns leaves the machine well-formed:
  the stack holds at most one million bytes and its counter is exact, every slice on it lies
  inside its backing array, no gas was created and the context is the caller's but for the
  recorded writes.
\<close>

theorem Exec_invariant:
  assumes "env_ok E" "start_ok h c" "Exec E fuel (NewVM h c) = Some (Return b vm')"
  shows "sum_list (map sl_len (stk (evaluationStack vm'))) \<le> 1000000 \<and>
    unat (memoryUsage (evaluationStack vm')) = sum_list (map sl_len (stk (evaluationStack vm'))) \<and>
    (\<forall>s \<in> set (stk (evaluationStack vm')). valid_slice (hp vm') s) \<and>
    fee vm' \<le> Fee c \<and> ctx vm' = c\<lparr>changes := changes (ctx vm')\<rparr>"
proof -
  from Exec_final [OF assms] have f: "vm_ok vm'" "evolves (start_vm h c) vm'" by simp_all
  have c: "ctx (start_vm h c) = c" "fee (start_vm h c) = Fee c"
    by (simp_all add: start_vm_def NewVM_def split: prod.splits)
  from f(1) have st: "stack_ok (evaluationStack vm')" by (simp add: vm_ok_def)
  have "fee vm' \<le> Fee c" using f(2) c by (simp add: evolves_def word_le_nat_alt)
  moreover have "ctx vm' = c\<lparr>changes := changes (ctx vm')\<rparr>" using f(2) c unfolding evolves_def by metis
  moreover have "\<forall>s \<in> set (stk (evaluationStack vm')). valid_slice (hp vm') s"
    using f(1) by (simp add: vm_ok_def)
  ultimately show ?thesis
    using stack_ok_total [OF st] st by (simp add: stack_ok_def)
qed

theorem Exec_invariant_witness:
  "\<exists>vm'. Exec demo_env 10 (NewVM [store_prog] (demo_ctx store_prog [[]] 2000)) = Some (Return True vm') \<and>
    sum_list (map sl_len (stk (evaluationStack vm'))) \<le> 1000000 \<and> fee vm' \<le> 2000"
proof -
  obtain vm' where r: "Exec demo_env 10 (NewVM [store_prog] (demo_ctx store_prog [[]] 2000)) = Some (Return True vm')"
    using returnsE [OF store_prog_returns] by blast
  have "start_ok [store_prog] (demo_ctx store_prog [[]] 2000)" by (rule demo_start_ok) simp
  from Exec_invariant [OF demo_env_ok this r] r show ?thesis by (auto simp: demo_ctx_def)
qed

lemma Exec_persist:
  assumes "env_ok E" "start_ok h c" "Exec E fuel (NewVM h c) = Some (Return b vm')"
  shows "\<exists>c'. PersistChanges (ctx vm') = Some c' \<and>
    length (ContractVariables c') = length (ContractVariables c) \<and>
    (\<forall>i < length (ContractVariables c). ContractVariables c' ! i =
       (case find (\<lambda>ch. ch_index ch = i) (rev (changes (ctx vm'))) of
          None \<Rightarrow> ContractVariables c ! i | Some ch \<Rightarrow> ch_value ch))"
proof -
  from Exec_final [OF assms] have f: "vm_ok vm'" "evolves (start_vm h c) vm'" by simp_all
  have "ctx (start_vm h c) = c" by (simp add: start_vm_def NewVM_def split: prod.splits)
  with f(2) have v: "ContractVariables (ctx vm') = ContractVariables c"
    unfolding evolves_def by (metis Context.select_convs(2) Context.surjective Context.update_convs(6))
  have "changes_ok (ctx vm')" using f(1) by (simp add: vm_ok_def ctx_ok_def)
  then obtain vars where "applyChanges (changes (ctx vm')) (ContractVariables c) = Some vars"
      "length vars = length (ContractVariables c)"
    using applyChanges_total [of "changes (ctx vm')" "ContractVariables c"] v by (auto simp: changes_ok_def)
  with v applyChanges_nth [OF this(1)] show ?thesis by (simp add: PersistChanges_def)
qed

text \<open>
  C18: after an execution that returns, the writes recorded by \<^verbatim>\<open>SSTORE\<close> can be persisted: \<^verbatim>\<open>PersistChanges\<close> does not
  panic, keeps the number of variables, and each variable ends with the last value
  written to it, or with its old value.
\<close>

theorem Exec_PersistChanges:
  assumes "env_ok E" "start_ok h c" "Exec E fuel (NewVM h c) = Some (Return b vm')"
  shows "\<exists>c'. PersistChanges (ctx vm') = Some c' \<and>
    length (ContractVariables c') = length (ContractVariables c) \<and>
    (\<forall>i < length (ContractVariables c). ContractVariables c' ! i =
       (case find (\<lambda>ch. ch_index ch = i) (rev (changes (ctx vm'))) of
          None \<Rightarrow> ContractVariables c ! i | Some ch \<Rightarrow> ch_value ch))"
  using assms by (rule Exec_persist)

theorem Exec_PersistChanges_witness:
  "\<exists>vm' c'. Exec demo_env 10 (NewVM [store_prog] (demo_ctx store_prog [[]] 2000)) = Some (Return True vm') \<and>
    PersistChanges (ctx vm') = Some c' \<and> length (ContractVariables c') = 1"
proof -
  obtain vm' where r: "Exec demo_env 10 (NewVM [store_prog] (demo_ctx store_prog [[]] 2000)) = Some (Return True vm')"
    using returnsE [OF store_prog_returns] by blast
  have "start_ok [store_prog] (demo_ctx store_prog [[]] 2000)" by (rule demo_start_ok) simp
  from Exec_PersistChanges [OF demo_env_ok this r] r show ?thesis by (auto simp: demo_ctx_def)
qed

subsection \<open>Calls\<close>

lemma PopUnsigned_keeps:
  "PopUnsignedBigInt opc vm = Next r vm1 \<Longrightarrow> pc vm1 = pc vm \<and> callStack vm1 = callStack vm"
  by (auto simp: PopUnsignedBigInt_def PopBytes_def vbind_def vret_def vget_def Let_def
      split: prod.splits sum.splits if_splits outcome.splits)

lemma failWith_stops: "failWith E opc m vm \<noteq> Next a vm'"
  by (simp add: failWith_def vbind_def vreturn_def split: outcome.splits)

lemma popArgs_keeps:
  "popArgs E opc n vars vm = Next vars' vm1 \<Longrightarrow> pc vm1 = pc vm \<and> callStack vm1 = callStack vm"
proof (induction n arbitrary: vars vm)
  case 0
  then show ?case by (simp add: vret_def)
next
  case (Suc n)
  then show ?case
    by (fastforce simp: vbind_def orFail_def vret_def failWith_stops split: outcome.splits sum.splits
        dest: PopUnsigned_keeps)
qed

lemma enterFrame_effect:
  assumes "enterFrame E opc s n vm = Next () vm1"
  obtains vars where
    "callStack vm1 = CallStack_Push (callStack vm) \<lparr>variables = vars, returnAddress = pc vm\<rparr>"
    "pc vm1 = be_nat (sl_bytes (hp vm) s)" "0 < pc vm1" "pc vm1 \<le> sl_len (code vm)"
  using assms popArgs_keeps [of E opc n "\<lambda>_. None" vm]
  by (auto simp: enterFrame_def vbind_def vget_def vset_def failWith_stops split: if_splits outcome.splits)

lemma checkErrors_passes: "checkErrors E l errs vm = Next True vm' \<Longrightarrow> vm' = vm \<and> (\<forall>e \<in> set errs. e = None)"
proof (induction errs arbitrary: vm)
  case (Cons e errs)
  then show ?case by (cases e) (auto simp: vbind_def vret_def split: outcome.splits)
qed (simp add: vret_def)

lemma guardErrors_passes: "guardErrors E opc errs vm = Next () vm' \<Longrightarrow> vm' = vm \<and> (\<forall>e \<in> set errs. e = None)"
  by (auto simp: guardErrors_def vbind_def vret_def vreturn_def dest: checkErrors_passes split: outcome.splits if_splits)

lemma op_CALL_frame:
  assumes "op_CALL E opc vm = Next () vm1"
  obtains s n where "pc vm + 2 < sl_len (code vm)" "sl_sub (code vm) (pc vm) (pc vm + 2) = Some s" "enterFrame E opc s n (vm\<lparr>pc := pc vm + 3\<rparr>) = Next () vm1"
proof -
  obtain r v1 where 1: "fetchMany 2 vm = Next r v1" using assms by (auto simp: op_CALL_def vbind_def split: outcome.splits)
  obtain a v2 where 2: "fetch v1 = Next a v2" using assms 1 by (auto simp: op_CALL_def vbind_def split: outcome.splits)
  obtain v3 where 3: "guardErrors E opc [err r, err a] v2 = Next () v3" "enterFrame E opc (val nil_slice r) (unat (val 0 a)) v3 = Next () vm1"
    using assms 1 2 by (auto simp: op_CALL_def vbind_def split: outcome.splits)
  have g: "v3 = v2" "err r = None" "err a = None" using guardErrors_passes [OF 3(1)] by simp_all
  then obtain s where s: "r = Inr s" by (cases r) (auto simp: err_def)
  have "pc vm + 2 < sl_len (code vm)" "sl_sub (code vm) (pc vm) (pc vm + 2) = Some s" "v1 = vm\<lparr>pc := pc vm + 2\<rparr>"
    using 1 s by (auto simp: fetchMany_def split: if_splits option.splits)
  moreover from this have "v2 = vm\<lparr>pc := pc vm + 3\<rparr>" using 2 g(3) by (auto simp: fetch_def err_def eval_nat_numeral split: if_splits)
  ultimately show ?thesis using that 3(2) g(1) s by (simp add: val_def)
qed

text \<open>
  C20: \<^verbatim>\<open>CALL\<close> jumps to the address in its two operand bytes, which is between one and the length of the code, and a matching
  \<^verbatim>\<open>RET\<close>, at any later state with the same call stack, resumes right after the three operand bytes and removes the frame.
\<close>

theorem call_ret:
  assumes "op_code opc = CALL" "exec_op E opc vm = Next () vm1" "valid_slice (hp vm) (code vm)"
    and "op_code opc' = RET" "callStack vm2 = callStack vm1"
  shows "pc vm1 = 256 * unat (sl_bytes (hp vm) (code vm) ! pc vm) + unat (sl_bytes (hp vm) (code vm) ! (pc vm + 1)) \<and>
    1 \<le> pc vm1 \<and> pc vm1 \<le> sl_len (code vm) \<and>
    exec_op E opc' vm2 = Next () (vm2\<lparr>callStack := callStack vm, pc := pc vm + 3\<rparr>)"
proof -
  have "op_CALL E opc vm = Next () vm1" using assms(1,2) by (simp add: exec_op_def)
  then obtain s n where s: "pc vm + 2 < sl_len (code vm)" "sl_sub (code vm) (pc vm) (pc vm + 2) = Some s" and e: "enterFrame E opc s n (vm\<lparr>pc := pc vm + 3\<rparr>) = Next () vm1"
    by (rule op_CALL_frame)
  obtain vars where v: "callStack vm1 = CallStack_Push (callStack vm) \<lparr>variables = vars, returnAddress = pc vm + 3\<rparr>"
      "pc vm1 = be_nat (sl_bytes (hp vm) s)" "0 < pc vm1" "pc vm1 \<le> sl_len (code vm)"
    by (rule enterFrame_effect [OF e]) simp_all
  have "sl_bytes (hp vm) s = [sl_bytes (hp vm) (code vm) ! pc vm, sl_bytes (hp vm) (code vm) ! (pc vm + 1)]"
  proof -
    have len: "length (sl_bytes (hp vm) (code vm)) = sl_len (code vm)" using assms(3) by simp
    then have "drop (pc vm) (sl_bytes (hp vm) (code vm)) = sl_bytes (hp vm) (code vm) ! pc vm # sl_bytes (hp vm) (code vm) ! (pc vm + 1) #
        drop (pc vm + 2) (sl_bytes (hp vm) (code vm))"
      using s(1) by (simp add: Cons_nth_drop_Suc eval_nat_numeral)
    then show ?thesis using sl_sub_bytes [OF s(2) _ assms(3)] s(1) by simp
  qed
  then have "pc vm1 = 256 * unat (sl_bytes (hp vm) (code vm) ! pc vm) + unat (sl_bytes (hp vm) (code vm) ! (pc vm + 1))"
    using v(2) by (simp add: be_nat_Cons)
  moreover have "callStack vm\<lparr>cs_values := cs_values (callStack vm)\<rparr> = callStack vm" by simp
  then have "exec_op E opc' vm2 = Next () (vm2\<lparr>callStack := callStack vm, pc := pc vm + 3\<rparr>)"
    using assms(4,5) v(1)
    by (simp add: exec_op_def op_RET_def vbind_def vget_def vset_def guardErrors_def vret_def
        CallStack_Peek_def CallStack_Pop_def CallStack_Push_def CallStack_GetLength_def)
  moreover have "1 \<le> pc vm1" using v(3) by simp
  ultimately show ?thesis using v(4) by blast
qed

theorem call_ret_witness:
  "\<exists>vm1. exec_op demo_env (mkOp CALL ''call'' 2 [LABEL, BYTE] 1 1)
       ((start_vm [[21, 0, 5, 0, 50, 24, 50]] (demo_ctx [21, 0, 5, 0, 50, 24, 50] [] 50))\<lparr>pc := 1\<rparr>) = Next () vm1 \<and>
     exec_op demo_env (mkOp RET ''ret'' 0 [] 1 1) vm1 = Next () (vm1\<lparr>callStack := NewCallStack, pc := 4\<rparr>)"
proof -
  let ?vm = "(start_vm [[21, 0, 5, 0, 50, 24, 50]] (demo_ctx [21, 0, 5, 0, 50, 24, 50] [] 50))\<lparr>pc := 1\<rparr>"
  let ?call = "mkOp CALL ''call'' 2 [LABEL, BYTE] 1 1"
  let ?ret = "mkOp RET ''ret'' 0 [] 1 1"
  have ops: "op_code ?call = CALL" "op_code ?ret = RET" by (simp_all add: mkOp_def)
  have "\<exists>vm1. exec_op demo_env ?call ?vm = Next () vm1"
    by (simp add: vm_eval start_vm_def op_CALL_def enterFrame_def be_nat_def)
  then obtain vm1 where r: "exec_op demo_env ?call ?vm = Next () vm1" by blast
  have "callStack ?vm = NewCallStack" "pc ?vm = 1" by (simp_all add: start_vm_def NewVM_def split: prod.splits)
  moreover have "valid_slice (hp ?vm) (code ?vm)" by (simp add: start_vm_def NewVM_def demo_ctx_def valid_slice_def sl_new_def split: prod.splits)
  ultimately show ?thesis using call_ret [OF ops(1) r _ ops(2) refl] r by auto
qed

subsection \<open>Arrays and maps\<close>

text \<open>
  An array value that encodes a list behaves as the list: after \<^verbatim>\<open>Append\<close> every index up to
  the new last one reads the element of the extended list.
\<close>

theorem array_append_at:
  assumes "is_array h a xs" "valid_slice h v" "length (enc_array (xs @ [sl_bytes h v])) \<le> 65535"
    and "unat i \<le> length xs"
  shows "\<exists>h' a' t. Array_Append g h a v = Some (h', a', Inr ()) \<and> Array_At h' a' i = Some (h', a', Inr t) \<and>
    sl_bytes h' t = (xs @ [sl_bytes h v]) ! unat i"
  using arr.app_then_at [OF assms, of g] assms(4) by (auto simp: nth_append)

theorem array_append_at_witness:
  "\<exists>h' a' t. Array_Append (\<lambda>c n. n) [[2, 0, 0], [9, 8]] \<lparr>sl_arr = 0, sl_off = 0, sl_len = 3, sl_cap = 3\<rparr>
      \<lparr>sl_arr = 1, sl_off = 0, sl_len = 2, sl_cap = 2\<rparr> = Some (h', a', Inr ()) \<and>
    Array_At h' a' 0 = Some (h', a', Inr t) \<and> sl_bytes h' t = [9, 8]"
proof -
  let ?h = "[[2, 0, 0], [9, 8]] :: heap"
  let ?a = "\<lparr>sl_arr = 0, sl_off = 0, sl_len = 3, sl_cap = 3\<rparr>"
  let ?v = "\<lparr>sl_arr = 1, sl_off = 0, sl_len = 2, sl_cap = 2\<rparr>"
  have a: "is_array ?h ?a []" "valid_slice ?h ?v" "unat (0 :: u16) \<le> length ([] :: bytes list)"
    by (simp_all add: is_array_def enc_array_def valid_slice_def sl_bytes_def UInt16ToByteArray_def
        le_fixed_def numeral_2_eq_2)
  have v: "sl_bytes ?h ?v = [9, 8]" by (simp add: sl_bytes_def)
  then have "length (enc_array ([] @ [sl_bytes ?h ?v])) \<le> 65535" by (simp add: enc_array_def enc_elem_def)
  from array_append_at [OF a(1,2) this a(3), of "\<lambda>c n. n"] v show ?thesis by auto
qed

text \<open>
  C24: a map value that encodes an association list answers a lookup after \<^verbatim>\<open>Append\<close> of a new key
  with the value stored, provided the key and the value do not share the backing array of the map.
\<close>

theorem map_append_get:
  assumes "is_map h m kvs" "length kvs < 65535" "map_of kvs (sl_bytes h key) = None"
    and "valid_slice h key" "sl_len key \<le> 65535" "apart m key"
    and "valid_slice h v" "sl_len v \<le> 65535" "apart m v"
  shows "\<exists>h' m'. Map_Append g h m key v = Some (h', m', Inr ()) \<and>
    (\<forall>q. sl_bytes h' q = sl_bytes h key \<longrightarrow>
       (\<exists>t. Map_GetVal h' m' q = Some (Inr t) \<and> sl_bytes h' t = sl_bytes h v))"
  using assms by (rule mo.put_then_get)

theorem map_append_get_witness:
  "\<exists>h' m'. Map_Append (\<lambda>c n. n) [[1, 0, 0], [5], [6, 6]] \<lparr>sl_arr = 0, sl_off = 0, sl_len = 3, sl_cap = 3\<rparr>
      \<lparr>sl_arr = 1, sl_off = 0, sl_len = 1, sl_cap = 1\<rparr> \<lparr>sl_arr = 2, sl_off = 0, sl_len = 2, sl_cap = 2\<rparr> =
        Some (h', m', Inr ()) \<and>
    (\<forall>q. sl_bytes h' q = [5] \<longrightarrow> (\<exists>t. Map_GetVal h' m' q = Some (Inr t) \<and> sl_bytes h' t = [6, 6]))"
proof -
  let ?h = "[[1, 0, 0], [5], [6, 6]] :: heap"
  let ?m = "\<lparr>sl_arr = 0, sl_off = 0, sl_len = 3, sl_cap = 3\<rparr>"
  let ?k = "\<lparr>sl_arr = 1, sl_off = 0, sl_len = 1, sl_cap = 1\<rparr>"
  let ?v = "\<lparr>sl_arr = 2, sl_off = 0, sl_len = 2, sl_cap = 2\<rparr>"
  have m: "is_map ?h ?m []" "length ([] :: (bytes \<times> bytes) list) < 65535"
      "map_of ([] :: (bytes \<times> bytes) list) (sl_bytes ?h ?k) = None"
    by (simp_all add: is_map_def enc_map_def valid_slice_def sl_bytes_def UInt16ToByteArray_def
        le_fixed_def numeral_2_eq_2 small_pairs_def)
  have kv: "valid_slice ?h ?k" "sl_len ?k \<le> 65535" "apart ?m ?k" "valid_slice ?h ?v" "sl_len ?v \<le> 65535"
      "apart ?m ?v"
    by (simp_all add: valid_slice_def apart_def)
  have b: "sl_bytes ?h ?k = [5]" "sl_bytes ?h ?v = [6, 6]" by (simp_all add: sl_bytes_def)
  from map_append_get [OF m kv, of "\<lambda>c n. n"] show ?thesis unfolding b .
qed

text \<open>
  Removing a key that occurs once makes it absent: \<^verbatim>\<open>GetVal\<close> then reports it as not found.
\<close>

theorem map_remove_get:
  assumes "is_map h m kvs" "distinct (map fst kvs)" "sl_bytes h key \<in> fst ` set kvs" "valid_slice h key"
  shows "\<exists>h' m'. Map_Remove g h m key = Some (h', m', Inr ()) \<and>
    Map_GetVal h' m' key = Some (Inl ''key not found'')"
  using assms by (rule mo.del_then_get)

theorem map_remove_get_witness:
  "\<exists>h' m'. Map_Remove (\<lambda>c n. n) [enc_map [([5], [6])], [5]]
      \<lparr>sl_arr = 0, sl_off = 0, sl_len = 9, sl_cap = 9\<rparr> \<lparr>sl_arr = 1, sl_off = 0, sl_len = 1, sl_cap = 1\<rparr> =
        Some (h', m', Inr ()) \<and>
    Map_GetVal h' m' \<lparr>sl_arr = 1, sl_off = 0, sl_len = 1, sl_cap = 1\<rparr> = Some (Inl ''key not found'')"
proof (rule map_remove_get)
  have l: "length (enc_map [([5], [6])]) = 9" by (simp add: enc_map_def enc_pair_def)
  then show "is_map [enc_map [([5], [6])], [5]] \<lparr>sl_arr = 0, sl_off = 0, sl_len = 9, sl_cap = 9\<rparr> [([5], [6])]"
    by (simp add: is_map_def valid_slice_def sl_bytes_def)
qed (simp_all add: sl_bytes_def valid_slice_def)

end
