(* ===== verification/VMRuns.thy ===== *)
theory VMRuns
  imports VMProps
begin

text \<open>
  Concrete contracts that show what the machine does not guard against: a literal of the code is
  pushed as a view of the code, so an in-place append rewrites the instructions that follow it;
  an empty byte string on the stack makes the conversions panic; and a malformed map makes
  \<^verbatim>\<open>MAPHASKEY\<close> loop without charging gas.
\<close>

text \<open>\<^verbatim>\<open>PUSH 7; PUSH [2,0,0]; ARRAPPEND; HALT; HALT\<close>.\<close>

definition overwriting_prog :: bytes where
  "overwriting_prog = [0, 0, 7, 0, 2, 2, 0, 0, 43, 50, 50]"

lemma UInt16ToByteArray_eval:
  "UInt16ToByteArray x = [word_of_nat (unat x), word_of_nat (unat x div 256)]"
  by (simp add: UInt16ToByteArray_def le_fixed_def numeral_2_eq_2)

lemmas array_eval =
  op_PUSH_def op_ARRAPPEND_def ArrayFromByteArray_def Array_Append_def Array_IncrementSize_def
  Array_getSize_def setSize_def sl_read_def ByteArrayToUI16_def UInt16ToByteArray_eval UINT16_MAX_def

text \<open>
  \<^verbatim>\<open>ARRAPPEND\<close> on an array literal writes through to the contract: the program below, whose
  next instruction is \<^verbatim>\<open>HALT\<close>, ends with false because the append replaced that \<^verbatim>\<open>HALT\<close>, and the
  bytes of the account's contract are not the deployed ones any more.
\<close>

theorem Exec_overwrites_contract:
  "\<exists>vm'. Exec demo_env 10 (NewVM [overwriting_prog] (demo_ctx overwriting_prog [] 1000)) =
      Some (Return False vm') \<and>
    sl_bytes (hp vm') (Contract (ctx vm')) = [0, 0, 7, 0, 2, 2, 1, 0, 1, 0, 7]"
  by (simp add: vm_eval array_eval overwriting_prog_def)

text \<open>\<^verbatim>\<open>PUSH [0,0]; PUSH [2,1,0,0,0]; ARRAT; JMPIF 0; HALT\<close>: an array with one empty element.\<close>

definition panicking_prog :: bytes where
  "panicking_prog = [0, 1, 0, 0, 0, 4, 2, 1, 0, 0, 0, 46, 20, 0, 0, 50]"

lemma goLoop_first:
  "Array_goLoop h a 0 0 i =
     (if i < word_of_nat (sl_len a)
      then (case sl_read h a (unat i) (unat (i + 2)) of
              None \<Rightarrow> None
            | Some bs \<Rightarrow> (case ByteArrayToUI16 bs of Inl e \<Rightarrow> Some (Inl e) | Inr sz \<Rightarrow> Some (Inr (i, sz))))
      else Some (Inl ''array internals error''))"
  by (subst Array_goLoop.simps) (auto split: option.splits sum.splits)

text \<open>
  A contract can make the miner panic: \<^verbatim>\<open>ARRAT\<close> yields the empty byte string of a
  well-formed array, and \<^verbatim>\<open>JMPIF\<close> reads its first byte.
\<close>

theorem Exec_panics:
  "Exec demo_env 10 (NewVM [panicking_prog] (demo_ctx panicking_prog [] 1000)) = Some Panic"
  by (simp add: vm_eval array_eval panicking_prog_def op_ARRAT_def op_JMPIF_def Array_At_def
      Array_goToIndex_def goLoop_first ByteArrayToBool_def)

text \<open>\<^verbatim>\<open>PUSH 5; PUSH <bad_map>; MAPHASKEY; HALT\<close>.\<close>

definition looping_prog :: bytes where
  "looping_prog = [0, 0, 5, 0, 10] @ bad_map @ [37, 50, 50]"

text \<open>
  A contract can stop the miner for ever: on a map whose second key runs past the end the
  loop of \<^verbatim>\<open>MapContainsKey\<close> goes back to its start without an error and without charging gas.
\<close>

theorem Exec_diverges:
  "Exec demo_env 10 (NewVM [looping_prog] (demo_ctx looping_prog [] 1000)) = Some Diverge"
  by (simp add: vm_eval array_eval looping_prog_def bad_map_def op_MAPHASKEY_def MapFromByteArray_def
      MapContainsKey_def Map_containsLoop_bad valid_slice_def)

end
