(* ===== verification/Fmt.thy ===== *)
theory Fmt
  imports Prelude
begin

text \<open>
  The text that \<^verbatim>\<open>fmt.Sprintf("%v", x)\<close> produces for the values the program hashes: integers,
  booleans, arrays and slices, and structs. The transaction and block hashes of
  \<^verbatim>\<open>src/protocol\<close> are SHA3 sums over this text, so its injectivity is what ties a hash to the
  content of a transaction. A number is printed in decimal, with a sign when it is negative, a sequence as \<^verbatim>\<open>[a b c]\<close>, a struct as
  \<^verbatim>\<open>{a b c}\<close>; a nil slice prints like an empty one.
\<close>

datatype fval = FNum nat | FNeg nat | FBool bool | FSeq "fval list" | FStruct "fval list"

fun digits :: "nat \<Rightarrow> bytes" where
  "digits n = (if n < 10 then [word_of_nat (48 + n)]
               else digits (n div 10) @ [word_of_nat (48 + n mod 10)])"

declare digits.simps [simp del]

definition ch_minus :: byte where "ch_minus = 45"
definition ch_space :: byte where "ch_space = 32"
definition ch_lbrack :: byte where "ch_lbrack = 91"
definition ch_rbrack :: byte where "ch_rbrack = 93"
definition ch_lbrace :: byte where "ch_lbrace = 123"
definition ch_rbrace :: byte where "ch_rbrace = 125"

lemmas ch_defs = ch_minus_def ch_space_def ch_lbrack_def ch_rbrack_def ch_lbrace_def ch_rbrace_def

fun fmt_v :: "fval \<Rightarrow> bytes" and fmt_list :: "fval list \<Rightarrow> bytes" where
  "fmt_v (FNum n) = digits n"
| "fmt_v (FNeg n) = ch_minus # digits n"
| "fmt_v (FBool b) = (if b then of_string ''true'' else of_string ''false'')"
| "fmt_v (FSeq vs) = ch_lbrack # fmt_list vs @ [ch_rbrack]"
| "fmt_v (FStruct vs) = ch_lbrace # fmt_list vs @ [ch_rbrace]"
| "fmt_list [] = []"
| "fmt_list [v] = fmt_v v"
| "fmt_list (v # w # vs) = fmt_v v @ ch_space # fmt_list (w # vs)"

text \<open>The values of the hashed structs.\<close>

abbreviation fnum :: "'a::len word \<Rightarrow> fval" where
  "fnum w \<equiv> FNum (unat w)"

definition fint :: "int \<Rightarrow> fval" where
  "fint t = (if t < 0 then FNeg (nat (- t)) else FNum (nat t))"

definition fbytes :: "bytes \<Rightarrow> fval" where
  "fbytes bs = FSeq (map fnum bs)"

definition fslice :: "bytes option \<Rightarrow> fval" where
  "fslice b = fbytes (case b of None \<Rightarrow> [] | Some bs \<Rightarrow> bs)"

subsection \<open>The printed text determines the value\<close>

definition digit_byte :: "byte \<Rightarrow> bool" where
  "digit_byte b \<longleftrightarrow> 48 \<le> unat b \<and> unat b < 58"

text \<open>What may follow a value in a printed text: nothing, a space or a closing bracket.\<close>

definition stops :: "bytes \<Rightarrow> bool" where
  "stops r \<longleftrightarrow> r = [] \<or> hd r \<in> {ch_space, ch_rbrack, ch_rbrace}"

lemma stops_simps [simp]:
  "stops []" "stops (ch_space # r)" "stops (ch_rbrack # r)" "stops (ch_rbrace # r)"
  by (simp_all add: stops_def)

lemma stops_not_digit: "stops r \<Longrightarrow> r = [] \<or> \<not> digit_byte (hd r)"
  by (auto simp: stops_def digit_byte_def ch_defs)

definition undigits :: "bytes \<Rightarrow> nat" where
  "undigits bs = foldl (\<lambda>a b. 10 * a + (unat b - 48)) 0 bs"

lemma unat_digit: "k < 10 \<Longrightarrow> unat (48 + word_of_nat k :: byte) = 48 + k"
  by (simp add: unat_word_ariths)

lemma digits_digit: "b \<in> set (digits n) \<Longrightarrow> digit_byte b"
proof (induction n rule: digits.induct)
  case (1 n)
  then show ?case
    by (subst (asm) (2) digits.simps) (auto simp: digit_byte_def unat_digit split: if_splits)
qed

lemma digits_not_Nil [simp]: "digits n \<noteq> []"
  by (subst digits.simps) simp

lemma undigits_digits [simp]: "undigits (digits n) = n"
proof (induction n rule: digits.induct)
  case (1 n)
  then show ?case
    by (subst digits.simps) (auto simp: undigits_def unat_digit)
qed

lemma takeWhile_digits:
  assumes "stops r"
  shows "takeWhile digit_byte (digits n @ r) = digits n"
  using digits_digit [of _ n] stops_not_digit [OF assms]
  by (subst takeWhile_append2) (auto simp: takeWhile_eq_Nil_iff)

lemma digits_app_inj:
  assumes "digits m @ r = digits n @ r'" "stops r" "stops r'"
  shows "m = n \<and> r = r'"
  using takeWhile_digits [OF assms(2), of m] takeWhile_digits [OF assms(3), of n] assms(1)
  by (metis append_same_eq same_append_eq undigits_digits)

text \<open>The first byte tells the kind of a value.\<close>

lemma hd_digits: "digit_byte (hd (digits n @ r))"
  using digits_digit [of "hd (digits n)" n] by simp

lemma digits_app_neq: "\<not> digit_byte b \<Longrightarrow> digits n @ r \<noteq> b # s" "\<not> digit_byte b \<Longrightarrow> b # s \<noteq> digits n @ r"
  using hd_digits [of n r] by (metis list.sel(1))+

lemma true_false_chars:
  "of_string ''true'' = [116, 114, 117, 101]" "of_string ''false'' = [102, 97, 108, 115, 101]"
  by (simp_all add: of_string_def)

lemmas fmt_neq = digits_app_neq digit_byte_def true_false_chars ch_defs

lemma fmt_v_not_close: "fmt_v v @ r \<noteq> ch_rbrack # s" "fmt_v v @ r \<noteq> ch_rbrace # s"
  by (cases v; simp add: digits_app_neq digit_byte_def true_false_chars ch_defs)+

lemma fmt_list_close:
  assumes "c \<in> {ch_rbrack, ch_rbrace}"
  shows "fmt_list vs @ c # r = c # s \<longleftrightarrow> vs = [] \<and> r = s"
proof (cases vs rule: list.exhaust)
  case (Cons v us)
  have "\<exists>t. fmt_list (v # us) @ c # r = fmt_v v @ t" by (cases us) auto
  then have "fmt_list vs @ c # r \<noteq> c # s" using assms fmt_v_not_close [of v] Cons by (metis insertE singletonD)
  with Cons show ?thesis by simp
qed simp

text \<open>Both functions are prefix-free with respect to what may follow.\<close>

lemma fmt_app_inj:
  shows "fmt_v v @ r = fmt_v w @ r' \<Longrightarrow> stops r \<Longrightarrow> stops r' \<Longrightarrow> v = w \<and> r = r'"
    and "fmt_list vs @ c # t = fmt_list ws @ c # t' \<Longrightarrow> c \<in> {ch_rbrack, ch_rbrace} \<Longrightarrow> vs = ws \<and> t = t'"
proof (induction v and vs arbitrary: w r r' and ws c t t' rule: fmt_v_fmt_list.induct)
  case (1 n)
  then show ?case
    by (cases w) (auto simp: fmt_neq dest: digits_app_inj split: if_splits)
next
  case (2 n)
  then show ?case
    by (cases w) (auto simp: fmt_neq dest: digits_app_inj split: if_splits)
next
  case (3 b)
  then show ?case
    by (cases w) (auto simp: fmt_neq split: if_splits)
next
  case (4 vs)
  show ?case
  proof (cases w)
    case (FSeq ws)
    with "4.prems" have "fmt_list vs @ ch_rbrack # r = fmt_list ws @ ch_rbrack # r'" by simp
    with "4.IH" FSeq show ?thesis by blast
  qed (use "4.prems" in \<open>auto simp: fmt_neq split: if_splits\<close>)
next
  case (5 vs)
  show ?case
  proof (cases w)
    case (FStruct ws)
    with "5.prems" have "fmt_list vs @ ch_rbrace # r = fmt_list ws @ ch_rbrace # r'" by simp
    with "5.IH" FStruct show ?thesis by blast
  qed (use "5.prems" in \<open>auto simp: fmt_neq split: if_splits\<close>)
next
  case 6
  then show ?case using fmt_list_close [of c ws t' t] by auto
next
  case (7 v)
  consider "ws = []" | w where "ws = [w]" | w w2 ws' where "ws = w # w2 # ws'"
    by (metis list.exhaust)
  then show ?case
  proof cases
    assume "ws = []"
    with "7.prems" show ?thesis by (auto simp: fmt_v_not_close)
  next
    fix w assume "ws = [w]"
    with "7.prems" show ?thesis using "7.IH" [of "c # t" w "c # t'"] by (auto simp: stops_def)
  next
    fix w w2 ws' assume "ws = w # w2 # ws'"
    with "7.prems" show ?thesis
      using "7.IH" [of "c # t" w "ch_space # fmt_list (w2 # ws') @ c # t'"] by (auto simp: stops_def ch_defs)
  qed
next
  case (8 v v2 vs)
  let ?t = "ch_space # fmt_list (v2 # vs) @ c # t"
  consider "ws = []" | w where "ws = [w]" | w w2 ws' where "ws = w # w2 # ws'"
    by (metis list.exhaust)
  then show ?case
  proof cases
    assume "ws = []"
    with "8.prems" show ?thesis by (auto simp: fmt_v_not_close)
  next
    fix w assume "ws = [w]"
    with "8.prems" show ?thesis using "8.IH"(1) [of ?t w "c # t'"] by (auto simp: stops_def ch_defs)
  next
    fix w w2 ws' assume ws: "ws = w # w2 # ws'"
    with "8.prems" have "v = w \<and> fmt_list (v2 # vs) @ c # t = fmt_list (w2 # ws') @ c # t'"
      using "8.IH"(1) [of ?t w "ch_space # fmt_list (w2 # ws') @ c # t'"] by auto
    with ws "8.prems" "8.IH"(2) [of c t "w2 # ws'" t'] show ?thesis by auto
  qed
qed

lemma fmt_v_inject [simp]: "fmt_v v = fmt_v w \<longleftrightarrow> v = w"
  using fmt_app_inj(1) [of v "[]" w "[]"] by auto

lemma fbytes_inject [simp]: "fbytes a = fbytes b \<longleftrightarrow> a = b"
  by (auto simp: fbytes_def inj_map_eq_map inj_def word_unat_eq_iff)

lemma fint_inject [simp]: "fint a = fint b \<longleftrightarrow> a = b"
  by (auto simp: fint_def split: if_splits)

lemma fslice_inject: "fslice a = fslice b \<longleftrightarrow> (case a of None \<Rightarrow> [] | Some x \<Rightarrow> x) = (case b of None \<Rightarrow> [] | Some x \<Rightarrow> x)"
  by (simp add: fslice_def)

lemma fnum_inject [simp]: "unat (a :: 'a::len word) = unat b \<longleftrightarrow> a = b"
  by (simp add: word_unat_eq_iff)

end
