(* ===== verification/Protocol.thy ===== *)
theory Protocol
  imports Prelude
begin

text \<open>
  The data of \<^verbatim>\<open>src/protocol\<close>: accounts, the six kinds of transactions, blocks, and the block data
  of \<^verbatim>\<open>src/miner/block.go\<close>. Field names carry a short prefix of their struct. A \<^verbatim>\<open>[32]byte\<close> hash is a
  byte list; a Go integer is a word of its width. Pointers to immutable data (chameleon
  parameters, check strings) are optional values. The Bloom filter of a
  block, an object of a third-party package, is represented by the bytes its \<^verbatim>\<open>GobEncode\<close> gives.
\<close>

type_synonym hash = bytes

record ChameleonHashParameters =
  ch_G :: bytes
  ch_P :: bytes
  ch_Q :: bytes
  ch_HK :: bytes
  ch_TK :: bytes

record ChameleonHashCheckString =
  cs_R :: bytes
  cs_S :: bytes

record Account =
  acc_Address :: bytes
  acc_Issuer :: hash
  acc_Balance :: u64
  acc_TxCnt :: u32
  acc_IsStaking :: bool
  acc_CommitmentKey :: bytes
  acc_StakingBlockHeight :: u32
  acc_Contract :: "bytes option"
  acc_ContractVariables :: "bytes list"
  acc_Parameters :: "ChameleonHashParameters option"

definition NewAccount ::
    "bytes \<Rightarrow> hash \<Rightarrow> u64 \<Rightarrow> bool \<Rightarrow> bytes \<Rightarrow> bytes option \<Rightarrow> bytes list \<Rightarrow> ChameleonHashParameters option \<Rightarrow> Account" where
  "NewAccount address issuer balance isStaking commitmentKey contract contractVariables parameters =
     \<lparr>acc_Address = address, acc_Issuer = issuer, acc_Balance = balance, acc_TxCnt = 0,
      acc_IsStaking = isStaking, acc_CommitmentKey = commitmentKey, acc_StakingBlockHeight = 0,
      acc_Contract = contract, acc_ContractVariables = contractVariables, acc_Parameters = parameters\<rparr>"

record AccTx =
  at_Header :: u8
  at_Fee :: u64
  at_Issuer :: hash
  at_PubKey :: bytes
  at_Sig :: bytes
  at_Contract :: "bytes option"
  at_ContractVariables :: "bytes list"
  at_Parameters :: "ChameleonHashParameters option"
  at_CheckString :: "ChameleonHashCheckString option"
  at_Data :: "bytes option"

record FundsTx =
  ft_Header :: u8
  ft_Amount :: u64
  ft_Fee :: u64
  ft_TxCnt :: u32
  ft_From :: hash
  ft_To :: hash
  ft_Sig1 :: bytes
  ft_Sig2 :: bytes
  ft_Aggregated :: bool
  ft_Block :: hash
  ft_CheckString :: "ChameleonHashCheckString option"
  ft_Data :: "bytes option"

record ConfigTx =
  ct_Header :: u8
  ct_Id :: u8
  ct_Payload :: u64
  ct_Fee :: u64
  ct_TxCnt :: u8
  ct_Sig :: bytes
  ct_CheckString :: "ChameleonHashCheckString option"
  ct_Data :: "bytes option"

record StakeTx =
  st_Header :: u8
  st_Fee :: u64
  st_IsStaking :: bool
  st_Account :: hash
  st_Sig :: bytes
  st_CommitmentKey :: bytes
  st_CheckString :: "ChameleonHashCheckString option"
  st_Data :: "bytes option"

record AggTx =
  gt_Amount :: u64
  gt_Fee :: u64
  gt_From :: "hash list"
  gt_To :: "hash list"
  gt_AggregatedTxSlice :: "hash list"
  gt_Aggregated :: bool
  gt_Block :: hash
  gt_MerkleRoot :: hash
  gt_CheckString :: "ChameleonHashCheckString option"
  gt_Data :: "bytes option"

record UpdateTx =
  ut_Fee :: u64
  ut_TxToUpdateHash :: hash
  ut_TxToUpdateCheckString :: "ChameleonHashCheckString option"
  ut_TxToUpdateData :: "bytes option"
  ut_Issuer :: hash
  ut_Sig :: bytes
  ut_CheckString :: "ChameleonHashCheckString option"
  ut_Data :: "bytes option"

text \<open>The interface \<^verbatim>\<open>protocol.Transaction\<close>: one constructor per implementing type.\<close>

datatype Transaction =
    TAcc AccTx | TFunds FundsTx | TConfig ConfigTx | TStake StakeTx | TAgg AggTx | TUpdate UpdateTx

primrec TxFee :: "Transaction \<Rightarrow> u64" where
  "TxFee (TAcc tx) = at_Fee tx"
| "TxFee (TFunds tx) = ft_Fee tx"
| "TxFee (TConfig tx) = ct_Fee tx"
| "TxFee (TStake tx) = st_Fee tx"
| "TxFee (TAgg tx) = gt_Fee tx"
| "TxFee (TUpdate tx) = ut_Fee tx"

record Block =
  bl_Header :: u8
  bl_Hash :: hash
  bl_PrevHash :: hash
  bl_HashWithoutTx :: hash
  bl_PrevHashWithoutTx :: hash
  bl_NrElementsBF :: u16
  bl_BloomFilter :: "bytes option"
  bl_Height :: u32
  bl_Beneficiary :: hash
  bl_Aggregated :: bool
  bl_NrUpdates :: u16
  bl_Nonce :: bytes
  bl_Timestamp :: int
  bl_MerkleRoot :: hash
  bl_NrAccTx :: u16
  bl_NrConfigTx :: u8
  bl_NrFundsTx :: u16
  bl_NrStakeTx :: u16
  bl_NrAggTx :: u16
  bl_NrUpdateTx :: u16
  bl_SlashedAddress :: hash
  bl_CommitmentProof :: bytes
  bl_ConflictingBlockHash1 :: hash
  bl_ConflictingBlockHash2 :: hash
  bl_ConflictingBlockHashWithoutTx1 :: hash
  bl_ConflictingBlockHashWithoutTx2 :: hash
  bl_StateCopy :: "hash \<Rightarrow> Account option"
  bl_AccTxData :: "hash list"
  bl_FundsTxData :: "hash list"
  bl_ConfigTxData :: "hash list"
  bl_StakeTxData :: "hash list"
  bl_AggTxData :: "hash list"
  bl_UpdateTxData :: "hash list"

record blockData =
  accTxSlice :: "AccTx list"
  fundsTxSlice :: "FundsTx list"
  configTxSlice :: "ConfigTx list"
  stakeTxSlice :: "StakeTx list"
  aggTxSlice :: "AggTx list"
  aggregatedFundsTxSlice :: "FundsTx list"
  updateTxSlice :: "UpdateTx list"
  bd_block :: Block

text \<open>The zero value \<^verbatim>\<open>[32]byte{}\<close>.\<close>

definition zero_hash :: hash where
  "zero_hash = replicate 32 0"

end
