(* ===== verification/Chameleon.thy ===== *)
theory Chameleon
  imports Protocol
begin

text \<open>
  The chameleon hash of \<^verbatim>\<open>src/crypto/chameleon_hash.go\<close>. Parameters and check strings hold numbers
  as hexadecimal text. Random numbers are arguments of the functions that draw them; SHA-256 is the
  argument \<open>sha\<close>. The code ignores whether \<^verbatim>\<open>SetString\<close> succeeds: it goes on with the value of the hexadecimal digits
  at the front of the text, zero if there are none. \<open>None\<close> stands for a panic, of a nil pointer or of \<^verbatim>\<open>Mod\<close> with a zero
  modulus. Outside the model, and \<open>None\<close> as well, is a text that begins with a sign, which \<^verbatim>\<open>%x\<close> never prints here:
  \<^verbatim>\<open>SetString\<close> would read a negative number.
\<close>

subsection \<open>Hexadecimal numbers\<close>

definition hex_char :: "nat \<Rightarrow> byte" where
  "hex_char d = (if d < 10 then word_of_nat (48 + d) else word_of_nat (87 + d))"

definition hex_value :: "byte \<Rightarrow> nat option" where
  "hex_value b = (let n = unat b in
     if 48 \<le> n \<and> n < 58 then Some (n - 48)
     else if 97 \<le> n \<and> n < 103 then Some (n - 87)
     else if 65 \<le> n \<and> n < 71 then Some (n - 55)
     else None)"

fun hex_print :: "nat \<Rightarrow> bytes" where
  "hex_print n = (if n < 16 then [hex_char n] else hex_print (n div 16) @ [hex_char (n mod 16)])"

declare hex_print.simps [simp del]

fun hex_scan :: "bytes \<Rightarrow> nat \<Rightarrow> nat" where
  "hex_scan [] a = a"
| "hex_scan (b # bs) a = (case hex_value b of None \<Rightarrow> a | Some d \<Rightarrow> hex_scan bs (16 * a + d))"

definition is_sign :: "byte \<Rightarrow> bool" where
  "is_sign b \<longleftrightarrow> b = 43 \<or> b = 45"

definition big_SetString :: "bytes \<Rightarrow> nat option" where
  "big_SetString bs = (if bs \<noteq> [] \<and> is_sign (hd bs) then None else Some (hex_scan bs 0))"

lemma hex_value_char: "d < 16 \<Longrightarrow> hex_value (hex_char d) = Some d"
  by (auto simp: hex_value_def hex_char_def Let_def unat_word_ariths)

lemma hex_scan_append: "\<forall>b \<in> set xs. hex_value b \<noteq> None \<Longrightarrow> hex_scan (xs @ ys) a = hex_scan ys (hex_scan xs a)"
  by (induction xs arbitrary: a) (auto split: option.splits)

lemma hex_print_not_Nil [simp]: "hex_print n \<noteq> []"
  by (subst hex_print.simps) simp

lemma hex_print_digits: "\<forall>b \<in> set (hex_print n). hex_value b \<noteq> None"
proof (induction n rule: hex_print.induct)
  case (1 n)
  then show ?case by (subst hex_print.simps) (auto simp: hex_value_char split: if_splits)
qed

lemma hex_scan_print: "hex_scan (hex_print n) 0 = n"
proof (induction n rule: hex_print.induct)
  case (1 n)
  show ?case
  proof (cases "n < 16")
    case True
    then show ?thesis by (subst hex_print.simps) (simp add: hex_value_char)
  next
    case False
    then have "hex_scan (hex_print (n div 16) @ [hex_char (n mod 16)]) 0 = n"
      using 1 by (simp add: hex_value_char hex_scan_append hex_print_digits)
    then show ?thesis using False by (subst hex_print.simps) simp
  qed
qed

lemma sign_no_digit: "is_sign b \<Longrightarrow> hex_value b = None"
  by (auto simp: is_sign_def hex_value_def)

lemma SetString_print [simp]: "big_SetString (hex_print n) = Some n"
proof -
  have "hex_value (hd (hex_print n)) \<noteq> None" using hex_print_digits hex_print_not_Nil by (meson hd_in_set)
  then show ?thesis using sign_no_digit by (auto simp: big_SetString_def hex_scan_print)
qed

subsection \<open>Hash and collision\<close>

text \<open>\<^verbatim>\<open>Exp\<close> of \<^verbatim>\<open>math/big\<close> with a non-negative exponent.\<close>

definition big_Exp :: "nat \<Rightarrow> nat \<Rightarrow> nat \<Rightarrow> nat" where
  "big_Exp x y m = x ^ y mod m"

text \<open>\<^verbatim>\<open>copy(result[:], bs)\<close> into a zero \<^verbatim>\<open>[32]byte\<close>.\<close>

definition copy32 :: "bytes \<Rightarrow> hash" where
  "copy32 bs = take 32 bs @ replicate (32 - length bs) 0"

definition ChameleonHash ::
    "(bytes \<Rightarrow> bytes) \<Rightarrow> ChameleonHashParameters option \<Rightarrow> ChameleonHashCheckString option \<Rightarrow> bytes \<Rightarrow> hash option" where
  "ChameleonHash sha parameters checkString message =
     (case (parameters, checkString) of
        (Some pr, Some cs) \<Rightarrow>
          (case (big_SetString (ch_G pr), big_SetString (ch_P pr), big_SetString (ch_Q pr), big_SetString (ch_HK pr),
                 big_SetString (cs_R cs), big_SetString (cs_S cs)) of
             (Some g, Some p, Some q, Some hk, Some r, Some s) \<Rightarrow>
               if p = 0 \<or> q = 0 then None
               else let e = be_nat (sha (message @ hex_print r));
                        tmp = (big_Exp hk e p * big_Exp g s p) mod p;
                        h = big_Mod (int r - int tmp) (int q)
                    in Some (copy32 (big_Bytes (nat h)))
           | _ \<Rightarrow> None)
      | _ \<Rightarrow> None)"

definition GenerateChCollision ::
    "(bytes \<Rightarrow> bytes) \<Rightarrow> nat \<Rightarrow> ChameleonHashParameters \<Rightarrow> ChameleonHashCheckString \<Rightarrow> bytes \<Rightarrow> bytes \<Rightarrow>
     ChameleonHashCheckString option" where
  "GenerateChCollision sha k parameters checkString oldMessage newMessage =
     (case (big_SetString (ch_G parameters), big_SetString (ch_P parameters), big_SetString (ch_Q parameters),
            big_SetString (ch_TK parameters), ChameleonHash sha (Some parameters) (Some checkString) oldMessage) of
        (Some g, Some p, Some q, Some tk, Some hash) \<Rightarrow>
          let h = be_nat hash;
              r2 = (h + big_Exp g k p) mod q;
              e = be_nat (sha (newMessage @ hex_print r2));
              s2 = big_Mod (int k - int ((e * tk) mod q)) (int q)
          in Some \<lparr>cs_R = hex_print r2, cs_S = hex_print (nat s2)\<rparr>
      | _ \<Rightarrow> None)"

text \<open>
  \<^verbatim>\<open>keygen\<close> with the random prime \<open>p\<close>, the random base \<open>x\<close> and the random trapdoor \<open>tk\<close>;
  \<^verbatim>\<open>NewCheckString\<close> with its two random numbers.
\<close>

definition keygen :: "nat \<Rightarrow> nat \<Rightarrow> nat \<Rightarrow> ChameleonHashParameters" where
  "keygen p x tk = (let q = (p - 1) div 2; g = big_Exp x 2 p in
     \<lparr>ch_G = hex_print g, ch_P = hex_print p, ch_Q = hex_print q, ch_HK = hex_print (big_Exp g tk p),
      ch_TK = hex_print tk\<rparr>)"

definition NewCheckString :: "nat \<Rightarrow> nat \<Rightarrow> ChameleonHashCheckString" where
  "NewCheckString r s = \<lparr>cs_R = hex_print r, cs_S = hex_print s\<rparr>"

subsection \<open>Arithmetic of the collision\<close>

lemma pow_mod_period:
  assumes "(g :: nat) ^ q mod p = 1 mod p"
  shows "g ^ a mod p = g ^ (a mod q) mod p"
proof -
  have "g ^ a = (g ^ q) ^ (a div q) * g ^ (a mod q)"
    by (metis div_mult_mod_eq mult.commute power_add power_mult)
  also have "\<dots> mod p = ((g ^ q mod p) ^ (a div q) mod p) * g ^ (a mod q) mod p"
    by (simp add: power_mod mod_mult_left_eq)
  also have "\<dots> = g ^ (a mod q) mod p"
    by (simp add: assms power_mod mod_mult_left_eq)
  finally show ?thesis .
qed

lemma trapdoor_exponent:
  fixes g q p k e tk :: nat
  assumes "g ^ q mod p = 1 mod p" "0 < q"
  defines "s \<equiv> nat (big_Mod (int k - int ((e * tk) mod q)) (int q))"
  shows "((g ^ tk mod p) ^ e mod p * (g ^ s mod p)) mod p = g ^ k mod p"
proof -
  have s: "int s = (int k - int (e * tk)) mod int q"
    using assms(2) by (simp add: s_def big_Mod_def zmod_int mod_diff_right_eq)
  have "int ((tk * e + s) mod q) = int (k mod q)"
    by (simp add: zmod_int s mod_add_right_eq mult.commute)
  then have "(tk * e + s) mod q = k mod q" by simp
  moreover have "((g ^ tk mod p) ^ e mod p * (g ^ s mod p)) mod p = g ^ (tk * e + s) mod p"
    by (simp add: power_mod mod_mult_eq power_mult power_add)
  ultimately show ?thesis
    using pow_mod_period [OF assms(1), of "tk * e + s"] pow_mod_period [OF assms(1), of k] by simp
qed

text \<open>A hash is its own number, padded.\<close>

lemma length_copy32 [simp]: "length (copy32 bs) = 32"
  by (simp add: copy32_def)

lemma big_Bytes_hd: "n \<noteq> 0 \<Longrightarrow> big_Bytes n \<noteq> [] \<and> hd (big_Bytes n) \<noteq> 0"
proof (induction n rule: big_Bytes.induct)
  case (1 n)
  show ?case
  proof (cases "n div 256 = 0")
    case True
    then have "n < 256" by simp
    then have "(word_of_nat n :: byte) \<noteq> 0" using 1 by (simp add: word_unat_eq_iff)
    with True 1 show ?thesis by (subst (1 2) big_Bytes.simps) simp
  next
    case False
    with 1 have "big_Bytes (n div 256) \<noteq> [] \<and> hd (big_Bytes (n div 256)) \<noteq> 0" by simp
    with 1 show ?thesis by (subst (1 2) big_Bytes.simps) simp
  qed
qed

lemma copy32_roundtrip:
  assumes "length (big_Bytes n) \<le> 32"
  shows "copy32 (big_Bytes (be_nat (copy32 (big_Bytes n)))) = copy32 (big_Bytes n)"
proof (cases "n = 0")
  case True
  have "be_nat (replicate m 0) = 0" for m by (induction m) (simp_all add: be_nat_Cons)
  with True show ?thesis by (simp add: copy32_def)
next
  case False
  with assms have "copy32 (big_Bytes n) \<noteq> [] \<and> hd (copy32 (big_Bytes n)) \<noteq> 0"
    using big_Bytes_hd [of n] by (auto simp: copy32_def)
  then have "big_Bytes (be_nat (copy32 (big_Bytes n))) = copy32 (big_Bytes n)"
    by (intro big_Bytes_be_nat) auto
  then show ?thesis by (simp add: copy32_def)
qed

subsection \<open>Collisions\<close>

lemma ChameleonHash_keygen:
  assumes "odd p" "2 < p"
  shows "ChameleonHash sha (Some (keygen p x tk)) (Some \<lparr>cs_R = R, cs_S = S\<rparr>) m =
     (case (big_SetString R, big_SetString S) of
        (Some r, Some s) \<Rightarrow> let g = x ^ 2 mod p; q = (p - 1) div 2; e = be_nat (sha (m @ hex_print r)) in
          Some (copy32 (big_Bytes (nat (big_Mod (int r - int (((g ^ tk mod p) ^ e mod p * (g ^ s mod p)) mod p)) (int q)))))
      | _ \<Rightarrow> None)"
proof -
  have "0 < (p - 1) div 2" using assms by presburger
  then show ?thesis
    using assms
    by (auto simp: ChameleonHash_def keygen_def Let_def big_Exp_def split: option.splits)
qed

lemma keygen_period:
  assumes "odd p" "x ^ (p - 1) mod p = 1 mod (p :: nat)"
  shows "(x ^ 2 mod p) ^ ((p - 1) div 2) mod p = 1 mod p"
proof -
  have "2 * ((p - 1) div 2) = p - 1" using assms(1) by presburger
  then have "(x ^ 2) ^ ((p - 1) div 2) = x ^ (p - 1)" by (metis power_mult)
  with assms(2) show ?thesis by (simp add: power_mod)
qed

lemma collision_value:
  fixes V k p q :: nat
  assumes "0 < q" "V < q"
  shows "nat (big_Mod (int ((V + k mod p) mod q) - int (k mod p)) (int q)) = V"
proof -
  have "big_Mod (int ((V + k mod p) mod q) - int (k mod p)) (int q) = int V mod int q"
    using assms(1) by (simp add: big_Mod_def zmod_int mod_diff_left_eq)
  with assms show ?thesis by simp
qed

lemma hash_copy32:
  assumes "ChameleonHash sha (Some (keygen p x tk)) cs m = Some h" "odd p" "2 < p" "p \<le> 256 ^ 32"
  shows "copy32 (big_Bytes (be_nat h)) = h"
proof -
  let ?q = "(p - 1) div 2"
  from assms obtain v where h: "h = copy32 (big_Bytes (nat (big_Mod v (int ?q))))"
    by (cases cs; cases "the cs")
      (auto simp: keygen_def Let_def ChameleonHash_def split: option.splits if_splits)
  have "0 < ?q" using assms(2,3) by presburger
  then have "0 \<le> big_Mod v (int ?q) \<and> big_Mod v (int ?q) < int ?q"
    using big_Mod_range [of "int ?q" v] by simp
  then have "nat (big_Mod v (int ?q)) < 256 ^ 32" using assms(4) by linarith
  then show ?thesis by (simp only: h copy32_roundtrip [OF length_big_Bytes])
qed

lemma collision_correct:
  assumes "odd p" "2 < p" "p \<le> 256 ^ 32" "x ^ (p - 1) mod p = 1 mod (p :: nat)"
    and "ChameleonHash sha (Some (keygen p x tk)) (Some cs) old = Some h"
    and "be_nat h < (p - 1) div 2"
  shows "\<exists>cs'. GenerateChCollision sha k (keygen p x tk) cs old new = Some cs' \<and>
               ChameleonHash sha (Some (keygen p x tk)) (Some cs') new = Some h"
proof -
  let ?q = "(p - 1) div 2" and ?g = "x ^ 2 mod p"
  define r2 where "r2 = (be_nat h + ?g ^ k mod p) mod ?q"
  define e where "e = be_nat (sha (new @ hex_print r2))"
  define s2 where "s2 = nat (big_Mod (int k - int ((e * tk) mod ?q)) (int ?q))"
  have q: "0 < ?q" using assms(6) by (rule order_le_less_trans [OF le0])
  have gen: "GenerateChCollision sha k (keygen p x tk) cs old new = Some \<lparr>cs_R = hex_print r2, cs_S = hex_print s2\<rparr>"
    using assms(5) by (simp add: GenerateChCollision_def keygen_def Let_def big_Exp_def r2_def s2_def e_def)
  have "((?g ^ tk mod p) ^ e mod p * (?g ^ s2 mod p)) mod p = ?g ^ k mod p"
    unfolding s2_def by (rule trapdoor_exponent [OF keygen_period [OF assms(1,4)] q])
  then have "ChameleonHash sha (Some (keygen p x tk)) (Some \<lparr>cs_R = hex_print r2, cs_S = hex_print s2\<rparr>) new =
      Some (copy32 (big_Bytes (nat (big_Mod (int r2 - int (?g ^ k mod p)) (int ?q)))))"
    using assms by (simp add: ChameleonHash_keygen Let_def e_def [symmetric])
  also have "\<dots> = Some h"
    unfolding r2_def collision_value [OF q assms(6)] hash_copy32 [OF assms(5,1-3)] ..
  finally show ?thesis using gen by blast
qed

text \<open>
  C13: the trapdoor makes collisions. For parameters drawn by \<^verbatim>\<open>keygen\<close> (an odd modulus \<open>p\<close> of at most
  256 bits that satisfies Fermat's theorem for the drawn base), a check string of any kind, and two
  messages: when the hash of the old message, read as a number, is below \<open>q\<close>, then
  \<^verbatim>\<open>GenerateChCollision\<close> returns, whatever random \<open>k\<close> it draws, a check string under which the new
  message has the hash of the old one.
\<close>

theorem GenerateChCollision_collides:
  assumes "odd p" "2 < p" "p \<le> 256 ^ 32" "x ^ (p - 1) mod p = 1 mod (p :: nat)"
    and "ChameleonHash sha (Some (keygen p x tk)) (Some cs) old = Some h"
    and "be_nat h < (p - 1) div 2"
  shows "\<exists>cs'. GenerateChCollision sha k (keygen p x tk) cs old new = Some cs' \<and>
               ChameleonHash sha (Some (keygen p x tk)) (Some cs') new = Some h"
  using assms by (rule collision_correct)

lemma le_nat_replicate_0: "le_nat (replicate n 0) = 0"
  by (induction n) simp_all

lemmas chameleon_defs = ChameleonHash_def GenerateChCollision_def keygen_def NewCheckString_def Let_def

lemmas chameleon_eval = le_nat_append le_nat_replicate_0 big_Exp_def big_Mod_def copy32_def big_Bytes.simps be_nat_def

theorem GenerateChCollision_collides_witness:
  "\<exists>cs'. GenerateChCollision (\<lambda>_. [2]) 7 (keygen 23 2 3) (NewCheckString 8 1) [1] [9, 9] = Some cs' \<and>
         ChameleonHash (\<lambda>_. [2]) (Some (keygen 23 2 3)) (Some cs') [9, 9] = Some (replicate 32 0)"
  by (rule GenerateChCollision_collides) (unfold chameleon_defs, simp_all add: chameleon_eval)

text \<open>
  The result is copied to the front of the 32-byte array, so a hash with fewer significant bytes is
  read back as a different, larger number. When that number is not below \<open>q\<close> the collision fails:
  here the old message has the number 1, whose hash reads as \<open>256 ^ 31\<close>, and the new message under
  the generated check string gets another hash.
\<close>

theorem GenerateChCollision_short_hash:
  "ChameleonHash (\<lambda>_. [2]) (Some (keygen 23 2 3)) (Some (NewCheckString 9 1)) [1] = Some (1 # replicate 31 0) \<and>
   GenerateChCollision (\<lambda>_. [2]) 7 (keygen 23 2 3) (NewCheckString 9 1) [1] [9, 9] = Some (NewCheckString 0 1) \<and>
   ChameleonHash (\<lambda>_. [2]) (Some (keygen 23 2 3)) (Some (NewCheckString 0 1)) [9, 9] = Some (3 # replicate 31 0)"
  unfolding chameleon_defs by (simp add: chameleon_eval)

end
