(* ===== verification/Transactions.thy ===== *)
theory Transactions
  imports Fmt Chameleon
begin

text \<open>
  The transactions of \<^verbatim>\<open>src/protocol\<close>: constructors, hashes, the methods of the interface
  \<^verbatim>\<open>Transaction\<close>, and the encodings. The SHA3 and SHA-256 functions and the ECDSA verification are
  fields of \<open>crypto_env\<close>. A hash is \<open>None\<close> where the Go code panics (a missing set of chameleon
  parameters or a missing check string).

  A gob stream is represented by the struct it carries, after what \<^verbatim>\<open>encoding/gob\<close> does to it:
  fields that \<^verbatim>\<open>Encode\<close> does not copy are zero, an empty slice is decoded as nil. The formats that
  the code writes byte by byte (configuration and stake transactions) are byte lists.
\<close>

record crypto_env =
  sha3 :: "bytes \<Rightarrow> hash"
  sha256 :: "bytes \<Rightarrow> bytes"
  ecdsa_Verify :: "nat \<times> nat \<Rightarrow> hash \<Rightarrow> nat \<Rightarrow> nat \<Rightarrow> bool"

text \<open>\<^verbatim>\<open>crypto.ChameleonHashParametersMap\<close>; a missing key reads as nil.\<close>

type_synonym cham_map = "hash \<Rightarrow> ChameleonHashParameters option"

definition SerializeHashContent :: "crypto_env \<Rightarrow> fval \<Rightarrow> hash" where
  "SerializeHashContent C v = sha3 C (fmt_v v)"

definition Account_Hash :: "crypto_env \<Rightarrow> Account \<Rightarrow> hash" where
  "Account_Hash C acc = SerializeHashContent C (fbytes (acc_Address acc))"

subsection \<open>Constructors\<close>

definition ConstrFundsTx :: "u8 \<Rightarrow> u64 \<Rightarrow> u64 \<Rightarrow> u32 \<Rightarrow> hash \<Rightarrow> hash \<Rightarrow> ChameleonHashCheckString option \<Rightarrow> bytes option \<Rightarrow> FundsTx" where
  "ConstrFundsTx header amount fee txCnt from to checkString data =
     \<lparr>ft_Header = header, ft_Amount = amount, ft_Fee = fee, ft_TxCnt = txCnt, ft_From = from, ft_To = to,
      ft_Sig1 = replicate 64 0, ft_Sig2 = replicate 64 0, ft_Aggregated = False, ft_Block = zero_hash,
      ft_CheckString = checkString, ft_Data = data\<rparr>"

definition ConstrAccTx :: "u8 \<Rightarrow> u64 \<Rightarrow> hash \<Rightarrow> bytes \<Rightarrow> bytes option \<Rightarrow> bytes list \<Rightarrow> ChameleonHashParameters option \<Rightarrow>
    ChameleonHashCheckString option \<Rightarrow> bytes option \<Rightarrow> AccTx" where
  "ConstrAccTx header fee issuer address contract contractVariables parameters checkString data =
     \<lparr>at_Header = header, at_Fee = fee, at_Issuer = issuer, at_PubKey = address, at_Sig = replicate 64 0,
      at_Contract = contract, at_ContractVariables = contractVariables, at_Parameters = parameters,
      at_CheckString = checkString, at_Data = data\<rparr>"

definition ConstrUpdateTx :: "u64 \<Rightarrow> hash \<Rightarrow> ChameleonHashCheckString option \<Rightarrow> bytes option \<Rightarrow> hash \<Rightarrow>
    ChameleonHashCheckString option \<Rightarrow> bytes option \<Rightarrow> UpdateTx" where
  "ConstrUpdateTx fee txToUpdateHash txToUpdateCheckString txToUpdateData issuer checkString data =
     \<lparr>ut_Fee = fee, ut_TxToUpdateHash = txToUpdateHash, ut_TxToUpdateCheckString = txToUpdateCheckString,
      ut_TxToUpdateData = txToUpdateData, ut_Issuer = issuer, ut_Sig = replicate 64 0,
      ut_CheckString = checkString, ut_Data = data\<rparr>"

subsection \<open>Hashes\<close>

definition FundsTx_content :: "FundsTx \<Rightarrow> fval" where
  "FundsTx_content tx = FStruct [fnum (ft_Header tx), fnum (ft_Amount tx), fnum (ft_Fee tx), fnum (ft_TxCnt tx),
     fbytes (ft_From tx), fbytes (ft_To tx), fslice (ft_Data tx)]"

definition AccTx_content :: "AccTx \<Rightarrow> fval" where
  "AccTx_content tx = FStruct [fnum (at_Header tx), fbytes (at_Issuer tx), fnum (at_Fee tx), fbytes (at_PubKey tx),
     fslice (at_Contract tx), FSeq (map fbytes (at_ContractVariables tx)), fslice (at_Data tx)]"

definition fcheck :: "ChameleonHashCheckString \<Rightarrow> fval" where
  "fcheck cs = FStruct [fbytes (cs_R cs), fbytes (cs_S cs)]"

text \<open>\<^verbatim>\<open>UpdateTx.SHA3\<close> dereferences both check strings.\<close>

definition UpdateTx_content :: "UpdateTx \<Rightarrow> fval option" where
  "UpdateTx_content tx = (case (ut_TxToUpdateCheckString tx, ut_CheckString tx) of
     (Some cs1, Some cs2) \<Rightarrow> Some (FStruct [fnum (ut_Fee tx), fbytes (ut_TxToUpdateHash tx), fcheck cs1,
        fslice (ut_TxToUpdateData tx), fbytes (ut_Issuer tx), fcheck cs2, fslice (ut_Data tx)])
   | _ \<Rightarrow> None)"

definition ConfigTx_content :: "ConfigTx \<Rightarrow> fval" where
  "ConfigTx_content tx = FStruct [fnum (ct_Header tx), fnum (ct_Id tx), fnum (ct_Payload tx), fnum (ct_Fee tx), fnum (ct_TxCnt tx)]"

definition StakeTx_content :: "StakeTx \<Rightarrow> fval" where
  "StakeTx_content tx = FStruct [fnum (st_Header tx), fnum (st_Fee tx), FBool (st_IsStaking tx), fbytes (st_Account tx),
     fbytes (st_CommitmentKey tx)]"

definition AggTx_content :: "AggTx \<Rightarrow> fval" where
  "AggTx_content tx = FStruct [fnum (gt_Amount tx), fnum (gt_Fee tx), FSeq (map fbytes (gt_From tx)), FSeq (map fbytes (gt_To tx)),
     fbytes (gt_MerkleRoot tx)]"

definition FundsTx_SHA3 :: "crypto_env \<Rightarrow> FundsTx \<Rightarrow> hash" where
  "FundsTx_SHA3 C tx = sha3 C (fmt_v (FundsTx_content tx))"

definition AccTx_SHA3 :: "crypto_env \<Rightarrow> AccTx \<Rightarrow> hash" where
  "AccTx_SHA3 C tx = sha3 C (fmt_v (AccTx_content tx))"

definition FundsTx_Hash :: "crypto_env \<Rightarrow> cham_map \<Rightarrow> FundsTx \<Rightarrow> hash option" where
  "FundsTx_Hash C cm tx = ChameleonHash (sha256 C) (cm (ft_From tx)) (ft_CheckString tx) (FundsTx_SHA3 C tx)"

definition AccTx_Hash :: "crypto_env \<Rightarrow> AccTx \<Rightarrow> hash option" where
  "AccTx_Hash C tx = ChameleonHash (sha256 C) (at_Parameters tx) (at_CheckString tx) (AccTx_SHA3 C tx)"

definition UpdateTx_SHA3 :: "crypto_env \<Rightarrow> UpdateTx \<Rightarrow> hash option" where
  "UpdateTx_SHA3 C tx = map_option (\<lambda>v. sha3 C (fmt_v v)) (UpdateTx_content tx)"

definition UpdateTx_Hash :: "crypto_env \<Rightarrow> cham_map \<Rightarrow> UpdateTx \<Rightarrow> hash option" where
  "UpdateTx_Hash C cm tx =
     Option.bind (UpdateTx_SHA3 C tx) (ChameleonHash (sha256 C) (cm (ut_Issuer tx)) (ut_CheckString tx))"

definition ConfigTx_Hash :: "crypto_env \<Rightarrow> ConfigTx \<Rightarrow> hash" where
  "ConfigTx_Hash C tx = SerializeHashContent C (ConfigTx_content tx)"

definition StakeTx_Hash :: "crypto_env \<Rightarrow> StakeTx \<Rightarrow> hash" where
  "StakeTx_Hash C tx = SerializeHashContent C (StakeTx_content tx)"

definition AggTx_Hash :: "crypto_env \<Rightarrow> AggTx \<Rightarrow> hash" where
  "AggTx_Hash C tx = SerializeHashContent C (AggTx_content tx)"

primrec tx_Hash :: "crypto_env \<Rightarrow> cham_map \<Rightarrow> Transaction \<Rightarrow> hash option" where
  "tx_Hash C cm (TAcc tx) = AccTx_Hash C tx"
| "tx_Hash C cm (TFunds tx) = FundsTx_Hash C cm tx"
| "tx_Hash C cm (TConfig tx) = Some (ConfigTx_Hash C tx)"
| "tx_Hash C cm (TStake tx) = Some (StakeTx_Hash C tx)"
| "tx_Hash C cm (TAgg tx) = Some (AggTx_Hash C tx)"
| "tx_Hash C cm (TUpdate tx) = UpdateTx_Hash C cm tx"

subsection \<open>The other methods of the interface\<close>

primrec tx_Size :: "Transaction \<Rightarrow> u64" where
  "tx_Size (TAcc tx) = 169"
| "tx_Size (TFunds tx) = 246"
| "tx_Size (TConfig tx) = 83"
| "tx_Size (TStake tx) = 362"
| "tx_Size (TAgg tx) = 85"
| "tx_Size (TUpdate tx) = 42"

primrec tx_Sender :: "Transaction \<Rightarrow> hash" where
  "tx_Sender (TAcc tx) = at_Issuer tx"
| "tx_Sender (TFunds tx) = ft_From tx"
| "tx_Sender (TConfig tx) = zero_hash"
| "tx_Sender (TStake tx) = zero_hash"
| "tx_Sender (TAgg tx) = zero_hash"
| "tx_Sender (TUpdate tx) = ut_Issuer tx"

primrec tx_Receiver :: "Transaction \<Rightarrow> hash" where
  "tx_Receiver (TAcc tx) = zero_hash"
| "tx_Receiver (TFunds tx) = ft_To tx"
| "tx_Receiver (TConfig tx) = zero_hash"
| "tx_Receiver (TStake tx) = zero_hash"
| "tx_Receiver (TAgg tx) = zero_hash"
| "tx_Receiver (TUpdate tx) = ut_Issuer tx"

primrec tx_GetData :: "Transaction \<Rightarrow> bytes option" where
  "tx_GetData (TAcc tx) = at_Data tx"
| "tx_GetData (TFunds tx) = ft_Data tx"
| "tx_GetData (TConfig tx) = ct_Data tx"
| "tx_GetData (TStake tx) = st_Data tx"
| "tx_GetData (TAgg tx) = gt_Data tx"
| "tx_GetData (TUpdate tx) = ut_Data tx"

primrec tx_SetData :: "bytes option \<Rightarrow> Transaction \<Rightarrow> Transaction" where
  "tx_SetData d (TAcc tx) = TAcc (tx\<lparr>at_Data := d\<rparr>)"
| "tx_SetData d (TFunds tx) = TFunds (tx\<lparr>ft_Data := d\<rparr>)"
| "tx_SetData d (TConfig tx) = TConfig (tx\<lparr>ct_Data := d\<rparr>)"
| "tx_SetData d (TStake tx) = TStake (tx\<lparr>st_Data := d\<rparr>)"
| "tx_SetData d (TAgg tx) = TAgg (tx\<lparr>gt_Data := d\<rparr>)"
| "tx_SetData d (TUpdate tx) = TUpdate (tx\<lparr>ut_Data := d\<rparr>)"

primrec tx_SetCheckString :: "ChameleonHashCheckString option \<Rightarrow> Transaction \<Rightarrow> Transaction" where
  "tx_SetCheckString cs (TAcc tx) = TAcc (tx\<lparr>at_CheckString := cs\<rparr>)"
| "tx_SetCheckString cs (TFunds tx) = TFunds (tx\<lparr>ft_CheckString := cs\<rparr>)"
| "tx_SetCheckString cs (TConfig tx) = TConfig (tx\<lparr>ct_CheckString := cs\<rparr>)"
| "tx_SetCheckString cs (TStake tx) = TStake (tx\<lparr>st_CheckString := cs\<rparr>)"
| "tx_SetCheckString cs (TAgg tx) = TAgg (tx\<lparr>gt_CheckString := cs\<rparr>)"
| "tx_SetCheckString cs (TUpdate tx) = TUpdate (tx\<lparr>ut_CheckString := cs\<rparr>)"

primrec tx_GetCheckString :: "Transaction \<Rightarrow> ChameleonHashCheckString option" where
  "tx_GetCheckString (TAcc tx) = at_CheckString tx"
| "tx_GetCheckString (TFunds tx) = ft_CheckString tx"
| "tx_GetCheckString (TConfig tx) = ct_CheckString tx"
| "tx_GetCheckString (TStake tx) = st_CheckString tx"
| "tx_GetCheckString (TAgg tx) = gt_CheckString tx"
| "tx_GetCheckString (TUpdate tx) = ut_CheckString tx"

end
