(* ===== verification/Encoding.thy ===== *)
theory Encoding
  imports Transactions
begin

text \<open>
  Encodings of transactions, accounts and blocks (\<^verbatim>\<open>Encode\<close> and \<^verbatim>\<open>Decode\<close> of the files of
  \<^verbatim>\<open>src/protocol\<close>), the block hashes and sizes of \<^verbatim>\<open>src/protocol/block.go\<close>, and the slice helpers of
  \<^verbatim>\<open>src/protocol/utils.go\<close>.
\<close>

datatype blob =
    GobAcc AccTx | GobFunds FundsTx | GobAgg AggTx | GobUpdate UpdateTx | GobBlock Block | GobAccount Account | Raw bytes

text \<open>A slice in a gob stream: an empty one is not sent and decoded as nil.\<close>

definition gob_slice :: "bytes option \<Rightarrow> bytes option" where
  "gob_slice b = (if b = Some [] then None else b)"

definition AccTx_Encode :: "AccTx \<Rightarrow> blob" where
  "AccTx_Encode tx = GobAcc (tx\<lparr>at_Contract := None, at_ContractVariables := [], at_Data := gob_slice (at_Data tx)\<rparr>)"

definition FundsTx_Encode :: "FundsTx \<Rightarrow> blob" where
  "FundsTx_Encode tx = GobFunds (tx\<lparr>ft_Data := gob_slice (ft_Data tx)\<rparr>)"

definition AggTx_Encode :: "AggTx \<Rightarrow> blob" where
  "AggTx_Encode tx = GobAgg (tx\<lparr>gt_CheckString := None, gt_Data := None\<rparr>)"

definition UpdateTx_Encode :: "UpdateTx \<Rightarrow> blob" where
  "UpdateTx_Encode tx = GobUpdate (tx\<lparr>ut_TxToUpdateData := gob_slice (ut_TxToUpdateData tx), ut_Data := gob_slice (ut_Data tx)\<rparr>)"

definition Account_Encode :: "Account \<Rightarrow> blob" where
  "Account_Encode acc = GobAccount (acc\<lparr>acc_Contract := gob_slice (acc_Contract acc)\<rparr>)"

text \<open>The state copy of a block is not serialised.\<close>

definition Block_Encode :: "Block \<Rightarrow> blob" where
  "Block_Encode b = GobBlock (b\<lparr>bl_StateCopy := Map.empty\<rparr>)"

definition zero_block :: Block where
  "zero_block = \<lparr>bl_Header = 0, bl_Hash = zero_hash, bl_PrevHash = zero_hash, bl_HashWithoutTx = zero_hash,
     bl_PrevHashWithoutTx = zero_hash, bl_NrElementsBF = 0, bl_BloomFilter = None, bl_Height = 0, bl_Beneficiary = zero_hash,
     bl_Aggregated = False, bl_NrUpdates = 0, bl_Nonce = replicate 8 0, bl_Timestamp = 0, bl_MerkleRoot = zero_hash,
     bl_NrAccTx = 0, bl_NrConfigTx = 0, bl_NrFundsTx = 0, bl_NrStakeTx = 0, bl_NrAggTx = 0, bl_NrUpdateTx = 0,
     bl_SlashedAddress = zero_hash, bl_CommitmentProof = replicate 256 0, bl_ConflictingBlockHash1 = zero_hash,
     bl_ConflictingBlockHash2 = zero_hash, bl_ConflictingBlockHashWithoutTx1 = zero_hash,
     bl_ConflictingBlockHashWithoutTx2 = zero_hash, bl_StateCopy = Map.empty, bl_AccTxData = [], bl_FundsTxData = [],
     bl_ConfigTxData = [], bl_StakeTxData = [], bl_AggTxData = [], bl_UpdateTxData = []\<rparr>"

definition Block_EncodeHeader :: "Block \<Rightarrow> blob" where
  "Block_EncodeHeader b = GobBlock (zero_block\<lparr>bl_Header := bl_Header b, bl_Hash := bl_Hash b, bl_PrevHash := bl_PrevHash b,
     bl_HashWithoutTx := bl_HashWithoutTx b, bl_PrevHashWithoutTx := bl_PrevHashWithoutTx b, bl_NrConfigTx := bl_NrConfigTx b,
     bl_NrElementsBF := bl_NrElementsBF b, bl_BloomFilter := bl_BloomFilter b, bl_Height := bl_Height b,
     bl_Beneficiary := bl_Beneficiary b, bl_Aggregated := bl_Aggregated b, bl_NrUpdates := bl_NrUpdates b\<rparr>)"

text \<open>Decoding a stream that \<^verbatim>\<open>Encode\<close> of the same type wrote; other streams are \<open>None\<close>.\<close>

fun AccTx_Decode :: "blob \<Rightarrow> AccTx option" where
  "AccTx_Decode (GobAcc tx) = Some tx" | "AccTx_Decode _ = None"

fun FundsTx_Decode :: "blob \<Rightarrow> FundsTx option" where
  "FundsTx_Decode (GobFunds tx) = Some tx" | "FundsTx_Decode _ = None"

fun AggTx_Decode :: "blob \<Rightarrow> AggTx option" where
  "AggTx_Decode (GobAgg tx) = Some tx" | "AggTx_Decode _ = None"

fun UpdateTx_Decode :: "blob \<Rightarrow> UpdateTx option" where
  "UpdateTx_Decode (GobUpdate tx) = Some tx" | "UpdateTx_Decode _ = None"

fun Account_Decode :: "blob \<Rightarrow> Account option" where
  "Account_Decode (GobAccount a) = Some a" | "Account_Decode _ = None"

fun Block_Decode :: "blob \<Rightarrow> Block option" where
  "Block_Decode (GobBlock b) = Some b" | "Block_Decode _ = None"

subsection \<open>The byte formats\<close>

definition CONFIGTX_SIZE :: nat where "CONFIGTX_SIZE = 83"
definition COMM_KEY_LENGTH :: nat where "COMM_KEY_LENGTH = 256"
definition STAKETX_SIZE :: nat where "STAKETX_SIZE = 106 + COMM_KEY_LENGTH"

definition be64 :: "u64 \<Rightarrow> bytes" where
  "be64 x = be_fixed 8 (unat x)"

definition get_be64 :: "bytes \<Rightarrow> u64" where
  "get_be64 bs = word_of_nat (be_nat bs)"

definition ConfigTx_Encode :: "ConfigTx \<Rightarrow> bytes" where
  "ConfigTx_Encode tx = [ct_Header tx, ct_Id tx] @ be64 (ct_Payload tx) @ be64 (ct_Fee tx) @ [ct_TxCnt tx] @ ct_Sig tx"

definition ConfigTx_Decode :: "bytes \<Rightarrow> ConfigTx option" where
  "ConfigTx_Decode bs = (if length bs \<noteq> CONFIGTX_SIZE then None else
     Some \<lparr>ct_Header = bs ! 0, ct_Id = bs ! 1, ct_Payload = get_be64 (take 8 (drop 2 bs)),
           ct_Fee = get_be64 (take 8 (drop 10 bs)), ct_TxCnt = bs ! 18, ct_Sig = take 64 (drop 19 bs),
           ct_CheckString = None, ct_Data = None\<rparr>)"

definition StakeTx_Encode :: "StakeTx \<Rightarrow> bytes" where
  "StakeTx_Encode tx = [st_Header tx] @ be64 (st_Fee tx) @ [if st_IsStaking tx then 1 else 0] @ st_Account tx @
     st_Sig tx @ st_CommitmentKey tx"

definition StakeTx_Decode :: "bytes \<Rightarrow> StakeTx option" where
  "StakeTx_Decode bs = (if length bs \<noteq> STAKETX_SIZE then None else
     Some \<lparr>st_Header = bs ! 0, st_Fee = get_be64 (take 8 (drop 1 bs)), st_IsStaking = (bs ! 9 \<noteq> 0),
           st_Account = take 32 (drop 10 bs), st_Sig = take 64 (drop 42 bs),
           st_CommitmentKey = take COMM_KEY_LENGTH (drop 106 bs), st_CheckString = None, st_Data = None\<rparr>)"

primrec tx_Encode :: "Transaction \<Rightarrow> blob" where
  "tx_Encode (TAcc tx) = AccTx_Encode tx"
| "tx_Encode (TFunds tx) = FundsTx_Encode tx"
| "tx_Encode (TConfig tx) = Raw (ConfigTx_Encode tx)"
| "tx_Encode (TStake tx) = Raw (StakeTx_Encode tx)"
| "tx_Encode (TAgg tx) = AggTx_Encode tx"
| "tx_Encode (TUpdate tx) = UpdateTx_Encode tx"

text \<open>The lengths of the fixed arrays of a transaction.\<close>

definition ConfigTx_wf :: "ConfigTx \<Rightarrow> bool" where
  "ConfigTx_wf tx \<longleftrightarrow> length (ct_Sig tx) = 64"

definition StakeTx_wf :: "StakeTx \<Rightarrow> bool" where
  "StakeTx_wf tx \<longleftrightarrow> length (st_Account tx) = 32 \<and> length (st_Sig tx) = 64 \<and> length (st_CommitmentKey tx) = COMM_KEY_LENGTH"

subsection \<open>Blocks\<close>

definition block_hash_fields :: "Block \<Rightarrow> fval list" where
  "block_hash_fields b = [fbytes (bl_Beneficiary b), fbytes (bl_CommitmentProof b), fbytes (bl_SlashedAddress b),
     fbytes (bl_ConflictingBlockHash1 b), fbytes (bl_ConflictingBlockHash2 b),
     fbytes (bl_ConflictingBlockHashWithoutTx1 b), fbytes (bl_ConflictingBlockHashWithoutTx2 b)]"

definition HashBlock :: "crypto_env \<Rightarrow> Block \<Rightarrow> hash" where
  "HashBlock C b = SerializeHashContent C (FStruct ([fbytes (bl_PrevHash b), fbytes (bl_PrevHashWithoutTx b),
     fint (bl_Timestamp b), fbytes (bl_Nonce b), fbytes (bl_MerkleRoot b)] @ block_hash_fields b @ [FBool False]))"

definition HashBlockWithoutMerkleRoot :: "crypto_env \<Rightarrow> Block \<Rightarrow> hash" where
  "HashBlockWithoutMerkleRoot C b = SerializeHashContent C (FStruct ([fbytes (bl_PrevHash b), fbytes (bl_PrevHashWithoutTx b),
     fint (bl_Timestamp b), fbytes zero_hash] @ block_hash_fields b @ [FBool True]))"

definition GetTxDataSize :: "Block \<Rightarrow> nat" where
  "GetTxDataSize b = unat (bl_NrAccTx b) * 32 + unat (bl_NrFundsTx b) * 32 + unat (bl_NrConfigTx b) * 32 +
     unat (bl_NrStakeTx b) * 32 + unat (bl_NrAggTx b) * 32 + unat (bl_NrUpdateTx b) * 32"

definition GetBloomFilterSize :: "Block \<Rightarrow> nat" where
  "GetBloomFilterSize b = (case bl_BloomFilter b of None \<Rightarrow> 0 | Some bf \<Rightarrow> length bf)"

definition GetSize :: "Block \<Rightarrow> u64" where
  "GetSize b = word_of_nat (393 + 256 + 1 + GetTxDataSize b + GetBloomFilterSize b)"

definition GetHeaderSize :: "Block \<Rightarrow> u64" where
  "GetHeaderSize b = word_of_nat (1 + 32 + 32 + 32 + 32 + 1 + 2 + 4 + 32 + 1 + GetBloomFilterSize b)"

definition GetBodySize :: "Block \<Rightarrow> u64" where
  "GetBodySize b = word_of_nat (8 + 8 + 32 + 2 + 2 + 2 + 2 + 2 + 32 + 256 + 32 + 32 + 32 + 32 + GetTxDataSize b + GetBloomFilterSize b)"

definition NewBlock :: "hash \<Rightarrow> u32 \<Rightarrow> Block" where
  "NewBlock prevHash height = zero_block\<lparr>bl_PrevHash := prevHash, bl_Height := height\<rparr>"

text \<open>\<^verbatim>\<open>protocol.Encode\<close> and \<^verbatim>\<open>protocol.Decode\<close>: fixed-size items in one byte slice.\<close>

definition fit :: "nat \<Rightarrow> bytes \<Rightarrow> bytes" where
  "fit n bs = take n bs @ replicate (n - length bs) 0"

definition slices_Encode :: "bytes list \<Rightarrow> nat \<Rightarrow> bytes" where
  "slices_Encode data sliceSize = concat (map (fit sliceSize) data)"

text \<open>A slice size of 0 makes the loop of \<^verbatim>\<open>Decode\<close> endless: \<open>None\<close>.\<close>

function slices_Decode_loop :: "bytes \<Rightarrow> nat \<Rightarrow> bytes list" where
  "slices_Decode_loop bs n = (if n = 0 \<or> length bs < n then [] else take n bs # slices_Decode_loop (drop n bs) n)"
  by pat_completeness auto
termination by (relation "measure (\<lambda>(bs, n). length bs)") auto

declare slices_Decode_loop.simps [simp del]

definition slices_Decode :: "bytes \<Rightarrow> nat \<Rightarrow> bytes list option" where
  "slices_Decode bs sliceSize = (if sliceSize = 0 then None else Some (slices_Decode_loop bs sliceSize))"

subsection \<open>Round trips\<close>

lemma le_fixed_le_nat: "le_fixed (length bs) (le_nat bs) = bs"
proof (induction bs)
  case (Cons b bs)
  have "(unat b + 256 * le_nat bs) div 256 = le_nat bs" by simp
  moreover have "(word_of_nat (unat b + 256 * le_nat bs) :: byte) = b"
    by (simp add: word_unat_eq_iff del: of_nat_add)
  ultimately show ?case using Cons by (simp add: le_fixed_Suc del: of_nat_add)
qed simp

lemma be_fixed_be_nat: "length bs = n \<Longrightarrow> be_fixed n (be_nat bs) = bs"
  using le_fixed_le_nat [of "rev bs"] by (auto simp: be_fixed_def be_nat_def)

lemma length_be64 [simp]: "length (be64 x) = 8"
  by (simp add: be64_def)

lemma get_be64 [simp]: "get_be64 (be64 x) = x"
proof -
  have "unat x < 256 ^ 8" using unsigned_less [of x] by simp
  then show ?thesis by (simp add: get_be64_def be64_def be_nat_fixed)
qed

lemma be64_get [simp]: "length bs = 8 \<Longrightarrow> be64 (get_be64 bs) = bs"
proof -
  assume l: "length bs = 8"
  then have "be_nat bs < 2 ^ 64" using be_nat_bound [of bs] by simp
  then have "unat (get_be64 bs) = be_nat bs" by (simp add: get_be64_def unat_of_nat take_bit_eq_mod)
  with l show ?thesis by (simp add: be64_def be_fixed_be_nat)
qed

lemma ConfigTx_Decode_Encode:
  assumes "ConfigTx_wf tx"
  shows "ConfigTx_Decode (ConfigTx_Encode tx) = Some (tx\<lparr>ct_CheckString := None, ct_Data := None\<rparr>)"
proof -
  have l: "length (ConfigTx_Encode tx) = 83"
    using assms by (simp add: ConfigTx_Encode_def ConfigTx_wf_def)
  have "take 8 (drop 2 (ConfigTx_Encode tx)) = be64 (ct_Payload tx)"
    "take 8 (drop 10 (ConfigTx_Encode tx)) = be64 (ct_Fee tx)"
    "drop 19 (ConfigTx_Encode tx) = ct_Sig tx"
    "ConfigTx_Encode tx ! 0 = ct_Header tx" "ConfigTx_Encode tx ! 1 = ct_Id tx"
    "ConfigTx_Encode tx ! 18 = ct_TxCnt tx"
    by (simp_all add: ConfigTx_Encode_def nth_append numeral_2_eq_2)
  with l assms show ?thesis
    by (simp add: ConfigTx_Decode_def CONFIGTX_SIZE_def ConfigTx_wf_def)
qed

lemma split_at:
  "length bs = a + b \<Longrightarrow> \<exists>x y. bs = x @ y \<and> length x = a \<and> length y = b"
  by (rule exI [of _ "take a bs"], rule exI [of _ "drop a bs"]) simp

lemma ConfigTx_Encode_Decode:
  assumes "ConfigTx_Decode bs = Some tx"
  shows "ConfigTx_Encode tx = bs \<and> ConfigTx_wf tx"
proof -
  from assms have l: "length bs = 83" by (auto simp: ConfigTx_Decode_def CONFIGTX_SIZE_def split: if_splits)
  then obtain h i rest where 1: "bs = h # i # rest" "length rest = 81"
    by (auto simp: numeral_eq_Suc length_Suc_conv)
  obtain p r1 where 2: "rest = p @ r1" "length p = 8" "length r1 = 73" using split_at [of rest 8 73] 1 by auto
  obtain f r2 where 3: "r1 = f @ r2" "length f = 8" "length r2 = 65" using split_at [of r1 8 65] 2 by auto
  obtain c sg where 4: "r2 = c # sg" "length sg = 64" using 3 by (cases r2) auto
  from assms l 1 2 3 4 show ?thesis
    by (auto simp: ConfigTx_Decode_def CONFIGTX_SIZE_def ConfigTx_Encode_def ConfigTx_wf_def numeral_2_eq_2 nth_append)
qed

lemma StakeTx_Decode_Encode:
  assumes "StakeTx_wf tx"
  shows "StakeTx_Decode (StakeTx_Encode tx) = Some (tx\<lparr>st_CheckString := None, st_Data := None\<rparr>)"
proof -
  let ?e = "StakeTx_Encode tx"
  have l: "length ?e = 362"
    using assms by (simp add: StakeTx_Encode_def StakeTx_wf_def COMM_KEY_LENGTH_def)
  have "take 8 (drop 1 ?e) = be64 (st_Fee tx)" "?e ! 0 = st_Header tx" "(?e ! 9 \<noteq> 0) = st_IsStaking tx"
    "take 32 (drop 10 ?e) = st_Account tx" "take 64 (drop 42 ?e) = st_Sig tx" "drop 106 ?e = st_CommitmentKey tx"
    using assms by (simp_all add: StakeTx_Encode_def StakeTx_wf_def nth_append)
  with l assms show ?thesis
    by (simp add: StakeTx_Decode_def STAKETX_SIZE_def StakeTx_wf_def COMM_KEY_LENGTH_def)
qed

lemma slices_Decode_Encode:
  assumes "0 < n" "\<forall>d \<in> set data. length d = n"
  shows "slices_Decode (slices_Encode data n) n = Some data"
proof -
  have "slices_Decode_loop (concat (map (fit n) data)) n = data"
    using assms(2)
  proof (induction data)
    case Nil
    with assms(1) show ?case by (subst slices_Decode_loop.simps) simp
  next
    case (Cons d data)
    then have "fit n d = d" by (simp add: fit_def)
    with Cons assms(1) show ?case by (subst slices_Decode_loop.simps) simp
  qed
  with assms(1) show ?thesis by (simp add: slices_Decode_def slices_Encode_def)
qed

lemma StakeTx_Encode_Decode:
  assumes "StakeTx_Decode bs = Some tx"
  shows "StakeTx_Encode tx = bs[9 := (if bs ! 9 = 0 then 0 else 1)]" "StakeTx_wf tx"
proof -
  from assms have l: "length bs = 362"
    by (auto simp: StakeTx_Decode_def STAKETX_SIZE_def COMM_KEY_LENGTH_def split: if_splits)
  then obtain h r1 where 1: "bs = h # r1" "length r1 = 361" by (cases bs) auto
  obtain f r2 where 2: "r1 = f @ r2" "length f = 8" "length r2 = 353" using split_at [of r1 8 353] 1 by auto
  obtain s r3 where 3: "r2 = s # r3" "length r3 = 352" using 2 by (cases r2) auto
  obtain a r4 where 4: "r3 = a @ r4" "length a = 32" "length r4 = 320" using split_at [of r3 32 320] 3 by auto
  obtain g k where 5: "r4 = g @ k" "length g = 64" "length k = 256" using split_at [of r4 64 256] 4 by auto
  from assms l 1 2 3 4 5
  show "StakeTx_Encode tx = bs[9 := (if bs ! 9 = 0 then 0 else 1)]" "StakeTx_wf tx"
    by (auto simp: StakeTx_Decode_def STAKETX_SIZE_def COMM_KEY_LENGTH_def StakeTx_Encode_def StakeTx_wf_def nth_append
        list_update_append)
qed

text \<open>
  The 83-byte format of a configuration transaction. Decoding what was encoded gives the transaction
  back, without the check string and the data, which the format does not carry; and every byte string that
  decodes is the encoding of what it decodes to, so there is one encoding per transaction.
\<close>

theorem ConfigTx_codec:
  "(\<forall>tx. ConfigTx_wf tx \<longrightarrow>
      ConfigTx_Decode (ConfigTx_Encode tx) = Some (tx\<lparr>ct_CheckString := None, ct_Data := None\<rparr>)) \<and>
   (\<forall>bs tx. ConfigTx_Decode bs = Some tx \<longrightarrow> ConfigTx_wf tx \<and> ConfigTx_Encode tx = bs)"
  using ConfigTx_Decode_Encode ConfigTx_Encode_Decode by blast

definition demo_ConfigTx :: ConfigTx where
  "demo_ConfigTx = \<lparr>ct_Header = 0, ct_Id = 6, ct_Payload = 2000, ct_Fee = 3, ct_TxCnt = 1, ct_Sig = replicate 64 7,
     ct_CheckString = None, ct_Data = None\<rparr>"

theorem ConfigTx_codec_witness:
  "ConfigTx_wf demo_ConfigTx \<and> ConfigTx_Decode (ConfigTx_Encode demo_ConfigTx) = Some demo_ConfigTx"
  using ConfigTx_codec by (simp add: demo_ConfigTx_def ConfigTx_wf_def)

text \<open>
  The 362-byte format of a stake transaction. Decoding what was encoded gives the transaction back,
  without check string and data. The other way round the format is not canonical: any non-zero staking
  byte decodes to true and is encoded again as 1.
\<close>

theorem StakeTx_codec:
  "(\<forall>tx. StakeTx_wf tx \<longrightarrow>
      StakeTx_Decode (StakeTx_Encode tx) = Some (tx\<lparr>st_CheckString := None, st_Data := None\<rparr>)) \<and>
   (\<forall>bs tx. StakeTx_Decode bs = Some tx \<longrightarrow>
      StakeTx_wf tx \<and> StakeTx_Encode tx = bs[9 := (if bs ! 9 = 0 then 0 else 1)])"
  using StakeTx_Decode_Encode StakeTx_Encode_Decode by blast

definition demo_StakeTx :: StakeTx where
  "demo_StakeTx = \<lparr>st_Header = 0, st_Fee = 3, st_IsStaking = True, st_Account = replicate 32 1, st_Sig = replicate 64 7,
     st_CommitmentKey = replicate 256 9, st_CheckString = None, st_Data = None\<rparr>"

theorem StakeTx_codec_witness:
  "StakeTx_wf demo_StakeTx \<and> StakeTx_Decode (StakeTx_Encode demo_StakeTx) = Some demo_StakeTx"
  using StakeTx_codec by (simp add: demo_StakeTx_def StakeTx_wf_def COMM_KEY_LENGTH_def)

text \<open>
  \<^verbatim>\<open>protocol.Decode\<close> recovers the items that \<^verbatim>\<open>protocol.Encode\<close> packed, for items of the slice size.
\<close>

theorem slices_codec:
  assumes "0 < n" "\<forall>d \<in> set data. length d = n"
  shows "slices_Decode (slices_Encode data n) n = Some data"
  using assms by (rule slices_Decode_Encode)

theorem slices_codec_witness:
  "slices_Decode (slices_Encode [[1, 2], [3, 4], [5, 6]] 2) 2 = Some [[1, 2], [3, 4], [5, 6 :: byte]]"
  by (rule slices_codec) simp_all

lemma seq_bytes_inject: "FSeq (map fbytes xs) = FSeq (map fbytes ys) \<longleftrightarrow> xs = ys"
  by (auto simp: inj_map_eq_map inj_def)


end
