(* ===== verification/Merkle.thy ===== *)
theory Merkle
  imports Encoding
begin

text \<open>
  The Merkle trees of \<^verbatim>\<open>src/protocol/merkletree.go\<close>. A node is a tree value; the parent pointers, which
  only \<^verbatim>\<open>GetIntermediate\<close> reads, are left out. \<open>None\<close> stands for a construction that does not return:
  \<^verbatim>\<open>buildIntermediate\<close> on an empty list of nodes calls itself for ever, on a single node it indexes out of
  range. The power-of-two test is written on integers (the code compares a floating-point logarithm with its
  integral part; \<^verbatim>\<open>Log2(0)\<close> is minus infinity and passes).
\<close>

datatype Node = LeafNode hash | InnerNode Node Node hash

primrec node_Hash :: "Node \<Rightarrow> hash" where
  "node_Hash (LeafNode h) = h"
| "node_Hash (InnerNode l r h) = h"

record MerkleTree =
  mt_Root :: Node
  mt_merkleRoot :: hash
  mt_Leafs :: "Node list"

primrec verifyNode :: "crypto_env \<Rightarrow> Node \<Rightarrow> hash" where
  "verifyNode C (LeafNode h) = h"
| "verifyNode C (InnerNode l r h) = sha3 C (verifyNode C l @ verifyNode C r)"

fun checkPower2 :: "nat \<Rightarrow> bool" where
  "checkPower2 i = (if i \<le> 1 then True else even i \<and> checkPower2 (i div 2))"

declare checkPower2.simps [simp del]

lemma checkPower2_0: "checkPower2 0"
  by (simp add: checkPower2.simps)

function dropToPower2 :: "nat \<Rightarrow> nat" where
  "dropToPower2 l = (if checkPower2 l then l else dropToPower2 (l - 1))"
  by pat_completeness auto
termination
proof (relation "measure id")
  fix l assume "\<not> checkPower2 l"
  then have "l \<noteq> 0" using checkPower2_0 by (cases "l = 0") auto
  then show "(l - 1, l) \<in> measure id" by simp
qed simp

declare dropToPower2.simps [simp del]

definition parent :: "crypto_env \<Rightarrow> Node \<Rightarrow> Node \<Rightarrow> Node" where
  "parent C l r = InnerNode l r (sha3 C (node_Hash l @ node_Hash r))"

text \<open>The pairs of the first loop of \<^verbatim>\<open>buildIntermediate\<close>.\<close>

fun pair_up :: "crypto_env \<Rightarrow> Node list \<Rightarrow> Node list" where
  "pair_up C (l # r # ns) = parent C l r # pair_up C ns"
| "pair_up C ns = []"

lemma length_pair_up [simp]: "length (pair_up C ns) = length ns div 2"
  by (induction C ns rule: pair_up.induct) auto

lemma checkPower2_even: "checkPower2 l \<Longrightarrow> 2 \<le> l \<Longrightarrow> even l"
  by (subst (asm) checkPower2.simps) auto

lemma dropToPower2_le: "dropToPower2 l \<le> l"
  by (induction l rule: dropToPower2.induct) (subst dropToPower2.simps, auto)

lemma checkPower2_2 [simp]: "checkPower2 2"
  by (simp add: checkPower2.simps)

lemma dropToPower2_ge: "2 \<le> l \<Longrightarrow> 2 \<le> dropToPower2 l"
proof (induction l rule: dropToPower2.induct)
  case (1 l)
  then show ?case by (cases "l = 2") (subst dropToPower2.simps, auto)+
qed

lemma dropToPower2_power: "checkPower2 (dropToPower2 l)"
proof (induction l rule: dropToPower2.induct)
  case (1 l)
  then show ?case by (subst dropToPower2.simps) auto
qed

lemma level_length:
  assumes "2 < length (nl :: Node list)"
  defines "l \<equiv> dropToPower2 (length nl)"
  shows "2 \<le> l" "l \<le> length nl" "even l" "length (pair_up C (take l nl) @ drop l nl) < length nl"
    "2 \<le> length (pair_up C (take l nl) @ drop l nl)"
proof -
  show l2: "2 \<le> l" and ll: "l \<le> length nl" using assms dropToPower2_ge dropToPower2_le by auto
  then show ev: "even l" using checkPower2_even dropToPower2_power by (simp add: l_def)
  then obtain m where m: "l = 2 * m" by blast
  with l2 ll show "length (pair_up C (take l nl) @ drop l nl) < length nl" by auto
  have "2 \<le> m \<or> m = 1" using l2 m by auto
  with ll m assms(1) show "2 \<le> length (pair_up C (take l nl) @ drop l nl)" by auto
qed

function buildIntermediate :: "crypto_env \<Rightarrow> Node list \<Rightarrow> Node option" where
  "buildIntermediate C nl =
     (if length nl < 2 then None
      else if length nl = 2 then Some (parent C (nl ! 0) (nl ! 1))
      else let l = dropToPower2 (length nl) in buildIntermediate C (pair_up C (take l nl) @ drop l nl))"
  by pat_completeness auto
termination
proof (relation "measure (\<lambda>(C, nl). length nl)")
  fix C :: crypto_env and nl :: "Node list" and l
  assume "\<not> length nl < 2" "length nl \<noteq> 2" "l = dropToPower2 (length nl)"
  then show "((C, pair_up C (take l nl) @ drop l nl), C, nl) \<in> measure (\<lambda>(C, nl). length nl)"
    using level_length(4) [of nl C] by simp
qed simp

declare buildIntermediate.simps [simp del]

definition leafs_of :: "hash list \<Rightarrow> Node list" where
  "leafs_of txSlices = map LeafNode (filter (\<lambda>tx. tx \<noteq> zero_hash) txSlices)"

definition pad_leafs :: "Node list \<Rightarrow> Node list" where
  "pad_leafs leafs = (if length leafs mod 2 = 1 then leafs @ [last leafs] else leafs)"

definition buildWithContent :: "crypto_env \<Rightarrow> hash list \<Rightarrow> (string + Node \<times> Node list) option" where
  "buildWithContent C txSlices =
     (if length txSlices = 0 then Some (Inl ''Error: cannot construct tree with no content.'')
      else let leafs = pad_leafs (leafs_of txSlices)
           in map_option (\<lambda>root. Inr (root, leafs)) (buildIntermediate C leafs))"

definition newTree :: "crypto_env \<Rightarrow> hash list \<Rightarrow> (string + MerkleTree) option" where
  "newTree C txSlices = map_option (map_sum id (\<lambda>(root, leafs).
       \<lparr>mt_Root = root, mt_merkleRoot = node_Hash root, mt_Leafs = leafs\<rparr>)) (buildWithContent C txSlices)"

text \<open>The result \<open>Some None\<close> is a nil tree; the callers drop the error of \<^verbatim>\<open>newTree\<close>.\<close>

definition tree_or_nil :: "string + MerkleTree \<Rightarrow> MerkleTree option" where
  "tree_or_nil r = (case r of Inl _ \<Rightarrow> None | Inr t \<Rightarrow> Some t)"

definition BuildAggTxMerkleTree :: "crypto_env \<Rightarrow> hash list \<Rightarrow> MerkleTree option option" where
  "BuildAggTxMerkleTree C txHashes = (if txHashes = [] then Some None else map_option tree_or_nil (newTree C txHashes))"

definition block_txHashes :: "Block \<Rightarrow> hash list" where
  "block_txHashes b = bl_FundsTxData b @ bl_AccTxData b @ bl_ConfigTxData b @ bl_StakeTxData b @ bl_AggTxData b @ bl_UpdateTxData b"

definition BuildMerkleTree :: "crypto_env \<Rightarrow> Block \<Rightarrow> MerkleTree option option" where
  "BuildMerkleTree C b = (if block_txHashes b = [] then Some None else map_option tree_or_nil (newTree C (block_txHashes b)))"

definition MerkleRoot :: "MerkleTree option \<Rightarrow> hash" where
  "MerkleRoot m = (case m of None \<Rightarrow> zero_hash | Some t \<Rightarrow> mt_merkleRoot t)"

definition VerifyTree :: "crypto_env \<Rightarrow> MerkleTree \<Rightarrow> bool" where
  "VerifyTree C m \<longleftrightarrow> mt_merkleRoot m = verifyNode C (mt_Root m)"

fun find_leaf :: "Node list \<Rightarrow> hash \<Rightarrow> Node option" where
  "find_leaf [] h = None"
| "find_leaf (n # ns) h = (if h = node_Hash n then Some n else find_leaf ns h)"

definition GetLeaf :: "MerkleTree \<Rightarrow> hash \<Rightarrow> Node option" where
  "GetLeaf m leafHash = find_leaf (mt_Leafs m) leafHash"

definition ConstrAggTx :: "crypto_env \<Rightarrow> u64 \<Rightarrow> u64 \<Rightarrow> hash list \<Rightarrow> hash list \<Rightarrow> hash list \<Rightarrow> AggTx option" where
  "ConstrAggTx C amount fee from to transactions =
     map_option (\<lambda>m. \<lparr>gt_Amount = amount, gt_Fee = fee, gt_From = from, gt_To = to, gt_AggregatedTxSlice = transactions,
        gt_Aggregated = False, gt_Block = zero_hash, gt_MerkleRoot = MerkleRoot m, gt_CheckString = None, gt_Data = None\<rparr>)
       (BuildAggTxMerkleTree C transactions)"

subsection \<open>Construction\<close>

lemma buildIntermediate_2: "buildIntermediate C [a, b] = Some (parent C a b)"
  by (simp add: buildIntermediate.simps)

lemma buildIntermediate_step:
  assumes "2 < length nl"
  shows "buildIntermediate C nl =
    buildIntermediate C (pair_up C (take (dropToPower2 (length nl)) nl) @ drop (dropToPower2 (length nl)) nl)"
  using assms by (subst buildIntermediate.simps) (simp add: Let_def)

text \<open>Induction over the levels of a tree.\<close>

lemma level_induct [consumes 1, case_names two level]:
  assumes "2 \<le> length (nl :: Node list)"
    and two: "\<And>a b. P [a, b]"
    and level: "\<And>nl. 2 < length nl \<Longrightarrow>
      P (pair_up C (take (dropToPower2 (length nl)) nl) @ drop (dropToPower2 (length nl)) nl) \<Longrightarrow> P nl"
  shows "P nl"
  using assms(1)
proof (induction "length nl" arbitrary: nl rule: less_induct)
  case less
  show ?case
  proof (cases "length nl = 2")
    case True
    then show ?thesis using two by (auto simp: numeral_2_eq_2 length_Suc_conv)
  next
    case False
    with less.prems have "2 < length nl" by simp
    with less.hyps level_length(4,5) [OF this] level show ?thesis by blast
  qed
qed

lemma buildIntermediate_returns: "2 \<le> length nl \<Longrightarrow> \<exists>n. buildIntermediate C nl = Some n"
  by (induction nl rule: level_induct [where C = C]) (auto simp: buildIntermediate_2 buildIntermediate_step)

definition consistent :: "crypto_env \<Rightarrow> Node \<Rightarrow> bool" where
  "consistent C n \<longleftrightarrow> verifyNode C n = node_Hash n"

lemma consistent_leaf [simp]: "consistent C (LeafNode h)"
  by (simp add: consistent_def)

lemma consistent_parent: "consistent C a \<Longrightarrow> consistent C b \<Longrightarrow> consistent C (parent C a b)"
  by (simp add: consistent_def parent_def)

lemma consistent_pair_up: "\<forall>n \<in> set ns. consistent C n \<Longrightarrow> \<forall>n \<in> set (pair_up C ns). consistent C n"
  by (induction C ns rule: pair_up.induct) (auto intro: consistent_parent)

lemma buildIntermediate_consistent:
  "2 \<le> length nl \<Longrightarrow> \<forall>n \<in> set nl. consistent C n \<Longrightarrow> buildIntermediate C nl = Some r \<Longrightarrow> consistent C r"
proof (induction nl rule: level_induct [where C = C])
  case (two a b)
  then show ?case by (auto simp: buildIntermediate_2 intro: consistent_parent)
next
  case (level nl)
  let ?l = "dropToPower2 (length nl)"
  have "\<forall>n \<in> set (pair_up C (take ?l nl) @ drop ?l nl). consistent C n"
    using level.prems(1) consistent_pair_up [of "take ?l nl" C] by (auto dest: in_set_takeD in_set_dropD)
  with level show ?case by (simp add: buildIntermediate_step)
qed

subsection \<open>Binding\<close>

text \<open>The byte strings that were hashed to build a tree.\<close>

primrec preimages :: "Node \<Rightarrow> bytes set" where
  "preimages (LeafNode h) = {}"
| "preimages (InnerNode l r h) = insert (node_Hash l @ node_Hash r) (preimages l \<union> preimages r)"

definition level_preimages :: "Node list \<Rightarrow> bytes set" where
  "level_preimages ns = (\<Union>n \<in> set ns. preimages n)"

lemma level_preimages_append: "level_preimages (xs @ ys) = level_preimages xs \<union> level_preimages ys"
  by (simp add: level_preimages_def)

lemma level_preimages_pair_up: "even (length ns) \<Longrightarrow> level_preimages ns \<subseteq> level_preimages (pair_up C ns)"
  by (induction C ns rule: pair_up.induct) (auto simp: level_preimages_def parent_def)

lemma level_preimages_next:
  assumes "2 < length nl"
  shows "level_preimages nl \<subseteq>
    level_preimages (pair_up C (take (dropToPower2 (length nl)) nl) @ drop (dropToPower2 (length nl)) nl)"
proof -
  let ?l = "dropToPower2 (length nl)"
  have "even (length (take ?l nl))" using level_length(2,3) [OF assms] by simp
  from level_preimages_pair_up [OF this, of C] show ?thesis
    using level_preimages_append [of "take ?l nl" "drop ?l nl"] by (auto simp: level_preimages_append)
qed

lemma level_preimages_root:
  "2 \<le> length nl \<Longrightarrow> buildIntermediate C nl = Some r \<Longrightarrow> level_preimages nl \<subseteq> preimages r"
proof (induction nl rule: level_induct [where C = C])
  case (two a b)
  then show ?case by (auto simp: buildIntermediate_2 parent_def level_preimages_def)
next
  case (level nl)
  then show ?case using level_preimages_next [OF level.hyps, of C] by (simp add: buildIntermediate_step)
qed

definition hash_len :: "Node \<Rightarrow> bool" where
  "hash_len n \<longleftrightarrow> length (node_Hash n) = 32"

lemma hash_len_pair_up: "\<forall>x. length (sha3 C x) = 32 \<Longrightarrow> \<forall>n \<in> set (pair_up C ns). hash_len n"
  by (induction C ns rule: pair_up.induct) (auto simp: hash_len_def parent_def)

lemma pair_up_binding:
  assumes "even (length ns)" "length ms = length ns" "\<forall>n \<in> set ns \<union> set ms. hash_len n"
    and "inj_on (sha3 C) (level_preimages (pair_up C ns) \<union> level_preimages (pair_up C ms))"
    and "map node_Hash (pair_up C ns) = map node_Hash (pair_up C ms)"
  shows "map node_Hash ns = map node_Hash ms"
  using assms
proof (induction C ns arbitrary: ms rule: pair_up.induct)
  case (1 C l r ns)
  then obtain l' r' ms' where ms: "ms = l' # r' # ms'" by (auto simp: length_Suc_conv Suc_length_conv)
  let ?x = "node_Hash l @ node_Hash r" and ?y = "node_Hash l' @ node_Hash r'"
  have "sha3 C ?x = sha3 C ?y" using 1 ms by (simp add: parent_def)
  moreover have "?x \<in> level_preimages (pair_up C (l # r # ns))" "?y \<in> level_preimages (pair_up C ms)"
    using ms by (simp_all add: level_preimages_def parent_def)
  ultimately have "?x = ?y" using 1(5) by (meson UnCI inj_onD)
  then have "node_Hash l = node_Hash l' \<and> node_Hash r = node_Hash r'" using 1(4) ms by (simp add: hash_len_def)
  moreover have "inj_on (sha3 C) (level_preimages (pair_up C ns) \<union> level_preimages (pair_up C ms'))"
    using 1(5) ms by (elim inj_on_subset) (auto simp: level_preimages_def)
  then have "map node_Hash ns = map node_Hash ms'" using 1 ms by (intro "1.IH") auto
  ultimately show ?case using ms by simp
qed auto

lemma build_binding:
  assumes "2 \<le> length nl" "length ml = length nl" "\<forall>n \<in> set nl \<union> set ml. hash_len n" "\<forall>x. length (sha3 C x) = 32"
    and "buildIntermediate C nl = Some n" "buildIntermediate C ml = Some m" "node_Hash n = node_Hash m"
    and "inj_on (sha3 C) (preimages n \<union> preimages m)"
  shows "map node_Hash nl = map node_Hash ml"
  using assms
proof (induction nl arbitrary: ml rule: level_induct [where C = C])
  case (two a b)
  then obtain c d where ml: "ml = [c, d]" by (auto simp: numeral_2_eq_2 length_Suc_conv)
  with two have nm: "n = parent C a b" "m = parent C c d" by (simp_all add: buildIntermediate_2)
  then have "node_Hash a @ node_Hash b \<in> preimages n \<union> preimages m" "node_Hash c @ node_Hash d \<in> preimages n \<union> preimages m"
    "sha3 C (node_Hash a @ node_Hash b) = sha3 C (node_Hash c @ node_Hash d)"
    using two by (simp_all add: parent_def)
  then have "node_Hash a @ node_Hash b = node_Hash c @ node_Hash d"
    using two.prems(7) by (meson inj_onD)
  with two ml show ?case by (simp add: hash_len_def)
next
  case (level nl)
  let ?l = "dropToPower2 (length nl)"
  let ?nl = "pair_up C (take ?l nl) @ drop ?l nl" and ?ml = "pair_up C (take ?l ml) @ drop ?l ml"
  have l: "?l \<le> length nl" "even ?l" using level_length [OF level.hyps] by auto
  have ml: "2 < length ml" "length ml = length nl" using level by auto
  have bn: "buildIntermediate C ?nl = Some n" and bm: "buildIntermediate C ?ml = Some m"
    using level ml by (simp_all add: buildIntermediate_step)
  have eq: "map node_Hash ?nl = map node_Hash ?ml"
  proof (rule level.IH [OF _ _ level.prems(3) bn bm level.prems(6,7)])
    show "length ?ml = length ?nl" using ml l by simp
    show "\<forall>n \<in> set ?nl \<union> set ?ml. hash_len n"
      using level.prems(2) hash_len_pair_up [OF level.prems(3)] by (auto dest: in_set_dropD)
  qed
  have parts: "map node_Hash (pair_up C (take ?l nl)) = map node_Hash (pair_up C (take ?l ml))"
    "map node_Hash (drop ?l nl) = map node_Hash (drop ?l ml)"
    using eq ml l by (simp_all add: append_eq_append_conv)
  have "level_preimages ?nl \<subseteq> preimages n" "level_preimages ?ml \<subseteq> preimages m"
    using level_preimages_root [OF _ bn] level_preimages_root [OF _ bm] level_length(5) [OF level.hyps, of C]
      level_length(5) [OF ml(1), of C] ml(2) by auto
  then have "inj_on (sha3 C) (level_preimages (pair_up C (take ?l nl)) \<union> level_preimages (pair_up C (take ?l ml)))"
    using level.prems(7) by (elim inj_on_subset) (auto simp: level_preimages_append)
  moreover have "even (length (take ?l nl))" "length (take ?l ml) = length (take ?l nl)" using l ml(2) by simp_all
  moreover have "\<forall>n \<in> set (take ?l nl) \<union> set (take ?l ml). hash_len n"
    using level.prems(2) by (auto dest: in_set_takeD)
  ultimately have "map node_Hash (take ?l nl) = map node_Hash (take ?l ml)"
    using pair_up_binding [OF _ _ _ _ parts(1)] by blast
  with parts(2) show ?case by (metis append_take_drop_id map_append)
qed

subsection \<open>Properties of block trees\<close>

lemma pad_leafs_length: "ns \<noteq> [] \<Longrightarrow> 2 \<le> length (pad_leafs ns) \<and> length ns \<le> length (pad_leafs ns)"
proof -
  assume "ns \<noteq> []"
  then have "0 < length ns" by simp
  then show ?thesis unfolding pad_leafs_def by (simp, presburger)
qed

lemma set_pad_leafs [simp]: "set (pad_leafs ns) = set ns"
proof (cases "length ns mod 2 = 1")
  case True
  then have "ns \<noteq> []" by auto
  then show ?thesis by (auto simp: pad_leafs_def)
qed (simp add: pad_leafs_def)

lemma newTree_Some:
  assumes "\<exists>x \<in> set xs. x \<noteq> zero_hash"
  shows "\<exists>root. buildIntermediate C (pad_leafs (leafs_of xs)) = Some root \<and>
           newTree C xs = Some (Inr \<lparr>mt_Root = root, mt_merkleRoot = node_Hash root, mt_Leafs = pad_leafs (leafs_of xs)\<rparr>)"
proof -
  have "leafs_of xs \<noteq> []" using assms by (auto simp: leafs_of_def filter_empty_conv)
  then obtain root where "buildIntermediate C (pad_leafs (leafs_of xs)) = Some root"
    using buildIntermediate_returns pad_leafs_length by blast
  moreover have "xs \<noteq> []" using assms by auto
  ultimately show ?thesis by (simp add: newTree_def buildWithContent_def Let_def)
qed

lemma find_leaf_Some: "LeafNode h \<in> set ns \<Longrightarrow> \<forall>n \<in> set ns. \<exists>h. n = LeafNode h \<Longrightarrow> find_leaf ns h = Some (LeafNode h)"
  by (induction ns) auto

lemma newTree_zero: "xs \<noteq> [] \<Longrightarrow> \<forall>x \<in> set xs. x = zero_hash \<Longrightarrow> newTree C xs = None"
  by (simp add: newTree_def buildWithContent_def leafs_of_def pad_leafs_def buildIntermediate.simps)

lemma pad_leafs_consistent: "\<forall>n \<in> set (pad_leafs (leafs_of xs)). consistent C n"
  by (auto simp: leafs_of_def)

text \<open>
  C12: building the Merkle tree of a block returns exactly when the block has no transactions (the tree is
  nil) or at least one transaction hash that is not zero; the tree then verifies, and it holds every
  non-zero transaction hash as a leaf. With transaction hashes that are all zero the construction never
  returns.
\<close>

theorem BuildMerkleTree_returns:
  "((\<exists>m. BuildMerkleTree C b = Some m) \<longleftrightarrow> block_txHashes b = [] \<or> (\<exists>h \<in> set (block_txHashes b). h \<noteq> zero_hash)) \<and>
   (\<forall>t. BuildMerkleTree C b = Some (Some t) \<longrightarrow> VerifyTree C t \<and>
      (\<forall>h \<in> set (block_txHashes b). h \<noteq> zero_hash \<longrightarrow> GetLeaf t h = Some (LeafNode h)))"
proof (cases "\<exists>h \<in> set (block_txHashes b). h \<noteq> zero_hash")
  case True
  let ?leafs = "pad_leafs (leafs_of (block_txHashes b))"
  obtain root where r: "buildIntermediate C ?leafs = Some root"
    "newTree C (block_txHashes b) = Some (Inr \<lparr>mt_Root = root, mt_merkleRoot = node_Hash root, mt_Leafs = ?leafs\<rparr>)"
    using newTree_Some [OF True] by blast
  have "leafs_of (block_txHashes b) \<noteq> []" using True by (auto simp: leafs_of_def filter_empty_conv)
  then have "consistent C root"
    using buildIntermediate_consistent [OF _ pad_leafs_consistent r(1)] pad_leafs_length by blast
  moreover have "find_leaf ?leafs h = Some (LeafNode h)" if "h \<in> set (block_txHashes b)" "h \<noteq> zero_hash" for h
  proof -
    have "LeafNode h \<in> set ?leafs" "\<forall>n \<in> set ?leafs. \<exists>h. n = LeafNode h"
      using that by (auto simp: leafs_of_def)
    then show ?thesis by (rule find_leaf_Some)
  qed
  ultimately show ?thesis using True r
    by (auto simp: BuildMerkleTree_def tree_or_nil_def VerifyTree_def consistent_def GetLeaf_def)
next
  case False
  then show ?thesis by (auto simp: BuildMerkleTree_def newTree_zero)
qed

definition demo_crypto :: crypto_env where
  "demo_crypto = \<lparr>sha3 = (\<lambda>bs. replicate 28 0 @ be_fixed 4 (foldl (\<lambda>a b. (a * 31 + unat b + 1) mod 4294967296) 7 bs)),
     sha256 = (\<lambda>_. [2]), ecdsa_Verify = (\<lambda>pk h r s. r = s)\<rparr>"

definition demo_hash :: "byte \<Rightarrow> hash" where
  "demo_hash b = replicate 31 0 @ [b]"

lemma demo_hash_inject [simp]: "demo_hash a = demo_hash b \<longleftrightarrow> a = b" "demo_hash a = zero_hash \<longleftrightarrow> a = 0"
  "length (demo_hash a) = 32"
proof -
  show "demo_hash a = demo_hash b \<longleftrightarrow> a = b" "length (demo_hash a) = 32" by (simp_all add: demo_hash_def)
  have z: "zero_hash = demo_hash 0" by (simp add: zero_hash_def demo_hash_def replicate_append_same flip: replicate_Suc)
  show "demo_hash a = zero_hash \<longleftrightarrow> a = 0" unfolding z by (simp add: demo_hash_def)
qed

definition demo_tx_block :: Block where
  "demo_tx_block = zero_block\<lparr>bl_FundsTxData := [demo_hash 1, demo_hash 2, demo_hash 3]\<rparr>"

lemma demo_tx_block_hashes: "block_txHashes demo_tx_block = [demo_hash 1, demo_hash 2, demo_hash 3]"
  by (simp add: demo_tx_block_def block_txHashes_def zero_block_def)

theorem BuildMerkleTree_returns_witness:
  "\<exists>t. BuildMerkleTree demo_crypto demo_tx_block = Some (Some t) \<and> VerifyTree demo_crypto t \<and>
     GetLeaf t (demo_hash 3) = Some (LeafNode (demo_hash 3))"
proof -
  obtain t where t: "BuildMerkleTree demo_crypto demo_tx_block = Some (Some t)"
    using newTree_Some [of "block_txHashes demo_tx_block" demo_crypto]
    by (auto simp: BuildMerkleTree_def demo_tx_block_hashes tree_or_nil_def)
  with BuildMerkleTree_returns [of demo_crypto demo_tx_block] show ?thesis
    by (simp add: demo_tx_block_hashes)
qed

lemma leafs_hash: "\<forall>x \<in> set xs. x \<noteq> zero_hash \<Longrightarrow> map node_Hash (leafs_of xs) = xs"
  by (induction xs) (simp_all add: leafs_of_def)

lemma pad_leafs_take: "take (length ns) (pad_leafs ns) = ns"
  by (simp add: pad_leafs_def)

lemma root_binds:
  assumes "BuildMerkleTree C b = Some (Some t)" "BuildMerkleTree C b' = Some (Some t')"
    and "mt_merkleRoot t = mt_merkleRoot t'"
    and "length (block_txHashes b) = length (block_txHashes b')"
    and "\<forall>h \<in> set (block_txHashes b) \<union> set (block_txHashes b'). h \<noteq> zero_hash \<and> length h = 32"
    and "\<forall>x. length (sha3 C x) = 32"
    and "inj_on (sha3 C) (preimages (mt_Root t) \<union> preimages (mt_Root t'))"
  shows "block_txHashes b = block_txHashes b'"
proof -
  let ?x = "block_txHashes b" and ?y = "block_txHashes b'"
  let ?l = "pad_leafs (leafs_of ?x)" and ?m = "pad_leafs (leafs_of ?y)"
  have ne: "?x \<noteq> []" "?y \<noteq> []" using assms(1,2) by (auto simp: BuildMerkleTree_def)
  then have nz: "\<exists>h \<in> set ?x. h \<noteq> zero_hash" "\<exists>h \<in> set ?y. h \<noteq> zero_hash"
    using assms(5) by (metis Un_iff list.set_intros(1) neq_Nil_conv)+
  obtain r r' where r: "buildIntermediate C ?l = Some r" "t = \<lparr>mt_Root = r, mt_merkleRoot = node_Hash r, mt_Leafs = ?l\<rparr>"
    and r': "buildIntermediate C ?m = Some r'" "t' = \<lparr>mt_Root = r', mt_merkleRoot = node_Hash r', mt_Leafs = ?m\<rparr>"
    using newTree_Some [OF nz(1), of C] newTree_Some [OF nz(2), of C] assms(1,2) ne
    by (auto simp: BuildMerkleTree_def tree_or_nil_def)
  have hx: "map node_Hash (leafs_of ?x) = ?x" "map node_Hash (leafs_of ?y) = ?y"
    using assms(5) by (simp_all add: leafs_hash)
  then have len: "length (leafs_of ?x) = length ?x" "length (leafs_of ?y) = length ?y"
    by (metis length_map)+
  then have "length ?m = length ?l" using assms(4) by (simp add: pad_leafs_def)
  moreover have "2 \<le> length ?l" using len ne pad_leafs_length [of "leafs_of ?x"] by (cases "leafs_of ?x") auto
  moreover have "\<forall>n \<in> set ?l \<union> set ?m. hash_len n" using assms(5) by (auto simp: leafs_of_def hash_len_def)
  ultimately have "map node_Hash ?l = map node_Hash ?m"
    using build_binding [OF _ _ _ assms(6) r(1) r'(1)] assms(3,7) unfolding r(2) r'(2) MerkleTree.simps by blast
  then have "take (length ?x) (map node_Hash ?l) = take (length ?y) (map node_Hash ?m)" using assms(4) by simp
  then have "map node_Hash (leafs_of ?x) = map node_Hash (leafs_of ?y)"
    unfolding take_map len [symmetric] pad_leafs_take .
  then show ?thesis unfolding hx .
qed

text \<open>
  C11: a Merkle root binds the transactions of a block. For two blocks with the same number of transactions
  and non-zero 32-byte hashes, equal roots mean equal lists of transaction hashes, provided SHA3 has no
  collision among the strings hashed while building the two trees.
\<close>

theorem MerkleRoot_binding:
  assumes "BuildMerkleTree C b = Some (Some t)" "BuildMerkleTree C b' = Some (Some t')"
    and "mt_merkleRoot t = mt_merkleRoot t'"
    and "length (block_txHashes b) = length (block_txHashes b')"
    and "\<forall>h \<in> set (block_txHashes b) \<union> set (block_txHashes b'). h \<noteq> zero_hash \<and> length h = 32"
    and "\<forall>x. length (sha3 C x) = 32"
    and "inj_on (sha3 C) (preimages (mt_Root t) \<union> preimages (mt_Root t'))"
  shows "block_txHashes b = block_txHashes b'"
  using assms by (rule root_binds)

definition mix_crypto :: crypto_env where
  "mix_crypto = demo_crypto\<lparr>sha3 := (\<lambda>x. demo_hash (x ! 31 + 16 * x ! 63))\<rparr>"

definition demo_root :: Node where
  "demo_root = InnerNode (InnerNode (LeafNode (demo_hash 1)) (LeafNode (demo_hash 2)) (demo_hash 33))
     (InnerNode (LeafNode (demo_hash 3)) (LeafNode (demo_hash 3)) (demo_hash 51)) (demo_hash 81)"

lemma demo_tree:
  "newTree mix_crypto [demo_hash 1, demo_hash 2, demo_hash 3] = Some (Inr
     \<lparr>mt_Root = demo_root, mt_merkleRoot = demo_hash 81,
      mt_Leafs = map LeafNode [demo_hash 1, demo_hash 2, demo_hash 3, demo_hash 3]\<rparr>)"
  by (simp add: newTree_def buildWithContent_def leafs_of_def pad_leafs_def buildIntermediate.simps dropToPower2.simps
      checkPower2.simps parent_def mix_crypto_def nth_append Let_def demo_root_def) (simp add: demo_hash_def nth_append)

lemma demo_root_inj: "inj_on (sha3 mix_crypto) (preimages demo_root)"
  by (simp add: demo_root_def mix_crypto_def inj_on_def) (simp add: demo_hash_def nth_append)

definition demo_tx_block2 :: Block where
  "demo_tx_block2 = zero_block\<lparr>bl_FundsTxData := [demo_hash 1], bl_AccTxData := [demo_hash 2, demo_hash 3]\<rparr>"

lemma demo_tx_block2_hashes: "block_txHashes demo_tx_block2 = [demo_hash 1, demo_hash 2, demo_hash 3]"
  by (simp add: demo_tx_block2_def block_txHashes_def zero_block_def)

theorem MerkleRoot_binding_witness:
  "block_txHashes demo_tx_block = block_txHashes demo_tx_block2"
proof (rule MerkleRoot_binding)
  let ?t = "\<lparr>mt_Root = demo_root, mt_merkleRoot = demo_hash 81,
      mt_Leafs = map LeafNode [demo_hash 1, demo_hash 2, demo_hash 3, demo_hash 3]\<rparr>"
  show "BuildMerkleTree mix_crypto demo_tx_block = Some (Some ?t)" "BuildMerkleTree mix_crypto demo_tx_block2 = Some (Some ?t)"
    by (simp_all add: BuildMerkleTree_def demo_tx_block_hashes demo_tx_block2_hashes demo_tree tree_or_nil_def)
  show "inj_on (sha3 mix_crypto) (preimages (mt_Root ?t) \<union> preimages (mt_Root ?t))"
    using demo_root_inj by simp
qed (simp_all add: demo_tx_block_hashes demo_tx_block2_hashes mix_crypto_def)

text \<open>
  Without the check on duplicates the root does not bind: the last transaction of an odd list is
  doubled, so the list with that transaction repeated has the same tree.
\<close>

theorem MerkleRoot_duplicate:
  "newTree C [demo_hash 1, demo_hash 2, demo_hash 3, demo_hash 3] = newTree C [demo_hash 1, demo_hash 2, demo_hash 3]"
proof -
  have "pad_leafs (leafs_of [demo_hash 1, demo_hash 2, demo_hash 3, demo_hash 3]) =
      pad_leafs (leafs_of [demo_hash 1, demo_hash 2, demo_hash 3])"
    by (simp add: leafs_of_def pad_leafs_def)
  then show ?thesis unfolding newTree_def buildWithContent_def Let_def by (simp only: list.size) simp
qed

end
