(* ===== verification/Params.thy ===== *)
theory Params
  imports Protocol
begin

text \<open>
  The system parameters: \<^verbatim>\<open>src/miner/blockchainparam.go\<close>, the bounds of \<^verbatim>\<open>src/protocol/configtx.go\<close>
  (checked in \<^verbatim>\<open>src/miner/tx_verification.go\<close>) and the constants of \<^verbatim>\<open>src/miner/configs.go\<close>.
\<close>

definition MAX_MONEY :: u64 where
  "MAX_MONEY = 9223372036854775807"

definition MIN_STAKING_MINIMUM :: u64 where
  "MIN_STAKING_MINIMUM = 5"

definition DELAYED_BLOCKS :: nat where
  "DELAYED_BLOCKS = 10"

definition NO_EMPTYING_LENGTH :: int where
  "NO_EMPTYING_LENGTH = 100"

record Parameters =
  pa_BlockHash :: hash
  FeeMinimum :: u64
  BlockSize :: u64
  DiffInterval :: u64
  BlockInterval :: u64
  BlockReward :: u64
  StakingMinimum :: u64
  WaitingMinimum :: u64
  AcceptedTimeDiff :: u64
  SlashingWindowSize :: u64
  SlashReward :: u64
  numIncludedPrevProofs :: int
  FixedSpace :: int
  BloomFilterSize :: int

definition NewDefaultParameters :: Parameters where
  "NewDefaultParameters =
     \<lparr>pa_BlockHash = zero_hash, FeeMinimum = 1, BlockSize = 5000, DiffInterval = 25, BlockInterval = 15,
      BlockReward = 0, StakingMinimum = 1000, WaitingMinimum = 0, AcceptedTimeDiff = 60,
      SlashingWindowSize = 100, SlashReward = 2, numIncludedPrevProofs = 5, FixedSpace = 650,
      BloomFilterSize = 8\<rparr>"

text \<open>The identifiers of the parameters in a configuration transaction and their bounds.\<close>

definition param_bounds :: "u8 \<Rightarrow> (u64 \<times> u64) option" where
  "param_bounds i =
     (if i = 1 then Some (1000, 100000000)
      else if i = 2 then Some (3, 9223372036854775807)
      else if i = 3 then Some (0, 9223372036854775807)
      else if i = 4 then Some (3, 86400)
      else if i = 5 then Some (0, 1152921504606846976)
      else if i = 6 then Some (MIN_STAKING_MINIMUM, 9223372036854775807)
      else if i = 7 then Some (0, 100000)
      else if i = 8 then Some (0, 60)
      else if i = 9 then Some (0, 10000)
      else if i = 10 then Some (0, 1152921504606846976)
      else None)"

definition parameterBoundsChecking :: "u8 \<Rightarrow> u64 \<Rightarrow> bool" where
  "parameterBoundsChecking i payload =
     (case param_bounds i of
        None \<Rightarrow> False
      | Some (lo, hi) \<Rightarrow> payload \<ge> lo \<and> payload \<le> hi)"

text \<open>
  One configuration transaction of \<^verbatim>\<open>CheckAndChangeParameters\<close>: the parameters, the accounts (a higher
  staking minimum removes validators) and the flag \<^verbatim>\<open>change\<close>.
\<close>

type_synonym accounts = "hash \<Rightarrow> Account option"

definition dropValidators :: "u64 \<Rightarrow> accounts \<Rightarrow> accounts" where
  "dropValidators payload S = (\<lambda>h. map_option (\<lambda>a.
     if acc_IsStaking a \<and> acc_Balance a < 0 + payload then a\<lparr>acc_IsStaking := False\<rparr> else a) (S h))"

definition changeParameter :: "ConfigTx \<Rightarrow> Parameters \<times> accounts \<times> bool \<Rightarrow> Parameters \<times> accounts \<times> bool" where
  "changeParameter tx pac = (case pac of (p, S, change) \<Rightarrow>
     let i = ct_Id tx; v = ct_Payload tx in
     if \<not> parameterBoundsChecking i v then (p, S, change)
     else if i = 3 then (p\<lparr>FeeMinimum := v\<rparr>, S, True)
     else if i = 1 then (p\<lparr>BlockSize := v\<rparr>, S, True)
     else if i = 5 then (p\<lparr>BlockReward := v\<rparr>, S, True)
     else if i = 2 then (p\<lparr>DiffInterval := v\<rparr>, S, True)
     else if i = 4 then (p\<lparr>BlockInterval := v\<rparr>, S, True)
     else if i = 6 then (p\<lparr>StakingMinimum := v\<rparr>, dropValidators v S, True)
     else if i = 7 then (p\<lparr>WaitingMinimum := v\<rparr>, S, True)
     else if i = 8 then (p\<lparr>AcceptedTimeDiff := v\<rparr>, S, True)
     else if i = 9 then (p\<lparr>SlashingWindowSize := v\<rparr>, S, True)
     else if i = 10 then (p\<lparr>SlashReward := v\<rparr>, S, True)
     else (p, S, change))"

definition CheckAndChangeParameters :: "Parameters \<Rightarrow> accounts \<Rightarrow> ConfigTx list \<Rightarrow> Parameters \<times> accounts \<times> bool" where
  "CheckAndChangeParameters p S txs = fold changeParameter txs (p, S, False)"

subsection \<open>Parameters stay within their bounds\<close>

definition params_ok :: "Parameters \<Rightarrow> bool" where
  "params_ok p \<longleftrightarrow>
     parameterBoundsChecking 1 (BlockSize p) \<and> parameterBoundsChecking 2 (DiffInterval p) \<and>
     parameterBoundsChecking 3 (FeeMinimum p) \<and> parameterBoundsChecking 4 (BlockInterval p) \<and>
     parameterBoundsChecking 5 (BlockReward p) \<and> parameterBoundsChecking 6 (StakingMinimum p) \<and>
     parameterBoundsChecking 7 (WaitingMinimum p) \<and> parameterBoundsChecking 8 (AcceptedTimeDiff p) \<and>
     parameterBoundsChecking 9 (SlashingWindowSize p) \<and> parameterBoundsChecking 10 (SlashReward p)"

lemma params_ok_default: "params_ok NewDefaultParameters"
  by (simp add: params_ok_def NewDefaultParameters_def parameterBoundsChecking_def param_bounds_def
      MIN_STAKING_MINIMUM_def)

lemma param_bounds_ids: "param_bounds i = Some b \<Longrightarrow> i \<in> {1, 2, 3, 4, 5, 6, 7, 8, 9, 10}"
  by (auto simp: param_bounds_def split: if_splits)

lemma changeParameter_ok:
  assumes "params_ok p" "changeParameter tx (p, S, c) = (p', S', c')"
  shows "params_ok p'" "p' \<noteq> p \<Longrightarrow> c'" "c \<Longrightarrow> c'" "dom S' = dom S"
proof -
  have "params_ok p' \<and> (p' \<noteq> p \<longrightarrow> c') \<and> (c \<longrightarrow> c') \<and> dom S' = dom S"
  proof (cases "parameterBoundsChecking (ct_Id tx) (ct_Payload tx)")
    case False
    with assms show ?thesis by (simp add: changeParameter_def Let_def)
  next
    case True
    then obtain b where "param_bounds (ct_Id tx) = Some b"
      by (auto simp: parameterBoundsChecking_def split: option.splits)
    then have "ct_Id tx \<in> {1, 2, 3, 4, 5, 6, 7, 8, 9, 10}" by (rule param_bounds_ids)
    with True assms show ?thesis
      by (elim insertE emptyE)
        (auto simp: changeParameter_def Let_def params_ok_def dropValidators_def dom_def)
  qed
  then show "params_ok p'" "p' \<noteq> p \<Longrightarrow> c'" "c \<Longrightarrow> c'" "dom S' = dom S" by blast+
qed

lemma fold_changeParameter_ok:
  assumes "params_ok p" "fold changeParameter txs (p, S, c) = (p', S', c')"
  shows "params_ok p' \<and> (p' \<noteq> p \<longrightarrow> c') \<and> (c \<longrightarrow> c') \<and> dom S' = dom S"
  using assms
proof (induction txs arbitrary: p S c)
  case (Cons tx txs)
  obtain p1 S1 c1 where 1: "changeParameter tx (p, S, c) = (p1, S1, c1)" by (cases "changeParameter tx (p, S, c)")
  note ok = changeParameter_ok [OF Cons.prems(1) 1]
  with Cons.IH [of p1 S1 c1] Cons.prems(2) 1 show ?case by auto
qed auto

end
