(* ===== verification/GoSort.thy ===== *)
theory GoSort
  imports Prelude "HOL-Library.Multiset" "HOL-Library.Monad_Syntax"
begin

text \<open>
  \<^verbatim>\<open>sort.Sort\<close> of the Go releases this module was written for (1.13 to 1.18), as the miner and the storage call it. The routine
  sees its data through \<^verbatim>\<open>Less(i, j)\<close> and \<^verbatim>\<open>Swap(i, j)\<close> only, and the orders the miner gives it are not all orderings, so
  the result depends on the steps: a quicksort with a median of three (or of nine) as pivot while more than twelve elements are left, a
  heapsort when it gets too deep, and a pass with gap six followed by an insertion sort on at most twelve.

  An index out of range or a panicking \<open>Less\<close> is \<open>None\<close>. The lemmas show that every routine permutes its data, never
  leaves its range, and panics only if \<open>Less\<close> panics on two elements of the data.
\<close>

subsection \<open>Data\<close>

definition Less_at :: "('a \<Rightarrow> 'a \<Rightarrow> bool option) \<Rightarrow> 'a list \<Rightarrow> nat \<Rightarrow> nat \<Rightarrow> bool option" where
  "Less_at lt xs i j = (if i < length xs \<and> j < length xs then lt (xs ! i) (xs ! j) else None)"

definition Swap_at :: "'a list \<Rightarrow> nat \<Rightarrow> nat \<Rightarrow> 'a list option" where
  "Swap_at xs i j = (if i < length xs \<and> j < length xs then Some (xs[i := xs ! j, j := xs ! i]) else None)"

text \<open>\<^verbatim>\<open>if data.Less(i, j) { data.Swap(i, j) }\<close>.\<close>

definition order_at :: "('a \<Rightarrow> 'a \<Rightarrow> bool option) \<Rightarrow> nat \<Rightarrow> nat \<Rightarrow> 'a list \<Rightarrow> 'a list option" where
  "order_at lt i j xs = do { l \<leftarrow> Less_at lt xs i j; if l then Swap_at xs i j else Some xs }"

subsection \<open>Short slices\<close>

fun shiftLeft :: "('a \<Rightarrow> 'a \<Rightarrow> bool option) \<Rightarrow> nat \<Rightarrow> nat \<Rightarrow> 'a list \<Rightarrow> 'a list option" where
  "shiftLeft lt a 0 xs = Some xs"
| "shiftLeft lt a (Suc j) xs = (if a < Suc j then do {
     l \<leftarrow> Less_at lt xs (Suc j) j;
     if l then Swap_at xs (Suc j) j \<bind> shiftLeft lt a j else Some xs } else Some xs)"

text \<open>A loop whose body changes the data: \<^verbatim>\<open>for _, i := range is { body(i) }\<close>.\<close>

primrec foreach :: "(nat \<Rightarrow> 'a list \<Rightarrow> 'a list option) \<Rightarrow> nat list \<Rightarrow> 'a list \<Rightarrow> 'a list option" where
  "foreach f [] xs = Some xs"
| "foreach f (i # is) xs = f i xs \<bind> foreach f is"

definition insertionSort :: "('a \<Rightarrow> 'a \<Rightarrow> bool option) \<Rightarrow> nat \<Rightarrow> nat \<Rightarrow> 'a list \<Rightarrow> 'a list option" where
  "insertionSort lt a b = foreach (shiftLeft lt a) [a + 1..<b]"

definition shellPass :: "('a \<Rightarrow> 'a \<Rightarrow> bool option) \<Rightarrow> nat \<Rightarrow> nat \<Rightarrow> 'a list \<Rightarrow> 'a list option" where
  "shellPass lt a b = foreach (\<lambda>i. order_at lt i (i - 6)) [a + 6..<b]"

definition sortShort :: "('a \<Rightarrow> 'a \<Rightarrow> bool option) \<Rightarrow> nat \<Rightarrow> nat \<Rightarrow> 'a list \<Rightarrow> 'a list option" where
  "sortShort lt a b xs = (if b - a > 1 then shellPass lt a b xs \<bind> insertionSort lt a b else Some xs)"

subsection \<open>Heapsort\<close>

function siftDown :: "('a \<Rightarrow> 'a \<Rightarrow> bool option) \<Rightarrow> nat \<Rightarrow> nat \<Rightarrow> nat \<Rightarrow> 'a list \<Rightarrow> 'a list option" where
  "siftDown lt root hi start xs = (let child = 2 * root + 1 in
     if child \<ge> hi then Some xs
     else do {
       right \<leftarrow> (if child + 1 < hi then Less_at lt xs (start + child) (start + child + 1) else Some False);
       let child = (if right then child + 1 else child);
       l \<leftarrow> Less_at lt xs (start + root) (start + child);
       if l then Swap_at xs (start + root) (start + child) \<bind> siftDown lt child hi start else Some xs })"
  by pat_completeness auto
termination by (relation "measure (\<lambda>(lt, root, hi, start, xs). hi - root)") auto

declare siftDown.simps [simp del]

definition heapSort :: "('a \<Rightarrow> 'a \<Rightarrow> bool option) \<Rightarrow> nat \<Rightarrow> nat \<Rightarrow> 'a list \<Rightarrow> 'a list option" where
  "heapSort lt a b xs = do {
     xs \<leftarrow> foreach (\<lambda>i. siftDown lt i (b - a) a) (rev [0..<(b - a - 1) div 2 + 1]) xs;
     foreach (\<lambda>i xs. Swap_at xs a (a + i) \<bind> siftDown lt 0 i a) (rev [0..<b - a]) xs }"

subsection \<open>The pivot\<close>

definition medianOfThree :: "('a \<Rightarrow> 'a \<Rightarrow> bool option) \<Rightarrow> nat \<Rightarrow> nat \<Rightarrow> nat \<Rightarrow> 'a list \<Rightarrow> 'a list option" where
  "medianOfThree lt m1 m0 m2 xs = do {
     xs \<leftarrow> order_at lt m1 m0 xs;
     l \<leftarrow> Less_at lt xs m2 m1;
     if l then Swap_at xs m2 m1 \<bind> order_at lt m1 m0 else Some xs }"

text \<open>\<^verbatim>\<open>for ; b < c && p(b); b++\<close> and \<^verbatim>\<open>for ; b < c && p(c-1); c--\<close>.\<close>

function scanUp :: "(nat \<Rightarrow> bool option) \<Rightarrow> nat \<Rightarrow> nat \<Rightarrow> nat option" where
  "scanUp p b c = (if b < c then do { l \<leftarrow> p b; if l then scanUp p (b + 1) c else Some b } else Some b)"
  by pat_completeness auto
termination by (relation "measure (\<lambda>(p, b, c). c - b)") auto

declare scanUp.simps [simp del]

fun scanDown :: "(nat \<Rightarrow> bool option) \<Rightarrow> nat \<Rightarrow> nat \<Rightarrow> nat option" where
  "scanDown p b 0 = Some 0"
| "scanDown p b (Suc c) = (if b < Suc c then do { l \<leftarrow> p c; if l then scanDown p b c else Some (Suc c) } else Some (Suc c))"

lemma scanUp_le: "scanUp p b c = Some b' \<Longrightarrow> b \<le> b' \<and> (b \<le> c \<longrightarrow> b' \<le> c)"
proof (induction p b c rule: scanUp.induct)
  case (1 p b c)
  then show ?case
    by (subst (asm) (2) scanUp.simps) (fastforce split: if_splits bind_splits simp: Suc_leD)
qed

lemma scanDown_le: "scanDown p b c = Some c' \<Longrightarrow> c' \<le> c \<and> min b c \<le> c'"
  by (induction p b c rule: scanDown.induct) (fastforce split: if_splits bind_splits)+

text \<open>The two loops that exchange what stands on the wrong side: larger than the pivot, and equal to it.\<close>

function exchangeLoop :: "('a \<Rightarrow> 'a \<Rightarrow> bool option) \<Rightarrow> nat \<Rightarrow> nat \<Rightarrow> nat \<Rightarrow> 'a list \<Rightarrow> ('a list \<times> nat \<times> nat) option" where
  "exchangeLoop lt pivot b c xs = do {
     b' \<leftarrow> scanUp (\<lambda>i. map_option Not (Less_at lt xs pivot i)) b c;
     c' \<leftarrow> scanDown (\<lambda>i. Less_at lt xs pivot i) b' c;
     if b' \<ge> c' then Some (xs, b', c')
     else Swap_at xs b' (c' - 1) \<bind> exchangeLoop lt pivot (b' + 1) (c' - 1) }"
  by pat_completeness auto
termination
  by (relation "measure (\<lambda>(lt, pivot, b, c, xs). c - b)") (auto dest!: scanUp_le scanDown_le)

function equalLoop :: "('a \<Rightarrow> 'a \<Rightarrow> bool option) \<Rightarrow> nat \<Rightarrow> nat \<Rightarrow> nat \<Rightarrow> 'a list \<Rightarrow> ('a list \<times> nat) option" where
  "equalLoop lt pivot a b xs = do {
     b' \<leftarrow> scanDown (\<lambda>i. map_option Not (Less_at lt xs i pivot)) a b;
     a' \<leftarrow> scanUp (\<lambda>i. Less_at lt xs i pivot) a b';
     if a' \<ge> b' then Some (xs, b')
     else Swap_at xs a' (b' - 1) \<bind> equalLoop lt pivot (a' + 1) (b' - 1) }"
  by pat_completeness auto
termination
  by (relation "measure (\<lambda>(lt, pivot, a, b, xs). b - a)") (auto dest!: scanUp_le scanDown_le)

declare exchangeLoop.simps [simp del] equalLoop.simps [simp del]

text \<open>The test for duplicates of the pivot: the data, the bounds and the number of those found.\<close>

definition countDups :: "('a \<Rightarrow> 'a \<Rightarrow> bool option) \<Rightarrow> nat \<Rightarrow> nat \<Rightarrow> nat \<Rightarrow> nat \<Rightarrow> nat \<Rightarrow> 'a list \<Rightarrow> ('a list \<times> nat \<times> nat \<times> nat) option" where
  "countDups lt pivot m hi b c xs = do {
     l \<leftarrow> Less_at lt xs pivot (hi - 1);
     (xs, c, dups) \<leftarrow> (if l then Some (xs, c, 0) else do { xs \<leftarrow> Swap_at xs c (hi - 1); Some (xs, c + 1, 1) });
     l \<leftarrow> Less_at lt xs (b - 1) pivot;
     let (b, dups) = (if l then (b, dups) else (b - 1, dups + 1));
     l \<leftarrow> Less_at lt xs m pivot;
     if l then Some (xs, b, c, dups)
     else do { xs \<leftarrow> Swap_at xs m (b - 1); Some (xs, b - 1, c, dups + 1) } }"

definition choosePivot :: "('a \<Rightarrow> 'a \<Rightarrow> bool option) \<Rightarrow> nat \<Rightarrow> nat \<Rightarrow> 'a list \<Rightarrow> 'a list option" where
  "choosePivot lt lo hi xs = (let m = (lo + hi) div 2; s = (hi - lo) div 8 in do {
     xs \<leftarrow> (if hi - lo > 40 then do {
        xs \<leftarrow> medianOfThree lt lo (lo + s) (lo + 2 * s) xs;
        xs \<leftarrow> medianOfThree lt m (m - s) (m + s) xs;
        medianOfThree lt (hi - 1) (hi - 1 - s) (hi - 1 - 2 * s) xs } else Some xs);
     medianOfThree lt lo m (hi - 1) xs })"

definition doPivot :: "('a \<Rightarrow> 'a \<Rightarrow> bool option) \<Rightarrow> nat \<Rightarrow> nat \<Rightarrow> 'a list \<Rightarrow> ('a list \<times> nat \<times> nat) option" where
  "doPivot lt lo hi xs = do {
     xs \<leftarrow> choosePivot lt lo hi xs;
     a \<leftarrow> scanUp (\<lambda>i. Less_at lt xs i lo) (lo + 1) (hi - 1);
     (xs, b, c) \<leftarrow> exchangeLoop lt lo a (hi - 1) xs;
     (xs, b, c, protect) \<leftarrow> (if hi - c < 5 then Some (xs, b, c, True)
        else if hi - c < (hi - lo) div 4 then do {
          (xs, b, c, dups) \<leftarrow> countDups lt lo ((lo + hi) div 2) hi b c xs;
          Some (xs, b, c, dups > 1) }
        else Some (xs, b, c, False));
     (xs, b) \<leftarrow> (if protect then equalLoop lt lo a b xs else Some (xs, b));
     xs \<leftarrow> Swap_at xs lo (b - 1);
     Some (xs, b - 1, c) }"

subsection \<open>The sort\<close>

primrec quickSort :: "('a \<Rightarrow> 'a \<Rightarrow> bool option) \<Rightarrow> nat \<Rightarrow> nat \<Rightarrow> nat \<Rightarrow> 'a list \<Rightarrow> 'a list option" where
  "quickSort lt 0 a b xs = (if b - a > 12 then heapSort lt a b xs else sortShort lt a b xs)"
| "quickSort lt (Suc depth) a b xs = (if b - a > 12 then do {
       (xs, mlo, mhi) \<leftarrow> doPivot lt a b xs;
       if mlo - a < b - mhi then quickSort lt depth a mlo xs \<bind> quickSort lt depth mhi b
       else quickSort lt depth mhi b xs \<bind> quickSort lt depth a mlo }
     else sortShort lt a b xs)"

fun bits :: "nat \<Rightarrow> nat" where
  "bits n = (if n = 0 then 0 else Suc (bits (n div 2)))"

declare bits.simps [simp del]

definition maxDepth :: "nat \<Rightarrow> nat" where
  "maxDepth n = 2 * bits n"

definition Sort :: "('a \<Rightarrow> 'a \<Rightarrow> bool option) \<Rightarrow> 'a list \<Rightarrow> 'a list option" where
  "Sort lt xs = quickSort lt (maxDepth (length xs)) 0 (length xs) xs"

text \<open>\<^verbatim>\<open>sort.Sort\<close> with a \<open>Less\<close> that cannot panic; \<open>Sort_total\<close> shows that there is a result.\<close>

definition sort_by :: "('a \<Rightarrow> 'a \<Rightarrow> bool) \<Rightarrow> 'a list \<Rightarrow> 'a list" where
  "sort_by lt xs = the (Sort (\<lambda>x y. Some (lt x y)) xs)"

subsection \<open>What every routine keeps\<close>

text \<open>The result satisfies \<open>Q\<close>, or \<open>Less\<close> panics on two elements of the data \<open>M\<close>.\<close>

definition yields :: "('a \<Rightarrow> 'a \<Rightarrow> bool option) \<Rightarrow> 'a multiset \<Rightarrow> ('b \<Rightarrow> bool) \<Rightarrow> 'b option \<Rightarrow> bool" where
  "yields lt M Q r = (case r of Some v \<Rightarrow> Q v | None \<Rightarrow> \<exists>x y. {#x, y#} \<subseteq># M \<and> lt x y = None)"

abbreviation permutes :: "('a \<Rightarrow> 'a \<Rightarrow> bool option) \<Rightarrow> 'a multiset \<Rightarrow> 'a list option \<Rightarrow> bool" where
  "permutes lt M r \<equiv> yields lt M (\<lambda>ys. mset ys = M) r"

lemma yields_Some [simp]: "yields lt M Q (Some v) = Q v"
  by (simp add: yields_def)

lemma yields_bind: "yields lt M R r \<Longrightarrow> (\<And>v. R v \<Longrightarrow> yields lt M Q (f v)) \<Longrightarrow> yields lt M Q (r \<bind> f)"
  by (cases r) (auto simp: yields_def)

lemma yields_mono: "yields lt M R r \<Longrightarrow> (\<And>v. R v \<Longrightarrow> Q v) \<Longrightarrow> yields lt M Q r"
  by (cases r) (auto simp: yields_def)

lemma two_elements: "i < length xs \<Longrightarrow> j < length xs \<Longrightarrow> i \<noteq> j \<Longrightarrow> {#xs ! i, xs ! j#} \<subseteq># mset xs"
proof -
  assume ij: "i < length xs" "j < length xs" "i \<noteq> j"
  let ?rest = "take i xs @ drop (Suc i) xs"
  have "mset xs = add_mset (xs ! i) (mset ?rest)"
    using arg_cong [OF id_take_nth_drop [OF ij(1)], of mset] by simp
  moreover have "xs ! j \<in> set ?rest"
  proof (cases "j < i")
    case True
    then have "take i xs ! j \<in> set (take i xs)" using ij by (intro nth_mem) simp
    then show ?thesis using True by simp
  next
    case False
    then have "drop (Suc i) xs ! (j - Suc i) \<in> set (drop (Suc i) xs)" using ij by (intro nth_mem) simp
    then show ?thesis using False ij by simp
  qed
  ultimately show ?thesis by (metis insert_subset_eq_iff insert_DiffM mset_subset_eq_single set_mset_mset diff_single_trivial add_mset_remove_trivial union_single_eq_member)
qed

lemma yields_Less:
  assumes "mset xs = M" "i < size M" "j < size M" "i \<noteq> j"
  shows "yields lt M (\<lambda>_. True) (Less_at lt xs i j)"
  using assms two_elements [of i xs j] by (auto simp: yields_def Less_at_def split: option.split)

lemma yields_Swap: "mset xs = M \<Longrightarrow> i < size M \<Longrightarrow> j < size M \<Longrightarrow> permutes lt M (Swap_at xs i j)"
  by (auto simp: Swap_at_def mset_swap)

lemma yields_order: "mset xs = M \<Longrightarrow> i < size M \<Longrightarrow> j < size M \<Longrightarrow> i \<noteq> j \<Longrightarrow> permutes lt M (order_at lt i j xs)"
  unfolding order_at_def by (rule yields_bind [OF yields_Less]) (auto intro: yields_Swap)

lemma yields_foreach:
  "(\<And>i xs. i \<in> set is \<Longrightarrow> mset xs = M \<Longrightarrow> permutes lt M (f i xs)) \<Longrightarrow> mset xs = M \<Longrightarrow> permutes lt M (foreach f is xs)"
proof (induction "is" arbitrary: xs)
  case (Cons i js)
  then show ?case by (auto intro!: yields_bind [where R = "\<lambda>ys. mset ys = M"])
qed simp

lemma yields_shiftLeft: "mset xs = M \<Longrightarrow> j < size M \<Longrightarrow> permutes lt M (shiftLeft lt a j xs)"
proof (induction j arbitrary: xs)
  case (Suc j)
  have "permutes lt M (Swap_at xs (Suc j) j \<bind> shiftLeft lt a j)"
    by (rule yields_bind [OF yields_Swap]) (use Suc in auto)
  then have "permutes lt M (Less_at lt xs (Suc j) j \<bind> (\<lambda>l. if l then Swap_at xs (Suc j) j \<bind> shiftLeft lt a j else Some xs))"
    by (intro yields_bind [OF yields_Less]) (use Suc.prems in auto)
  then show ?case using Suc.prems(1) by simp
qed simp

lemma yields_insertionSort: "mset xs = M \<Longrightarrow> b \<le> size M \<Longrightarrow> permutes lt M (insertionSort lt a b xs)"
  unfolding insertionSort_def by (rule yields_foreach) (auto intro: yields_shiftLeft)

lemma yields_shellPass: "mset xs = M \<Longrightarrow> b \<le> size M \<Longrightarrow> permutes lt M (shellPass lt a b xs)"
  unfolding shellPass_def by (rule yields_foreach) (auto intro: yields_order)

lemma yields_sortShort: "mset xs = M \<Longrightarrow> b \<le> size M \<Longrightarrow> permutes lt M (sortShort lt a b xs)"
  unfolding sortShort_def by (auto intro: yields_bind [OF yields_shellPass] yields_insertionSort)

lemma yields_siftDown: "mset xs = M \<Longrightarrow> start + hi \<le> size M \<Longrightarrow> permutes lt M (siftDown lt root hi start xs)"
proof (induction "hi - root" arbitrary: root xs rule: less_induct)
  case less
  let ?child = "2 * root + 1"
  show ?case
  proof (cases "?child \<ge> hi")
    case True
    then show ?thesis using less.prems by (simp add: siftDown.simps)
  next
    case False
    have right: "yields lt M (\<lambda>l. l \<longrightarrow> ?child + 1 < hi)
      (if ?child + 1 < hi then Less_at lt xs (start + ?child) (start + ?child + 1) else Some False)"
      using less.prems yields_mono [OF yields_Less [OF less.prems(1)]] by simp
    have down: "permutes lt M (do { l \<leftarrow> Less_at lt xs (start + root) (start + c);
        if l then Swap_at xs (start + root) (start + c) \<bind> siftDown lt c hi start else Some xs })" if c: "c < hi" "root < c" for c
    proof (rule yields_bind [OF yields_Less])
      fix l
      have "permutes lt M (Swap_at xs (start + root) (start + c) \<bind> siftDown lt c hi start)"
        by (rule yields_bind [OF yields_Swap]) (use c less in auto)
      then show "permutes lt M (if l then Swap_at xs (start + root) (start + c) \<bind> siftDown lt c hi start else Some xs)"
        using less.prems(1) by simp
    qed (use c less.prems in auto)
    show ?thesis
      unfolding siftDown.simps [of lt root] Let_def if_not_P [OF False]
      by (rule yields_bind [OF right]) (rule down; use False in \<open>auto split: if_splits\<close>)
  qed
qed

lemma yields_heapSort: "mset xs = M \<Longrightarrow> a < b \<Longrightarrow> b \<le> size M \<Longrightarrow> permutes lt M (heapSort lt a b xs)"
  unfolding heapSort_def
  by (intro yields_bind [OF yields_foreach] yields_foreach yields_bind [OF yields_Swap] yields_siftDown) auto

lemma yields_medianOfThree:
  "mset xs = M \<Longrightarrow> m0 < size M \<Longrightarrow> m1 < size M \<Longrightarrow> m2 < size M \<Longrightarrow> m0 \<noteq> m1 \<Longrightarrow> m1 \<noteq> m2 \<Longrightarrow> permutes lt M (medianOfThree lt m1 m0 m2 xs)"
  unfolding medianOfThree_def
  by (intro yields_bind [OF yields_order] yields_bind [OF yields_Less])
    (auto intro: yields_bind [OF yields_Swap] yields_order)

lemma yields_scanUp:
  assumes "\<And>i. b \<le> i \<Longrightarrow> i < c \<Longrightarrow> yields lt M (\<lambda>_. True) (p i)"
  shows "yields lt M (\<lambda>b'. b \<le> b' \<and> (b \<le> c \<longrightarrow> b' \<le> c) \<and> (b' < c \<longrightarrow> p b' = Some False)) (scanUp p b c)"
  using assms
proof (induction p b c rule: scanUp.induct)
  case (1 p b c)
  show ?case
  proof (cases "p b")
    case None
    then show ?thesis using "1.prems" [of b] by (subst scanUp.simps) (auto simp: yields_def)
  next
    case (Some l)
    show ?thesis
    proof (cases "b < c \<and> l")
      case True
      then have "yields lt M (\<lambda>b'. b + 1 \<le> b' \<and> (b + 1 \<le> c \<longrightarrow> b' \<le> c) \<and> (b' < c \<longrightarrow> p b' = Some False)) (scanUp p (b + 1) c)"
        using 1 Some by auto
      then show ?thesis using True Some by (subst scanUp.simps) (auto elim: yields_mono)
    qed (use Some in \<open>subst scanUp.simps, auto\<close>)
  qed
qed

lemma yields_scanDown:
  assumes "\<And>i. b \<le> i \<Longrightarrow> i < c \<Longrightarrow> yields lt M (\<lambda>_. True) (p i)"
  shows "yields lt M (\<lambda>c'. c' \<le> c \<and> min b c \<le> c' \<and> (b < c' \<longrightarrow> p (c' - 1) = Some False)) (scanDown p b c)"
  using assms
proof (induction p b c rule: scanDown.induct)
  case (2 p b c)
  show ?case
  proof (cases "p c")
    case None
    then show ?thesis using "2.prems" [of c] by (auto simp: yields_def)
  next
    case (Some l)
    show ?thesis
    proof (cases "b < Suc c \<and> l")
      case True
      then have "yields lt M (\<lambda>c'. c' \<le> c \<and> min b c \<le> c' \<and> (b < c' \<longrightarrow> p (c' - 1) = Some False)) (scanDown p b c)"
        using 2 Some by auto
      then show ?thesis using True Some by (auto elim: yields_mono)
    qed (use Some in auto)
  qed
qed simp

lemma yields_exchangeLoop:
  assumes "mset xs = M" "pivot < b" "b \<le> c" "c \<le> size M"
  shows "yields lt M (\<lambda>(ys, b', c'). mset ys = M \<and> b' = c' \<and> b \<le> b' \<and> c' \<le> c) (exchangeLoop lt pivot b c xs)"
  using assms
proof (induction "c - b" arbitrary: b c xs rule: less_induct)
  case less
  let ?up = "\<lambda>i. map_option Not (Less_at lt xs pivot i)" and ?down = "\<lambda>i. Less_at lt xs pivot i"
  have down: "yields lt M (\<lambda>_. True) (?down i)" if "b \<le> i" "i < c" for i
    using yields_Less [OF less.prems(1)] less.prems that by simp
  then have up: "yields lt M (\<lambda>_. True) (?up i)" if "b \<le> i" "i < c" for i
    using that by (force simp: yields_def split: option.splits)
  show ?case
    unfolding exchangeLoop.simps [of lt pivot b]
  proof (rule yields_bind [OF yields_scanUp], goal_cases)
    case (2 b')
    then have b': "b \<le> b'" "b' \<le> c" "b' < c \<Longrightarrow> ?down b' = Some True" using less.prems(3) by auto
    show ?case
    proof (rule yields_bind [OF yields_scanDown], goal_cases)
      case (2 c')
      then have c': "c' \<le> c" "b' \<le> c'" "b' < c' \<Longrightarrow> ?down (c' - 1) = Some False" using b'(2) by auto
      show ?case
      proof (cases "b' \<ge> c'")
        case False
        have "c' - 1 \<noteq> b'" using c' b'(3) False by auto
        then have lt: "b' + 1 \<le> c' - 1" using False by linarith
        have "yields lt M (\<lambda>(ys, b'', c''). mset ys = M \<and> b'' = c'' \<and> b \<le> b'' \<and> c'' \<le> c)
          (Swap_at xs b' (c' - 1) \<bind> exchangeLoop lt pivot (b' + 1) (c' - 1))"
        proof (rule yields_bind [OF yields_Swap])
          fix ys assume "mset ys = M"
          then have "yields lt M (\<lambda>(ys, b'', c''). mset ys = M \<and> b'' = c'' \<and> b' + 1 \<le> b'' \<and> c'' \<le> c' - 1)
            (exchangeLoop lt pivot (b' + 1) (c' - 1) ys)"
            using less.hyps [of "c' - 1" "b' + 1" ys] less.prems b' c' False lt by auto
          then show "yields lt M (\<lambda>(ys, b'', c''). mset ys = M \<and> b'' = c'' \<and> b \<le> b'' \<and> c'' \<le> c)
            (exchangeLoop lt pivot (b' + 1) (c' - 1) ys)"
            by (rule yields_mono) (use b' c' in auto)
        qed (use less.prems b' c' False in auto)
        then show ?thesis using False by simp
      qed (use less.prems b' c' in auto)
    qed (use down b'(1) in auto)
  qed (use up in auto)
qed

lemma yields_equalLoop:
  assumes "mset xs = M" "pivot < a" "lo < a" "lo < b" "b \<le> size M"
  shows "yields lt M (\<lambda>(ys, b'). mset ys = M \<and> lo < b' \<and> b' \<le> b) (equalLoop lt pivot a b xs)"
  using assms
proof (induction "b - a" arbitrary: a b xs rule: less_induct)
  case less
  let ?up = "\<lambda>i. Less_at lt xs i pivot" and ?down = "\<lambda>i. map_option Not (Less_at lt xs i pivot)"
  have up: "yields lt M (\<lambda>_. True) (?up i)" if "a \<le> i" "i < b" for i
    using yields_Less [OF less.prems(1)] less.prems that by simp
  then have down: "yields lt M (\<lambda>_. True) (?down i)" if "a \<le> i" "i < b" for i
    using that by (force simp: yields_def split: option.splits)
  show ?case
    unfolding equalLoop.simps [of lt pivot a]
  proof (rule yields_bind [OF yields_scanDown], goal_cases)
    case (2 b')
    then have b': "b' \<le> b" "lo < b'" using less.prems by (cases "a \<le> b"; auto)+
    show ?case
    proof (rule yields_bind [OF yields_scanUp], goal_cases)
      case (2 a')
      then have a': "a \<le> a'" by simp
      show ?case
      proof (cases "a' \<ge> b'")
        case False
        have "yields lt M (\<lambda>(ys, b''). mset ys = M \<and> lo < b'' \<and> b'' \<le> b) (Swap_at xs a' (b' - 1) \<bind> equalLoop lt pivot (a' + 1) (b' - 1))"
        proof (rule yields_bind [OF yields_Swap])
          fix ys assume "mset ys = M"
          then have "yields lt M (\<lambda>(ys, b''). mset ys = M \<and> lo < b'' \<and> b'' \<le> b' - 1) (equalLoop lt pivot (a' + 1) (b' - 1) ys)"
            using less.hyps [of "b' - 1" "a' + 1" ys] less.prems b' a' False by auto
          then show "yields lt M (\<lambda>(ys, b''). mset ys = M \<and> lo < b'' \<and> b'' \<le> b) (equalLoop lt pivot (a' + 1) (b' - 1) ys)"
            by (rule yields_mono) (use b' in auto)
        qed (use less.prems b' a' False in auto)
        then show ?thesis using False by simp
      qed (use less.prems b' in auto)
    qed (use up b' in auto)
  qed (use down in auto)
qed

lemma yields_countDups:
  assumes "mset xs = M" "pivot \<le> lo" "lo < m" "m < size M" "hi \<le> size M" "lo + 2 < b" "b \<le> c" "c < hi"
  shows "yields lt M (\<lambda>(ys, b', c', dups). mset ys = M \<and> lo < b' \<and> b' \<le> b \<and> c \<le> c' \<and> c' \<le> hi) (countDups lt pivot m hi b c xs)"
proof -
  have third: "yields lt M (\<lambda>(ys, b'', c'', dups). mset ys = M \<and> lo < b'' \<and> b'' \<le> b \<and> c \<le> c'' \<and> c'' \<le> hi)
    (do { l \<leftarrow> Less_at lt ys m pivot;
      if l then Some (ys, b', c', dups) else do { zs \<leftarrow> Swap_at ys m (b' - 1); Some (zs, b' - 1, c', dups + 1) } })"
    if "mset ys = M" "b' \<le> b" "lo + 1 < b'" "c \<le> c'" "c' \<le> hi" for ys b' c' dups
  proof (rule yields_bind [OF yields_Less])
    fix l
    have "yields lt M (\<lambda>(ys, b'', c'', dups). mset ys = M \<and> lo < b'' \<and> b'' \<le> b \<and> c \<le> c'' \<and> c'' \<le> hi)
      (do { zs \<leftarrow> Swap_at ys m (b' - 1); Some (zs, b' - 1, c', dups + 1) })"
      by (rule yields_bind [OF yields_Swap]) (use that assms in auto)
    then show "yields lt M (\<lambda>(ys, b'', c'', dups). mset ys = M \<and> lo < b'' \<and> b'' \<le> b \<and> c \<le> c'' \<and> c'' \<le> hi)
      (if l then Some (ys, b', c', dups) else do { zs \<leftarrow> Swap_at ys m (b' - 1); Some (zs, b' - 1, c', dups + 1) })"
      using that by auto
  qed (use that assms in auto)
  have first: "yields lt M (\<lambda>(ys, c', dups). mset ys = M \<and> c \<le> c' \<and> c' \<le> hi)
    (if l then Some (xs, c, 0) else do { ys \<leftarrow> Swap_at xs c (hi - 1); Some (ys, c + 1, 1) })" for l
  proof -
    have "yields lt M (\<lambda>(ys, c', dups). mset ys = M \<and> c \<le> c' \<and> c' \<le> hi) (do { ys \<leftarrow> Swap_at xs c (hi - 1); Some (ys, c + 1, 1) })"
      by (rule yields_bind [OF yields_Swap]) (use assms in auto)
    then show ?thesis using assms by auto
  qed
  show ?thesis
    unfolding countDups_def
  proof (rule yields_bind [OF yields_Less], goal_cases)
    case (5 l)
    show ?case
    proof (rule yields_bind [OF first], clarify, rule yields_bind [OF yields_Less], goal_cases)
      case (5 ys c' dups l')
      show ?case
      proof (cases l')
        case True
        then show ?thesis using 5 third [of ys b c' dups] assms by simp
      next
        case False
        then have "(if l' then (b, dups) else (b - 1, dups + 1)) = (b - 1, dups + 1)" by simp
        then show ?thesis using 5 third [of ys "b - 1" c' "dups + 1"] assms unfolding Let_def by (simp only: prod.case)
      qed
    qed (use assms in auto)
  qed (use assms in auto)
qed

lemma yields_choosePivot:
  assumes "mset xs = M" "lo + 12 < hi" "hi \<le> size M"
  shows "permutes lt M (choosePivot lt lo hi xs)"
proof -
  let ?m = "(lo + hi) div 2" and ?s = "(hi - lo) div 8"
  have s: "lo + 2 * ?s < size M" "?m + ?s < size M" "?m < size M" "lo < size M" using assms by auto
  have "permutes lt M (do { xs \<leftarrow> medianOfThree lt lo (lo + ?s) (lo + 2 * ?s) xs;
     xs \<leftarrow> medianOfThree lt ?m (?m - ?s) (?m + ?s) xs; medianOfThree lt (hi - 1) (hi - 1 - ?s) (hi - 1 - 2 * ?s) xs })"
    by (intro yields_bind [OF yields_medianOfThree] yields_medianOfThree) (use s assms in auto)
  then have "permutes lt M (if hi - lo > 40 then do { xs \<leftarrow> medianOfThree lt lo (lo + ?s) (lo + 2 * ?s) xs;
     xs \<leftarrow> medianOfThree lt ?m (?m - ?s) (?m + ?s) xs; medianOfThree lt (hi - 1) (hi - 1 - ?s) (hi - 1 - 2 * ?s) xs } else Some xs)"
    using assms(1) by simp
  then show ?thesis
    unfolding choosePivot_def Let_def by (rule yields_bind) (use s assms in \<open>auto intro: yields_medianOfThree\<close>)
qed

lemma yields_doPivot:
  assumes "mset xs = M" "lo + 12 < hi" "hi \<le> size M"
  shows "yields lt M (\<lambda>(ys, mlo, mhi). mset ys = M \<and> lo \<le> mlo \<and> mlo < hi \<and> mhi \<le> hi) (doPivot lt lo hi xs)"
proof -
  have protected: "yields lt M (\<lambda>(ys, b', c', protect). mset ys = M \<and> lo < b' \<and> b' \<le> hi - 1 \<and> c' \<le> hi)
    (if hi - c < 5 then Some (ys, c, c, True)
     else if hi - c < (hi - lo) div 4 then do { (zs, b, c, dups) \<leftarrow> countDups lt lo ((lo + hi) div 2) hi c c ys; Some (zs, b, c, dups > 1) }
     else Some (ys, c, c, False))" if c: "mset ys = M" "lo < c" "c \<le> hi - 1" for ys c
  proof (cases "5 \<le> hi - c \<and> hi - c < (hi - lo) div 4")
    case True
    then have "lo + 2 < c" "c < hi" using assms(2) by linarith+
    then have "yields lt M (\<lambda>(ys, b', c', protect). mset ys = M \<and> lo < b' \<and> b' \<le> hi - 1 \<and> c' \<le> hi)
      (do { (zs, b, c, dups) \<leftarrow> countDups lt lo ((lo + hi) div 2) hi c c ys; Some (zs, b, c, dups > 1) })"
      by (intro yields_bind [OF yields_countDups [where lo = lo]]) (use assms c in auto)
    then show ?thesis using True by simp
  qed (use c in auto)
  have final: "yields lt M (\<lambda>(ys, mlo, mhi). mset ys = M \<and> lo \<le> mlo \<and> mlo < hi \<and> mhi \<le> hi)
    (do { (zs, b') \<leftarrow> (if protect then equalLoop lt lo a b ys else Some (ys, b)); zs \<leftarrow> Swap_at zs lo (b' - 1); Some (zs, b' - 1, c) })"
    if b: "mset ys = M" "lo < b" "b \<le> hi - 1" "c \<le> hi" "lo < a" for ys a b c protect
  proof (rule yields_bind [where R = "\<lambda>(zs, b'). mset zs = M \<and> lo < b' \<and> b' \<le> b"])
    show "yields lt M (\<lambda>(zs, b'). mset zs = M \<and> lo < b' \<and> b' \<le> b) (if protect then equalLoop lt lo a b ys else Some (ys, b))"
      using b assms yields_equalLoop [OF b(1), where pivot = lo and a = a and lo = lo and b = b] by auto
  qed (clarify, rule yields_bind [OF yields_Swap], use b assms in auto)
  show ?thesis
    unfolding doPivot_def
  proof (rule yields_bind [OF yields_choosePivot], goal_cases)
    case (4 ys)
    show ?case
    proof (rule yields_bind [OF yields_scanUp], goal_cases)
      case (2 a)
      then have a: "lo + 1 \<le> a" "a \<le> hi - 1" using assms(2) by auto
      show ?case
      proof (rule yields_bind [OF yields_exchangeLoop], goal_cases)
        case (5 v)
        obtain zs b c where v: "v = (zs, b, c)" by (cases v)
        then have c: "mset zs = M" "b = c" "lo < c" "c \<le> hi - 1" using 5 a by auto
        show ?case
          unfolding v prod.case c(2)
        proof (rule yields_bind [OF protected [OF c(1,3,4)]], goal_cases)
          case (1 w)
          obtain ys' b' c' protect where w: "w = (ys', b', c', protect)" by (cases w)
          show ?case unfolding w prod.case by (rule final) (use 1 a w in auto)
        qed
      qed (use 4 a assms in auto)
    qed (use 4 assms in \<open>auto intro!: yields_Less\<close>)
  qed (use assms in auto)
qed

lemma yields_quickSort:
  "mset xs = M \<Longrightarrow> b \<le> size M \<Longrightarrow> permutes lt M (quickSort lt depth a b xs)"
proof (induction depth arbitrary: a b xs)
  case 0
  then show ?case by (auto intro: yields_heapSort yields_sortShort)
next
  case (Suc depth)
  have "permutes lt M (do { (xs, mlo, mhi) \<leftarrow> doPivot lt a b xs;
       if mlo - a < b - mhi then quickSort lt depth a mlo xs \<bind> quickSort lt depth mhi b
       else quickSort lt depth mhi b xs \<bind> quickSort lt depth a mlo })" if "b - a > 12"
  proof (rule yields_bind [OF yields_doPivot], goal_cases)
    case (4 v)
    obtain ys mlo mhi where v: "v = (ys, mlo, mhi)" by (cases v)
    then have b: "mset ys = M" "mlo \<le> size M" "mhi \<le> size M" using 4 Suc.prems(2) by auto
    have "permutes lt M (quickSort lt depth a mlo ys \<bind> quickSort lt depth mhi b)"
      by (rule yields_bind [OF Suc.IH Suc.IH]) (use b Suc.prems in auto)
    moreover have "permutes lt M (quickSort lt depth mhi b ys \<bind> quickSort lt depth a mlo)"
      by (rule yields_bind [OF Suc.IH Suc.IH]) (use b Suc.prems in auto)
    ultimately show ?case unfolding v by simp
  qed (use Suc.prems that in auto)
  then show ?case using yields_sortShort [OF Suc.prems] by simp
qed

lemma yields_Sort: "permutes lt (mset xs) (Sort lt xs)"
  unfolding Sort_def by (rule yields_quickSort) auto

lemma Sort_mset: "Sort lt xs = Some ys \<Longrightarrow> mset ys = mset xs"
  using yields_Sort [of lt xs] by simp

lemma Sort_panics: "Sort lt xs = None \<Longrightarrow> \<exists>x y. {#x, y#} \<subseteq># mset xs \<and> lt x y = None"
  using yields_Sort [of lt xs] by (simp add: yields_def)

lemma Sort_total: "Sort (\<lambda>x y. Some (lt x y)) xs = Some (sort_by lt xs)"
  using Sort_panics [of "\<lambda>x y. Some (lt x y)" xs] by (cases "Sort (\<lambda>x y. Some (lt x y)) xs") (auto simp: sort_by_def)

lemma mset_sort_by [simp]: "mset (sort_by lt xs) = mset xs"
  using Sort_mset [OF Sort_total] .

lemma set_sort_by [simp]: "set (sort_by lt xs) = set xs"
  by (metis mset_sort_by set_mset_mset)

lemma length_sort_by [simp]: "length (sort_by lt xs) = length xs"
  by (metis mset_sort_by size_mset)

lemma sort_by_short [simp]: "sort_by lt [] = []" "sort_by lt [x] = [x]"
  by (simp_all add: sort_by_def Sort_def maxDepth_def bits.simps sortShort_def numeral_2_eq_2)

end
