(* ===== verification/Storage.thy ===== *)
theory Storage
  imports Merkle Params GoSort "HOL-Library.AList"
begin

text \<open>
  The package \<^verbatim>\<open>src/storage\<close>: the database buckets, the memory pools, the account state and the root keys,
  together with the global variables of the package \<^verbatim>\<open>miner\<close> that the other theories use.

  The database is the third-party package \<^verbatim>\<open>bolt\<close>: its content is a value of the type variable, and
  its operations on named buckets are the fields \<open>bGet\<close>, \<open>bPut\<close>, \<open>bDelete\<close> and \<open>bForEach\<close> of the environment.
  What the properties need of them is the predicate \<open>bolt_laws\<close>.

  \<^verbatim>\<open>State\<close> maps an address hash to a pointer to an account; every account is reached through one key, so
  writing through a pointer is an update of the map. Of the accounts in \<^verbatim>\<open>RootKeys\<close> only the addresses are
  read. The averages of transaction sizes, floating-point numbers, are left out.
  \<open>None\<close> is a panic, or the end of the process by \<^verbatim>\<open>logger.Fatal\<close>.
\<close>

record 'd env =
  crypto :: crypto_env
  bGet :: "'d \<Rightarrow> string \<Rightarrow> bytes \<Rightarrow> blob option"
  bPut :: "'d \<Rightarrow> string \<Rightarrow> bytes \<Rightarrow> blob \<Rightarrow> 'd"
  bDelete :: "'d \<Rightarrow> string \<Rightarrow> bytes \<Rightarrow> 'd"
  bForEach :: "'d \<Rightarrow> string \<Rightarrow> (bytes \<times> blob) list"

record SlashingProof =
  sp_ConflictingBlockHash1 :: hash
  sp_ConflictingBlockHash2 :: hash
  sp_ConflictingBlockHashWithoutTx1 :: hash
  sp_ConflictingBlockHashWithoutTx2 :: hash

record timerange =
  tr_first :: int
  tr_last :: int

record 'd world =
  db :: 'd
  State :: "hash \<Rightarrow> Account option"
  RootKeys :: "(hash \<times> bytes) list"
  ChamMap :: cham_map
  txMemPool :: "hash \<Rightarrow> Transaction option"
  txINVALIDMemPool :: "hash \<Rightarrow> Transaction option"
  bootstrapReceivedMemPool :: "hash \<Rightarrow> Transaction option"
  FundsTxBeforeAggregation :: "FundsTx list"
  ReceivedBlockStash :: "Block list"
  TxcntToTxMap :: "u32 \<Rightarrow> hash list"
  parameterSlice :: "Parameters list"
  globalBlockCount :: int
  localBlockCount :: int
  target :: "u8 list"
  currentTargetTime :: timerange
  targetTimes :: "timerange list"
  lastBlock :: "Block option"
  slashingDict :: "(hash \<times> SlashingProof) list"

text \<open>The content of a bucket after an operation on another key or bucket is unchanged.\<close>

definition bolt_laws :: "'d env \<Rightarrow> bool" where
  "bolt_laws E \<longleftrightarrow>
     (\<forall>d b k v b' k'. bGet E (bPut E d b k v) b' k' = (if b' = b \<and> k' = k then Some v else bGet E d b' k')) \<and>
     (\<forall>d b k b' k'. bGet E (bDelete E d b k) b' k' = (if b' = b \<and> k' = k then None else bGet E d b' k')) \<and>
     (\<forall>d b k v. (k, v) \<in> set (bForEach E d b) \<longleftrightarrow> bGet E d b k = Some v) \<and>
     (\<forall>d b. distinct (map fst (bForEach E d b)))"

text \<open>\<^verbatim>\<open>activeParameters\<close> always points to the last entry of \<^verbatim>\<open>parameterSlice\<close>.\<close>

definition activeParameters :: "'d world \<Rightarrow> Parameters" where
  "activeParameters w = last (parameterSlice w)"

subsection \<open>utils.go\<close>

definition GetAccount :: "'d world \<Rightarrow> hash \<Rightarrow> Account option" where
  "GetAccount w h = State w h"

definition IsRootKey :: "'d world \<Rightarrow> hash \<Rightarrow> bool" where
  "IsRootKey w h \<longleftrightarrow> map_of (RootKeys w) h \<noteq> None"

text \<open>\<^verbatim>\<open>GetRootAccount\<close>: \<open>Inl ()\<close> is the error of a root key without account, \<open>Inr None\<close> a nil account.\<close>

definition GetRootAccount :: "'d world \<Rightarrow> hash \<Rightarrow> unit + Account option" where
  "GetRootAccount w h =
     (if IsRootKey w h then (case GetAccount w h of None \<Rightarrow> Inl () | Some acc \<Rightarrow> Inr (Some acc)) else Inr None)"

subsection \<open>read.go\<close>

definition read_block :: "'d env \<Rightarrow> 'd world \<Rightarrow> string \<Rightarrow> hash \<Rightarrow> Block option" where
  "read_block E w bucket h = Option.bind (bGet E (db w) bucket h) Block_Decode"

definition ReadOpenBlock :: "'d env \<Rightarrow> 'd world \<Rightarrow> hash \<Rightarrow> Block option" where
  "ReadOpenBlock E w h = read_block E w ''openblocks'' h"

definition ReadClosedBlock :: "'d env \<Rightarrow> 'd world \<Rightarrow> hash \<Rightarrow> Block option" where
  "ReadClosedBlock E w h = read_block E w ''closedblocks'' h"

definition ReadClosedBlockWithoutTx :: "'d env \<Rightarrow> 'd world \<Rightarrow> hash \<Rightarrow> Block option" where
  "ReadClosedBlockWithoutTx E w h = read_block E w ''closedblockswithouttx'' h"

definition ReadLastClosedBlock :: "'d env \<Rightarrow> 'd world \<Rightarrow> Block option" where
  "ReadLastClosedBlock E w = (case bForEach E (db w) ''lastclosedblock'' of
     [] \<Rightarrow> None | (k, v) # _ \<Rightarrow> Block_Decode v)"

definition ByHeight_Less :: "Block \<Rightarrow> Block \<Rightarrow> bool" where
  "ByHeight_Less a b \<longleftrightarrow> bl_Height a < bl_Height b"

definition bucket_blocks :: "'d env \<Rightarrow> 'd world \<Rightarrow> string \<Rightarrow> Block list" where
  "bucket_blocks E w bucket = List.map_filter (\<lambda>(k, v). Block_Decode v) (bForEach E (db w) bucket)"

definition ReadAllClosedBlocksWithTransactions :: "'d env \<Rightarrow> 'd world \<Rightarrow> Block list" where
  "ReadAllClosedBlocksWithTransactions E w = sort_by ByHeight_Less
     (if ReadLastClosedBlock E w = None then [] else bucket_blocks E w ''closedblocks'')"

definition ReadAllClosedBlocks :: "'d env \<Rightarrow> 'd world \<Rightarrow> Block list" where
  "ReadAllClosedBlocks E w = sort_by ByHeight_Less
     (if ReadLastClosedBlock E w = None then []
      else bucket_blocks E w ''closedblocks'' @ bucket_blocks E w ''closedblockswithouttx'')"

definition ReadAllClosedFundsAndAggTransactions :: "'d env \<Rightarrow> 'd world \<Rightarrow> Transaction list" where
  "ReadAllClosedFundsAndAggTransactions E w =
     map TFunds (List.map_filter (\<lambda>(k, v). FundsTx_Decode v) (bForEach E (db w) ''closedfunds'')) @
     map TAgg (List.map_filter (\<lambda>(k, v). AggTx_Decode v) (bForEach E (db w) ''closedaggregations''))"

definition ReadOpenTx :: "'d world \<Rightarrow> hash \<Rightarrow> Transaction option" where
  "ReadOpenTx w h = txMemPool w h"

definition ReadTxcntToTx :: "'d world \<Rightarrow> u32 \<Rightarrow> hash list" where
  "ReadTxcntToTx w txCnt = TxcntToTxMap w txCnt"

definition ReadINVALIDOpenTx :: "'d world \<Rightarrow> hash \<Rightarrow> Transaction option" where
  "ReadINVALIDOpenTx w h = txINVALIDMemPool w h"

fun Raw_bytes :: "blob \<Rightarrow> bytes" where
  "Raw_bytes (Raw bs) = bs" | "Raw_bytes _ = []"

definition ReadClosedTx :: "'d env \<Rightarrow> 'd world \<Rightarrow> hash \<Rightarrow> Transaction option" where
  "ReadClosedTx E w h =
     (case bGet E (db w) ''closedfunds'' h of Some v \<Rightarrow> map_option TFunds (FundsTx_Decode v) | None \<Rightarrow>
     (case bGet E (db w) ''closedaccs'' h of Some v \<Rightarrow> map_option TAcc (AccTx_Decode v) | None \<Rightarrow>
     (case bGet E (db w) ''closeddeletes'' h of Some v \<Rightarrow> map_option TUpdate (UpdateTx_Decode v) | None \<Rightarrow>
     (case bGet E (db w) ''closedconfigs'' h of Some v \<Rightarrow> map_option TConfig (ConfigTx_Decode (Raw_bytes v)) | None \<Rightarrow>
     (case bGet E (db w) ''closedstakes'' h of Some v \<Rightarrow> map_option TStake (StakeTx_Decode (Raw_bytes v)) | None \<Rightarrow>
     (case bGet E (db w) ''closedaggregations'' h of Some v \<Rightarrow> map_option TAgg (AggTx_Decode v) | None \<Rightarrow> None))))))"

definition ReadBlockByTxHash :: "'d env \<Rightarrow> 'd world \<Rightarrow> hash \<Rightarrow> Block option" where
  "ReadBlockByTxHash E w txHash =
     (let blockHash = (case bGet E (db w) ''blocksbytxhash'' txHash of None \<Rightarrow> zero_hash | Some v \<Rightarrow> copy32 (Raw_bytes v))
      in case ReadOpenBlock E w blockHash of Some b \<Rightarrow> Some b | None \<Rightarrow> ReadClosedBlock E w blockHash)"

subsection \<open>write.go\<close>

definition WriteOpenBlock :: "'d env \<Rightarrow> Block \<Rightarrow> 'd world \<Rightarrow> 'd world" where
  "WriteOpenBlock E b w = w\<lparr>db := bPut E (db w) ''openblocks'' (bl_Hash b) (Block_Encode b)\<rparr>"

definition WriteClosedBlock :: "'d env \<Rightarrow> Block \<Rightarrow> 'd world \<Rightarrow> 'd world" where
  "WriteClosedBlock E b w = w\<lparr>db := bPut E (db w) ''closedblocks'' (bl_Hash b) (Block_Encode b)\<rparr>"

definition WriteClosedBlockWithoutTx :: "'d env \<Rightarrow> Block \<Rightarrow> 'd world \<Rightarrow> 'd world" where
  "WriteClosedBlockWithoutTx E b w = w\<lparr>db := bPut E (db w) ''closedblockswithouttx'' (bl_HashWithoutTx b) (Block_Encode b)\<rparr>"

definition WriteLastClosedBlock :: "'d env \<Rightarrow> Block \<Rightarrow> 'd world \<Rightarrow> 'd world" where
  "WriteLastClosedBlock E b w = w\<lparr>db := bPut E (db w) ''lastclosedblock'' (bl_Hash b) (Block_Encode b)\<rparr>"

definition world_Hash :: "'d env \<Rightarrow> 'd world \<Rightarrow> Transaction \<Rightarrow> hash option" where
  "world_Hash E w tx = tx_Hash (crypto E) (ChamMap w) tx"

definition WriteTxcntToTx :: "'d env \<Rightarrow> FundsTx \<Rightarrow> 'd world \<Rightarrow> 'd world option" where
  "WriteTxcntToTx E tx w = map_option (\<lambda>h. w\<lparr>TxcntToTxMap := (TxcntToTxMap w)(ft_TxCnt tx := TxcntToTxMap w (ft_TxCnt tx) @ [h])\<rparr>)
     (world_Hash E w (TFunds tx))"

definition WriteOpenTx :: "'d env \<Rightarrow> Transaction \<Rightarrow> 'd world \<Rightarrow> 'd world option" where
  "WriteOpenTx E tx w = (case world_Hash E w tx of None \<Rightarrow> None | Some h \<Rightarrow>
     let w' = w\<lparr>txMemPool := (txMemPool w)(h := Some tx)\<rparr> in
     (case tx of TFunds f \<Rightarrow> WriteTxcntToTx E f w' | _ \<Rightarrow> Some w'))"

definition WriteFundsTxBeforeAggregation :: "FundsTx \<Rightarrow> 'd world \<Rightarrow> 'd world" where
  "WriteFundsTxBeforeAggregation tx w = w\<lparr>FundsTxBeforeAggregation := FundsTxBeforeAggregation w @ [tx]\<rparr>"

definition WriteBootstrapTxReceived :: "'d env \<Rightarrow> Transaction \<Rightarrow> 'd world \<Rightarrow> 'd world option" where
  "WriteBootstrapTxReceived E tx w = map_option (\<lambda>h. w\<lparr>bootstrapReceivedMemPool := (bootstrapReceivedMemPool w)(h := Some tx)\<rparr>)
     (world_Hash E w tx)"

definition WriteINVALIDOpenTx :: "'d env \<Rightarrow> Transaction \<Rightarrow> 'd world \<Rightarrow> 'd world option" where
  "WriteINVALIDOpenTx E tx w = map_option (\<lambda>h. w\<lparr>txINVALIDMemPool := (txINVALIDMemPool w)(h := Some tx)\<rparr>) (world_Hash E w tx)"

fun BlockAlreadyInStash :: "Block list \<Rightarrow> hash \<Rightarrow> bool" where
  "BlockAlreadyInStash [] h = False"
| "BlockAlreadyInStash (b # bs) h = (if bl_Hash b = h then True else BlockAlreadyInStash bs h)"

definition WriteToReceivedStash :: "Block \<Rightarrow> 'd world \<Rightarrow> 'd world" where
  "WriteToReceivedStash b w =
     (if BlockAlreadyInStash (ReceivedBlockStash w) (bl_Hash b) then w
      else let stash = ReceivedBlockStash w @ [b]
           in w\<lparr>ReceivedBlockStash := (if length stash > 100 then drop 1 stash else stash)\<rparr>)"

primrec closed_bucket :: "Transaction \<Rightarrow> string" where
  "closed_bucket (TFunds _) = ''closedfunds''"
| "closed_bucket (TAcc _) = ''closedaccs''"
| "closed_bucket (TConfig _) = ''closedconfigs''"
| "closed_bucket (TStake _) = ''closedstakes''"
| "closed_bucket (TAgg _) = ''closedaggregations''"
| "closed_bucket (TUpdate _) = ''closeddeletes''"

definition WriteClosedTx :: "'d env \<Rightarrow> Transaction \<Rightarrow> 'd world \<Rightarrow> 'd world option" where
  "WriteClosedTx E tx w = map_option (\<lambda>h. w\<lparr>db := bPut E (db w) (closed_bucket tx) h (tx_Encode tx)\<rparr>) (world_Hash E w tx)"

definition WriteBlockHashByTxHash :: "'d env \<Rightarrow> hash \<Rightarrow> hash \<Rightarrow> 'd world \<Rightarrow> 'd world" where
  "WriteBlockHashByTxHash E txHash bHash w = w\<lparr>db := bPut E (db w) ''blocksbytxhash'' txHash (Raw bHash)\<rparr>"

subsection \<open>delete.go\<close>

definition delete_in :: "'d env \<Rightarrow> string \<Rightarrow> hash \<Rightarrow> 'd world \<Rightarrow> 'd world" where
  "delete_in E bucket h w = w\<lparr>db := bDelete E (db w) bucket h\<rparr>"

definition DeleteOpenBlock :: "'d env \<Rightarrow> hash \<Rightarrow> 'd world \<Rightarrow> 'd world" where
  "DeleteOpenBlock E h w = delete_in E ''openblocks'' h w"

definition DeleteClosedBlock :: "'d env \<Rightarrow> hash \<Rightarrow> 'd world \<Rightarrow> 'd world" where
  "DeleteClosedBlock E h w = delete_in E ''closedblocks'' h w"

definition DeleteClosedBlockWithoutTx :: "'d env \<Rightarrow> hash \<Rightarrow> 'd world \<Rightarrow> 'd world" where
  "DeleteClosedBlockWithoutTx E h w = delete_in E ''closedblockswithouttx'' h w"

definition DeleteLastClosedBlock :: "'d env \<Rightarrow> hash \<Rightarrow> 'd world \<Rightarrow> 'd world" where
  "DeleteLastClosedBlock E h w = delete_in E ''lastclosedblock'' h w"

definition empty_bucket :: "'d env \<Rightarrow> string \<Rightarrow> 'd world \<Rightarrow> 'd world" where
  "empty_bucket E bucket w = fold (\<lambda>(k, v). delete_in E bucket k) (bForEach E (db w) bucket) w"

definition DeleteAllLastClosedBlock :: "'d env \<Rightarrow> 'd world \<Rightarrow> 'd world" where
  "DeleteAllLastClosedBlock E w = empty_bucket E ''lastclosedblock'' w"

definition DeleteOpenTx :: "'d env \<Rightarrow> Transaction \<Rightarrow> 'd world \<Rightarrow> 'd world option" where
  "DeleteOpenTx E tx w = map_option (\<lambda>h. w\<lparr>txMemPool := (txMemPool w)(h := None)\<rparr>) (world_Hash E w tx)"

definition DeleteINVALIDOpenTx :: "'d env \<Rightarrow> Transaction \<Rightarrow> 'd world \<Rightarrow> 'd world option" where
  "DeleteINVALIDOpenTx E tx w = map_option (\<lambda>h. w\<lparr>txINVALIDMemPool := (txINVALIDMemPool w)(h := None)\<rparr>) (world_Hash E w tx)"

definition DeleteAllFundsTxBeforeAggregation :: "'d world \<Rightarrow> 'd world" where
  "DeleteAllFundsTxBeforeAggregation w = w\<lparr>FundsTxBeforeAggregation := []\<rparr>"

definition DeleteClosedTx :: "'d env \<Rightarrow> Transaction \<Rightarrow> 'd world \<Rightarrow> 'd world option" where
  "DeleteClosedTx E tx w = map_option (\<lambda>h. delete_in E (closed_bucket tx) h w) (world_Hash E w tx)"

text \<open>The loop runs over the keys of \<^verbatim>\<open>txMemPool\<close>, not of the pool it empties.\<close>

definition DeleteBootstrapReceivedMempool :: "'d world \<Rightarrow> 'd world" where
  "DeleteBootstrapReceivedMempool w =
     w\<lparr>bootstrapReceivedMemPool := (\<lambda>h. if txMemPool w h \<noteq> None then None else bootstrapReceivedMemPool w h)\<rparr>"

definition DeleteAll :: "'d env \<Rightarrow> 'd world \<Rightarrow> 'd world" where
  "DeleteAll E w = fold (empty_bucket E)
     [''openblocks'', ''closedblocks'', ''closedblockswithouttx'', ''closedfunds'', ''closedaccs'', ''closedconfigs'',
      ''closedstakes'', ''lastclosedblock'', ''closeddeletes''] (w\<lparr>txMemPool := Map.empty\<rparr>)"

subsection \<open>update.go\<close>

text \<open>The check of the listed transactions: \<open>None\<close> when the type assertion panics.\<close>

fun all_aggregated :: "'d env \<Rightarrow> 'd world \<Rightarrow> (Transaction \<Rightarrow> bool option) \<Rightarrow> hash list \<Rightarrow> bool option" where
  "all_aggregated E w agg [] = Some True"
| "all_aggregated E w agg (h # hs) = (case ReadClosedTx E w h of
     None \<Rightarrow> Some False
   | Some tx \<Rightarrow> (case agg tx of None \<Rightarrow> None | Some False \<Rightarrow> Some False | Some True \<Rightarrow> all_aggregated E w agg hs))"

fun funds_aggregated :: "Transaction \<Rightarrow> bool option" where
  "funds_aggregated (TFunds tx) = Some (ft_Aggregated tx)" | "funds_aggregated _ = None"

fun agg_aggregated :: "Transaction \<Rightarrow> bool option" where
  "agg_aggregated (TAgg tx) = Some (gt_Aggregated tx)" | "agg_aggregated _ = None"

text \<open>\<^verbatim>\<open>BlockReadyToAggregate\<close> also empties the block it is given.\<close>

definition BlockReadyToAggregate :: "'d env \<Rightarrow> 'd world \<Rightarrow> Block \<Rightarrow> (bool \<times> Block) option" where
  "BlockReadyToAggregate E w b =
     (if bl_NrAggTx b = 0 \<and> bl_NrStakeTx b = 0 \<and> bl_NrFundsTx b = 0 \<and> bl_NrAccTx b = 0 \<and> bl_NrConfigTx b = 0 then Some (True, b)
      else if bl_NrStakeTx b > 0 \<and> bl_NrAccTx b > 0 \<and> bl_NrConfigTx b > 0 then Some (False, b)
      else case all_aggregated E w funds_aggregated (bl_FundsTxData b) of
        None \<Rightarrow> None
      | Some False \<Rightarrow> Some (False, b)
      | Some True \<Rightarrow> (case all_aggregated E w agg_aggregated (bl_AggTxData b) of
          None \<Rightarrow> None
        | Some False \<Rightarrow> Some (False, b)
        | Some True \<Rightarrow> Some (True, b\<lparr>bl_FundsTxData := [], bl_NrFundsTx := 0, bl_AggTxData := [], bl_NrAggTx := 0\<rparr>)))"

definition UpdateBlocksToBlocksWithoutTx :: "'d env \<Rightarrow> Block \<Rightarrow> 'd world \<Rightarrow> 'd world option" where
  "UpdateBlocksToBlocksWithoutTx E b w = (case BlockReadyToAggregate E w b of
     None \<Rightarrow> None
   | Some (False, _) \<Rightarrow> Some w
   | Some (True, b') \<Rightarrow> let b'' = b'\<lparr>bl_Aggregated := True\<rparr>
       in Some (DeleteClosedBlock E (bl_Hash b'') (WriteClosedBlockWithoutTx E b'' w)))"

end
