(* ===== verification/Ledger.thy ===== *)
theory Ledger
  imports Storage
begin

text \<open>
  State changes and their rollbacks: \<^verbatim>\<open>src/miner/state.go\<close> and \<^verbatim>\<open>src/miner/staterollback.go\<close>. An operation takes
  the world and returns \<open>Some (err, w')\<close>, where \<open>err\<close> is the error it returns, if any, and \<open>w'\<close> the world it
  leaves behind, errors included; \<open>None\<close> is a panic (a nil account is dereferenced, or a hash cannot be
  computed). The pointers to accounts become reads and updates of the map \<open>State\<close>.
\<close>

datatype ledger_error =
    AccountExists | AccountMissing | RootAccountMissing | RootOverflow | TxCntMismatch | NotEnoughFunds | StakingMinimumViolated
  | ReceiverOverflow | StakingAlreadySet | StakeTooLow | FeeUncovered | MinerOverflow | RewardOverflow | SlashOverflow

type_synonym 'd outcome = "(ledger_error option \<times> 'd world) option"

subsection \<open>Writing through account pointers\<close>

definition updAcc :: "hash \<Rightarrow> (Account \<Rightarrow> Account) \<Rightarrow> 'd world \<Rightarrow> 'd world" where
  "updAcc h f w = w\<lparr>State := (State w)(h := map_option f (State w h))\<rparr>"

abbreviation addBalance :: "u64 \<Rightarrow> Account \<Rightarrow> Account" where
  "addBalance v a \<equiv> a\<lparr>acc_Balance := acc_Balance a + v\<rparr>"

abbreviation subBalance :: "u64 \<Rightarrow> Account \<Rightarrow> Account" where
  "subBalance v a \<equiv> a\<lparr>acc_Balance := acc_Balance a - v\<rparr>"

text \<open>A loop over a slice that stops at the first error.\<close>

fun run_each :: "('a \<Rightarrow> 'd world \<Rightarrow> 'd outcome) \<Rightarrow> 'a list \<Rightarrow> 'd world \<Rightarrow> 'd outcome" where
  "run_each step [] w = Some (None, w)"
| "run_each step (x # xs) w = (case step x w of
     None \<Rightarrow> None
   | Some (Some e, w') \<Rightarrow> Some (Some e, w')
   | Some (None, w') \<Rightarrow> run_each step xs w')"

text \<open>A loop whose body can only panic.\<close>

fun do_each :: "('a \<Rightarrow> 'd world \<Rightarrow> 'd world option) \<Rightarrow> 'a list \<Rightarrow> 'd world \<Rightarrow> 'd world option" where
  "do_each step [] w = Some w"
| "do_each step (x # xs) w = (case step x w of None \<Rightarrow> None | Some w' \<Rightarrow> do_each step xs w')"

text \<open>The dereference of an account pointer: \<open>None\<close> if it is nil.\<close>

definition withAcc :: "hash \<Rightarrow> (Account \<Rightarrow> Account) \<Rightarrow> 'd world \<Rightarrow> 'd world option" where
  "withAcc h f w = (if State w h = None then None else Some (updAcc h f w))"

subsection \<open>state.go\<close>

definition accTxChange :: "'d env \<Rightarrow> AccTx \<Rightarrow> 'd world \<Rightarrow> 'd outcome" where
  "accTxChange E tx w =
     (if at_Header tx \<noteq> 2 then
        let newAcc = NewAccount (at_PubKey tx) (at_Issuer tx) 0 False (replicate 256 0) (at_Contract tx)
              (at_ContractVariables tx) (at_Parameters tx);
            h = Account_Hash (crypto E) newAcc
        in if GetAccount w h \<noteq> None then Some (Some AccountExists, w)
           else let w' = w\<lparr>State := (State w)(h := Some newAcc), ChamMap := (ChamMap w)(h := acc_Parameters newAcc)\<rparr>
                in Some (None, if at_Header tx = 1 then w'\<lparr>RootKeys := AList.update h (acc_Address newAcc) (RootKeys w')\<rparr> else w')
      else let h = SerializeHashContent (crypto E) (fbytes (at_PubKey tx))
           in if GetAccount w h = None then Some (Some AccountMissing, w)
              else Some (None, w\<lparr>RootKeys := AList.delete h (RootKeys w)\<rparr>))"

definition accStateChange :: "'d env \<Rightarrow> AccTx list \<Rightarrow> 'd world \<Rightarrow> 'd outcome" where
  "accStateChange E = run_each (accTxChange E)"

text \<open>The error of a funds transaction: every check that fails overwrites the one before.\<close>

definition fundsTxError :: "bool \<Rightarrow> FundsTx \<Rightarrow> Account \<Rightarrow> Account option \<Rightarrow> ledger_error option" where
  "fundsTxError initialSetup tx accSender accReceiver =
     (let err0 = (if accReceiver = None then Some AccountMissing else None);
          err1 = (if \<not> initialSetup \<and> \<not> ft_Aggregated tx \<and> ft_TxCnt tx \<noteq> acc_TxCnt accSender then
                    if ft_TxCnt tx < acc_TxCnt accSender then err0 else Some TxCntMismatch
                  else err0);
          err2 = (if \<not> initialSetup \<and> ft_Amount tx + ft_Fee tx > acc_Balance accSender then Some NotEnoughFunds else err1);
          err3 = (if acc_IsStaking accSender \<and> ft_Fee tx + MIN_STAKING_MINIMUM + ft_Amount tx > acc_Balance accSender
                  then Some StakingMinimumViolated else err2)
      in if \<not> initialSetup \<and> ft_Amount tx + (case accReceiver of None \<Rightarrow> 0 | Some r \<Rightarrow> acc_Balance r) > MAX_MONEY
         then Some ReceiverOverflow else err3)"

definition fundsTxChange :: "'d env \<Rightarrow> bool \<Rightarrow> FundsTx \<Rightarrow> 'd world \<Rightarrow> 'd outcome" where
  "fundsTxChange E initialSetup tx w =
     (case world_Hash E w (TFunds tx) of None \<Rightarrow> None | Some h \<Rightarrow>
      if ReadClosedTx E w h \<noteq> None \<and> \<not> initialSetup then Some (None, w)
      else case GetRootAccount w (ft_From tx) of
        Inl _ \<Rightarrow> Some (Some RootAccountMissing, w)
      | Inr rootAcc \<Rightarrow>
        if rootAcc \<noteq> None \<and> acc_Balance (the rootAcc) + ft_Amount tx + ft_Fee tx > MAX_MONEY then Some (Some RootOverflow, w)
        else
          let w1 = (if rootAcc \<noteq> None then updAcc (ft_From tx) (\<lambda>a. addBalance (ft_Fee tx) (addBalance (ft_Amount tx) a)) w else w)
          in case GetAccount w1 (ft_From tx) of
               None \<Rightarrow> None
             | Some accSender \<Rightarrow>
               (let accReceiver = GetAccount w1 (ft_To tx) in
                if accReceiver = None \<and> \<not> initialSetup then None
                else case fundsTxError initialSetup tx accSender accReceiver of
                       Some e \<Rightarrow> Some (Some e, if rootAcc \<noteq> None
                         then updAcc (ft_From tx) (\<lambda>a. subBalance (ft_Fee tx) (subBalance (ft_Amount tx) a)) w1 else w1)
                     | None \<Rightarrow> Some (None, updAcc (ft_To tx) (addBalance (ft_Amount tx))
                         (updAcc (ft_From tx) (\<lambda>a. subBalance (ft_Amount tx) (a\<lparr>acc_TxCnt := acc_TxCnt a + 1\<rparr>)) w1))))"

definition fundsStateChange :: "'d env \<Rightarrow> bool \<Rightarrow> FundsTx list \<Rightarrow> 'd world \<Rightarrow> 'd outcome" where
  "fundsStateChange E initialSetup = run_each (fundsTxChange E initialSetup)"

definition ByTxCount_Less :: "FundsTx \<Rightarrow> FundsTx \<Rightarrow> bool" where
  "ByTxCount_Less a b \<longleftrightarrow> ft_TxCnt a \<le> ft_TxCnt b"

definition aggTxStateChange :: "'d env \<Rightarrow> bool \<Rightarrow> FundsTx list \<Rightarrow> 'd world \<Rightarrow> 'd outcome" where
  "aggTxStateChange E initialSetup txSlice = fundsStateChange E initialSetup (sort_by ByTxCount_Less txSlice)"

definition configStateChange :: "ConfigTx list \<Rightarrow> hash \<Rightarrow> 'd world \<Rightarrow> 'd world" where
  "configStateChange configTxs blockHash w =
     (if configTxs = [] then w
      else case CheckAndChangeParameters (activeParameters w) (State w) configTxs of
        (p, S, change) \<Rightarrow> let w' = w\<lparr>State := S\<rparr> in
          if change then w'\<lparr>parameterSlice := parameterSlice w' @ [p\<lparr>pa_BlockHash := blockHash\<rparr>]\<rparr> else w')"

definition stakeTxChange :: "u32 \<Rightarrow> bool \<Rightarrow> StakeTx \<Rightarrow> 'd world \<Rightarrow> 'd outcome" where
  "stakeTxChange height initialSetup tx w =
     (case GetAccount w (st_Account tx) of None \<Rightarrow> None | Some acc \<Rightarrow>
      let err1 = (if st_IsStaking tx = acc_IsStaking acc then Some StakingAlreadySet else None);
          err2 = (if \<not> initialSetup \<and> st_IsStaking tx \<and> acc_Balance acc < st_Fee tx + StakingMinimum (activeParameters w)
                  then Some StakeTooLow else err1);
          err3 = (if \<not> initialSetup \<and> st_Fee tx > acc_Balance acc then Some FeeUncovered else err2)
      in case err3 of
           Some e \<Rightarrow> Some (Some e, w)
         | None \<Rightarrow> Some (None, updAcc (st_Account tx) (\<lambda>a. a\<lparr>acc_IsStaking := st_IsStaking tx,
             acc_CommitmentKey := st_CommitmentKey tx, acc_StakingBlockHeight := height\<rparr>) w))"

definition stakeStateChange :: "StakeTx list \<Rightarrow> u32 \<Rightarrow> bool \<Rightarrow> 'd world \<Rightarrow> 'd outcome" where
  "stakeStateChange txSlice height initialSetup = run_each (stakeTxChange height initialSetup) txSlice"

fun open_fundsTx :: "'d world \<Rightarrow> hash \<Rightarrow> FundsTx option" where
  "open_fundsTx w h = (case ReadOpenTx w h of Some (TFunds tx) \<Rightarrow> Some tx | _ \<Rightarrow> None)"

definition getFundsTxFromAggTx :: "'d world \<Rightarrow> hash list \<Rightarrow> FundsTx list" where
  "getFundsTxFromAggTx w AggregatedTxSlice = List.map_filter (open_fundsTx w) AggregatedTxSlice"

subsection \<open>Fees and rewards\<close>

text \<open>
  The four loops of \<^verbatim>\<open>collectTxFees\<close>. A fee that only the miner receives comes from an account or
  configuration transaction; the other fees are also taken from a sender. In those two loops the overflow
  error is overwritten by the result of \<^verbatim>\<open>GetAccount\<close>.
\<close>

definition mintFee :: "hash \<Rightarrow> u64 \<Rightarrow> 'd world \<Rightarrow> 'd outcome" where
  "mintFee minerHash fee w = (case State w minerHash of None \<Rightarrow> None | Some minerAcc \<Rightarrow>
     if acc_Balance minerAcc + fee > MAX_MONEY then Some (Some MinerOverflow, w)
     else Some (None, updAcc minerHash (addBalance fee) w))"

definition moveFee :: "hash \<Rightarrow> hash \<times> u64 \<Rightarrow> 'd world \<Rightarrow> 'd outcome" where
  "moveFee minerHash p w = (case p of (sender, fee) \<Rightarrow>
     if State w minerHash = None then None
     else if GetAccount w sender = None then Some (Some AccountMissing, w)
     else Some (None, updAcc sender (subBalance fee) (updAcc minerHash (addBalance fee) w)))"

definition minusFee :: "hash \<Rightarrow> u64 \<Rightarrow> 'd world \<Rightarrow> 'd world option" where
  "minusFee minerHash fee w = withAcc minerHash (subBalance fee) w"

definition returnFee :: "hash \<Rightarrow> hash \<times> u64 \<Rightarrow> 'd world \<Rightarrow> 'd world option" where
  "returnFee minerHash p w = (case p of (sender, fee) \<Rightarrow>
     (case withAcc minerHash (subBalance fee) w of None \<Rightarrow> None | Some w' \<Rightarrow> withAcc sender (addBalance fee) w'))"

definition collectTxFeesRollback ::
    "AccTx list \<Rightarrow> FundsTx list \<Rightarrow> ConfigTx list \<Rightarrow> StakeTx list \<Rightarrow> hash \<Rightarrow> 'd world \<Rightarrow> 'd world option" where
  "collectTxFeesRollback accTx fundsTx configTx stakeTx minerHash w =
     (case do_each (minusFee minerHash) (map at_Fee accTx) w of None \<Rightarrow> None | Some w1 \<Rightarrow>
     (case do_each (returnFee minerHash) (map (\<lambda>tx. (ft_From tx, ft_Fee tx)) fundsTx) w1 of None \<Rightarrow> None | Some w2 \<Rightarrow>
     (case do_each (minusFee minerHash) (map ct_Fee configTx) w2 of None \<Rightarrow> None | Some w3 \<Rightarrow>
      do_each (returnFee minerHash) (map (\<lambda>tx. (st_Account tx, st_Fee tx)) stakeTx) w3)))"

text \<open>
  One loop with the transactions it has already handled, for the rollback at an error. The argument
  \<open>undo\<close> is the rollback of what this loop has done.
\<close>

fun fee_loop :: "('a \<Rightarrow> 'd world \<Rightarrow> 'd outcome) \<Rightarrow> ('a list \<Rightarrow> 'd world \<Rightarrow> 'd world option) \<Rightarrow> 'a list \<Rightarrow> 'a list \<Rightarrow> 'd world \<Rightarrow> 'd outcome" where
  "fee_loop step undo tmp [] w = Some (None, w)"
| "fee_loop step undo tmp (tx # txs) w = (case step tx w of
     None \<Rightarrow> None
   | Some (Some e, w') \<Rightarrow> (case undo tmp w' of None \<Rightarrow> None | Some w'' \<Rightarrow> Some (Some e, w''))
   | Some (None, w') \<Rightarrow> fee_loop step undo (tmp @ [tx]) txs w')"

definition collectTxFees :: "AccTx list \<Rightarrow> FundsTx list \<Rightarrow> ConfigTx list \<Rightarrow> StakeTx list \<Rightarrow> AggTx list \<Rightarrow> hash \<Rightarrow> 'd world \<Rightarrow> 'd outcome" where
  "collectTxFees accTxs fundsTxs configTxs stakeTxs aggTxs minerHash w =
     (if GetAccount w minerHash = None then Some (Some AccountMissing, w)
      else let funds = fundsTxs @ concat (map (\<lambda>tx. getFundsTxFromAggTx w (gt_AggregatedTxSlice tx)) aggTxs) in
      (case fee_loop (\<lambda>tx. mintFee minerHash (at_Fee tx)) (\<lambda>tmp. collectTxFeesRollback tmp [] [] [] minerHash) [] accTxs w of
         Some (None, w1) \<Rightarrow>
      (case fee_loop (\<lambda>tx. moveFee minerHash (ft_From tx, ft_Fee tx)) (\<lambda>tmp. collectTxFeesRollback accTxs tmp [] [] minerHash) [] funds w1 of
         Some (None, w2) \<Rightarrow>
      (case fee_loop (\<lambda>tx. mintFee minerHash (ct_Fee tx)) (\<lambda>tmp. collectTxFeesRollback accTxs funds tmp [] minerHash) [] configTxs w2 of
         Some (None, w3) \<Rightarrow>
           fee_loop (\<lambda>tx. moveFee minerHash (st_Account tx, st_Fee tx))
             (\<lambda>tmp. collectTxFeesRollback accTxs funds configTxs tmp minerHash) [] stakeTxs w3
       | r \<Rightarrow> r) | r \<Rightarrow> r) | r \<Rightarrow> r))"

definition collectBlockReward :: "u64 \<Rightarrow> hash \<Rightarrow> bool \<Rightarrow> 'd world \<Rightarrow> 'd outcome" where
  "collectBlockReward reward minerHash initialSetup w = (case GetAccount w minerHash of
     None \<Rightarrow> if initialSetup then Some (Some AccountMissing, w) else None
   | Some miner \<Rightarrow> if \<not> initialSetup \<and> acc_Balance miner + reward > MAX_MONEY then Some (Some RewardOverflow, w)
                   else Some (None, updAcc minerHash (addBalance reward) w))"

definition hasSlashingProof :: "Block \<Rightarrow> bool" where
  "hasSlashingProof b \<longleftrightarrow> bl_SlashedAddress b \<noteq> zero_hash \<or> bl_ConflictingBlockHash1 b \<noteq> zero_hash \<or> bl_ConflictingBlockHash2 b \<noteq> zero_hash \<or>
     bl_ConflictingBlockHashWithoutTx1 b \<noteq> zero_hash \<or> bl_ConflictingBlockHashWithoutTx2 b \<noteq> zero_hash"

definition collectSlashReward :: "u64 \<Rightarrow> Block \<Rightarrow> 'd world \<Rightarrow> 'd outcome" where
  "collectSlashReward reward b w =
     (if hasSlashingProof b then
        case GetAccount w (bl_Beneficiary b) of None \<Rightarrow> None | Some minerAcc \<Rightarrow>
          if acc_Balance minerAcc + reward > MAX_MONEY then Some (Some SlashOverflow, w)
          else if GetAccount w (bl_SlashedAddress b) = None then Some (Some AccountMissing, w)
          else Some (None, updAcc (bl_SlashedAddress b) (\<lambda>a. (subBalance (StakingMinimum (activeParameters w)) a)\<lparr>acc_IsStaking := False\<rparr>)
                 (updAcc (bl_Beneficiary b) (addBalance reward) w))
      else Some (None, w))"

definition updateStakingHeight :: "Block \<Rightarrow> 'd world \<Rightarrow> 'd outcome" where
  "updateStakingHeight b w = (if GetAccount w (bl_Beneficiary b) = None then Some (Some AccountMissing, w)
     else Some (None, updAcc (bl_Beneficiary b) (\<lambda>a. a\<lparr>acc_StakingBlockHeight := bl_Height b\<rparr>) w))"

subsection \<open>staterollback.go\<close>

text \<open>\<^verbatim>\<open>logger.Fatal\<close> ends the process when the account is missing.\<close>

definition accTxRollback :: "'d env \<Rightarrow> AccTx \<Rightarrow> 'd world \<Rightarrow> 'd world option" where
  "accTxRollback E tx w =
     (if at_Header tx = 0 \<or> at_Header tx = 1 \<or> at_Header tx = 2 then
        let h = SerializeHashContent (crypto E) (fbytes (at_PubKey tx)) in
        case GetAccount w h of None \<Rightarrow> None | Some acc \<Rightarrow>
          let w' = w\<lparr>State := (State w)(h := None)\<rparr> in
          Some (if at_Header tx = 1 then w'\<lparr>RootKeys := AList.delete h (RootKeys w')\<rparr>
                else if at_Header tx = 2 then w'\<lparr>RootKeys := AList.update h (acc_Address acc) (RootKeys w')\<rparr> else w')
      else Some w)"

definition accStateChangeRollback :: "'d env \<Rightarrow> AccTx list \<Rightarrow> 'd world \<Rightarrow> 'd world option" where
  "accStateChangeRollback E = do_each (accTxRollback E)"

definition fundsTxRollback :: "FundsTx \<Rightarrow> 'd world \<Rightarrow> 'd world option" where
  "fundsTxRollback tx w =
     (case withAcc (ft_From tx) (\<lambda>a. addBalance (ft_Amount tx) (a\<lparr>acc_TxCnt := acc_TxCnt a - 1\<rparr>)) w of None \<Rightarrow> None | Some w1 \<Rightarrow>
     (case withAcc (ft_To tx) (subBalance (ft_Amount tx)) w1 of None \<Rightarrow> None | Some w2 \<Rightarrow>
      Some (case GetRootAccount w2 (ft_From tx) of
              Inr (Some _) \<Rightarrow> updAcc (ft_From tx) (\<lambda>a. subBalance (ft_Fee tx) (subBalance (ft_Amount tx) a)) w2
            | _ \<Rightarrow> w2)))"

definition fundsStateChangeRollback :: "FundsTx list \<Rightarrow> 'd world \<Rightarrow> 'd world option" where
  "fundsStateChangeRollback txSlice = do_each fundsTxRollback (rev txSlice)"

definition configStateChangeRollback :: "ConfigTx list \<Rightarrow> hash \<Rightarrow> 'd world \<Rightarrow> 'd world option" where
  "configStateChangeRollback txSlice blockHash w =
     (if txSlice = [] then Some w
      else if parameterSlice w = [] then None
      else if pa_BlockHash (last (parameterSlice w)) \<noteq> blockHash then Some w
      else if butlast (parameterSlice w) = [] then None
      else Some (w\<lparr>parameterSlice := butlast (parameterSlice w)\<rparr>))"

definition stakeTxRollback :: "StakeTx \<Rightarrow> 'd world \<Rightarrow> 'd world option" where
  "stakeTxRollback tx w = withAcc (st_Account tx) (\<lambda>a. a\<lparr>acc_IsStaking := \<not> acc_IsStaking a\<rparr>) w"

definition stakeStateChangeRollback :: "StakeTx list \<Rightarrow> 'd world \<Rightarrow> 'd world option" where
  "stakeStateChangeRollback txSlice = do_each stakeTxRollback (rev txSlice)"

definition collectBlockRewardRollback :: "u64 \<Rightarrow> hash \<Rightarrow> 'd world \<Rightarrow> 'd world option" where
  "collectBlockRewardRollback reward minerHash w = withAcc minerHash (subBalance reward) w"

definition collectSlashRewardRollback :: "u64 \<Rightarrow> Block \<Rightarrow> 'd world \<Rightarrow> 'd world option" where
  "collectSlashRewardRollback reward b w =
     (if hasSlashingProof b then
        case withAcc (bl_Beneficiary b) (subBalance reward) w of None \<Rightarrow> None | Some w1 \<Rightarrow>
          withAcc (bl_SlashedAddress b) (\<lambda>a. (addBalance (StakingMinimum (activeParameters w1)) a)\<lparr>acc_IsStaking := True\<rparr>) w1
      else Some w)"

end
