(* ===== verification/LedgerRollback.thy ===== *)
theory LedgerRollback
  imports Ledger
begin

text \<open>
  State changes and rollbacks as adjustments. Every operation of \<^verbatim>\<open>state.go\<close> that moves money adds, modulo the
  word sizes, a fixed amount to the transaction counters and balances of the existing accounts. Such
  adjustments commute and have inverses; the rollbacks of \<^verbatim>\<open>staterollback.go\<close> are shown to be the inverses.
\<close>

definition adj :: "(hash \<Rightarrow> u32) \<Rightarrow> (hash \<Rightarrow> u64) \<Rightarrow> 'd world \<Rightarrow> 'd world" where
  "adj n b w = w\<lparr>State := (\<lambda>h. map_option (\<lambda>a. a\<lparr>acc_TxCnt := acc_TxCnt a + n h, acc_Balance := acc_Balance a + b h\<rparr>) (State w h))\<rparr>"

definition at_acc :: "hash \<Rightarrow> 'a::zero \<Rightarrow> hash \<Rightarrow> 'a" where
  "at_acc h v = (\<lambda>x. if x = h then v else 0)"

lemma at_acc_neg [simp]: "at_acc h (- v :: 'a::group_add) x = - at_acc h v x"
  by (simp add: at_acc_def)

lemma at_acc_add [simp]: "at_acc h (u + v :: 'a::monoid_add) x = at_acc h u x + at_acc h v x"
  by (simp add: at_acc_def)

lemma at_acc_diff [simp]: "at_acc h (u - v :: 'a::group_add) x = at_acc h u x - at_acc h v x"
  by (simp add: at_acc_def)

abbreviation none32 :: "hash \<Rightarrow> u32" where "none32 \<equiv> (\<lambda>_. 0)"

lemma adj_adj [simp]: "adj n b (adj n' b' w) = adj (\<lambda>h. n h + n' h) (\<lambda>h. b h + b' h) w"
  by (simp add: adj_def option.map_comp comp_def ac_simps)

lemma adj_zero: "\<forall>h. n h = 0 \<Longrightarrow> \<forall>h. b h = 0 \<Longrightarrow> adj n b w = w"
  by (simp add: adj_def option.map_ident)

lemma adj_simps [simp]:
  "db (adj n b w) = db w" "RootKeys (adj n b w) = RootKeys w" "ChamMap (adj n b w) = ChamMap w"
  "parameterSlice (adj n b w) = parameterSlice w" "txMemPool (adj n b w) = txMemPool w"
  "(State (adj n b w) h = None) = (State w h = None)"
  by (simp_all add: adj_def)

lemma adj_account:
  "State (adj n b w) h = map_option (\<lambda>a. a\<lparr>acc_TxCnt := acc_TxCnt a + n h, acc_Balance := acc_Balance a + b h\<rparr>) (State w h)"
  by (simp add: adj_def)

lemma IsRootKey_adj [simp]: "IsRootKey (adj n b w) h = IsRootKey w h"
  by (simp add: IsRootKey_def)

lemma world_Hash_adj [simp]: "world_Hash E (adj n b w) tx = world_Hash E w tx"
  by (simp add: world_Hash_def)

lemma ReadClosedTx_adj [simp]: "ReadClosedTx E (adj n b w) h = ReadClosedTx E w h"
  by (simp only: ReadClosedTx_def adj_simps)

lemma activeParameters_adj [simp]: "activeParameters (adj n b w) = activeParameters w"
  by (simp add: activeParameters_def)

text \<open>Updates through one pointer are adjustments.\<close>

lemma updAcc_adj:
  "updAcc h (\<lambda>a. a\<lparr>acc_Balance := acc_Balance a + v\<rparr>) w = adj none32 (at_acc h v) w"
  "updAcc h (\<lambda>a. a\<lparr>acc_Balance := acc_Balance a - v\<rparr>) w = adj none32 (at_acc h (- v)) w"
  "updAcc h (\<lambda>a. a\<lparr>acc_TxCnt := acc_TxCnt a + k, acc_Balance := acc_Balance a - v\<rparr>) w = adj (at_acc h k) (at_acc h (- v)) w"
  "updAcc h (\<lambda>a. a\<lparr>acc_TxCnt := acc_TxCnt a - k, acc_Balance := acc_Balance a + v\<rparr>) w = adj (at_acc h (- k)) (at_acc h v) w"
  "updAcc h (\<lambda>a. a\<lparr>acc_Balance := acc_Balance a + v + v'\<rparr>) w = adj none32 (at_acc h (v + v')) w"
  "updAcc h (\<lambda>a. a\<lparr>acc_Balance := acc_Balance a - v - v'\<rparr>) w = adj none32 (at_acc h (- v - v')) w"
  by (auto simp: updAcc_def adj_def at_acc_def fun_eq_iff option.map_ident algebra_simps
      intro!: world.equality option.map_cong split: option.split)

subsection \<open>Funds transactions\<close>

definition fundsTxDelta :: "'d world \<Rightarrow> FundsTx \<Rightarrow> hash \<Rightarrow> u64" where
  "fundsTxDelta w tx = (\<lambda>h. at_acc (ft_To tx) (ft_Amount tx) h + at_acc (ft_From tx) (- ft_Amount tx) h +
     (if IsRootKey w (ft_From tx) then at_acc (ft_From tx) (ft_Amount tx + ft_Fee tx) h else 0))"

text \<open>The transaction was applied before, so the loop skips it.\<close>

definition alreadyClosed :: "'d env \<Rightarrow> bool \<Rightarrow> FundsTx \<Rightarrow> 'd world \<Rightarrow> bool" where
  "alreadyClosed E initialSetup tx w \<longleftrightarrow> \<not> initialSetup \<and>
     (\<exists>h. world_Hash E w (TFunds tx) = Some h \<and> ReadClosedTx E w h \<noteq> None)"

lemma fundsTxError_receiver: "fundsTxError i tx s r = None \<Longrightarrow> r \<noteq> None"
  by (auto simp: fundsTxError_def Let_def split: if_splits)

lemma fundsTxChange_cases:
  assumes "fundsTxChange E i tx w = Some (None, w')" "\<not> alreadyClosed E i tx w"
  obtains s where "State w (ft_From tx) = Some s" "State w (ft_To tx) \<noteq> None"
    "w' = adj (at_acc (ft_From tx) 1) (fundsTxDelta w tx) w"
    "\<not> IsRootKey w (ft_From tx) \<Longrightarrow> fundsTxError i tx s (State w (ft_To tx)) = None"
proof -
  from assms obtain h where h: "world_Hash E w (TFunds tx) = Some h" "\<not> (ReadClosedTx E w h \<noteq> None \<and> \<not> i)"
    by (auto simp: fundsTxChange_def alreadyClosed_def split: option.splits)
  note change = assms(1) [unfolded fundsTxChange_def h(1) option.case if_not_P [OF h(2)]]
  show ?thesis
  proof (cases "IsRootKey w (ft_From tx)")
    case False
    then have "GetRootAccount w (ft_From tx) = Inr None" by (simp add: GetRootAccount_def)
    with change obtain s where s: "State w (ft_From tx) = Some s" "fundsTxError i tx s (State w (ft_To tx)) = None"
      "w' = updAcc (ft_To tx) (addBalance (ft_Amount tx))
         (updAcc (ft_From tx) (\<lambda>a. subBalance (ft_Amount tx) (a\<lparr>acc_TxCnt := acc_TxCnt a + 1\<rparr>)) w)"
      by (auto simp: GetAccount_def Let_def split: option.splits if_splits)
    moreover have "w' = adj (at_acc (ft_From tx) 1) (fundsTxDelta w tx) w"
      using s(3) False by (simp add: updAcc_adj fundsTxDelta_def)
    ultimately show ?thesis using that fundsTxError_receiver by blast
  next
    case True
    then obtain r where r: "State w (ft_From tx) = Some r" "GetRootAccount w (ft_From tx) = Inr (Some r)"
      using change by (auto simp: GetRootAccount_def GetAccount_def split: option.splits)
    define w1 where "w1 = adj none32 (at_acc (ft_From tx) (ft_Amount tx + ft_Fee tx)) w"
    have w1: "updAcc (ft_From tx) (\<lambda>a. addBalance (ft_Fee tx) (addBalance (ft_Amount tx) a)) w = w1"
      by (simp add: updAcc_adj w1_def)
    obtain s where s: "State w1 (ft_From tx) = Some s" "fundsTxError i tx s (State w1 (ft_To tx)) = None"
      "w' = updAcc (ft_To tx) (addBalance (ft_Amount tx))
         (updAcc (ft_From tx) (\<lambda>a. subBalance (ft_Amount tx) (a\<lparr>acc_TxCnt := acc_TxCnt a + 1\<rparr>)) w1)"
      using change [unfolded r(2) sum.case w1] by (auto simp: GetAccount_def Let_def split: option.splits if_splits)
    then have "w' = adj (at_acc (ft_From tx) 1) (fundsTxDelta w tx) w"
      using True by (simp add: updAcc_adj fundsTxDelta_def w1_def)
    moreover have "State w (ft_To tx) \<noteq> None" using fundsTxError_receiver [OF s(2)] by (simp add: w1_def)
    ultimately show ?thesis using that r(1) True by blast
  qed
qed

lemma fundsTxRollback_adj:
  assumes "State w (ft_From tx) \<noteq> None" "State w (ft_To tx) \<noteq> None"
  shows "fundsTxRollback tx w = Some (adj (at_acc (ft_From tx) (- 1)) (\<lambda>h. - fundsTxDelta w tx h) w)"
  using assms
  by (auto simp: fundsTxRollback_def withAcc_def GetRootAccount_def GetAccount_def fundsTxDelta_def updAcc_adj algebra_simps
      split: option.splits intro!: arg_cong2 [where f = "\<lambda>n b. adj n b w"])

subsection \<open>The interface of a rollback\<close>

text \<open>
  A step with its undo operation. The condition \<open>ok\<close> says that the step really acts, which other steps do
  not change; \<open>R\<close> is the relation up to which the undo operation restores the world. Then the undo
  operations, run backwards, restore the world from before a run.
\<close>

locale rollbackable =
  fixes step :: "'a \<Rightarrow> 'd world \<Rightarrow> 'd outcome"
    and undo :: "'a \<Rightarrow> 'd world \<Rightarrow> 'd world option"
    and ok :: "'a \<Rightarrow> 'd world \<Rightarrow> bool"
    and R :: "'d world \<Rightarrow> 'd world \<Rightarrow> bool"
  assumes undo_step: "ok x w \<Longrightarrow> step x w = Some (None, w') \<Longrightarrow> R v w' \<Longrightarrow> \<exists>v'. undo x v = Some v' \<and> R v' w"
    and ok_stable: "ok x w \<Longrightarrow> ok y w \<Longrightarrow> step y w = Some (None, w') \<Longrightarrow> ok x w'"
begin

lemma do_each_append:
  "do_each undo (xs @ ys) w = (case do_each undo xs w of None \<Rightarrow> None | Some w' \<Rightarrow> do_each undo ys w')"
  by (induction xs arbitrary: w) (auto split: option.splits)

lemma rollback_run:
  assumes "\<forall>x \<in> set xs. ok x w" "run_each step xs w = Some (None, w')" "R v w'"
  shows "\<exists>v'. do_each undo (rev xs) v = Some v' \<and> R v' w"
  using assms
proof (induction xs arbitrary: w)
  case (Cons x xs)
  obtain w1 where w1: "step x w = Some (None, w1)" "run_each step xs w1 = Some (None, w')"
    using Cons.prems(2) by (auto split: option.splits prod.splits)
  moreover have "\<forall>y \<in> set xs. ok y w1" using Cons.prems(1) ok_stable [OF _ _ w1(1)] by simp
  ultimately obtain v1 where "do_each undo (rev xs) v = Some v1" "R v1 w1" using Cons.IH Cons.prems(3) by blast
  moreover then have "\<exists>v'. undo x v1 = Some v' \<and> R v' w" using undo_step [OF _ w1(1)] Cons.prems(1) by simp
  ultimately show ?case by (auto simp: do_each_append)
qed auto

end

text \<open>
  The relation for whole blocks: the accounts agree except for the commitment key and the staking height,
  which no rollback restores, and the root keys and parameters agree.
\<close>

definition forget :: "Account \<Rightarrow> Account" where
  "forget a = a\<lparr>acc_CommitmentKey := [], acc_StakingBlockHeight := 0\<rparr>"

definition sim :: "'d world \<Rightarrow> 'd world \<Rightarrow> bool" where
  "sim v w \<longleftrightarrow> (\<forall>h. map_option forget (State v h) = map_option forget (State w h)) \<and> RootKeys v = RootKeys w \<and>
     parameterSlice v = parameterSlice w"

lemma sim_refl [simp, intro]: "sim w w"
  by (simp add: sim_def)

lemma sim_trans [trans]: "sim u v \<Longrightarrow> sim v w \<Longrightarrow> sim u w"
  by (simp add: sim_def)

lemma sim_None: "sim v w \<Longrightarrow> (State v h = None) = (State w h = None)"
  unfolding sim_def by (metis option.map_disc_iff)

lemma sim_root [dest]: "sim v w \<Longrightarrow> IsRootKey v h = IsRootKey w h"
  by (simp add: sim_def IsRootKey_def)

lemma sim_params [dest]: "sim v w \<Longrightarrow> activeParameters v = activeParameters w"
  by (simp add: sim_def activeParameters_def)

lemma forget_adj:
  "forget a = forget b \<Longrightarrow> forget (a\<lparr>acc_TxCnt := acc_TxCnt a + n, acc_Balance := acc_Balance a + v\<rparr>) =
     forget (b\<lparr>acc_TxCnt := acc_TxCnt b + n, acc_Balance := acc_Balance b + v\<rparr>)"
  by (cases a; cases b; simp add: forget_def)

lemma sim_updAcc:
  assumes "sim v w" "\<And>a b. forget a = forget b \<Longrightarrow> forget (f a) = forget (f b)"
  shows "sim (updAcc h f v) (updAcc h f w)"
proof -
  have "map_option forget (map_option f (State v h)) = map_option forget (map_option f (State w h))"
  proof -
    have "map_option forget (State v h) = map_option forget (State w h)" using assms(1) by (simp add: sim_def)
    then show ?thesis by (cases "State v h"; cases "State w h") (auto intro!: assms(2))
  qed
  with assms(1) show ?thesis by (simp add: sim_def updAcc_def)
qed

lemma forget_flip:
  "forget a = forget b \<Longrightarrow> forget (a\<lparr>acc_IsStaking := \<not> acc_IsStaking a\<rparr>) = forget (b\<lparr>acc_IsStaking := \<not> acc_IsStaking b\<rparr>)"
  by (cases a; cases b; simp add: forget_def)

lemma forget_fields:
  assumes "forget a = forget b"
  shows "acc_TxCnt a = acc_TxCnt b" "acc_Balance a = acc_Balance b" "acc_IsStaking a = acc_IsStaking b" "acc_Address a = acc_Address b"
  using assms by (cases a; cases b; simp add: forget_def)+

lemma sim_adj: "sim v w \<Longrightarrow> sim (adj n b v) (adj n b w)"
  unfolding sim_def
proof (intro conjI allI)
  fix h assume "(\<forall>h. map_option forget (State v h) = map_option forget (State w h)) \<and> RootKeys v = RootKeys w \<and> parameterSlice v = parameterSlice w"
  then have "map_option forget (State v h) = map_option forget (State w h)" by blast
  then show "map_option forget (State (adj n b v) h) = map_option forget (State (adj n b w) h)"
    by (cases "State v h"; cases "State w h") (auto simp: adj_account intro: forget_adj)
qed auto

lemma fundsTxDelta_adj [simp]: "fundsTxDelta (adj n b w) tx = fundsTxDelta w tx"
  by (simp add: fundsTxDelta_def)

lemma funds_inverse:
  assumes "\<not> alreadyClosed E i tx w" "fundsTxChange E i tx w = Some (None, w')"
  shows "fundsTxRollback tx w' = Some w"
  using assms by (elim fundsTxChange_cases) (simp_all add: fundsTxRollback_adj adj_zero)

lemma funds_ok_stable:
  assumes "\<not> alreadyClosed E i tx w" "\<not> alreadyClosed E i tx2 w" "fundsTxChange E i tx2 w = Some (None, w')"
  shows "\<not> alreadyClosed E i tx w'"
  using assms by (elim fundsTxChange_cases [of E i tx2]) (simp_all add: alreadyClosed_def)

lemma sim_fundsTxDelta: "sim v w \<Longrightarrow> fundsTxDelta v tx = fundsTxDelta w tx"
  by (simp add: fundsTxDelta_def sim_root)

interpretation funds: rollbackable "fundsTxChange E i" fundsTxRollback "\<lambda>tx w. \<not> alreadyClosed E i tx w" "(=)"
  for E :: "'d env" and i
  by unfold_locales (auto dest: funds_inverse funds_ok_stable)

interpretation funds_sim: rollbackable "fundsTxChange E i" fundsTxRollback "\<lambda>tx w. \<not> alreadyClosed E i tx w" sim
  for E :: "'d env" and i
proof (unfold_locales, goal_cases)
  case (1 tx w w' v)
  then obtain w: "w' = adj (at_acc (ft_From tx) 1) (fundsTxDelta w tx) w" "State w (ft_From tx) \<noteq> None" "State w (ft_To tx) \<noteq> None"
    by (elim fundsTxChange_cases) auto
  then have "State v (ft_From tx) \<noteq> None" "State v (ft_To tx) \<noteq> None" using 1(3) by (simp_all add: sim_None)
  then have u: "fundsTxRollback tx v = Some (adj (at_acc (ft_From tx) (- 1)) (\<lambda>h. - fundsTxDelta v tx h) v)"
    by (rule fundsTxRollback_adj)
  have "sim (adj (at_acc (ft_From tx) (- 1)) (\<lambda>h. - fundsTxDelta v tx h) v) (adj (at_acc (ft_From tx) (- 1)) (\<lambda>h. - fundsTxDelta v tx h) w')"
    using 1(3) by (rule sim_adj)
  also have "adj (at_acc (ft_From tx) (- 1)) (\<lambda>h. - fundsTxDelta v tx h) w' = w"
    using w(1) by (simp add: sim_fundsTxDelta [OF 1(3)] adj_zero)
  finally show ?case using u by blast
next
  case (2 tx w tx2 w')
  then show ?case by (rule funds_ok_stable)
qed

subsection \<open>Fees\<close>

definition mintDelta :: "hash \<Rightarrow> u64 \<Rightarrow> hash \<Rightarrow> u64" where
  "mintDelta m fee = at_acc m fee"

definition moveDelta :: "hash \<Rightarrow> hash \<times> u64 \<Rightarrow> hash \<Rightarrow> u64" where
  "moveDelta m p = (\<lambda>h. at_acc m (snd p) h - at_acc (fst p) (snd p) h)"

lemma mintFee_success:
  "mintFee m fee w = Some (None, w') \<Longrightarrow> w' = adj none32 (mintDelta m fee) w \<and> State w m \<noteq> None"
  by (auto simp: mintFee_def mintDelta_def updAcc_adj split: option.splits if_splits)

lemma moveFee_success:
  "moveFee m p w = Some (None, w') \<Longrightarrow> w' = adj none32 (moveDelta m p) w \<and> State w m \<noteq> None \<and> State w (fst p) \<noteq> None"
  by (auto simp: moveFee_def moveDelta_def updAcc_adj GetAccount_def split: prod.splits if_splits)

lemma minusFee_adj: "State w m \<noteq> None \<Longrightarrow> minusFee m fee w = Some (adj none32 (\<lambda>h. - mintDelta m fee h) w)"
  by (simp add: minusFee_def mintDelta_def withAcc_def updAcc_adj) (simp add: adj_def)

lemma returnFee_adj:
  "State w m \<noteq> None \<Longrightarrow> State w (fst p) \<noteq> None \<Longrightarrow> returnFee m p w = Some (adj none32 (\<lambda>h. - moveDelta m p h) w)"
  by (cases p) (simp add: returnFee_def moveDelta_def withAcc_def updAcc_adj)

text \<open>
  Steps that are adjustments with a fixed effect on the balances. For them the order of the undo operations
  does not matter, which the code uses: \<^verbatim>\<open>collectTxFeesRollback\<close> runs forwards.
\<close>

locale adjusting =
  fixes step :: "'a \<Rightarrow> 'd world \<Rightarrow> 'd outcome"
    and undo :: "'a \<Rightarrow> 'd world \<Rightarrow> 'd world option"
    and delta :: "'a \<Rightarrow> hash \<Rightarrow> u64"
    and pre :: "'a \<Rightarrow> 'd world \<Rightarrow> bool"
  assumes step_delta: "step x w = Some (None, w') \<Longrightarrow> w' = adj none32 (delta x) w \<and> pre x w"
    and step_error: "step x w = Some (Some e, w') \<Longrightarrow> w' = w"
    and undo_delta: "pre x w \<Longrightarrow> undo x w = Some (adj none32 (\<lambda>h. - delta x h) w)"
    and pre_adj: "pre x (adj n b w) = pre x w"
begin

lemma undo_all:
  assumes "\<forall>x \<in> set xs. pre x w"
  shows "do_each undo xs w = Some (adj none32 (\<lambda>h. - (\<Sum>x\<leftarrow>xs. delta x h)) w)"
  using assms by (induction xs arbitrary: w) (simp_all add: undo_delta pre_adj adj_zero algebra_simps)

lemma fee_loop_spec:
  assumes "w = adj none32 (\<lambda>h. D h + (\<Sum>x\<leftarrow>tmp. delta (f x) h)) orig" "\<forall>x \<in> set tmp. pre (f x) orig"
    and "\<And>tmp. \<forall>x \<in> set tmp. pre (f x) orig \<Longrightarrow> back tmp (adj none32 (\<lambda>h. D h + (\<Sum>x\<leftarrow>tmp. delta (f x) h)) orig) = Some orig"
    and "fee_loop (\<lambda>x. step (f x)) back tmp xs w = Some (e, w')"
  shows "case e of
      Some _ \<Rightarrow> w' = orig
    | None \<Rightarrow> w' = adj none32 (\<lambda>h. D h + (\<Sum>x\<leftarrow>tmp @ xs. delta (f x) h)) orig \<and> (\<forall>x \<in> set (tmp @ xs). pre (f x) orig)"
  using assms(1,2,4)
proof (induction xs arbitrary: tmp w)
  case (Cons x xs)
  obtain r w1 where r: "step (f x) w = Some (r, w1)" using Cons.prems(3) by (auto split: option.splits)
  show ?case
  proof (cases r)
    case None
    then have w1: "w1 = adj none32 (delta (f x)) w" "pre (f x) w" using step_delta r by auto
    have "w1 = adj none32 (\<lambda>h. D h + (\<Sum>x\<leftarrow>tmp @ [x]. delta (f x) h)) orig"
      using w1(1) Cons.prems(1) by (simp add: algebra_simps)
    moreover have "\<forall>y \<in> set (tmp @ [x]). pre (f y) orig" using Cons.prems(1,2) w1(2) by (simp add: pre_adj)
    moreover have "fee_loop (\<lambda>x. step (f x)) back (tmp @ [x]) xs w1 = Some (e, w')" using Cons.prems(3) r None by simp
    ultimately have "case e of Some _ \<Rightarrow> w' = orig
      | None \<Rightarrow> w' = adj none32 (\<lambda>h. D h + (\<Sum>x\<leftarrow>(tmp @ [x]) @ xs. delta (f x) h)) orig \<and> (\<forall>x \<in> set ((tmp @ [x]) @ xs). pre (f x) orig)"
      by (rule Cons.IH)
    then show ?thesis unfolding append_assoc append_Cons append_Nil .
  next
    case (Some e')
    then have "w1 = w" using step_error r by blast
    then show ?thesis using Cons.prems r Some assms(3) [OF Cons.prems(2)] by auto
  qed
qed simp

end

sublocale adjusting \<subseteq> rollbackable step undo "\<lambda>_ _. True" "(=)"
  by unfold_locales (auto dest!: step_delta simp: undo_delta pre_adj adj_zero)

interpretation mint: adjusting "mintFee m" "minusFee m" "mintDelta m" "\<lambda>_ w. State w m \<noteq> None" for m
  by unfold_locales (auto dest!: mintFee_success simp: minusFee_adj, auto simp: mintFee_def split: option.splits if_splits)

interpretation move: adjusting "moveFee m" "returnFee m" "moveDelta m" "\<lambda>p w. State w m \<noteq> None \<and> State w (fst p) \<noteq> None" for m
  by unfold_locales (auto dest!: moveFee_success simp: returnFee_adj, auto simp: moveFee_def split: prod.splits if_splits)

definition feesDelta :: "AccTx list \<Rightarrow> FundsTx list \<Rightarrow> ConfigTx list \<Rightarrow> StakeTx list \<Rightarrow> hash \<Rightarrow> hash \<Rightarrow> u64" where
  "feesDelta a f c s m = (\<lambda>h. (\<Sum>tx\<leftarrow>a. mintDelta m (at_Fee tx) h) + (\<Sum>tx\<leftarrow>f. moveDelta m (ft_From tx, ft_Fee tx) h) +
     (\<Sum>tx\<leftarrow>c. mintDelta m (ct_Fee tx) h) + (\<Sum>tx\<leftarrow>s. moveDelta m (st_Account tx, st_Fee tx) h))"

lemma collectTxFeesRollback_adj:
  assumes "State w m \<noteq> None" "\<forall>tx \<in> set f. State w (ft_From tx) \<noteq> None" "\<forall>tx \<in> set s. State w (st_Account tx) \<noteq> None"
  shows "collectTxFeesRollback a f c s m w = Some (adj none32 (\<lambda>h. - feesDelta a f c s m h) w)"
  using assms
  by (simp add: collectTxFeesRollback_def mint.undo_all move.undo_all feesDelta_def comp_def algebra_simps)

text \<open>The four loops of \<^verbatim>\<open>collectTxFees\<close>, with the aggregated transactions that are still open.\<close>

definition feeFunds :: "'d world \<Rightarrow> FundsTx list \<Rightarrow> AggTx list \<Rightarrow> FundsTx list" where
  "feeFunds w fundsTxs aggTxs = fundsTxs @ concat (map (\<lambda>tx. getFundsTxFromAggTx w (gt_AggregatedTxSlice tx)) aggTxs)"

definition fees_pre :: "FundsTx list \<Rightarrow> StakeTx list \<Rightarrow> hash \<Rightarrow> 'd world \<Rightarrow> bool" where
  "fees_pre f s m w \<longleftrightarrow> State w m \<noteq> None \<and> (\<forall>tx \<in> set f. State w (ft_From tx) \<noteq> None) \<and> (\<forall>tx \<in> set s. State w (st_Account tx) \<noteq> None)"

lemma collectTxFees_spec:
  assumes "collectTxFees accTxs fundsTxs configTxs stakeTxs aggTxs m w = Some (e, w')"
  shows "case e of
      Some _ \<Rightarrow> w' = w
    | None \<Rightarrow> w' = adj none32 (feesDelta accTxs (feeFunds w fundsTxs aggTxs) configTxs stakeTxs m) w \<and>
        fees_pre (feeFunds w fundsTxs aggTxs) stakeTxs m w"
proof (cases "State w m = None")
  case True
  with assms show ?thesis by (auto simp: collectTxFees_def GetAccount_def)
next
  case m: False
  let ?f = "feeFunds w fundsTxs aggTxs"
  let ?A = "\<lambda>h. \<Sum>tx\<leftarrow>accTxs. mintDelta m (at_Fee tx) h" and ?F = "\<lambda>h. \<Sum>tx\<leftarrow>?f. moveDelta m (ft_From tx, ft_Fee tx) h"
    and ?C = "\<lambda>h. \<Sum>tx\<leftarrow>configTxs. mintDelta m (ct_Fee tx) h"
  let ?l1 = "fee_loop (\<lambda>tx. mintFee m (at_Fee tx)) (\<lambda>tmp. collectTxFeesRollback tmp [] [] [] m) [] accTxs w"
  let ?l2 = "\<lambda>w1. fee_loop (\<lambda>tx. moveFee m (ft_From tx, ft_Fee tx)) (\<lambda>tmp. collectTxFeesRollback accTxs tmp [] [] m) [] ?f w1"
  let ?l3 = "\<lambda>w2. fee_loop (\<lambda>tx. mintFee m (ct_Fee tx)) (\<lambda>tmp. collectTxFeesRollback accTxs ?f tmp [] m) [] configTxs w2"
  let ?l4 = "\<lambda>w3. fee_loop (\<lambda>tx. moveFee m (st_Account tx, st_Fee tx)) (\<lambda>tmp. collectTxFeesRollback accTxs ?f configTxs tmp m) [] stakeTxs w3"
  have run: "(case ?l1 of Some (None, w1) \<Rightarrow> (case ?l2 w1 of Some (None, w2) \<Rightarrow> (case ?l3 w2 of Some (None, w3) \<Rightarrow> ?l4 w3
      | r \<Rightarrow> r) | r \<Rightarrow> r) | r \<Rightarrow> r) = Some (e, w')"
    using assms m unfolding collectTxFees_def GetAccount_def Let_def feeFunds_def [symmetric] by (simp only: if_False)
  obtain e1 w1 where 1: "?l1 = Some (e1, w1)" using run by (cases ?l1) auto
  note s1 = mint.fee_loop_spec [where D = "\<lambda>_. 0" and f = at_Fee and orig = w, OF _ _ _ 1]
  have c1: "case e1 of Some _ \<Rightarrow> w1 = w | None \<Rightarrow> w1 = adj none32 (\<lambda>h. 0 + (\<Sum>tx\<leftarrow>[] @ accTxs. mintDelta m (at_Fee tx) h)) w \<and> (\<forall>x \<in> set ([] @ accTxs). State w m \<noteq> None)"
    by (rule s1) (simp_all add: adj_zero collectTxFeesRollback_adj feesDelta_def m)
  show ?thesis
  proof (cases e1)
    case (Some x)
    with run 1 c1 show ?thesis by auto
  next
    case None
    with c1 have w1: "w1 = adj none32 ?A w" by simp
    obtain e2 w2 where 2: "?l2 w1 = Some (e2, w2)" using run 1 None by (cases "?l2 w1") auto
    note s2 = move.fee_loop_spec [where D = ?A and f = "\<lambda>tx. (ft_From tx, ft_Fee tx)" and orig = w, OF _ _ _ 2]
    have c2: "case e2 of Some _ \<Rightarrow> w2 = w | None \<Rightarrow> w2 = adj none32 (\<lambda>h. ?A h + (\<Sum>tx\<leftarrow>[] @ ?f. moveDelta m (ft_From tx, ft_Fee tx) h)) w
        \<and> (\<forall>x \<in> set ([] @ ?f). State w m \<noteq> None \<and> State w (fst (ft_From x, ft_Fee x)) \<noteq> None)"
      by (rule s2) (simp_all add: w1 collectTxFeesRollback_adj feesDelta_def m adj_zero)
    show ?thesis
    proof (cases e2)
      case (Some x)
      with run 1 2 \<open>e1 = None\<close> c2 show ?thesis by auto
    next
      case None
      with c2 have w2: "w2 = adj none32 (\<lambda>h. ?A h + ?F h) w" and f: "\<forall>x \<in> set ?f. State w (ft_From x) \<noteq> None" by auto
      obtain e3 w3 where 3: "?l3 w2 = Some (e3, w3)" using run 1 2 None \<open>e1 = None\<close> by (cases "?l3 w2") auto
      note s3 = mint.fee_loop_spec [where D = "\<lambda>h. ?A h + ?F h" and f = ct_Fee and orig = w, OF _ _ _ 3]
      have c3: "case e3 of Some _ \<Rightarrow> w3 = w | None \<Rightarrow> w3 = adj none32 (\<lambda>h. ?A h + ?F h + (\<Sum>tx\<leftarrow>[] @ configTxs. mintDelta m (ct_Fee tx) h)) w
          \<and> (\<forall>x \<in> set ([] @ configTxs). State w m \<noteq> None)"
        by (rule s3) (use f in \<open>simp_all add: w2 collectTxFeesRollback_adj feesDelta_def m adj_zero\<close>)
      show ?thesis
      proof (cases e3)
        case (Some x)
        with run 1 2 3 \<open>e1 = None\<close> \<open>e2 = None\<close> c3 show ?thesis by auto
      next
        case None
        with c3 have w3: "w3 = adj none32 (\<lambda>h. ?A h + ?F h + ?C h) w" by simp
        have 4: "?l4 w3 = Some (e, w')" using run 1 2 3 None \<open>e1 = None\<close> \<open>e2 = None\<close> by simp
        note s4 = move.fee_loop_spec [where D = "\<lambda>h. ?A h + ?F h + ?C h" and f = "\<lambda>tx. (st_Account tx, st_Fee tx)" and orig = w, OF _ _ _ 4]
        have "case e of Some _ \<Rightarrow> w' = w | None \<Rightarrow> w' = adj none32 (\<lambda>h. ?A h + ?F h + ?C h + (\<Sum>tx\<leftarrow>[] @ stakeTxs. moveDelta m (st_Account tx, st_Fee tx) h)) w
            \<and> (\<forall>x \<in> set ([] @ stakeTxs). State w m \<noteq> None \<and> State w (fst (st_Account x, st_Fee x)) \<noteq> None)"
          by (rule s4) (use f in \<open>simp_all add: w3 collectTxFeesRollback_adj feesDelta_def m adj_zero\<close>)
        with f m show ?thesis by (auto simp: feesDelta_def fees_pre_def split: option.splits)
      qed
    qed
  qed
qed

subsection \<open>Staking\<close>

lemma stakeTxChange_cases:
  assumes "stakeTxChange height i tx w = Some (None, w')"
  obtains a where "State w (st_Account tx) = Some a" "acc_IsStaking a \<noteq> st_IsStaking tx"
    "w' = updAcc (st_Account tx) (\<lambda>a. a\<lparr>acc_IsStaking := st_IsStaking tx, acc_CommitmentKey := st_CommitmentKey tx,
       acc_StakingBlockHeight := height\<rparr>) w"
  using assms by (auto simp: stakeTxChange_def GetAccount_def Let_def split: option.splits if_splits)

interpretation stake_sim: rollbackable "stakeTxChange height i" stakeTxRollback "\<lambda>_ _. True" sim for height i
proof (unfold_locales, goal_cases)
  case (1 tx w w' v)
  let ?flip = "\<lambda>a. a\<lparr>acc_IsStaking := \<not> acc_IsStaking a\<rparr>"
  obtain a where a: "State w (st_Account tx) = Some a" "acc_IsStaking a \<noteq> st_IsStaking tx"
    "w' = updAcc (st_Account tx) (\<lambda>a. a\<lparr>acc_IsStaking := st_IsStaking tx, acc_CommitmentKey := st_CommitmentKey tx,
       acc_StakingBlockHeight := height\<rparr>) w"
    using 1(2) by (rule stakeTxChange_cases)
  have "sim (updAcc (st_Account tx) ?flip v) (updAcc (st_Account tx) ?flip w')"
    using 1(3) by (rule sim_updAcc) (rule forget_flip)
  also have "sim (updAcc (st_Account tx) ?flip w') w"
    using a by (simp add: sim_def updAcc_def forget_def)
  finally have "sim (updAcc (st_Account tx) ?flip v) w" .
  moreover have "State v (st_Account tx) \<noteq> None" using 1(3) a(1,3) by (simp add: sim_None updAcc_def)
  ultimately show ?case by (auto simp: stakeTxRollback_def withAcc_def)
qed simp

subsection \<open>Accounts\<close>

definition accKey :: "'d env \<Rightarrow> AccTx \<Rightarrow> hash" where
  "accKey E tx = SerializeHashContent (crypto E) (fbytes (at_PubKey tx))"

text \<open>A root key always has an account.\<close>

definition root_wf :: "'d world \<Rightarrow> bool" where
  "root_wf w \<longleftrightarrow> (\<forall>k \<in> fst ` set (RootKeys w). State w k \<noteq> None)"

definition rootKeysOf :: "'d env \<Rightarrow> AccTx list \<Rightarrow> hash set" where
  "rootKeysOf E txs = accKey E ` {tx \<in> set txs. at_Header tx = 1}"

lemma accTxChange_create:
  assumes "accTxChange E tx w = Some (None, w')" "at_Header tx \<in> {0, 1}"
  shows "State w (accKey E tx) = None" "\<exists>acc. State w' = (State w)(accKey E tx := Some acc)"
    "\<exists>ad. RootKeys w' = (if at_Header tx = 1 then AList.update (accKey E tx) ad (RootKeys w) else RootKeys w)"
    "parameterSlice w' = parameterSlice w" "db w' = db w"
  using assms by (auto simp: accTxChange_def Let_def accKey_def Account_Hash_def NewAccount_def GetAccount_def split: if_splits)

lemma AList_update_new: "k \<notin> fst ` set xs \<Longrightarrow> AList.update k v xs = xs @ [(k, v)]"
  by (induction xs) auto

lemma accStateChange_run:
  assumes "run_each (accTxChange E) txs w = Some (None, w')" "\<forall>tx \<in> set txs. at_Header tx \<in> {0, 1}" "root_wf w"
  shows "distinct (map (accKey E) txs)" "\<forall>tx \<in> set txs. State w (accKey E tx) = None"
    "\<forall>h. h \<notin> accKey E ` set txs \<longrightarrow> State w' h = State w h" "\<forall>tx \<in> set txs. State w' (accKey E tx) \<noteq> None"
    "\<exists>new. RootKeys w' = RootKeys w @ new \<and> fst ` set new = rootKeysOf E txs"
    "parameterSlice w' = parameterSlice w" "root_wf w'" "db w' = db w"
proof -
  have "distinct (map (accKey E) txs) \<and> (\<forall>tx \<in> set txs. State w (accKey E tx) = None) \<and>
    (\<forall>h. h \<notin> accKey E ` set txs \<longrightarrow> State w' h = State w h) \<and> (\<forall>tx \<in> set txs. State w' (accKey E tx) \<noteq> None) \<and>
    (\<exists>new. RootKeys w' = RootKeys w @ new \<and> fst ` set new = rootKeysOf E txs) \<and> parameterSlice w' = parameterSlice w \<and> root_wf w' \<and> db w' = db w"
    using assms
  proof (induction txs arbitrary: w)
    case Nil
    then show ?case by (auto simp: rootKeysOf_def)
  next
    case (Cons tx txs)
    obtain w1 where 1: "accTxChange E tx w = Some (None, w1)" "run_each (accTxChange E) txs w1 = Some (None, w')"
      using Cons.prems(1) by (auto split: option.splits prod.splits)
    have hd: "at_Header tx \<in> {0, 1}" using Cons.prems(2) by simp
    note c = accTxChange_create [OF 1(1) hd]
    obtain acc where S1: "State w1 = (State w)(accKey E tx := Some acc)" using c(2) by blast
    have fresh: "accKey E tx \<notin> fst ` set (RootKeys w)" using c(1) Cons.prems(3) by (auto simp: root_wf_def)
    obtain ad where R1: "RootKeys w1 = (if at_Header tx = 1 then RootKeys w @ [(accKey E tx, ad)] else RootKeys w)"
      using c(3) unfolding AList_update_new [OF fresh] by blast
    have wf1: "root_wf w1" using Cons.prems(3) by (auto simp: root_wf_def S1 R1 split: if_splits)
    note IH = Cons.IH [OF 1(2) _ wf1]
    have IH': "distinct (map (accKey E) txs)" "\<forall>t \<in> set txs. State w1 (accKey E t) = None"
      "\<forall>h. h \<notin> accKey E ` set txs \<longrightarrow> State w' h = State w1 h" "\<forall>t \<in> set txs. State w' (accKey E t) \<noteq> None"
      "\<exists>new. RootKeys w' = RootKeys w1 @ new \<and> fst ` set new = rootKeysOf E txs" "parameterSlice w' = parameterSlice w1" "root_wf w'" "db w' = db w1"
      using IH Cons.prems(2) by auto
    have notin: "accKey E tx \<notin> accKey E ` set txs" using IH'(2) S1 by auto
    obtain new where new: "RootKeys w' = RootKeys w1 @ new" "fst ` set new = rootKeysOf E txs" using IH'(5) by blast
    have "\<exists>new. RootKeys w' = RootKeys w @ new \<and> fst ` set new = rootKeysOf E (tx # txs)"
      using new R1 by (auto simp: rootKeysOf_def split: if_splits)
    moreover have "\<forall>t \<in> set txs. State w (accKey E t) = None" using IH'(2) S1 notin by (auto split: if_splits)
    ultimately show ?case using IH' notin S1 c(1,4,5) by auto
  qed
  then show "distinct (map (accKey E) txs)" "\<forall>tx \<in> set txs. State w (accKey E tx) = None"
    "\<forall>h. h \<notin> accKey E ` set txs \<longrightarrow> State w' h = State w h" "\<forall>tx \<in> set txs. State w' (accKey E tx) \<noteq> None"
    "\<exists>new. RootKeys w' = RootKeys w @ new \<and> fst ` set new = rootKeysOf E txs"
    "parameterSlice w' = parameterSlice w" "root_wf w'" "db w' = db w" by blast+
qed

lemma accStateChangeRollback_run:
  assumes "\<forall>tx \<in> set txs. at_Header tx \<in> {0, 1} \<and> State v (accKey E tx) \<noteq> None" "distinct (map (accKey E) txs)"
  shows "\<exists>v'. accStateChangeRollback E txs v = Some v' \<and> State v' = (\<lambda>h. if h \<in> accKey E ` set txs then None else State v h) \<and>
     RootKeys v' = filter (\<lambda>p. fst p \<notin> rootKeysOf E txs) (RootKeys v) \<and> parameterSlice v' = parameterSlice v"
  using assms
proof (induction txs arbitrary: v)
  case Nil
  then show ?case by (auto simp: accStateChangeRollback_def rootKeysOf_def)
next
  case (Cons tx txs)
  let ?k = "accKey E tx"
  let ?v1 = "if at_Header tx = 1 then v\<lparr>State := (State v)(?k := None), RootKeys := AList.delete ?k (RootKeys v)\<rparr>
     else v\<lparr>State := (State v)(?k := None)\<rparr>"
  have "accTxRollback E tx v = Some ?v1"
    using Cons.prems(1) by (auto simp: accTxRollback_def Let_def accKey_def GetAccount_def)
  moreover have "\<forall>t \<in> set txs. at_Header t \<in> {0, 1} \<and> State ?v1 (accKey E t) \<noteq> None"
    using Cons.prems by (auto simp: image_iff)
  then obtain v' where v': "accStateChangeRollback E txs ?v1 = Some v'"
    "State v' = (\<lambda>h. if h \<in> accKey E ` set txs then None else State ?v1 h)"
    "RootKeys v' = filter (\<lambda>p. fst p \<notin> rootKeysOf E txs) (RootKeys ?v1)" "parameterSlice v' = parameterSlice ?v1"
    using Cons.IH [of ?v1] Cons.prems(2) by auto
  moreover have "RootKeys v' = filter (\<lambda>p. fst p \<notin> rootKeysOf E (tx # txs)) (RootKeys v)"
  proof -
    have "rootKeysOf E (tx # txs) = (if at_Header tx = 1 then insert ?k (rootKeysOf E txs) else rootKeysOf E txs)"
      by (auto simp: rootKeysOf_def)
    then show ?thesis using v'(3) by (auto simp: AList.delete_eq comp_def case_prod_unfold intro: filter_cong)
  qed
  ultimately show ?case by (auto simp: accStateChangeRollback_def fun_eq_iff)
qed

end
