(* ===== verification/Validation.thy ===== *)
theory Validation
  imports LedgerRollback
begin

text \<open>
  Validation of a block and its rollback: the rest of \<^verbatim>\<open>src/miner/staterollback.go\<close>, \<^verbatim>\<open>validateState\<close>, \<^verbatim>\<open>postValidate\<close>,
  \<^verbatim>\<open>validateNoDuplicateTx\<close> and \<^verbatim>\<open>timestampCheck\<close> of \<^verbatim>\<open>src/miner/block_validation.go\<close>, \<^verbatim>\<open>src/miner/blockrollback.go\<close>, and the
  block statistics of \<^verbatim>\<open>src/miner/blockchainparam.go\<close>. Results are read as in the theory Ledger. Broadcasts to
  other nodes are left out; \<^verbatim>\<open>calculateNewDifficulty\<close>, a floating-point computation, is the argument \<open>newDiff\<close>.
\<close>

subsection \<open>Rollback of aggregated transactions\<close>

fun bytes_less :: "bytes \<Rightarrow> bytes \<Rightarrow> bool" where
  "bytes_less [] [] = False"
| "bytes_less [] (b # bs) = True"
| "bytes_less (a # as) [] = False"
| "bytes_less (a # as) (b # bs) = (if a = b then bytes_less as bs else a < b)"

definition ByHash_Less :: "hash \<Rightarrow> hash \<Rightarrow> bool" where
  "ByHash_Less a b \<longleftrightarrow> bytes_less (take 32 a) (take 32 b)"

text \<open>One closed transaction of the search for the content of an emptied block.\<close>

definition reactivateTx :: "'d env \<Rightarrow> hash \<Rightarrow> Transaction \<Rightarrow> Block \<times> 'd world \<Rightarrow> (Block \<times> 'd world) option" where
  "reactivateTx E blockHash tx bw = (case bw of (b, w) \<Rightarrow> (case tx of
     TFunds f \<Rightarrow> if ft_Block f = blockHash then
         (case (world_Hash E w tx, WriteClosedTx E tx w) of
            (Some h, Some w') \<Rightarrow> Some (b\<lparr>bl_FundsTxData := bl_FundsTxData b @ [h]\<rparr>, w') | _ \<Rightarrow> None)
       else Some (b, w)
   | TAgg g \<Rightarrow> if gt_Block g = blockHash then
         (case (world_Hash E w tx, WriteClosedTx E tx w) of
            (Some h, Some w') \<Rightarrow> Some (b\<lparr>bl_AggTxData := bl_AggTxData b @ [h]\<rparr>, w') | _ \<Rightarrow> None)
       else Some (b, w)
   | _ \<Rightarrow> Some (b, w)))"

fun reactivateAll :: "'d env \<Rightarrow> hash \<Rightarrow> Transaction list \<Rightarrow> Block \<times> 'd world \<Rightarrow> (Block \<times> 'd world) option" where
  "reactivateAll E blockHash [] bw = Some bw"
| "reactivateAll E blockHash (tx # txs) bw = (case reactivateTx E blockHash tx bw of
     None \<Rightarrow> None | Some bw' \<Rightarrow> reactivateAll E blockHash txs bw')"

definition reactivateHistoricBlockDueToRollback :: "'d env \<Rightarrow> Transaction \<Rightarrow> 'd world \<Rightarrow> 'd world option" where
  "reactivateHistoricBlockDueToRollback E tx w =
     (let (blockHash, first) = (case tx of
            TFunds f \<Rightarrow> (ft_Block f, WriteClosedTx E (TFunds (f\<lparr>ft_Aggregated := False\<rparr>)) w)
          | TAgg g \<Rightarrow> (gt_Block g, WriteClosedTx E (TAgg (g\<lparr>gt_Aggregated := False\<rparr>)) w)
          | _ \<Rightarrow> (zero_hash, Some w))
      in case first of None \<Rightarrow> None | Some w1 \<Rightarrow>
        (case ReadClosedBlockWithoutTx E w1 blockHash of None \<Rightarrow> Some w1 | Some b \<Rightarrow>
          (case reactivateAll E blockHash (ReadAllClosedFundsAndAggTransactions E w1) (b, w1) of None \<Rightarrow> None | Some (b', w2) \<Rightarrow>
             let b'' = b'\<lparr>bl_AggTxData := sort_by ByHash_Less (bl_AggTxData b'), bl_Aggregated := False\<rparr>
             in Some (DeleteClosedBlockWithoutTx E blockHash (WriteClosedBlock E b'' w2)))))"

text \<open>The inner loop collects, in reverse, the funds transactions that this block validated.\<close>

fun collectAggregated :: "'d env \<Rightarrow> hash \<Rightarrow> hash list \<Rightarrow> FundsTx list \<Rightarrow> 'd world \<Rightarrow> (FundsTx list \<times> 'd world) option" where
  "collectAggregated E blockHash [] fs w = Some (fs, w)"
| "collectAggregated E blockHash (h # hs) fs w = (case ReadClosedTx E w h of
     Some (TFunds f) \<Rightarrow> if ft_Block f = blockHash then collectAggregated E blockHash hs (f # fs) w
       else (case reactivateHistoricBlockDueToRollback E (TFunds f) w of
               None \<Rightarrow> None | Some w' \<Rightarrow> collectAggregated E blockHash hs fs w')
   | Some (TAgg g) \<Rightarrow> (case reactivateHistoricBlockDueToRollback E (TAgg g) w of
               None \<Rightarrow> None | Some w' \<Rightarrow> collectAggregated E blockHash hs fs w')
   | _ \<Rightarrow> collectAggregated E blockHash hs fs w)"

definition aggTxRollback :: "'d env \<Rightarrow> hash \<Rightarrow> hash \<Rightarrow> AggTx \<Rightarrow> 'd world \<Rightarrow> 'd world option" where
  "aggTxRollback E blockHash minerHash tx w =
     (case collectAggregated E blockHash (gt_AggregatedTxSlice tx) [] w of None \<Rightarrow> None | Some (fs, w1) \<Rightarrow>
      let fs' = sort_by ByTxCount_Less fs in
      (case fundsStateChangeRollback fs' w1 of None \<Rightarrow> None | Some w2 \<Rightarrow> collectTxFeesRollback [] fs' [] [] minerHash w2))"

definition aggregatedStateRollback :: "'d env \<Rightarrow> AggTx list \<Rightarrow> hash \<Rightarrow> hash \<Rightarrow> 'd world \<Rightarrow> 'd world option" where
  "aggregatedStateRollback E txSlice blockHash minerHash = do_each (aggTxRollback E blockHash minerHash) (rev txSlice)"

subsection \<open>validateState\<close>

text \<open>An operation, the rollbacks of the code when it fails, and what follows when it succeeds.\<close>

definition attempt :: "('d world \<Rightarrow> 'd outcome) \<Rightarrow> ('d world \<Rightarrow> 'd world option) list \<Rightarrow> ('d world \<Rightarrow> 'd outcome) \<Rightarrow> 'd world \<Rightarrow> 'd outcome" where
  "attempt op undos after w = (case op w of
     None \<Rightarrow> None
   | Some (Some e, w') \<Rightarrow> (case do_each (\<lambda>f. f) undos w' of None \<Rightarrow> None | Some w'' \<Rightarrow> Some (Some e, w''))
   | Some (None, w') \<Rightarrow> after w')"

definition validateState :: "'d env \<Rightarrow> blockData \<Rightarrow> bool \<Rightarrow> 'd world \<Rightarrow> 'd outcome" where
  "validateState E data initialSetup =
     (let b = bd_block data;
          accU = accStateChangeRollback E (accTxSlice data);
          fundsU = fundsStateChangeRollback (fundsTxSlice data);
          aggU = aggregatedStateRollback E (aggTxSlice data) (bl_HashWithoutTx b) (bl_Beneficiary b);
          stakeU = stakeStateChangeRollback (stakeTxSlice data);
          feesU = collectTxFeesRollback (accTxSlice data) (fundsTxSlice data) (configTxSlice data) (stakeTxSlice data) (bl_Beneficiary b);
          rewardU = (\<lambda>w. collectBlockRewardRollback (BlockReward (activeParameters w)) (bl_Beneficiary b) w);
          slashU = (\<lambda>w. collectSlashRewardRollback (SlashReward (activeParameters w)) b w)
      in attempt (accStateChange E (accTxSlice data)) []
        (attempt (fundsStateChange E initialSetup (fundsTxSlice data)) [accU]
        (attempt (aggTxStateChange E initialSetup (aggregatedFundsTxSlice data)) [fundsU, accU]
        (attempt (stakeStateChange (stakeTxSlice data) (bl_Height b) initialSetup) [fundsU, accU, aggU]
        (attempt (collectTxFees (accTxSlice data) (fundsTxSlice data) (configTxSlice data) (stakeTxSlice data) (aggTxSlice data) (bl_Beneficiary b))
           [stakeU, fundsU, aggU, accU]
        (attempt (\<lambda>w. collectBlockReward (BlockReward (activeParameters w)) (bl_Beneficiary b) initialSetup w) [feesU, stakeU, fundsU, aggU, accU]
        (attempt (\<lambda>w. collectSlashReward (SlashReward (activeParameters w)) b w) [rewardU, feesU, stakeU, fundsU, aggU, accU]
        (attempt (updateStakingHeight b) [slashU, rewardU, feesU, stakeU, fundsU, aggU, accU]
           (\<lambda>w. Some (None, w))))))))))"

definition validateStateRollback :: "'d env \<Rightarrow> blockData \<Rightarrow> 'd world \<Rightarrow> 'd world option" where
  "validateStateRollback E data = (let b = bd_block data in
     do_each (\<lambda>f. f)
       [\<lambda>w. collectSlashRewardRollback (SlashReward (activeParameters w)) b w,
        \<lambda>w. collectBlockRewardRollback (BlockReward (activeParameters w)) (bl_Beneficiary b) w,
        collectTxFeesRollback (accTxSlice data) (fundsTxSlice data) (configTxSlice data) (stakeTxSlice data) (bl_Beneficiary b),
        stakeStateChangeRollback (stakeTxSlice data),
        fundsStateChangeRollback (fundsTxSlice data),
        aggregatedStateRollback E (aggTxSlice data) (bl_HashWithoutTx b) (bl_Beneficiary b),
        accStateChangeRollback E (accTxSlice data)])"

subsection \<open>Statistics\<close>

definition getDifficulty :: "'d world \<Rightarrow> u8" where
  "getDifficulty w = last (target w)"

text \<open>The indexing \<^verbatim>\<open>target[len(target)-1]\<close> panics on an empty history.\<close>

definition collectStatistics :: "('d world \<Rightarrow> timerange \<Rightarrow> u8) \<Rightarrow> Block \<Rightarrow> 'd world \<Rightarrow> 'd world option" where
  "collectStatistics newDiff b w =
     (let w1 = w\<lparr>globalBlockCount := globalBlockCount w + 1, localBlockCount := localBlockCount w + 1\<rparr> in
      if localBlockCount w1 \<ge> sint (DiffInterval (activeParameters w1)) then
        (if target w1 = [] then None else
         let t = (currentTargetTime w1)\<lparr>tr_last := bl_Timestamp b\<rparr>;
             new = (if tr_first t = 0 then last (target w1) else newDiff w1 t)
         in Some (w1\<lparr>target := target w1 @ [new], targetTimes := targetTimes w1 @ [t], localBlockCount := 0,
                     currentTargetTime := \<lparr>tr_first = bl_Timestamp b, tr_last = 0\<rparr>, lastBlock := Some b\<rparr>))
      else Some (w1\<lparr>lastBlock := Some b\<rparr>))"

definition collectStatisticsRollback :: "'d env \<Rightarrow> Block \<Rightarrow> 'd world \<Rightarrow> 'd world option" where
  "collectStatisticsRollback E b w =
     (let w1 = w\<lparr>globalBlockCount := globalBlockCount w - 1\<rparr> in
      if localBlockCount w1 = 0 \<and> globalBlockCount w1 \<noteq> 0 then
        (if target w1 = [] \<or> targetTimes w1 = [] then None else
         Some (w1\<lparr>localBlockCount := sint (DiffInterval (activeParameters w1)) - 1, target := butlast (target w1),
                  currentTargetTime := (currentTargetTime w1)\<lparr>tr_first := tr_first (last (targetTimes w1))\<rparr>,
                  targetTimes := butlast (targetTimes w1), lastBlock := ReadClosedBlock E w1 (bl_PrevHash b)\<rparr>))
      else Some (w1\<lparr>localBlockCount := localBlockCount w1 - 1, lastBlock := ReadClosedBlock E w1 (bl_PrevHash b)\<rparr>))"

subsection \<open>postValidate\<close>

definition closeTx :: "'d env \<Rightarrow> Transaction \<Rightarrow> 'd world \<Rightarrow> 'd world option" where
  "closeTx E tx w = Option.bind (WriteClosedTx E tx w) (DeleteOpenTx E tx)"

text \<open>\<^verbatim>\<open>tx.Block\<close> is set after the transaction was written; the closed copy keeps the old value.\<close>

definition closeFundsTx :: "'d env \<Rightarrow> hash \<Rightarrow> FundsTx \<Rightarrow> 'd world \<Rightarrow> 'd world option" where
  "closeFundsTx E blockHash tx w = (let tx' = TFunds (tx\<lparr>ft_Block := blockHash\<rparr>) in
     Option.bind (WriteClosedTx E (TFunds tx) w) (\<lambda>w1. Option.bind (DeleteOpenTx E tx' w1) (DeleteINVALIDOpenTx E tx')))"

text \<open>The last transaction of a slice with the given hash; \<open>None\<close> if a hash panics.\<close>

fun lastWithHash :: "'d env \<Rightarrow> 'd world \<Rightarrow> hash \<Rightarrow> FundsTx list \<Rightarrow> FundsTx option \<Rightarrow> FundsTx option option" where
  "lastWithHash E w h [] found = Some found"
| "lastWithHash E w h (f # fs) found = (case world_Hash E w (TFunds f) of
     None \<Rightarrow> None | Some h' \<Rightarrow> lastWithHash E w h fs (if h' = h then Some f else found))"

text \<open>
  One aggregated hash: the transaction with its marks set, \<open>Some None\<close> if it is unknown. A closed
  transaction is only marked as aggregated, an open one also gets the block.
\<close>

definition markAggregated :: "Transaction \<Rightarrow> Transaction" where
  "markAggregated tx = (case tx of TAgg g \<Rightarrow> TAgg (g\<lparr>gt_Aggregated := True\<rparr>)
     | TFunds f \<Rightarrow> TFunds (f\<lparr>ft_Aggregated := True\<rparr>) | _ \<Rightarrow> tx)"

definition setBlock :: "hash \<Rightarrow> Transaction \<Rightarrow> Transaction" where
  "setBlock h tx = (case tx of TFunds f \<Rightarrow> TFunds (f\<lparr>ft_Block := h\<rparr>) | _ \<Rightarrow> tx)"

definition findAggregated :: "'d env \<Rightarrow> hash \<Rightarrow> FundsTx list \<Rightarrow> hash \<Rightarrow> 'd world \<Rightarrow> Transaction option option" where
  "findAggregated E blockHash aggFunds h w = (case ReadClosedTx E w h of
     Some tx \<Rightarrow> Some (Some (markAggregated tx))
   | None \<Rightarrow> (case ReadOpenTx w h of
       Some tx \<Rightarrow> Some (Some (setBlock blockHash (markAggregated tx)))
     | None \<Rightarrow> (case lastWithHash E w h aggFunds None of
         None \<Rightarrow> None
       | Some found \<Rightarrow> Some (map_option (\<lambda>f. setBlock blockHash (markAggregated (TFunds f))) found))))"

fun closeAggregated :: "'d env \<Rightarrow> AggTx \<Rightarrow> hash \<Rightarrow> FundsTx list \<Rightarrow> hash list \<Rightarrow> 'd world \<Rightarrow> 'd world option" where
  "closeAggregated E agg blockHash aggFunds [] w = Some w"
| "closeAggregated E agg blockHash aggFunds (h # hs) w = (case findAggregated E blockHash aggFunds h w of
     None \<Rightarrow> None
   | Some None \<Rightarrow> Some w
   | Some (Some tx) \<Rightarrow> (case Option.bind (closeTx E tx w) (DeleteINVALIDOpenTx E (TAgg agg)) of
       None \<Rightarrow> None | Some w' \<Rightarrow> closeAggregated E agg blockHash aggFunds hs w'))"

definition closeAggTx :: "'d env \<Rightarrow> hash \<Rightarrow> FundsTx list \<Rightarrow> AggTx \<Rightarrow> 'd world \<Rightarrow> 'd world option" where
  "closeAggTx E blockHash aggFunds tx w =
     Option.bind (closeAggregated E tx blockHash aggFunds (gt_AggregatedTxSlice tx) w) (\<lambda>w1.
       let tx' = TAgg (tx\<lparr>gt_Block := blockHash, gt_Aggregated := False\<rparr>) in
       Option.bind (closeTx E tx' w1) (DeleteINVALIDOpenTx E tx'))"

definition emptyOldBlock :: "'d env \<Rightarrow> u32 \<Rightarrow> Block \<Rightarrow> 'd world \<Rightarrow> 'd world option" where
  "emptyOldBlock E height b w =
     (if \<not> bl_Aggregated b \<and> bl_Height b > 0 \<and> int (unat (bl_Height b)) < int (unat height) - NO_EMPTYING_LENGTH
      then UpdateBlocksToBlocksWithoutTx E b w else Some w)"

definition postValidate :: "'d env \<Rightarrow> ('d world \<Rightarrow> timerange \<Rightarrow> u8) \<Rightarrow> bool \<Rightarrow> blockData \<Rightarrow> bool \<Rightarrow> 'd world \<Rightarrow> 'd world option" where
  "postValidate E newDiff isBootstrap data initialSetup w =
     (let b = bd_block data;
          aggFunds = (if initialSetup then map (\<lambda>f. f\<lparr>ft_Aggregated := True\<rparr>) (aggregatedFundsTxSlice data) else aggregatedFundsTxSlice data)
      in Option.bind (collectStatistics newDiff b (configStateChange (configTxSlice data) (bl_Hash b) w)) (\<lambda>w1.
        if isBootstrap \<and> initialSetup then Some w1
        else do_each (\<lambda>f. f)
          [do_each (closeTx E) (map TAcc (accTxSlice data)),
           do_each (closeFundsTx E (bl_HashWithoutTx b)) (fundsTxSlice data),
           do_each (closeTx E) (map TConfig (configTxSlice data)),
           do_each (closeTx E) (map TStake (stakeTxSlice data)),
           do_each (closeTx E) (map TUpdate (updateTxSlice data)),
           (if initialSetup then do_each (closeTx E) (map TFunds aggFunds) else Some),
           do_each (closeAggTx E (bl_HashWithoutTx b) aggFunds) (aggTxSlice data),
           (\<lambda>w. Some (WriteClosedBlock E b (DeleteOpenBlock E (bl_Hash b) w))),
           (\<lambda>w. do_each (emptyOldBlock E (bl_Height b)) (ReadAllClosedBlocks E w) w),
           (\<lambda>w. Some (WriteLastClosedBlock E b (DeleteAllLastClosedBlock E w)))] w1))"

subsection \<open>blockrollback.go\<close>

datatype rollback_error = AccTxMissing | FundsTxMissing | ConfigTxMissing | StakeTxMissing | AggTxMissing

text \<open>Reading the transactions of one kind: \<open>None\<close> if the type assertion panics, \<open>Inl\<close> if one is missing.\<close>

fun fetchClosed :: "'d env \<Rightarrow> 'd world \<Rightarrow> (Transaction \<Rightarrow> 'a option) \<Rightarrow> rollback_error \<Rightarrow> hash list \<Rightarrow> (rollback_error + 'a list) option" where
  "fetchClosed E w cast e [] = Some (Inr [])"
| "fetchClosed E w cast e (h # hs) = (case ReadClosedTx E w h of
     None \<Rightarrow> Some (Inl e)
   | Some tx \<Rightarrow> (case cast tx of None \<Rightarrow> None | Some x \<Rightarrow>
       (case fetchClosed E w cast e hs of Some (Inr xs) \<Rightarrow> Some (Inr (x # xs)) | r \<Rightarrow> r)))"

fun asAcc :: "Transaction \<Rightarrow> AccTx option" where "asAcc (TAcc t) = Some t" | "asAcc _ = None"
fun asFunds :: "Transaction \<Rightarrow> FundsTx option" where "asFunds (TFunds t) = Some t" | "asFunds _ = None"
fun asConfig :: "Transaction \<Rightarrow> ConfigTx option" where "asConfig (TConfig t) = Some t" | "asConfig _ = None"
fun asStake :: "Transaction \<Rightarrow> StakeTx option" where "asStake (TStake t) = Some t" | "asStake _ = None"
fun asAgg :: "Transaction \<Rightarrow> AggTx option" where "asAgg (TAgg t) = Some t" | "asAgg _ = None"

text \<open>The update transactions of the block are not fetched: \<^verbatim>\<open>updateTxSlice\<close> stays nil.\<close>

definition preValidateRollback :: "'d env \<Rightarrow> Block \<Rightarrow> 'd world \<Rightarrow> (rollback_error + blockData) option" where
  "preValidateRollback E b w =
     (case fetchClosed E w asAcc AccTxMissing (bl_AccTxData b) of None \<Rightarrow> None | Some (Inl e) \<Rightarrow> Some (Inl e) | Some (Inr as) \<Rightarrow>
     (case fetchClosed E w asFunds FundsTxMissing (bl_FundsTxData b) of None \<Rightarrow> None | Some (Inl e) \<Rightarrow> Some (Inl e) | Some (Inr fs) \<Rightarrow>
     (case fetchClosed E w asConfig ConfigTxMissing (bl_ConfigTxData b) of None \<Rightarrow> None | Some (Inl e) \<Rightarrow> Some (Inl e) | Some (Inr cs) \<Rightarrow>
     (case fetchClosed E w asStake StakeTxMissing (bl_StakeTxData b) of None \<Rightarrow> None | Some (Inl e) \<Rightarrow> Some (Inl e) | Some (Inr ss) \<Rightarrow>
     (case fetchClosed E w asAgg AggTxMissing (bl_AggTxData b) of None \<Rightarrow> None | Some (Inl e) \<Rightarrow> Some (Inl e) | Some (Inr gs) \<Rightarrow>
      Some (Inr \<lparr>accTxSlice = as, fundsTxSlice = fs, configTxSlice = cs, stakeTxSlice = ss, aggTxSlice = gs,
                 aggregatedFundsTxSlice = [], updateTxSlice = [], bd_block = b\<rparr>))))))"

definition reopenTx :: "'d env \<Rightarrow> Transaction \<Rightarrow> 'd world \<Rightarrow> 'd world option" where
  "reopenTx E tx w = Option.bind (WriteOpenTx E tx w) (DeleteClosedTx E tx)"

definition reopenAggregated :: "'d env \<Rightarrow> hash \<Rightarrow> hash \<Rightarrow> 'd world \<Rightarrow> 'd world option" where
  "reopenAggregated E blockHash h w = (case ReadClosedTx E w h of
     Some (TFunds f) \<Rightarrow> if ft_Block f = blockHash then reopenTx E (TFunds f) w else Some w
   | Some (TAgg g) \<Rightarrow> if gt_Block g = blockHash then reopenTx E (TAgg g) w else Some w
   | _ \<Rightarrow> Some w)"

definition reopenAggTx :: "'d env \<Rightarrow> hash \<Rightarrow> AggTx \<Rightarrow> 'd world \<Rightarrow> 'd world option" where
  "reopenAggTx E blockHash tx w =
     Option.bind (do_each (reopenAggregated E blockHash) (gt_AggregatedTxSlice tx) w) (reopenTx E (TAgg tx))"

definition postValidateRollback :: "'d env \<Rightarrow> blockData \<Rightarrow> 'd world \<Rightarrow> 'd world option" where
  "postValidateRollback E data = (let b = bd_block data in
     do_each (\<lambda>f. f)
       [do_each (reopenTx E) (map TAcc (accTxSlice data)), do_each (reopenTx E) (map TFunds (fundsTxSlice data)),
        do_each (reopenTx E) (map TConfig (configTxSlice data)), do_each (reopenTx E) (map TStake (stakeTxSlice data)),
        do_each (reopenAggTx E (bl_HashWithoutTx b)) (aggTxSlice data),
        collectStatisticsRollback E b,
        (\<lambda>w. Some (DeleteAllLastClosedBlock E (WriteToReceivedStash b (DeleteClosedBlock E (bl_Hash b) w)))),
        (\<lambda>w. Some (case ReadClosedBlock E w (bl_PrevHash b) of
           Some p \<Rightarrow> WriteLastClosedBlock E p w
         | None \<Rightarrow> (case ReadClosedBlock E w (bl_PrevHashWithoutTx b) of Some p \<Rightarrow> WriteLastClosedBlock E p w | None \<Rightarrow> w)))])"

definition rollback :: "'d env \<Rightarrow> Block \<Rightarrow> 'd world \<Rightarrow> (rollback_error option \<times> 'd world) option" where
  "rollback E b w = (case preValidateRollback E b w of
     None \<Rightarrow> None
   | Some (Inl e) \<Rightarrow> Some (Some e, w)
   | Some (Inr data) \<Rightarrow> map_option (\<lambda>w'. (None, w')) (do_each (\<lambda>f. f)
       [configStateChangeRollback (configTxSlice data) (bl_Hash b), validateStateRollback E data, postValidateRollback E data] w))"

subsection \<open>Checks of a block\<close>

datatype duplicate_error = DupAcc | DupFunds | DupConfig | DupStake | DupAgg | DupUpdate

fun markSeen :: "duplicate_error \<Rightarrow> hash list \<Rightarrow> hash set \<Rightarrow> duplicate_error + hash set" where
  "markSeen e [] seen = Inr seen"
| "markSeen e (h # hs) seen = (if h \<in> seen then Inl e else markSeen e hs (insert h seen))"

fun markAll :: "(duplicate_error \<times> hash list) list \<Rightarrow> hash set \<Rightarrow> duplicate_error option" where
  "markAll [] seen = None"
| "markAll ((e, hs) # rest) seen = (case markSeen e hs seen of Inl e' \<Rightarrow> Some e' | Inr seen' \<Rightarrow> markAll rest seen')"

definition validateNoDuplicateTx :: "Block \<Rightarrow> duplicate_error option" where
  "validateNoDuplicateTx b = markAll [(DupAcc, bl_AccTxData b), (DupFunds, bl_FundsTxData b), (DupConfig, bl_ConfigTxData b),
     (DupStake, bl_StakeTxData b), (DupAgg, bl_AggTxData b), (DupUpdate, bl_UpdateTxData b)] {}"

datatype timestamp_error = TooFarInFuture | TooFarInPast

text \<open>Timestamps are 64-bit integers; the differences wrap.\<close>

definition sub64 :: "int \<Rightarrow> int \<Rightarrow> int" where
  "sub64 a b = sint (word_of_int (a - b) :: u64)"

definition timestampCheck :: "int \<Rightarrow> int \<Rightarrow> timestamp_error option" where
  "timestampCheck systemTime timestamp =
     (if timestamp > systemTime then if sub64 timestamp systemTime > 7200 then Some TooFarInFuture else None
      else if sub64 systemTime timestamp > 36000 then Some TooFarInPast else None)"

end
