(* ===== verification/Scenario.thy ===== *)
theory Scenario
  imports Validation
begin

text \<open>
  A concrete environment and small worlds, at which the properties are evaluated. The database is an
  association list from bucket and key to the stored value; the hash functions are simple enough to
  compute in the kernel. Nothing here models code of the repository.
\<close>

type_synonym demo_db = "((string \<times> bytes) \<times> blob) list"

definition demo_E :: "demo_db env" where
  "demo_E = \<lparr>crypto = \<lparr>sha3 = (\<lambda>_. demo_hash 9), sha256 = (\<lambda>_. [2]), ecdsa_Verify = (\<lambda>pk h r s. r = s)\<rparr>,
     bGet = (\<lambda>d b k. map_of d (b, k)), bPut = (\<lambda>d b k v. AList.update (b, k) v d), bDelete = (\<lambda>d b k. AList.delete (b, k) d),
     bForEach = (\<lambda>d b. map (\<lambda>p. (snd (fst p), snd p)) (filter (\<lambda>p. fst (fst p) = b) (AList.clearjunk d)))\<rparr>"

lemma demo_E_simps [simp]:
  "crypto demo_E = \<lparr>sha3 = (\<lambda>_. demo_hash 9), sha256 = (\<lambda>_. [2]), ecdsa_Verify = (\<lambda>pk h r s. r = s)\<rparr>"
  "bGet demo_E d b k = map_of d (b, k)" "bPut demo_E d b k v = AList.update (b, k) v d"
  "bDelete demo_E d b k = AList.delete (b, k) d"
  by (simp_all add: demo_E_def)

lemma demo_bForEach: "(k, v) \<in> set (bForEach demo_E d b) \<longleftrightarrow> map_of d (b, k) = Some v"
proof -
  have "(k, v) \<in> set (bForEach demo_E d b) \<longleftrightarrow> ((b, k), v) \<in> set (AList.clearjunk d)"
    by (force simp: demo_E_def image_iff)
  also have "\<dots> \<longleftrightarrow> map_of (AList.clearjunk d) (b, k) = Some v" by (simp add: distinct_clearjunk)
  finally show ?thesis by (simp add: map_of_clearjunk)
qed

lemma demo_bForEach_distinct: "distinct (map fst (bForEach demo_E d b))"
proof -
  have "distinct (map fst (AList.clearjunk d))" by (rule distinct_clearjunk)
  then have "distinct (map fst (filter (\<lambda>p. fst (fst p) = b) (AList.clearjunk d)))" by (rule distinct_map_filter)
  then have "distinct (map (snd \<circ> fst) (filter (\<lambda>p. fst (fst p) = b) (AList.clearjunk d)))"
    by (auto simp: distinct_map inj_on_def)
  then show ?thesis by (simp add: demo_E_def comp_def)
qed

lemma bolt_laws_demo: "bolt_laws demo_E"
  unfolding bolt_laws_def
  by (auto simp: demo_bForEach demo_bForEach_distinct update_conv' delete_conv' restrict_map_def simp del: demo_E_simps(1))

definition demo_cham :: ChameleonHashParameters where
  "demo_cham = keygen 23 2 3"

text \<open>The hash of a transaction with this check string is a constant.\<close>

lemma demo_ChameleonHash:
  "ChameleonHash (\<lambda>_. [2]) (Some demo_cham) (Some (NewCheckString 8 1)) msg = Some zero_hash"
  unfolding chameleon_defs demo_cham_def zero_hash_def by (simp add: chameleon_eval)

definition demo_acc :: "byte \<Rightarrow> u64 \<Rightarrow> u32 \<Rightarrow> bool \<Rightarrow> Account" where
  "demo_acc a balance cnt staking = (NewAccount (replicate 63 0 @ [a]) zero_hash balance staking [] None [] (Some demo_cham))\<lparr>acc_TxCnt := cnt\<rparr>"

lemma demo_acc_simps [simp]:
  "acc_Balance (demo_acc a v c s) = v" "acc_TxCnt (demo_acc a v c s) = c" "acc_IsStaking (demo_acc a v c s) = s"
  "acc_Address (demo_acc a v c s) = replicate 63 0 @ [a]"
  "demo_acc a v c s\<lparr>acc_Balance := v'\<rparr> = demo_acc a v' c s" "demo_acc a v c s\<lparr>acc_TxCnt := c'\<rparr> = demo_acc a v c' s"
  "demo_acc a v c s\<lparr>acc_IsStaking := s'\<rparr> = demo_acc a v c s'"
  by (simp_all add: demo_acc_def NewAccount_def)

definition demo_world :: "(hash \<rightharpoonup> Account) \<Rightarrow> hash list \<Rightarrow> demo_db world" where
  "demo_world accs roots = \<lparr>db = [], State = accs, RootKeys = map (\<lambda>h. (h, [])) roots, ChamMap = (\<lambda>_. Some demo_cham),
     txMemPool = Map.empty, txINVALIDMemPool = Map.empty, bootstrapReceivedMemPool = Map.empty, FundsTxBeforeAggregation = [],
     ReceivedBlockStash = [], TxcntToTxMap = (\<lambda>_. []), parameterSlice = [NewDefaultParameters], globalBlockCount = -1,
     localBlockCount = -1, target = [10], currentTargetTime = \<lparr>tr_first = 0, tr_last = 0\<rparr>, targetTimes = [],
     lastBlock = None, slashingDict = []\<rparr>"

lemma demo_world_simps [simp]:
  "db (demo_world accs roots) = []" "State (demo_world accs roots) = accs" "RootKeys (demo_world accs roots) = map (\<lambda>h. (h, [])) roots"
  "ChamMap (demo_world accs roots) h = Some demo_cham" "parameterSlice (demo_world accs roots) = [NewDefaultParameters]"
  "txMemPool (demo_world accs roots) = Map.empty" "ReceivedBlockStash (demo_world accs roots) = []"
  "demo_world accs roots\<lparr>State := accs'\<rparr> = demo_world accs' roots"
  by (simp_all add: demo_world_def)

definition demo_tx :: "byte \<Rightarrow> byte \<Rightarrow> u64 \<Rightarrow> u64 \<Rightarrow> u32 \<Rightarrow> FundsTx" where
  "demo_tx from to amount fee cnt = ConstrFundsTx 0 amount fee cnt (demo_hash from) (demo_hash to) (Some (NewCheckString 8 1)) None"

lemma demo_tx_simps [simp]:
  "ft_From (demo_tx f t a e c) = demo_hash f" "ft_To (demo_tx f t a e c) = demo_hash t" "ft_Amount (demo_tx f t a e c) = a"
  "ft_Fee (demo_tx f t a e c) = e" "ft_TxCnt (demo_tx f t a e c) = c" "ft_Aggregated (demo_tx f t a e c) = False"
  by (simp_all add: demo_tx_def ConstrFundsTx_def)

lemma demo_tx_Hash [simp]:
  "cm (demo_hash f) = Some demo_cham \<Longrightarrow> FundsTx_Hash \<lparr>sha3 = g, sha256 = (\<lambda>_. [2]), ecdsa_Verify = v\<rparr> cm (demo_tx f t a e c) = Some zero_hash"
  by (simp add: FundsTx_Hash_def demo_tx_def ConstrFundsTx_def demo_ChameleonHash [simplified])

definition demo_block :: "byte \<Rightarrow> Block" where
  "demo_block miner = zero_block\<lparr>bl_Beneficiary := demo_hash miner, bl_Height := 1\<rparr>"

definition demo_data :: "AccTx list \<Rightarrow> FundsTx list \<Rightarrow> StakeTx list \<Rightarrow> blockData" where
  "demo_data accTxs fundsTxs stakeTxs = \<lparr>accTxSlice = accTxs, fundsTxSlice = fundsTxs, configTxSlice = [], stakeTxSlice = stakeTxs,
     aggTxSlice = [], aggregatedFundsTxSlice = [], updateTxSlice = [], bd_block = demo_block 3\<rparr>"

text \<open>A closed database entry is not found in an empty database.\<close>

lemma ReadClosedTx_empty [simp]: "db w = [] \<Longrightarrow> ReadClosedTx demo_E w h = None"
  by (simp add: ReadClosedTx_def)

text \<open>A transaction that was closed before, and the database that holds it.\<close>

definition demo_closed :: FundsTx where
  "demo_closed = ConstrFundsTx 0 5 1 0 (demo_hash 1) (demo_hash 2) (Some (NewCheckString 9 1)) None"

definition demo_store :: demo_db where
  "demo_store = [((''closedfunds'', 1 # replicate 31 0), GobFunds demo_closed)]"

definition demo_closed_world :: "(hash \<rightharpoonup> Account) \<Rightarrow> hash list \<Rightarrow> demo_db world" where
  "demo_closed_world accs roots = (demo_world accs roots)\<lparr>db := demo_store\<rparr>"

lemma demo_closed_simps [simp]:
  "ft_From demo_closed = demo_hash 1" "ft_To demo_closed = demo_hash 2" "ft_Amount demo_closed = 5" "ft_Fee demo_closed = 1"
  "ft_TxCnt demo_closed = 0" "ft_Aggregated demo_closed = False"
  by (simp_all add: demo_closed_def ConstrFundsTx_def)

lemma demo_closed_world_simps [simp]:
  "db (demo_closed_world accs roots) = demo_store" "State (demo_closed_world accs roots) = accs"
  "RootKeys (demo_closed_world accs roots) = map (\<lambda>h. (h, [])) roots" "ChamMap (demo_closed_world accs roots) h = Some demo_cham"
  "parameterSlice (demo_closed_world accs roots) = [NewDefaultParameters]"
  by (simp_all add: demo_closed_world_def)

lemma demo_closed_hash:
  "ChameleonHash (\<lambda>_. [2]) (Some demo_cham) (Some (NewCheckString 9 1)) msg = Some (1 # replicate 31 0)"
  unfolding chameleon_defs demo_cham_def by (simp add: chameleon_eval)

lemma demo_closed_Hash [simp]:
  "cm (demo_hash 1) = Some demo_cham \<Longrightarrow> FundsTx_Hash \<lparr>sha3 = g, sha256 = (\<lambda>_. [2]), ecdsa_Verify = v\<rparr> cm demo_closed = Some (1 # replicate 31 0)"
  by (simp add: FundsTx_Hash_def demo_closed_def ConstrFundsTx_def demo_closed_hash [simplified])

lemma ReadClosedTx_store [simp]:
  "db w = demo_store \<Longrightarrow> ReadClosedTx demo_E w zero_hash = None"
  "db w = demo_store \<Longrightarrow> ReadClosedTx demo_E w (1 # replicate 31 0) = Some (TFunds demo_closed)"
  by (simp_all add: ReadClosedTx_def demo_store_def zero_hash_def numeral_eq_Suc)

lemma demo_alreadyClosed:
  assumes "db w = demo_store" "ChamMap w (demo_hash f) = Some demo_cham"
  shows "\<not> alreadyClosed demo_E i (demo_tx f t a e c) w"
  using assms by (simp add: alreadyClosed_def world_Hash_def)

lemma demo_alreadyClosed_closed:
  assumes "db w = demo_store" "ChamMap w (demo_hash 1) = Some demo_cham"
  shows "alreadyClosed demo_E False demo_closed w"
  using assms by (simp add: alreadyClosed_def world_Hash_def)

end
