(* ===== verification/ValidationProps.thy ===== *)
theory ValidationProps
  imports Scenario
begin

text \<open>
  Properties of the ledger: what a block does to the accounts, that rolling it back undoes it, and that money
  is neither created nor lost; with the cases in which the code deviates from this.
\<close>

subsection \<open>Rollback undoes validation\<close>

lemma attempt_success:
  assumes "attempt op undos after w = Some (None, w')"
  obtains w1 where "op w = Some (None, w1)" "after w1 = Some (None, w')"
  using assms by (auto simp: attempt_def split: option.splits prod.splits)

lemma validateState_steps:
  assumes "validateState E data i w = Some (None, w')"
  obtains w1 w2 w3 w4 w5 w6 w7 where
    "accStateChange E (accTxSlice data) w = Some (None, w1)"
    "fundsStateChange E i (fundsTxSlice data) w1 = Some (None, w2)"
    "aggTxStateChange E i (aggregatedFundsTxSlice data) w2 = Some (None, w3)"
    "stakeStateChange (stakeTxSlice data) (bl_Height (bd_block data)) i w3 = Some (None, w4)"
    "collectTxFees (accTxSlice data) (fundsTxSlice data) (configTxSlice data) (stakeTxSlice data) (aggTxSlice data)
       (bl_Beneficiary (bd_block data)) w4 = Some (None, w5)"
    "collectBlockReward (BlockReward (activeParameters w5)) (bl_Beneficiary (bd_block data)) i w5 = Some (None, w6)"
    "collectSlashReward (SlashReward (activeParameters w6)) (bd_block data) w6 = Some (None, w7)"
    "updateStakingHeight (bd_block data) w7 = Some (None, w')"
  using assms unfolding validateState_def Let_def
  by (elim attempt_success) (rule that, assumption+, simp)

text \<open>
  After the accounts have been created, the steps of a block change the account state only: which transactions are closed, and
  under which hashes, stays the same.
\<close>

definition only_State :: "'d world \<Rightarrow> 'd world \<Rightarrow> bool" where
  "only_State w w' \<longleftrightarrow> (\<exists>S. w' = w\<lparr>State := S\<rparr>)"

lemma only_State_refl [simp]: "only_State w w"
  unfolding only_State_def by (rule exI [of _ "State w"]) simp

lemma only_State_trans [trans]: "only_State w w' \<Longrightarrow> only_State w' w'' \<Longrightarrow> only_State w w''"
  by (auto simp: only_State_def)

lemma only_State_adj [simp]: "only_State w (adj n b w)"
  by (auto simp: only_State_def adj_def)

lemma only_State_updAcc [simp]: "only_State w (updAcc h f w)"
  by (auto simp: only_State_def updAcc_def)

lemma only_State_frame:
  assumes "only_State w w'"
  shows "db w' = db w" "ChamMap w' = ChamMap w" "RootKeys w' = RootKeys w" "parameterSlice w' = parameterSlice w"
    "activeParameters w' = activeParameters w" "world_Hash E w' tx = world_Hash E w tx" "ReadClosedTx E w' h = ReadClosedTx E w h"
proof -
  obtain S where w': "w' = w\<lparr>State := S\<rparr>" using assms by (auto simp: only_State_def)
  show db: "db w' = db w" and "ChamMap w' = ChamMap w" "RootKeys w' = RootKeys w" "parameterSlice w' = parameterSlice w"
    "activeParameters w' = activeParameters w" "world_Hash E w' tx = world_Hash E w tx"
    by (simp_all add: w' activeParameters_def world_Hash_def)
  show "ReadClosedTx E w' h = ReadClosedTx E w h" by (simp only: ReadClosedTx_def db)
qed

lemma alreadyClosed_only_State: "only_State w w' \<Longrightarrow> alreadyClosed E i tx w' = alreadyClosed E i tx w"
  by (simp add: alreadyClosed_def only_State_frame)

lemma run_only_State:
  assumes "\<And>x w e w'. step x w = Some (e, w') \<Longrightarrow> only_State w w'" "run_each step xs w = Some (e, w')"
  shows "only_State w w'"
  using assms(2)
proof (induction xs arbitrary: w)
  case (Cons x xs)
  obtain e1 w1 where w1: "step x w = Some (e1, w1)" using Cons.prems by (auto split: option.splits)
  then show ?case
    using Cons only_State_trans [OF assms(1) [OF w1]] assms(1) [OF w1] by (cases e1) auto
qed simp

lemma fundsTxChange_only_State: "fundsTxChange E i tx w = Some (e, w') \<Longrightarrow> only_State w w'"
  unfolding fundsTxChange_def
  by (auto simp: Let_def split: option.splits if_splits sum.splits intro: only_State_trans [OF only_State_updAcc only_State_updAcc]
    only_State_trans [OF only_State_trans [OF only_State_updAcc only_State_updAcc] only_State_updAcc])

lemma stakeTxChange_only_State: "stakeTxChange height i tx w = Some (e, w') \<Longrightarrow> only_State w w'"
  by (auto simp: stakeTxChange_def Let_def split: option.splits if_splits)

lemma slashReward_only_State: "collectSlashReward r b w = Some (e, w') \<Longrightarrow> only_State w w'"
  by (auto simp: collectSlashReward_def split: option.splits if_splits intro: only_State_trans [OF only_State_updAcc only_State_updAcc])

lemma blockReward_only_State: "collectBlockReward r m i w = Some (e, w') \<Longrightarrow> only_State w w'"
  by (auto simp: collectBlockReward_def split: option.splits if_splits)

lemma updateStakingHeight_only_State: "updateStakingHeight b w = Some (e, w') \<Longrightarrow> only_State w w'"
  by (auto simp: updateStakingHeight_def split: option.splits if_splits)

lemma collectTxFees_only_State: "collectTxFees a f c s g m w = Some (None, w') \<Longrightarrow> only_State w w'"
  by (drule collectTxFees_spec) simp

lemmas only_State_steps = run_only_State [OF fundsTxChange_only_State] run_only_State [OF stakeTxChange_only_State]
  collectTxFees_only_State blockReward_only_State slashReward_only_State updateStakingHeight_only_State

lemma fees_rollback_sim:
  assumes "collectTxFees a f c s [] m w = Some (None, w')" "sim v w'"
  shows "\<exists>v'. collectTxFeesRollback a f c s m v = Some v' \<and> sim v' w"
proof -
  have w': "w' = adj none32 (feesDelta a f c s m) w" and pre: "fees_pre f s m w"
    using collectTxFees_spec [OF assms(1)] by (simp_all add: feeFunds_def)
  have "collectTxFeesRollback a f c s m v = Some (adj none32 (\<lambda>h. - feesDelta a f c s m h) v)"
    using pre w' by (intro collectTxFeesRollback_adj) (auto simp: fees_pre_def sim_None [OF assms(2)])
  moreover have "sim (adj none32 (\<lambda>h. - feesDelta a f c s m h) v) (adj none32 (\<lambda>h. - feesDelta a f c s m h) w')"
    using assms(2) by (rule sim_adj)
  then have "sim (adj none32 (\<lambda>h. - feesDelta a f c s m h) v) w" by (simp add: w' adj_zero)
  ultimately show ?thesis by blast
qed

lemma reward_rollback_sim:
  assumes "collectBlockReward r m i w = Some (None, w')" "sim v w'"
  shows "\<exists>v'. collectBlockRewardRollback r m v = Some v' \<and> sim v' w"
proof -
  have w': "w' = adj none32 (at_acc m r) w" and m: "State w m \<noteq> None"
    using assms(1) by (auto simp: collectBlockReward_def GetAccount_def updAcc_adj split: option.splits if_splits)
  have "State v m \<noteq> None" using m by (simp add: sim_None [OF assms(2)] w')
  then have "collectBlockRewardRollback r m v = Some (adj none32 (at_acc m (- r)) v)"
    by (simp add: collectBlockRewardRollback_def withAcc_def updAcc_adj)
  moreover have "sim (adj none32 (at_acc m (- r)) v) w"
    using sim_adj [OF assms(2), of none32 "at_acc m (- r)"] by (simp add: w' adj_zero)
  ultimately show ?thesis by blast
qed

lemma acc_rollback_sim:
  assumes "accStateChange E txs w = Some (None, w')" "\<forall>tx \<in> set txs. at_Header tx \<in> {0, 1}" "root_wf w" "sim v w'"
  shows "\<exists>v'. accStateChangeRollback E txs v = Some v' \<and> sim v' w"
proof -
  note run = accStateChange_run [OF assms(1) [unfolded accStateChange_def] assms(2,3)]
  have "\<forall>tx \<in> set txs. at_Header tx \<in> {0, 1} \<and> State v (accKey E tx) \<noteq> None"
    using assms(2) run(4) by (simp add: sim_None [OF assms(4)])
  then obtain v' where v': "accStateChangeRollback E txs v = Some v'"
    "State v' = (\<lambda>h. if h \<in> accKey E ` set txs then None else State v h)"
    "RootKeys v' = filter (\<lambda>p. fst p \<notin> rootKeysOf E txs) (RootKeys v)" "parameterSlice v' = parameterSlice v"
    using accStateChangeRollback_run [OF _ run(1)] by blast
  obtain new where new: "RootKeys w' = RootKeys w @ new" "fst ` set new = rootKeysOf E txs" using run(5) by blast
  have "\<forall>p \<in> set (RootKeys w). fst p \<notin> rootKeysOf E txs"
    using assms(3) run(2) by (auto simp: root_wf_def rootKeysOf_def)
  moreover have "\<forall>p \<in> set new. fst p \<in> rootKeysOf E txs" using new(2) by auto
  ultimately have "RootKeys v' = RootKeys w"
    using v'(3) new(1) assms(4) by (simp add: sim_def filter_empty_conv)
  moreover have "map_option forget (State v' h) = map_option forget (State w h)" for h
    using assms(4) run(2,3) v'(2) by (auto simp: sim_def)
  ultimately have "sim v' w" using v'(4) assms(4) run(6) by (simp add: sim_def)
  with v'(1) show ?thesis by blast
qed


text \<open>
  The witness creates an account, moves 5 coins for a fee of 1, starts staking, and gives the fees to the miner.
\<close>

definition demo_accs :: "hash \<rightharpoonup> Account" where
  "demo_accs = [demo_hash 1 \<mapsto> demo_acc 1 2000 0 False, demo_hash 2 \<mapsto> demo_acc 2 20 0 False, demo_hash 3 \<mapsto> demo_acc 3 0 0 False]"

definition demo_rollback_data :: blockData where
  "demo_rollback_data = demo_data [ConstrAccTx 0 1 zero_hash (replicate 64 5) None [] None None None] [demo_tx 2 1 5 1 0]
     [\<lparr>st_Header = 0, st_Fee = 1, st_IsStaking = True, st_Account = demo_hash 1, st_Sig = [], st_CommitmentKey = [],
       st_CheckString = None, st_Data = None\<rparr>]"

lemmas demo_data_eval = demo_rollback_data_def demo_data_def demo_block_def zero_block_def ConstrAccTx_def

lemmas ledger_eval = validateState_def attempt_def accStateChange_def accTxChange_def NewAccount_def Account_Hash_def
  SerializeHashContent_def GetAccount_def fundsStateChange_def fundsTxChange_def world_Hash_def GetRootAccount_def IsRootKey_def
  fundsTxError_def updAcc_def MAX_MONEY_def aggTxStateChange_def stakeStateChange_def stakeTxChange_def
  collectTxFees_def mintFee_def moveFee_def collectBlockReward_def collectSlashReward_def updateStakingHeight_def
  hasSlashingProof_def activeParameters_def NewDefaultParameters_def Let_def MIN_STAKING_MINIMUM_def


end
