(* ===== verification/Money.thy ===== *)
theory Money
  imports ValidationProps "HOL-Library.Multiset"
begin

text \<open>
  The money supply. The sum of all balances, in the 64-bit arithmetic of the code, changes over a block by
  exactly what the block issues; and the funds transactions of a block keep every balance below the maximum,
  so that the sums are also right as plain numbers.
\<close>

subsection \<open>Conservation modulo the word size\<close>

definition totalBalance :: "'d world \<Rightarrow> u64" where
  "totalBalance w = (\<Sum>h \<in> dom (State w). acc_Balance (the (State w h)))"

definition moves :: "u64 \<Rightarrow> 'd world \<Rightarrow> 'd world \<Rightarrow> bool" where
  "moves v w w' \<longleftrightarrow> (finite (dom (State w)) \<longrightarrow> finite (dom (State w')) \<and> totalBalance w' = totalBalance w + v) \<and> only_State w w'"

lemma moves_refl [simp]: "moves 0 w w"
  by (simp add: moves_def)

lemma moves_trans [trans]: "moves u w w' \<Longrightarrow> moves v w' w'' \<Longrightarrow> moves (u + v) w w''"
  by (auto simp: moves_def intro: only_State_trans)

lemma moves_frame: "moves v w w' \<Longrightarrow> only_State w w'"
  by (simp add: moves_def)

lemma dom_adj [simp]: "dom (State (adj n b w)) = dom (State w)"
  by (auto simp: adj_account)

lemma totalBalance_adj: "finite (dom (State w)) \<Longrightarrow> totalBalance (adj n b w) = totalBalance w + (\<Sum>h \<in> dom (State w). b h)"
  by (auto simp: totalBalance_def adj_account simp flip: sum.distrib intro!: sum.cong)

lemma sum_at_acc [simp]:
  "finite (dom S) \<Longrightarrow> S h \<noteq> None \<Longrightarrow> (\<Sum>x \<in> dom S. at_acc h v x) = (v :: 'a::comm_monoid_add)"
  by (auto simp: at_acc_def)

lemma moves_adj:
  assumes "\<And>D. finite D \<Longrightarrow> D = dom (State w) \<Longrightarrow> (\<Sum>h \<in> D. b h) = v"
  shows "moves v w (adj n b w)"
  using assms by (simp add: moves_def totalBalance_adj)

lemma moves_updAcc:
  assumes "\<And>a. acc_Balance (f a) = acc_Balance a"
  shows "moves 0 w (updAcc h f w)"
proof -
  have "dom (State (updAcc h f w)) = dom (State w)" by (auto simp: updAcc_def split: if_splits)
  moreover have "acc_Balance (the (State (updAcc h f w) x)) = acc_Balance (the (State w x))" if "x \<in> dom (State w)" for x
    using that assms by (auto simp: updAcc_def)
  ultimately show ?thesis by (simp add: moves_def totalBalance_def)
qed

text \<open>
  The interface of a step that changes the account state only, and the supply by a known amount. The amount depends on nothing
  that such a step changes.
\<close>

locale conserving =
  fixes step :: "'a \<Rightarrow> 'd world \<Rightarrow> 'd outcome"
    and amount :: "'d world \<Rightarrow> 'a \<Rightarrow> u64"
  assumes step_moves: "step x w = Some (None, w') \<Longrightarrow> moves (amount w x) w w'"
    and amount_frame: "only_State w w' \<Longrightarrow> amount w' x = amount w x"
begin

lemma run_moves: "run_each step xs w = Some (None, w') \<Longrightarrow> moves (\<Sum>x\<leftarrow>xs. amount w x) w w'"
proof (induction xs arbitrary: w)
  case (Cons x xs)
  obtain w1 where w1: "step x w = Some (None, w1)" "run_each step xs w1 = Some (None, w')"
    using Cons.prems by (auto split: option.splits prod.splits)
  have m: "moves (amount w x) w w1" using step_moves [OF w1(1)] .
  moreover have "moves (\<Sum>x\<leftarrow>xs. amount w x) w1 w'"
    using Cons.IH [OF w1(2)] amount_frame [OF moves_frame [OF m]] by simp
  ultimately show ?case using moves_trans [OF m] by simp
qed simp

end

text \<open>What a funds transaction issues: a root account pays with new coins.\<close>

definition issuedBy :: "(hash \<times> bytes) list \<Rightarrow> FundsTx \<Rightarrow> u64" where
  "issuedBy roots tx = (if map_of roots (ft_From tx) \<noteq> None then ft_Amount tx + ft_Fee tx else 0)"

text \<open>What it really issues: a transaction that is closed already is skipped.\<close>

definition newlyIssued :: "'d env \<Rightarrow> bool \<Rightarrow> 'd world \<Rightarrow> FundsTx \<Rightarrow> u64" where
  "newlyIssued E i w tx = (if alreadyClosed E i tx w then 0 else issuedBy (RootKeys w) tx)"

lemma newlyIssued_frame: "only_State w w' \<Longrightarrow> newlyIssued E i w' tx = newlyIssued E i w tx"
  by (simp add: newlyIssued_def alreadyClosed_only_State only_State_frame)

lemma alreadyClosed_skipped: "alreadyClosed E i tx w \<Longrightarrow> fundsTxChange E i tx w = Some (None, w)"
  by (auto simp: alreadyClosed_def fundsTxChange_def)

interpretation fundsMoney: conserving "fundsTxChange E i" "newlyIssued E i" for E :: "'d env" and i
proof
  fix tx and w w' :: "'d world"
  assume tx: "fundsTxChange E i tx w = Some (None, w')"
  show "moves (newlyIssued E i w tx) w w'"
  proof (cases "alreadyClosed E i tx w")
    case True
    then show ?thesis using tx by (simp add: alreadyClosed_skipped newlyIssued_def)
  next
    case False
    then obtain w': "w' = adj (at_acc (ft_From tx) 1) (fundsTxDelta w tx) w" and ex: "State w (ft_From tx) \<noteq> None" "State w (ft_To tx) \<noteq> None"
      using tx by (elim fundsTxChange_cases) auto
    show ?thesis
      unfolding w' using ex False
      by (intro moves_adj) (simp add: newlyIssued_def fundsTxDelta_def sum.distrib sum_subtractf sum_negf issuedBy_def IsRootKey_def)
  qed
qed (rule newlyIssued_frame)

interpretation stakeMoney: conserving "stakeTxChange height i" "\<lambda>_ _. 0" for height i
  by unfold_locales (auto elim!: stakeTxChange_cases intro!: moves_updAcc)

lemma aggTxStateChange_moves:
  assumes "aggTxStateChange E i txs w = Some (None, w')"
  shows "moves (\<Sum>tx\<leftarrow>txs. newlyIssued E i w tx) w w'"
proof -
  have "moves (\<Sum>tx\<leftarrow>sort_by ByTxCount_Less txs. newlyIssued E i w tx) w w'"
    using assms fundsMoney.run_moves by (simp add: aggTxStateChange_def fundsStateChange_def)
  moreover have "(\<Sum>tx\<leftarrow>sort_by ByTxCount_Less txs. newlyIssued E i w tx) = (\<Sum>tx\<leftarrow>txs. newlyIssued E i w tx)"
    by (metis mset_map mset_sort_by sum_mset_sum_list)
  ultimately show ?thesis by simp
qed

lemma sum_mintDelta:
  "finite (dom S) \<Longrightarrow> S m \<noteq> None \<Longrightarrow> (\<Sum>h \<in> dom S. \<Sum>x\<leftarrow>xs. mintDelta m (f x) h) = (\<Sum>x\<leftarrow>xs. f x)"
  by (induction xs) (simp_all add: sum.distrib mintDelta_def)

lemma sum_moveDelta:
  "finite (dom S) \<Longrightarrow> S m \<noteq> None \<Longrightarrow> \<forall>x \<in> set xs. S (s x) \<noteq> None \<Longrightarrow> (\<Sum>h \<in> dom S. \<Sum>x\<leftarrow>xs. moveDelta m (s x, f x) h) = 0"
  by (induction xs) (simp_all add: sum.distrib sum_subtractf moveDelta_def)

lemma fees_moves:
  assumes "collectTxFees accTxs fundsTxs configTxs stakeTxs aggTxs m w = Some (None, w')"
  shows "moves ((\<Sum>tx\<leftarrow>accTxs. at_Fee tx) + (\<Sum>tx\<leftarrow>configTxs. ct_Fee tx)) w w'"
proof -
  let ?f = "feeFunds w fundsTxs aggTxs"
  have w': "w' = adj none32 (feesDelta accTxs ?f configTxs stakeTxs m) w" and pre: "fees_pre ?f stakeTxs m w"
    using collectTxFees_spec [OF assms] by simp_all
  show ?thesis
    unfolding w' using pre
    by (intro moves_adj) (simp add: feesDelta_def sum.distrib sum_mintDelta sum_moveDelta fees_pre_def)
qed

lemma accTxChange_moves:
  assumes "accTxChange E tx w = Some (None, w')"
  shows "(finite (dom (State w)) \<longrightarrow> finite (dom (State w')) \<and> totalBalance w' = totalBalance w) \<and> db w' = db w \<and> parameterSlice w' = parameterSlice w"
proof -
  have new: "totalBalance (w\<lparr>State := (State w)(h := Some a)\<rparr>) = totalBalance w"
    if "State w h = None" "acc_Balance a = 0" "finite (dom (State w))" for h a
  proof -
    have "dom (State (w\<lparr>State := (State w)(h := Some a)\<rparr>)) = insert h (dom (State w))" "h \<notin> dom (State w)" using that(1) by auto
    then show ?thesis using that by (auto simp: totalBalance_def intro!: sum.cong)
  qed
  have sup: "totalBalance w1 = totalBalance w2" if "State w1 = State w2" for w1 w2 :: "'a world" using that by (simp add: totalBalance_def)
  show ?thesis using assms new sup
    by (auto simp: accTxChange_def Let_def NewAccount_def GetAccount_def totalBalance_def split: if_splits)
qed

lemma accStateChange_moves:
  assumes "run_each (accTxChange E) txs w = Some (None, w')"
  shows "(finite (dom (State w)) \<longrightarrow> finite (dom (State w')) \<and> totalBalance w' = totalBalance w) \<and> db w' = db w \<and> parameterSlice w' = parameterSlice w"
  using assms
proof (induction txs arbitrary: w)
  case (Cons tx txs)
  obtain w1 where w1: "accTxChange E tx w = Some (None, w1)" "run_each (accTxChange E) txs w1 = Some (None, w')"
    using Cons.prems by (auto split: option.splits prod.splits)
  show ?case using Cons.IH [OF w1(2)] accTxChange_moves [OF w1(1)] by simp
qed simp

lemma slash_moves:
  assumes "collectSlashReward r b w = Some (None, w')"
  shows "moves (if hasSlashingProof b then r - StakingMinimum (activeParameters w) else 0) w w'"
proof (cases "hasSlashingProof b")
  case True
  let ?s = "StakingMinimum (activeParameters w)"
  let ?w1 = "adj none32 (at_acc (bl_Beneficiary b) r) w"
  let ?w2 = "adj none32 (at_acc (bl_SlashedAddress b) (- ?s)) ?w1"
  have ex: "State w (bl_Beneficiary b) \<noteq> None" "State w (bl_SlashedAddress b) \<noteq> None"
    using assms True by (auto simp: collectSlashReward_def GetAccount_def split: option.splits if_splits)
  have "updAcc h (\<lambda>a. (subBalance ?s a)\<lparr>acc_IsStaking := False\<rparr>) v = updAcc h (\<lambda>a. a\<lparr>acc_IsStaking := False\<rparr>) (updAcc h (subBalance ?s) v)" for h and v :: "'a world"
    by (cases "State v h") (simp_all add: updAcc_def)
  then have w': "w' = updAcc (bl_SlashedAddress b) (\<lambda>a. a\<lparr>acc_IsStaking := False\<rparr>) ?w2"
    using assms True by (auto simp: collectSlashReward_def GetAccount_def updAcc_adj split: option.splits if_splits)
  have "moves r w ?w1" using ex by (intro moves_adj) simp
  also have "moves (- ?s) ?w1 ?w2" using ex by (intro moves_adj) (simp add: sum_negf)
  also have "moves 0 ?w2 w'" unfolding w' by (rule moves_updAcc) simp
  finally show ?thesis using True by simp
qed (use assms in \<open>simp add: collectSlashReward_def\<close>)

text \<open>
  C2: a block changes the money supply by exactly what it issues. After \<^verbatim>\<open>validateState\<close> accepted a block, the
  sum of all balances, modulo \<open>2 ^ 64\<close>, has grown by the amounts and fees that root accounts paid in transactions that
  were not closed before, the fees of account and configuration transactions, the block reward and, with a slashing proof,
  the slashing reward less the slashed stake; transfers, stake and aggregation transactions and their fees only move money.
\<close>

theorem validateState_supply:
  assumes "validateState E data i w = Some (None, w')" "finite (dom (State w))"
  shows "totalBalance w' = totalBalance w +
    (\<Sum>tx\<leftarrow>fundsTxSlice data @ aggregatedFundsTxSlice data. if alreadyClosed E i tx w' then 0 else issuedBy (RootKeys w') tx) +
    (\<Sum>tx\<leftarrow>accTxSlice data. at_Fee tx) + (\<Sum>tx\<leftarrow>configTxSlice data. ct_Fee tx) + BlockReward (activeParameters w) +
    (if hasSlashingProof (bd_block data) then SlashReward (activeParameters w) - StakingMinimum (activeParameters w) else 0)"
proof -
  let ?f = "fundsTxSlice data" and ?g = "aggregatedFundsTxSlice data" and ?m = "bl_Beneficiary (bd_block data)"
  obtain w1 w2 w3 w4 w5 w6 w7 where
    1: "accStateChange E (accTxSlice data) w = Some (None, w1)" and
    2: "fundsStateChange E i ?f w1 = Some (None, w2)" and
    3: "aggTxStateChange E i ?g w2 = Some (None, w3)" and
    4: "stakeStateChange (stakeTxSlice data) (bl_Height (bd_block data)) i w3 = Some (None, w4)" and
    5: "collectTxFees (accTxSlice data) ?f (configTxSlice data) (stakeTxSlice data) (aggTxSlice data) ?m w4 = Some (None, w5)" and
    6: "collectBlockReward (BlockReward (activeParameters w5)) ?m i w5 = Some (None, w6)" and
    7: "collectSlashReward (SlashReward (activeParameters w6)) (bd_block data) w6 = Some (None, w7)" and
    8: "updateStakingHeight (bd_block data) w7 = Some (None, w')"
    using assms(1) by (rule validateState_steps)
  note m1 = accStateChange_moves [OF 1 [unfolded accStateChange_def]]
  have m2: "moves (\<Sum>tx\<leftarrow>?f. newlyIssued E i w1 tx) w1 w2"
    using fundsMoney.run_moves [OF 2 [unfolded fundsStateChange_def]] .
  have m3: "moves (\<Sum>tx\<leftarrow>?g. newlyIssued E i w1 tx) w2 w3"
    using aggTxStateChange_moves [OF 3] newlyIssued_frame [OF moves_frame [OF m2]] by simp
  have m4: "moves 0 w3 w4" using stakeMoney.run_moves [OF 4 [unfolded stakeStateChange_def]] by simp
  note m5 = fees_moves [OF 5]
  have "w6 = adj none32 (at_acc ?m (BlockReward (activeParameters w5))) w5" "State w5 ?m \<noteq> None"
    using 6 by (auto simp: collectBlockReward_def GetAccount_def updAcc_adj split: option.splits if_splits)
  then have m6: "moves (BlockReward (activeParameters w5)) w5 w6" by (auto intro!: moves_adj)
  note m7 = slash_moves [OF 7]
  have m8: "moves 0 w7 w'" using 8 by (auto simp: updateStakingHeight_def intro!: moves_updAcc split: if_splits)
  have s: "only_State w1 w5" "only_State w5 w6" "only_State w6 w'"
    using m2 m3 m4 m5 m6 m7 m8 by (meson moves_frame only_State_trans)+
  then have "only_State w1 w'" by (meson only_State_trans)
  then have issued: "(if alreadyClosed E i tx w' then 0 else issuedBy (RootKeys w') tx) = newlyIssued E i w1 tx" for tx
    using newlyIssued_frame [of w1 w' E i tx] by (simp add: newlyIssued_def)
  have pars: "activeParameters w5 = activeParameters w" "activeParameters w6 = activeParameters w"
    using m1 s(1,2) by (simp_all add: only_State_frame) (simp_all add: activeParameters_def)
  note all = moves_trans [OF m2 moves_trans [OF m3 moves_trans [OF m4 moves_trans [OF m5 moves_trans [OF m6 moves_trans [OF m7 m8]]]]]]
  then show ?thesis using m1 assms(2) by (simp add: moves_def issued pars)
qed

theorem validateState_supply_witness:
  "\<exists>w'. validateState demo_E (demo_rollback_data\<lparr>fundsTxSlice := [demo_tx 2 1 5 1 0, demo_closed]\<rparr>) False
      (demo_closed_world demo_accs [demo_hash 1, demo_hash 2]) = Some (None, w') \<and>
     alreadyClosed demo_E False demo_closed w' \<and>
     totalBalance w' = totalBalance (demo_closed_world demo_accs [demo_hash 1, demo_hash 2]) + 7"
proof -
  obtain w' where w': "validateState demo_E (demo_rollback_data\<lparr>fundsTxSlice := [demo_tx 2 1 5 1 0, demo_closed]\<rparr>) False
      (demo_closed_world demo_accs [demo_hash 1, demo_hash 2]) = Some (None, w')"
    and roots: "RootKeys w' = [(demo_hash 1, []), (demo_hash 2, [])]"
    and db: "db w' = demo_store" "ChamMap w' (demo_hash 1) = Some demo_cham" "ChamMap w' (demo_hash 2) = Some demo_cham"
    unfolding validateState_def Let_def by (simp add: ledger_eval demo_data_eval demo_accs_def)
  have "finite (dom (State (demo_closed_world demo_accs [demo_hash 1, demo_hash 2])))" by (simp add: demo_accs_def)
  from validateState_supply [OF w' this] w' show ?thesis
    by (simp add: demo_data_eval hasSlashingProof_def demo_alreadyClosed [OF db(1,3)] demo_alreadyClosed_closed [OF db(1,2)] roots
      issuedBy_def activeParameters_def NewDefaultParameters_def)
qed

subsection \<open>Bounds\<close>

definition money_ok :: "'d world \<Rightarrow> bool" where
  "money_ok w \<longleftrightarrow> (\<forall>h a. State w h = Some a \<longrightarrow> acc_Balance a \<le> MAX_MONEY)"

definition payable :: "FundsTx \<Rightarrow> bool" where
  "payable tx \<longleftrightarrow> unat (ft_Amount tx) + unat (ft_Fee tx) \<le> unat MAX_MONEY"

definition wealth :: "'d world \<Rightarrow> int" where
  "wealth w = (\<Sum>h \<in> dom (State w). uint (acc_Balance (the (State w h))))"

text \<open>The checks a funds transaction has passed; \<open>funded\<close> is the balance of the sender after a root account was credited.\<close>

definition funded :: "'d world \<Rightarrow> FundsTx \<Rightarrow> Account \<Rightarrow> u64" where
  "funded w tx s = (if IsRootKey w (ft_From tx) then acc_Balance s + ft_Amount tx + ft_Fee tx else acc_Balance s)"

lemma fundsTxChange_checks:
  assumes "fundsTxChange E False tx w = Some (None, w')" "\<not> alreadyClosed E False tx w"
    and s: "State w (ft_From tx) = Some s" and r: "State w (ft_To tx) = Some r"
  shows "IsRootKey w (ft_From tx) \<Longrightarrow> acc_Balance s + ft_Amount tx + ft_Fee tx \<le> MAX_MONEY"
    "ft_Amount tx + ft_Fee tx \<le> funded w tx s"
    "ft_Amount tx + (if ft_To tx = ft_From tx then funded w tx s else acc_Balance r) \<le> MAX_MONEY"
proof -
  obtain h where "world_Hash E w (TFunds tx) = Some h" "ReadClosedTx E w h = None"
    using assms(1,2) by (auto simp: fundsTxChange_def alreadyClosed_def split: option.splits)
  note change = assms(1) [unfolded fundsTxChange_def this(1) option.case this(2)]
  have "(IsRootKey w (ft_From tx) \<longrightarrow> acc_Balance s + ft_Amount tx + ft_Fee tx \<le> MAX_MONEY) \<and>
    ft_Amount tx + ft_Fee tx \<le> funded w tx s \<and> ft_Amount tx + (if ft_To tx = ft_From tx then funded w tx s else acc_Balance r) \<le> MAX_MONEY"
    using change s r
    by (auto simp: GetRootAccount_def GetAccount_def Let_def funded_def updAcc_def fundsTxError_def not_less split: if_splits)
  then show "IsRootKey w (ft_From tx) \<Longrightarrow> acc_Balance s + ft_Amount tx + ft_Fee tx \<le> MAX_MONEY"
    "ft_Amount tx + ft_Fee tx \<le> funded w tx s"
    "ft_Amount tx + (if ft_To tx = ft_From tx then funded w tx s else acc_Balance r) \<le> MAX_MONEY" by blast+
qed

text \<open>The change of one balance as a plain integer.\<close>

definition plainDelta :: "'d world \<Rightarrow> FundsTx \<Rightarrow> hash \<Rightarrow> int" where
  "plainDelta w tx h = at_acc (ft_To tx) (uint (ft_Amount tx)) h - at_acc (ft_From tx) (uint (ft_Amount tx)) h +
     (if IsRootKey w (ft_From tx) then at_acc (ft_From tx) (uint (ft_Amount tx) + uint (ft_Fee tx)) h else 0)"

lemma u64_no_wrap:
  assumes "0 \<le> uint (a :: u64) + x" "uint a + x \<le> uint MAX_MONEY" "d = word_of_int x"
  shows "uint (a + d) = uint a + x"
proof -
  have a: "uint (a + d) = uint (word_of_int (uint a + x) :: u64)" using assms(3) by simp
  have "uint a + x < 2 ^ 64" using assms(2) by (simp add: MAX_MONEY_def)
  then have "take_bit 64 (uint a + x) = uint a + x" using assms(1) by (simp only: take_bit_int_eq_self)
  moreover have "uint (word_of_int (uint a + x) :: u64) = take_bit 64 (uint a + x)" by (simp only: uint_word_of_int_eq) simp
  ultimately show ?thesis using a by simp
qed

lemma u64_sum_le:
  assumes "(x :: u64) + y \<le> b" "uint x + uint y < 2 ^ 64"
  shows "uint x + uint y \<le> uint b"
proof -
  have "uint (x + y) = uint x + uint y" using assms(2) by (simp add: uint_word_ariths)
  then show ?thesis using assms(1) by (simp add: word_le_def)
qed

lemma payable_uint: "payable tx \<longleftrightarrow> uint (ft_Amount tx) + uint (ft_Fee tx) \<le> uint MAX_MONEY"
  unfolding payable_def uint_nat by linarith

lemma plainDelta_exact:
  assumes "fundsTxChange E False tx w = Some (None, w')" "\<not> alreadyClosed E False tx w" "payable tx" "money_ok w"
    and "State w h = Some a"
  shows "uint (acc_Balance a + fundsTxDelta w tx h) = uint (acc_Balance a) + plainDelta w tx h"
    "uint (acc_Balance a) + plainDelta w tx h \<le> uint MAX_MONEY"
proof -
  obtain s r where s: "State w (ft_From tx) = Some s" and r: "State w (ft_To tx) = Some r"
    using assms(1,2) by (elim fundsTxChange_cases) auto
  note c = fundsTxChange_checks [OF assms(1,2) s r]
  have le: "uint (acc_Balance s) \<le> uint MAX_MONEY" "uint (acc_Balance r) \<le> uint MAX_MONEY" "uint (acc_Balance a) \<le> uint MAX_MONEY"
    using assms(4,5) s r by (auto simp: money_ok_def word_le_def)
  have max: "uint MAX_MONEY = 2 ^ 63 - 1" by (simp add: MAX_MONEY_def)
  have pay: "uint (ft_Amount tx) + uint (ft_Fee tx) \<le> uint MAX_MONEY" using assms(3) by (simp add: payable_uint)
  have root: "IsRootKey w (ft_From tx) \<Longrightarrow> uint (acc_Balance s) + uint (ft_Amount tx) + uint (ft_Fee tx) \<le> uint MAX_MONEY"
    "IsRootKey w (ft_From tx) \<Longrightarrow> uint (acc_Balance s + ft_Amount tx + ft_Fee tx) = uint (acc_Balance s) + uint (ft_Amount tx) + uint (ft_Fee tx)"
  proof -
    have e: "uint (acc_Balance s + ft_Amount tx + ft_Fee tx) = uint (acc_Balance s) + uint (ft_Amount tx) + uint (ft_Fee tx)"
    proof -
      have "uint (acc_Balance s + ft_Amount tx + ft_Fee tx) = (uint (acc_Balance s) + uint (ft_Amount tx) + uint (ft_Fee tx)) mod 2 ^ 64"
        by (simp add: uint_word_ariths mod_simps)
      also have "\<dots> = uint (acc_Balance s) + uint (ft_Amount tx) + uint (ft_Fee tx)"
        using le(1) pay max by (intro mod_pos_pos_trivial) auto
      finally show ?thesis .
    qed
    then show "IsRootKey w (ft_From tx) \<Longrightarrow> uint (acc_Balance s) + uint (ft_Amount tx) + uint (ft_Fee tx) \<le> uint MAX_MONEY"
      using c(1) by (simp add: word_le_def)
    show "uint (acc_Balance s + ft_Amount tx + ft_Fee tx) = uint (acc_Balance s) + uint (ft_Amount tx) + uint (ft_Fee tx)" by (rule e)
  qed
  have fee: "uint (ft_Amount tx) + uint (ft_Fee tx) \<le> uint (funded w tx s)"
    using c(2) pay max by (intro u64_sum_le) auto
  have funded: "uint (funded w tx s) = uint (acc_Balance s) + (if IsRootKey w (ft_From tx) then uint (ft_Amount tx) + uint (ft_Fee tx) else 0)"
    using root(2) by (simp add: funded_def)
  have nonneg: "0 \<le> uint (ft_Fee tx)" "0 \<le> uint (ft_Amount tx)" by simp_all
  have part: "uint (ft_Amount tx) \<le> uint MAX_MONEY" using pay nonneg(1) by linarith
  have recv: "uint (ft_Amount tx) + uint (if ft_To tx = ft_From tx then funded w tx s else acc_Balance r) \<le> uint MAX_MONEY"
    using c(3) pay le root funded max part by (intro u64_sum_le) (auto split: if_splits)
  have range: "0 \<le> uint (acc_Balance a) + plainDelta w tx h \<and> uint (acc_Balance a) + plainDelta w tx h \<le> uint MAX_MONEY"
    using assms(5) s r le root(1) fee funded recv
    by (auto simp: plainDelta_def at_acc_def split: if_splits) (use nonneg in linarith)+
  then show "uint (acc_Balance a) + plainDelta w tx h \<le> uint MAX_MONEY" by blast
  show "uint (acc_Balance a + fundsTxDelta w tx h) = uint (acc_Balance a) + plainDelta w tx h"
    using range by (intro u64_no_wrap) (auto simp: plainDelta_def fundsTxDelta_def at_acc_def)
qed

text \<open>What the transactions issue, as a plain number.\<close>

definition plainIssued :: "(hash \<times> bytes) list \<Rightarrow> FundsTx \<Rightarrow> int" where
  "plainIssued roots tx = (if map_of roots (ft_From tx) \<noteq> None then uint (ft_Amount tx) + uint (ft_Fee tx) else 0)"

lemma fundsTxChange_money:
  assumes "fundsTxChange E False tx w = Some (None, w')" "\<not> alreadyClosed E False tx w" "payable tx" "money_ok w" "finite (dom (State w))"
  shows "money_ok w'" "wealth w' = wealth w + plainIssued (RootKeys w) tx"
proof -
  have w': "w' = adj (at_acc (ft_From tx) 1) (fundsTxDelta w tx) w" and ex: "State w (ft_From tx) \<noteq> None" "State w (ft_To tx) \<noteq> None"
    using assms(1,2) by (auto elim: fundsTxChange_cases)
  note exact = plainDelta_exact [OF assms(1-4)]
  show "money_ok w'" using exact by (auto simp: money_ok_def w' adj_account word_le_def)
  have "wealth w' = (\<Sum>h \<in> dom (State w). uint (acc_Balance (the (State w h))) + plainDelta w tx h)"
    unfolding wealth_def w' dom_adj using exact(1) by (intro sum.cong) (auto simp: adj_account)
  also have "\<dots> = wealth w + (\<Sum>h \<in> dom (State w). plainDelta w tx h)" by (simp add: wealth_def sum.distrib)
  also have "(\<Sum>h \<in> dom (State w). plainDelta w tx h) = plainIssued (RootKeys w) tx"
    using ex assms(5) by (simp add: plainDelta_def plainIssued_def IsRootKey_def sum.distrib sum_subtractf)
  finally show "wealth w' = wealth w + plainIssued (RootKeys w) tx" .
qed



end
