(* ===== verification/LedgerRuns.thy ===== *)
theory LedgerRuns
  imports Money
begin

text \<open>
  Fees of a block, and concrete blocks at which the ledger behaves in a way that its comments and names do not
  suggest: a balance that wraps below zero, a transaction accepted with a used counter, and a rejected
  block that leaves transfers behind.
\<close>

text \<open>
  The fees of a block are collected completely or not at all. When \<^verbatim>\<open>collectTxFees\<close> reports an error, the
  accounts are as before; when it succeeds on a block without aggregation, \<^verbatim>\<open>collectTxFeesRollback\<close> gives back the
  accounts as they were.
\<close>

theorem collectTxFees_atomic:
  assumes "collectTxFees accTxs fundsTxs configTxs stakeTxs aggTxs m w = Some (e, w')"
  shows "if e \<noteq> None then w' = w
    else aggTxs = [] \<longrightarrow> collectTxFeesRollback accTxs fundsTxs configTxs stakeTxs m w' = Some w"
proof (cases e)
  case (Some x)
  with collectTxFees_spec [OF assms] show ?thesis by simp
next
  case None
  have w': "w' = adj none32 (feesDelta accTxs (feeFunds w fundsTxs aggTxs) configTxs stakeTxs m) w"
    and pre: "fees_pre (feeFunds w fundsTxs aggTxs) stakeTxs m w"
    using collectTxFees_spec [OF assms] None by simp_all
  have "collectTxFeesRollback accTxs fundsTxs configTxs stakeTxs m w' = Some w" if "aggTxs = []"
  proof -
    have f: "feeFunds w fundsTxs aggTxs = fundsTxs" using that by (simp add: feeFunds_def)
    show ?thesis unfolding w' f using pre by (subst collectTxFeesRollback_adj) (auto simp: fees_pre_def f adj_zero)
  qed
  with None show ?thesis by simp
qed

text \<open>The second account transaction would push the miner over the limit: the first fee is given back.\<close>

theorem collectTxFees_atomic_witness:
  "collectTxFees (map (\<lambda>fee. ConstrAccTx 0 fee zero_hash [] None [] None None None) [5, 6]) [] [] [] [] (demo_hash 3)
     (demo_world [demo_hash 3 \<mapsto> demo_acc 3 (MAX_MONEY - 7) 0 False] []) =
     Some (Some MinerOverflow, demo_world [demo_hash 3 \<mapsto> demo_acc 3 (MAX_MONEY - 7) 0 False] [])"
proof -
  let ?w = "demo_world [demo_hash 3 \<mapsto> demo_acc 3 (MAX_MONEY - 7) 0 False] []"
  obtain w' where w': "collectTxFees (map (\<lambda>fee. ConstrAccTx 0 fee zero_hash [] None [] None None None) [5, 6]) [] [] [] [] (demo_hash 3) ?w =
      Some (Some MinerOverflow, w')"
    by (simp add: ledger_eval ConstrAccTx_def collectTxFeesRollback_def minusFee_def withAcc_def)
  with collectTxFees_atomic [OF w'] show ?thesis by simp
qed

text \<open>
  Fees are checked one transaction at a time but taken at the end. An account with 10 coins sends 5 and 4 coins for
  a fee of 1 each; both transactions pass the check, and the block leaves the account with
  \<open>2 ^ 64 - 1\<close> coins.
\<close>

theorem fee_underflow:
  "\<exists>w'. validateState demo_E (demo_data [] [demo_tx 1 2 5 1 0, demo_tx 1 2 4 1 1] [])
       False (demo_world [demo_hash 1 \<mapsto> demo_acc 1 10 0 False, demo_hash 2 \<mapsto> demo_acc 2 0 0 False, demo_hash 3 \<mapsto> demo_acc 3 0 0 False] []) =
       Some (None, w') \<and> map_option acc_Balance (State w' (demo_hash 1)) = Some (- 1)"
  unfolding validateState_def Let_def by (simp add: ledger_eval demo_data_def demo_block_def zero_block_def)

text \<open>
  A funds transaction whose counter is below the counter of its sender is accepted. The check
  sets an error only for a larger counter.
\<close>

theorem used_counter_accepted:
  "\<exists>w'. fundsStateChange demo_E False [demo_tx 1 2 5 1 3]
       (demo_world [demo_hash 1 \<mapsto> demo_acc 1 10 7 False, demo_hash 2 \<mapsto> demo_acc 2 0 0 False] []) = Some (None, w') \<and>
     map_option acc_Balance (State w' (demo_hash 2)) = Some 5 \<and> map_option acc_TxCnt (State w' (demo_hash 1)) = Some 8"
  by (simp add: ledger_eval)

text \<open>
  A rejected block can leave transfers behind. The second funds transaction fails, \<^verbatim>\<open>validateState\<close>
  reports the error, but the first transfer stays in the accounts: only the account transactions are rolled back.
\<close>

theorem rejected_block_leaves_transfer:
  "\<exists>w'. validateState demo_E (demo_data [] [demo_tx 1 2 5 1 0, demo_tx 1 2 50 1 1] [])
       False (demo_world [demo_hash 1 \<mapsto> demo_acc 1 10 0 False, demo_hash 2 \<mapsto> demo_acc 2 0 0 False, demo_hash 3 \<mapsto> demo_acc 3 0 0 False] []) =
       Some (Some NotEnoughFunds, w') \<and> map_option acc_Balance (State w' (demo_hash 2)) = Some 5"
  unfolding validateState_def Let_def by (simp add: ledger_eval demo_data_def demo_block_def zero_block_def accStateChangeRollback_def)

end
