(* ===== verification/BlockProps.thy ===== *)
theory BlockProps
  imports Scenario
begin

text \<open>
  Properties of the checks and the bookkeeping around a block: duplicate transactions, time stamps, block
  statistics, system parameters, the block stash, and the storage of closed transactions as a map.
\<close>

subsection \<open>Duplicates\<close>

lemma markSeen_spec:
  "markSeen e hs seen = (if distinct hs \<and> set hs \<inter> seen = {} then Inr (set hs \<union> seen) else Inl e)"
  by (induction e hs seen rule: markSeen.induct) auto

lemma markAll_None:
  "markAll ps seen = None \<longleftrightarrow> distinct (concat (map snd ps)) \<and> set (concat (map snd ps)) \<inter> seen = {}"
  by (induction ps seen rule: markAll.induct) (auto simp: markSeen_spec)

lemma markAll_blames: "markAll ps seen = Some e \<Longrightarrow> e \<in> fst ` set ps"
  by (induction ps seen rule: markAll.induct) (auto simp: markSeen_spec split: if_splits)

definition block_lists :: "Block \<Rightarrow> hash list" where
  "block_lists b = concat [bl_AccTxData b, bl_FundsTxData b, bl_ConfigTxData b, bl_StakeTxData b, bl_AggTxData b, bl_UpdateTxData b]"

lemma noDuplicate_distinct: "validateNoDuplicateTx b = None \<longleftrightarrow> distinct (block_lists b)"
  unfolding validateNoDuplicateTx_def block_lists_def markAll_None by (simp only: list.map snd_conv Int_empty_right simp_thms)

text \<open>
  \<^verbatim>\<open>validateNoDuplicateTx\<close> accepts a block exactly if no transaction hash occurs twice in it, within one
  list or across lists; and it blames the account transactions exactly if they contain a repetition.
\<close>

theorem validateNoDuplicateTx_distinct:
  "(validateNoDuplicateTx b = None \<longleftrightarrow> distinct (block_lists b)) \<and>
   (validateNoDuplicateTx b = Some DupAcc \<longleftrightarrow> \<not> distinct (bl_AccTxData b))"
proof (rule conjI [OF noDuplicate_distinct])
  show "validateNoDuplicateTx b = Some DupAcc \<longleftrightarrow> \<not> distinct (bl_AccTxData b)"
    unfolding validateNoDuplicateTx_def markAll.simps(2) [of DupAcc] markSeen_spec by (auto simp del: markAll.simps dest: markAll_blames)
qed

subsection \<open>Time stamps\<close>

lemma sub64_exact: "- (2 ^ 63) \<le> a - b \<Longrightarrow> a - b < 2 ^ 63 \<Longrightarrow> sub64 a b = a - b"
  unfolding sub64_def sint_sbintrunc' by (simp add: signed_take_bit_int_eq_self)

text \<open>
  For non-negative 64-bit times, \<^verbatim>\<open>timestampCheck\<close> accepts a block exactly if its time stamp is at most two
  hours ahead of the system time and at most ten hours behind.
\<close>

theorem timestampCheck_window:
  assumes "0 \<le> now" "now < 2 ^ 63" "0 \<le> t" "t < 2 ^ 63"
  shows "timestampCheck now t = None \<longleftrightarrow> now - 36000 \<le> t \<and> t \<le> now + 7200"
proof -
  have "sub64 t now = t - now" "sub64 now t = now - t" using assms by (auto intro!: sub64_exact)
  then show ?thesis by (auto simp: timestampCheck_def)
qed

theorem timestampCheck_window_witness:
  "timestampCheck 1600000000 1600007200 = None \<and> timestampCheck 1600000000 1600007201 \<noteq> None \<and>
   timestampCheck 1600000000 1599964000 = None"
  using timestampCheck_window [of 1600000000 1600007200] timestampCheck_window [of 1600000000 1600007201]
    timestampCheck_window [of 1600000000 1599964000] by simp

subsection \<open>Statistics\<close>

definition interval :: "'d world \<Rightarrow> int" where
  "interval w = sint (DiffInterval (activeParameters w))"

definition stats_ok :: "'d world \<Rightarrow> bool" where
  "stats_ok w \<longleftrightarrow> 0 \<le> localBlockCount w \<and> localBlockCount w < interval w \<and> localBlockCount w \<le> globalBlockCount w \<and>
     2 \<le> interval w \<and> tr_last (currentTargetTime w) = 0 \<and> target w \<noteq> []"

lemma activeParameters_cong: "parameterSlice w' = parameterSlice w \<Longrightarrow> activeParameters w' = activeParameters w"
  by (simp add: activeParameters_def)

text \<open>
  C22: the block statistics stay consistent and are rolled back. When the counters are consistent and the interval is at
  least two, \<^verbatim>\<open>collectStatistics\<close> does not panic, keeps them consistent, whatever difficulty is computed, and
  \<^verbatim>\<open>collectStatisticsRollback\<close> restores the counters, the target history and the measured times, and sets the
  last block to the stored predecessor.
\<close>

theorem collectStatistics_rollback:
  assumes "stats_ok w"
  shows "\<exists>w'. collectStatistics newDiff b w = Some w' \<and> stats_ok w' \<and>
    collectStatisticsRollback E b w' = Some (w\<lparr>lastBlock := ReadClosedBlock E w (bl_PrevHash b)\<rparr>)"
proof -
  let ?w1 = "w\<lparr>globalBlockCount := globalBlockCount w + 1, localBlockCount := localBlockCount w + 1\<rparr>"
  have iv: "sint (DiffInterval (activeParameters v)) = interval w" if "parameterSlice v = parameterSlice w" for v :: "'a world"
    using activeParameters_cong [OF that] by (simp add: interval_def)
  show ?thesis
  proof (cases "localBlockCount w + 1 \<ge> interval w")
    case True
    then have l: "localBlockCount w = interval w - 1" using assms by (simp add: stats_ok_def)
    let ?t = "(currentTargetTime w)\<lparr>tr_last := bl_Timestamp b\<rparr>"
    let ?w' = "?w1\<lparr>target := target w @ [if tr_first ?t = 0 then last (target w) else newDiff ?w1 ?t], targetTimes := targetTimes w @ [?t],
        localBlockCount := 0, currentTargetTime := \<lparr>tr_first = bl_Timestamp b, tr_last = 0\<rparr>, lastBlock := Some b\<rparr>"
    have "collectStatistics newDiff b w = Some ?w'"
      using True assms by (simp add: collectStatistics_def Let_def iv stats_ok_def)
    moreover have "interval ?w' = interval w" by (simp add: interval_def activeParameters_def)
    then have "stats_ok ?w'" using assms by (auto simp: stats_ok_def)
    moreover have "collectStatisticsRollback E b ?w' = Some (w\<lparr>lastBlock := ReadClosedBlock E w (bl_PrevHash b)\<rparr>)"
    proof -
      have pos: "globalBlockCount w \<noteq> 0" "tr_last (currentTargetTime w) = 0" using l assms by (auto simp: stats_ok_def)
      have "collectStatisticsRollback E b ?w' = Some (?w'\<lparr>globalBlockCount := globalBlockCount w, localBlockCount := interval w - 1, target := target w,
          currentTargetTime := \<lparr>tr_first = tr_first (currentTargetTime w), tr_last = 0\<rparr>, targetTimes := targetTimes w,
          lastBlock := ReadClosedBlock E w (bl_PrevHash b)\<rparr>)"
        using pos(1) by (simp add: collectStatisticsRollback_def Let_def iv ReadClosedBlock_def read_block_def)
      also have "\<dots> = Some (w\<lparr>lastBlock := ReadClosedBlock E w (bl_PrevHash b)\<rparr>)"
        using l pos(2) by (intro arg_cong [where f = Some] world.equality) simp_all
      finally show ?thesis .
    qed
    ultimately show ?thesis by blast
  next
    case False
    let ?w' = "?w1\<lparr>lastBlock := Some b\<rparr>"
    have "collectStatistics newDiff b w = Some ?w'" using False by (simp add: collectStatistics_def Let_def iv)
    moreover have "interval ?w' = interval w" by (simp add: interval_def activeParameters_def)
    then have "stats_ok ?w'" using False assms by (auto simp: stats_ok_def)
    moreover have "collectStatisticsRollback E b ?w' = Some (w\<lparr>lastBlock := ReadClosedBlock E w (bl_PrevHash b)\<rparr>)"
      using assms by (auto simp: collectStatisticsRollback_def Let_def ReadClosedBlock_def read_block_def stats_ok_def)
    ultimately show ?thesis by blast
  qed
qed

theorem collectStatistics_rollback_witness:
  "\<exists>w'. collectStatistics (\<lambda>_ _. 3) (demo_block 3) (demo_world Map.empty []\<lparr>globalBlockCount := 24, localBlockCount := 24\<rparr>) = Some w' \<and>
     stats_ok w' \<and> collectStatisticsRollback demo_E (demo_block 3) w' =
       Some (demo_world Map.empty []\<lparr>globalBlockCount := 24, localBlockCount := 24\<rparr>)"
proof -
  let ?w = "demo_world Map.empty []\<lparr>globalBlockCount := 24, localBlockCount := 24\<rparr>"
  have "stats_ok ?w"
    by (simp add: stats_ok_def interval_def activeParameters_def demo_world_def NewDefaultParameters_def)
  moreover have "?w\<lparr>lastBlock := ReadClosedBlock demo_E ?w (bl_PrevHash (demo_block 3))\<rparr> = ?w"
    by (simp add: ReadClosedBlock_def read_block_def) (simp add: demo_world_def)
  ultimately show ?thesis using collectStatistics_rollback [of ?w "\<lambda>_ _. 3" "demo_block 3" demo_E] by simp
qed

subsection \<open>Parameters\<close>

lemma params_ok_hash [simp]: "params_ok (p\<lparr>pa_BlockHash := h\<rparr>) = params_ok p"
  by (simp add: params_ok_def)

text \<open>
  C38: every parameter in force is within its bounds, and the parameters are rolled back. If the history of parameter sets is not
  empty, all of them are within the bounds of \<^verbatim>\<open>configtx.go\<close> and the last was not made by the same block, then after \<^verbatim>\<open>configStateChange\<close> with
  arbitrary configuration transactions they still are, and \<^verbatim>\<open>configStateChangeRollback\<close> restores the history.
\<close>

theorem configStateChange_params:
  assumes "parameterSlice w \<noteq> []" "\<forall>p \<in> set (parameterSlice w). params_ok p" "pa_BlockHash (activeParameters w) \<noteq> blockHash"
  shows "(\<forall>p \<in> set (parameterSlice (configStateChange txs blockHash w)). params_ok p) \<and>
    params_ok (activeParameters (configStateChange txs blockHash w)) \<and>
    map_option parameterSlice (configStateChangeRollback txs blockHash (configStateChange txs blockHash w)) = Some (parameterSlice w)"
proof (cases "txs = []")
  case True
  then show ?thesis using assms by (simp add: configStateChange_def configStateChangeRollback_def activeParameters_def)
next
  case False
  obtain p S c where r: "CheckAndChangeParameters (activeParameters w) (State w) txs = (p, S, c)"
    by (cases "CheckAndChangeParameters (activeParameters w) (State w) txs")
  have "params_ok (activeParameters w)" using assms(1,2) by (simp add: activeParameters_def)
  then have "params_ok p" using r fold_changeParameter_ok by (fastforce simp: CheckAndChangeParameters_def)
  then show ?thesis using assms False r
    by (auto simp: configStateChange_def configStateChangeRollback_def activeParameters_def Let_def)
qed

definition demo_config :: "u8 \<Rightarrow> u64 \<Rightarrow> ConfigTx" where
  "demo_config i v = \<lparr>ct_Header = 0, ct_Id = i, ct_Payload = v, ct_Fee = 1, ct_TxCnt = 0, ct_Sig = [], ct_CheckString = None, ct_Data = None\<rparr>"

lemmas config_eval = configStateChange_def CheckAndChangeParameters_def changeParameter_def parameterBoundsChecking_def param_bounds_def
  activeParameters_def NewDefaultParameters_def demo_config_def MIN_STAKING_MINIMUM_def

theorem configStateChange_params_witness:
  "BlockReward (activeParameters (configStateChange [demo_config 5 50, demo_config 4 0] (demo_hash 7) (demo_world Map.empty []))) = 50 \<and>
   params_ok (activeParameters (configStateChange [demo_config 5 50, demo_config 4 0] (demo_hash 7) (demo_world Map.empty []))) \<and>
   map_option parameterSlice (configStateChangeRollback [demo_config 5 50, demo_config 4 0] (demo_hash 7)
     (configStateChange [demo_config 5 50, demo_config 4 0] (demo_hash 7) (demo_world Map.empty []))) = Some [NewDefaultParameters]"
proof -
  let ?w = "demo_world Map.empty []"
  have ok: "parameterSlice ?w \<noteq> []" "\<forall>p \<in> set (parameterSlice ?w). params_ok p" "pa_BlockHash (activeParameters ?w) \<noteq> demo_hash 7"
    using params_ok_default by (simp_all add: activeParameters_def) (simp add: NewDefaultParameters_def eq_commute [of zero_hash])
  have "BlockReward (activeParameters (configStateChange [demo_config 5 50, demo_config 4 0] (demo_hash 7) ?w)) = 50"
    by (simp add: config_eval Let_def)
  with configStateChange_params [OF ok, of "[demo_config 5 50, demo_config 4 0]"] show ?thesis by simp
qed

text \<open>
  The rollback of a configuration transaction does not restore the validators. Raising the staking
  minimum switches staking off for an account with too low a balance; after the rollback the old minimum is in force
  again, but the account is no longer staking.
\<close>

theorem config_rollback_loses_validator:
  "\<exists>w'. configStateChangeRollback [demo_config 6 2000] (demo_hash 7)
       (configStateChange [demo_config 6 2000] (demo_hash 7) (demo_world [demo_hash 1 \<mapsto> demo_acc 1 1500 0 True] [])) = Some w' \<and>
     parameterSlice w' = [NewDefaultParameters] \<and> map_option acc_IsStaking (State w' (demo_hash 1)) = Some False"
  by (simp add: config_eval Let_def configStateChangeRollback_def dropValidators_def)

subsection \<open>The stash of received blocks\<close>

lemma BlockAlreadyInStash_iff [simp]: "BlockAlreadyInStash bs h \<longleftrightarrow> h \<in> bl_Hash ` set bs"
  by (induction bs) auto

definition stash_ok :: "'d world \<Rightarrow> bool" where
  "stash_ok w \<longleftrightarrow> length (ReceivedBlockStash w) \<le> 100 \<and> distinct (map bl_Hash (ReceivedBlockStash w))"

lemma WriteToReceivedStash_ok:
  assumes "stash_ok w"
  shows "stash_ok (WriteToReceivedStash b w)" "bl_Hash b \<in> bl_Hash ` set (ReceivedBlockStash (WriteToReceivedStash b w))"
    "set (ReceivedBlockStash (WriteToReceivedStash b w)) \<subseteq> insert b (set (ReceivedBlockStash w))"
proof -
  let ?s = "ReceivedBlockStash w" and ?s' = "ReceivedBlockStash (WriteToReceivedStash b w)"
  have "stash_ok (WriteToReceivedStash b w) \<and> bl_Hash b \<in> bl_Hash ` set ?s' \<and> set ?s' \<subseteq> insert b (set ?s)"
  proof (cases "bl_Hash b \<in> bl_Hash ` set ?s")
    case True
    then show ?thesis using assms by (auto simp: WriteToReceivedStash_def)
  next
    case False
    then have s': "?s' = (if length (?s @ [b]) > 100 then drop 1 (?s @ [b]) else ?s @ [b])"
      by (simp add: WriteToReceivedStash_def Let_def)
    have d: "distinct (map bl_Hash (?s @ [b]))" using assms False by (auto simp: stash_ok_def)
    then have "distinct (drop 1 (map bl_Hash (?s @ [b])))" by (rule distinct_drop)
    then have "distinct (map bl_Hash ?s')" using d unfolding s' by (simp only: drop_map split: if_split) simp
    moreover have "length ?s' \<le> 100" using assms by (auto simp: s' stash_ok_def)
    moreover have "b \<in> set ?s'" using assms by (cases ?s) (auto simp: s' stash_ok_def)
    moreover have "set ?s' \<subseteq> insert b (set ?s)" by (auto simp: s' dest: in_set_dropD split: if_splits)
    ultimately show ?thesis by (auto simp: stash_ok_def)
  qed
  then show "stash_ok (WriteToReceivedStash b w)" "bl_Hash b \<in> bl_Hash ` set ?s'" "set ?s' \<subseteq> insert b (set ?s)" by blast+
qed

text \<open>
  C25: whatever blocks arrive, the stash holds at most 100 blocks, no two with the same hash, all of them received,
  and always a block with the hash received last.
\<close>

theorem received_stash:
  "stash_ok (fold WriteToReceivedStash bs (w\<lparr>ReceivedBlockStash := []\<rparr>)) \<and>
   set (ReceivedBlockStash (fold WriteToReceivedStash bs (w\<lparr>ReceivedBlockStash := []\<rparr>))) \<subseteq> set bs \<and>
   (bs = [] \<or> bl_Hash (last bs) \<in> bl_Hash ` set (ReceivedBlockStash (fold WriteToReceivedStash bs (w\<lparr>ReceivedBlockStash := []\<rparr>))))"
proof (induction bs rule: rev_induct)
  case Nil
  show ?case by (simp add: stash_ok_def)
next
  case (snoc b bs)
  let ?v = "fold WriteToReceivedStash bs (w\<lparr>ReceivedBlockStash := []\<rparr>)"
  have "stash_ok ?v" using snoc by blast
  note step = WriteToReceivedStash_ok [OF this, of b]
  with snoc show ?case by auto
qed

subsection \<open>Closed transactions as a map\<close>

text \<open>What is read back: the fields that the encodings carry.\<close>

primrec stored :: "Transaction \<Rightarrow> Transaction" where
  "stored (TAcc tx) = TAcc (tx\<lparr>at_Contract := None, at_ContractVariables := [], at_Data := gob_slice (at_Data tx)\<rparr>)"
| "stored (TFunds tx) = TFunds (tx\<lparr>ft_Data := gob_slice (ft_Data tx)\<rparr>)"
| "stored (TConfig tx) = TConfig (tx\<lparr>ct_CheckString := None, ct_Data := None\<rparr>)"
| "stored (TStake tx) = TStake (tx\<lparr>st_CheckString := None, st_Data := None\<rparr>)"
| "stored (TAgg tx) = TAgg (tx\<lparr>gt_CheckString := None, gt_Data := None\<rparr>)"
| "stored (TUpdate tx) = TUpdate (tx\<lparr>ut_TxToUpdateData := gob_slice (ut_TxToUpdateData tx), ut_Data := gob_slice (ut_Data tx)\<rparr>)"

fun fixed_wf :: "Transaction \<Rightarrow> bool" where
  "fixed_wf (TConfig tx) = ConfigTx_wf tx" | "fixed_wf (TStake tx) = StakeTx_wf tx" | "fixed_wf _ = True"

definition closed_buckets :: "string list" where
  "closed_buckets = [''closedfunds'', ''closedaccs'', ''closeddeletes'', ''closedconfigs'', ''closedstakes'', ''closedaggregations'']"

definition other_free :: "'d env \<Rightarrow> 'd world \<Rightarrow> Transaction \<Rightarrow> hash \<Rightarrow> bool" where
  "other_free E w tx h \<longleftrightarrow> (\<forall>b \<in> set closed_buckets. b \<noteq> closed_bucket tx \<longrightarrow> bGet E (db w) b h = None)"

lemma ReadClosedTx_stored:
  assumes "other_free E w tx h" "fixed_wf tx" "bGet E (db w) (closed_bucket tx) h = Some (tx_Encode tx)"
  shows "ReadClosedTx E w h = Some (stored tx)"
  using assms
  by (cases tx) (simp_all add: other_free_def closed_buckets_def ReadClosedTx_def AccTx_Encode_def FundsTx_Encode_def AggTx_Encode_def
      UpdateTx_Encode_def ConfigTx_Decode_Encode StakeTx_Decode_Encode)

lemma ReadClosedTx_cong:
  assumes "\<forall>b \<in> set closed_buckets. bGet E (db w') b h = bGet E (db w) b h"
  shows "ReadClosedTx E w' h = ReadClosedTx E w h"
  using assms by (simp add: ReadClosedTx_def closed_buckets_def cong: option.case_cong)

lemma ReadClosedTx_absent:
  assumes "\<forall>b \<in> set closed_buckets. bGet E (db w) b h = None"
  shows "ReadClosedTx E w h = None"
  using assms by (simp add: ReadClosedTx_def closed_buckets_def)

text \<open>
  C21: the closed transactions are a map from hashes to transactions. For a store that obeys the laws of
  \<^verbatim>\<open>bolt\<close>, \<^verbatim>\<open>WriteClosedTx\<close> is the update of the map that \<^verbatim>\<open>ReadClosedTx\<close> reads, with the fields that the encoding
  carries, and \<^verbatim>\<open>DeleteClosedTx\<close> removes the entry again, as long as no transaction of
  another kind has the same hash.
\<close>

theorem closed_store_map:
  assumes "bolt_laws E" "world_Hash E w tx = Some h" "fixed_wf tx" "other_free E w tx h"
  shows "\<exists>w' w''. WriteClosedTx E tx w = Some w' \<and> ReadClosedTx E w' = (ReadClosedTx E w)(h \<mapsto> stored tx) \<and>
    DeleteClosedTx E tx w' = Some w'' \<and> ReadClosedTx E w'' = (ReadClosedTx E w)(h := None)"
proof -
  let ?w' = "w\<lparr>db := bPut E (db w) (closed_bucket tx) h (tx_Encode tx)\<rparr>"
  let ?w'' = "delete_in E (closed_bucket tx) h ?w'"
  have put: "bGet E (db ?w') b k = (if b = closed_bucket tx \<and> k = h then Some (tx_Encode tx) else bGet E (db w) b k)" for b k
    using assms(1) by (simp add: bolt_laws_def)
  have del: "bGet E (db ?w'') b k = (if b = closed_bucket tx \<and> k = h then None else bGet E (db w) b k)" for b k
    using assms(1) put [of b k] by (simp add: bolt_laws_def delete_in_def)
  have "ReadClosedTx E ?w' k = ((ReadClosedTx E w)(h \<mapsto> stored tx)) k" for k
  proof (cases "k = h")
    case True
    have "other_free E ?w' tx h" using assms(4) put by (simp add: other_free_def)
    then show ?thesis using True assms(3) put by (simp add: ReadClosedTx_stored)
  next
    case False
    then show ?thesis using put by (simp add: ReadClosedTx_cong [of E ?w' k w])
  qed
  moreover have "ReadClosedTx E ?w'' k = ((ReadClosedTx E w)(h := None)) k" for k
  proof (cases "k = h")
    case True
    have "\<forall>b \<in> set closed_buckets. bGet E (db ?w'') b h = None" using assms(4) del by (simp add: other_free_def)
    then show ?thesis using True by (simp add: ReadClosedTx_absent)
  next
    case False
    then show ?thesis using del by (simp add: ReadClosedTx_cong [of E ?w'' k w])
  qed
  moreover have "WriteClosedTx E tx w = Some ?w'" using assms(2) by (simp add: WriteClosedTx_def)
  moreover have "DeleteClosedTx E tx ?w' = Some ?w''" using assms(2) by (simp add: DeleteClosedTx_def world_Hash_def)
  ultimately show ?thesis by blast
qed

theorem closed_store_map_witness:
  "\<exists>w' w''. WriteClosedTx demo_E (TFunds (demo_tx 1 2 5 1 0)) (demo_world Map.empty []) = Some w' \<and>
     ReadClosedTx demo_E w' = [zero_hash \<mapsto> TFunds (demo_tx 1 2 5 1 0)] \<and>
     DeleteClosedTx demo_E (TFunds (demo_tx 1 2 5 1 0)) w' = Some w'' \<and> ReadClosedTx demo_E w'' = Map.empty"
proof -
  let ?tx = "TFunds (demo_tx 1 2 5 1 0)" and ?w = "demo_world Map.empty []"
  have h: "world_Hash demo_E ?w ?tx = Some zero_hash" "fixed_wf ?tx" "other_free demo_E ?w ?tx zero_hash"
    by (simp_all add: world_Hash_def other_free_def)
  have "stored ?tx = ?tx" by (simp add: demo_tx_def ConstrFundsTx_def gob_slice_def)
  moreover have "ReadClosedTx demo_E ?w = Map.empty" by (simp add: fun_eq_iff)
  ultimately show ?thesis using closed_store_map [OF bolt_laws_demo h] by simp
qed

end
