(* ===== verification/Wire.thy ===== *)
theory Wire
  imports Encoding
begin

text \<open>
  Message formats of the package \<^verbatim>\<open>src/p2p\<close>: packets and their headers (\<^verbatim>\<open>utils.go\<close>, \<^verbatim>\<open>protocol.go\<close>,
  \<^verbatim>\<open>logger.go\<close>), neighbour lists and handshakes (\<^verbatim>\<open>response.go\<close>, \<^verbatim>\<open>process.go\<close>, \<^verbatim>\<open>server.go\<close>), the request
  for a transaction by counter (\<^verbatim>\<open>src/miner/blockpreparation.go\<close>) and the common time (\<^verbatim>\<open>time.go\<close>).
  Texts are lists of bytes.
\<close>

subsection \<open>Packets\<close>

abbreviation (input) FUNDSTX_BRDCST :: u8 where "FUNDSTX_BRDCST \<equiv> 1"
abbreviation (input) ACCTX_BRDCST :: u8 where "ACCTX_BRDCST \<equiv> 2"
abbreviation (input) CONFIGTX_BRDCST :: u8 where "CONFIGTX_BRDCST \<equiv> 3"
abbreviation (input) STAKETX_BRDCST :: u8 where "STAKETX_BRDCST \<equiv> 4"
abbreviation (input) VERIFIEDTX_BRDCST :: u8 where "VERIFIEDTX_BRDCST \<equiv> 5"
abbreviation (input) BLOCK_BRDCST :: u8 where "BLOCK_BRDCST \<equiv> 6"
abbreviation (input) BLOCK_HEADER_BRDCST :: u8 where "BLOCK_HEADER_BRDCST \<equiv> 7"
abbreviation (input) TX_BRDCST_ACK :: u8 where "TX_BRDCST_ACK \<equiv> 8"
abbreviation (input) AGGTX_BRDCST :: u8 where "AGGTX_BRDCST \<equiv> 9"
abbreviation (input) UPDATETX_BRDCST :: u8 where "UPDATETX_BRDCST \<equiv> 10"
abbreviation (input) FUNDSTX_REQ :: u8 where "FUNDSTX_REQ \<equiv> 20"
abbreviation (input) ACCTX_REQ :: u8 where "ACCTX_REQ \<equiv> 21"
abbreviation (input) CONFIGTX_REQ :: u8 where "CONFIGTX_REQ \<equiv> 22"
abbreviation (input) STAKETX_REQ :: u8 where "STAKETX_REQ \<equiv> 23"
abbreviation (input) BLOCK_REQ :: u8 where "BLOCK_REQ \<equiv> 24"
abbreviation (input) BLOCK_HEADER_REQ :: u8 where "BLOCK_HEADER_REQ \<equiv> 25"
abbreviation (input) ACC_REQ :: u8 where "ACC_REQ \<equiv> 26"
abbreviation (input) ROOTACC_REQ :: u8 where "ROOTACC_REQ \<equiv> 27"
abbreviation (input) INTERMEDIATE_NODES_REQ :: u8 where "INTERMEDIATE_NODES_REQ \<equiv> 28"
abbreviation (input) AGGTX_REQ :: u8 where "AGGTX_REQ \<equiv> 29"
abbreviation (input) UNKNOWNTX_REQ :: u8 where "UNKNOWNTX_REQ \<equiv> 30"
abbreviation (input) SPECIALTX_REQ :: u8 where "SPECIALTX_REQ \<equiv> 31"
abbreviation (input) NOT_FOUND_TX_REQ :: u8 where "NOT_FOUND_TX_REQ \<equiv> 32"
abbreviation (input) UPDATETX_REQ :: u8 where "UPDATETX_REQ \<equiv> 33"
abbreviation (input) FUNDSTX_RES :: u8 where "FUNDSTX_RES \<equiv> 40"
abbreviation (input) ACCTX_RES :: u8 where "ACCTX_RES \<equiv> 41"
abbreviation (input) CONFIGTX_RES :: u8 where "CONFIGTX_RES \<equiv> 42"
abbreviation (input) STAKETX_RES :: u8 where "STAKETX_RES \<equiv> 43"
abbreviation (input) BLOCK_RES :: u8 where "BLOCK_RES \<equiv> 44"
abbreviation (input) BlOCK_HEADER_RES :: u8 where "BlOCK_HEADER_RES \<equiv> 45"
abbreviation (input) ACC_RES :: u8 where "ACC_RES \<equiv> 46"
abbreviation (input) ROOTACC_RES :: u8 where "ROOTACC_RES \<equiv> 47"
abbreviation (input) INTERMEDIATE_NODES_RES :: u8 where "INTERMEDIATE_NODES_RES \<equiv> 48"
abbreviation (input) AGGTX_RES :: u8 where "AGGTX_RES \<equiv> 49"
abbreviation (input) UPDATETX_RES :: u8 where "UPDATETX_RES \<equiv> 50"
abbreviation (input) MINER_PING :: u8 where "MINER_PING \<equiv> 100"
abbreviation (input) MINER_PONG :: u8 where "MINER_PONG \<equiv> 101"
abbreviation (input) CLIENT_PING :: u8 where "CLIENT_PING \<equiv> 102"
abbreviation (input) CLIENT_PONG :: u8 where "CLIENT_PONG \<equiv> 103"
abbreviation (input) NOT_FOUND :: u8 where "NOT_FOUND \<equiv> 110"
abbreviation (input) NEIGHBOR_REQ :: u8 where "NEIGHBOR_REQ \<equiv> 130"
abbreviation (input) NEIGHBOR_RES :: u8 where "NEIGHBOR_RES \<equiv> 140"
abbreviation (input) TIME_BRDCST :: u8 where "TIME_BRDCST \<equiv> 150"

text \<open>The keys of \<^verbatim>\<open>LogMapping\<close>: the registered message types.\<close>

definition LogMapping :: "u8 list" where
  "LogMapping = [1, 2, 3, 4, 5, 6, 7, 8, 9, 10,
     20, 21, 22, 23, 24, 25, 26, 27, 28, 29, 30, 31, 32, 33,
     40, 41, 42, 43, 44, 45, 46, 47, 48, 49, 50, 130, 140, 150, 100, 101, 102, 103, 110]"

definition HEADER_LEN :: nat where "HEADER_LEN = 5"
definition MAX_BLOCK_SIZE :: nat where "MAX_BLOCK_SIZE = 100000000"

record Header =
  hd_Len :: u32
  hd_TypeID :: u8

definition BuildPacket :: "u8 \<Rightarrow> bytes \<Rightarrow> bytes" where
  "BuildPacket typeID payload = be_fixed 4 (unat (word_of_nat (length payload) :: u32)) @ [typeID] @ payload"

definition extractHeader :: "bytes \<Rightarrow> Header" where
  "extractHeader headerData = \<lparr>hd_Len = word_of_nat (be_nat (take 4 headerData)), hd_TypeID = headerData ! 4\<rparr>"

text \<open>
  A connection is the list of byte chunks that its next reads return; the end of the list is a read error. A buffered
  reader holds the bytes it has read ahead.
\<close>

fun ReadByte :: "bytes \<Rightarrow> bytes list \<Rightarrow> (byte \<times> bytes \<times> bytes list) option" where
  "ReadByte (b # buf) conn = Some (b, buf, conn)"
| "ReadByte [] [] = None"
| "ReadByte [] (c # conn) = ReadByte c conn"

fun readBytes :: "nat \<Rightarrow> bytes \<Rightarrow> bytes list \<Rightarrow> (bytes \<times> bytes \<times> bytes list) option" where
  "readBytes 0 buf conn = Some ([], buf, conn)"
| "readBytes (Suc n) buf conn = (case ReadByte buf conn of None \<Rightarrow> None | Some (b, buf', conn') \<Rightarrow>
     map_option (\<lambda>(bs, r). (b # bs, r)) (readBytes n buf' conn'))"

datatype recv_error = ReadError | UnknownType | PayloadTooLarge

definition ReadHeader :: "bytes \<Rightarrow> bytes list \<Rightarrow> recv_error + Header \<times> bytes \<times> bytes list" where
  "ReadHeader buf conn = (case readBytes HEADER_LEN buf conn of
     None \<Rightarrow> Inl ReadError
   | Some (headerArr, buf', conn') \<Rightarrow> let header = extractHeader headerArr in
       if hd_TypeID header \<notin> set LogMapping then Inl UnknownType
       else if unat (hd_Len header) > MAX_BLOCK_SIZE then Inl PayloadTooLarge
       else Inr (header, buf', conn'))"

text \<open>
  \<^verbatim>\<open>RcvData\<close> makes a new buffered reader for each message: what the reader has buffered beyond the message is
  lost with it. The result carries the rest of the connection.
\<close>

definition RcvData :: "bytes list \<Rightarrow> recv_error + Header \<times> bytes \<times> bytes list" where
  "RcvData conn = (case ReadHeader [] conn of
     Inl e \<Rightarrow> Inl e
   | Inr (header, buf, conn1) \<Rightarrow>
       if unat (hd_Len header) > 800000 then Inl PayloadTooLarge
       else case readBytes (unat (hd_Len header)) buf conn1 of
         None \<Rightarrow> Inl ReadError
       | Some (payload, buf', conn2) \<Rightarrow> Inr (header, payload, conn2))"

lemma length_BuildPacket [simp]: "length (BuildPacket typeID payload) = 5 + length payload"
  by (simp add: BuildPacket_def)

lemma extractHeader_BuildPacket:
  assumes "length payload < 2 ^ 32"
  shows "extractHeader (take 5 (BuildPacket typeID payload)) = \<lparr>hd_Len = word_of_nat (length payload), hd_TypeID = typeID\<rparr>"
proof -
  have "unat (word_of_nat (length payload) :: u32) = length payload"
    using assms by (simp add: unsigned_of_nat take_bit_nat_eq_self)
  then have "be_nat (be_fixed 4 (unat (word_of_nat (length payload) :: u32))) = length payload"
    using assms by (simp add: be_nat_fixed)
  then show ?thesis by (simp add: BuildPacket_def extractHeader_def nth_append)
qed

text \<open>Reading \<open>n\<close> bytes yields the first \<open>n\<close> bytes of the buffer and the chunks, and keeps the others.\<close>

lemma readBytes_chunks:
  assumes "[] \<notin> set cs" "n \<le> length (buf @ concat cs)"
  shows "\<exists>buf' cs1 cs2. cs = cs1 @ cs2 \<and> readBytes n buf (cs @ rest) = Some (take n (buf @ concat cs), buf', cs2 @ rest) \<and>
    buf' @ concat cs2 = drop n (buf @ concat cs)"
  using assms
proof (induction n arbitrary: buf cs)
  case (Suc n)
  show ?case
  proof (cases buf)
    case (Cons b buf1)
    then have "n \<le> length (buf1 @ concat cs)" using Suc.prems(2) by simp
    from Suc.IH [OF Suc.prems(1) this] show ?thesis using Cons by auto
  next
    case Nil
    then obtain c cs0 where cs: "cs = c # cs0" using Suc.prems(2) by (cases cs) auto
    then obtain b c1 where c: "c = b # c1" using Suc.prems(1) by (cases c) auto
    have "[] \<notin> set cs0" "n \<le> length (c1 @ concat cs0)" using Suc.prems Nil cs c by auto
    from Suc.IH [OF this] obtain buf' cs1 cs2 where IH: "cs0 = cs1 @ cs2"
      "readBytes n c1 (cs0 @ rest) = Some (take n (c1 @ concat cs0), buf', cs2 @ rest)" "buf' @ concat cs2 = drop n (c1 @ concat cs0)" by blast
    then show ?thesis using Nil cs c by (intro exI [of _ buf'] exI [of _ "c # cs1"] exI [of _ cs2]) simp
  qed
qed auto

text \<open>
  C27: a packet is received as it was sent, and what follows it in the same chunk is lost. If a connection delivers the
  packet of a registered type with a payload of at most 800000 bytes in some chunks, of which the last contains
  the end of the packet, possibly followed by more bytes, then \<^verbatim>\<open>RcvData\<close> returns the type and the payload, and
  the next call starts with the chunk after those.
\<close>

theorem RcvData_packet:
  assumes "concat cs = BuildPacket typeID payload @ extra" "[] \<notin> set cs" "length (concat (butlast cs)) < length (BuildPacket typeID payload)"
    "typeID \<in> set LogMapping" "length payload \<le> 800000"
  shows "RcvData (cs @ rest) = Inr (\<lparr>hd_Len = word_of_nat (length payload), hd_TypeID = typeID\<rparr>, payload, rest)"
proof -
  have len: "length (concat cs) = 5 + length payload + length extra" using assms(1) by simp
  have wl: "unat (word_of_nat (length payload) :: u32) = length payload"
    using assms(5) by (simp add: unsigned_of_nat take_bit_nat_eq_self)
  obtain buf1 cs1 cs2 where 1: "cs = cs1 @ cs2" "readBytes 5 [] (cs @ rest) = Some (take 5 (concat cs), buf1, cs2 @ rest)"
    "buf1 @ concat cs2 = drop 5 (concat cs)"
    using readBytes_chunks [OF assms(2), of 5 "[]" rest] len by auto
  have h: "extractHeader (take 5 (concat cs)) = \<lparr>hd_Len = word_of_nat (length payload), hd_TypeID = typeID\<rparr>"
    using extractHeader_BuildPacket [of payload typeID] assms(1,5) by simp
  have "[] \<notin> set cs2" "length payload \<le> length (buf1 @ concat cs2)" using assms(2) 1 len by auto
  from readBytes_chunks [OF this, of rest] obtain buf2 cs3 cs4 where 2: "cs2 = cs3 @ cs4"
    "readBytes (length payload) buf1 (cs2 @ rest) = Some (take (length payload) (buf1 @ concat cs2), buf2, cs4 @ rest)"
    "buf2 @ concat cs4 = drop (length payload) (buf1 @ concat cs2)" by blast
  have pay: "take (length payload) (buf1 @ concat cs2) = payload"
    unfolding 1(3) assms(1) by (simp add: BuildPacket_def)
  have "cs4 = []"
  proof (rule ccontr)
    assume ne: "cs4 \<noteq> []"
    have "length (buf2 @ concat cs4) = length extra" unfolding 2(3) 1(3) using len by simp
    moreover have "length (concat cs) = length (concat (cs1 @ cs3)) + length (concat cs4)" using 1(1) 2(1) by simp
    moreover have "length (concat (cs1 @ cs3)) \<le> length (concat (butlast cs))" using ne 1(1) 2(1) by (simp add: butlast_append)
    ultimately show False using len assms(3) by simp
  qed
  then show ?thesis
    using 1(2) 2(2) [unfolded pay] assms(4,5) by (simp add: RcvData_def ReadHeader_def HEADER_LEN_def MAX_BLOCK_SIZE_def h wl Let_def)
qed

lemma demo_packet: "BuildPacket 24 [7, 8] = [0, 0, 0, 2, 24, 7, 8]"
  by (simp add: BuildPacket_def be_fixed_def le_fixed_def upt_rec)

theorem RcvData_packet_witness:
  "RcvData [[0, 0, 0], [2, 24, 7, 8, 0, 0, 0, 0, 130], [5]] = Inr (\<lparr>hd_Len = 2, hd_TypeID = BLOCK_REQ\<rparr>, [7, 8], [[5]])"
  using RcvData_packet [of "[[0, 0, 0], [2, 24, 7, 8, 0, 0, 0, 0, 130]]" BLOCK_REQ "[7, 8]" "[0, 0, 0, 0, 130]" "[[5]]"]
  by (simp add: demo_packet LogMapping_def)

subsection \<open>Neighbour lists\<close>

fun split_on :: "byte \<Rightarrow> bytes \<Rightarrow> bytes list" where
  "split_on sep [] = [[]]"
| "split_on sep (b # bs) = (if b = sep then [] # split_on sep bs
     else case split_on sep bs of [] \<Rightarrow> [[b]] | x # xs \<Rightarrow> (b # x) # xs)"

definition all_digits :: "bytes \<Rightarrow> bool" where
  "all_digits bs \<longleftrightarrow> bs \<noteq> [] \<and> list_all digit_byte bs"

text \<open>\<^verbatim>\<open>strconv.Atoi\<close> and \<^verbatim>\<open>strconv.ParseUint(s, 10, 16)\<close> with its error dropped.\<close>

definition Atoi :: "bytes \<Rightarrow> int option" where
  "Atoi bs = (let (neg, ds) = (case bs of [] \<Rightarrow> (False, []) | b # r \<Rightarrow> if b = 45 then (True, r) else if b = 43 then (False, r) else (False, bs));
       v = (if neg then - int (undigits ds) else int (undigits ds))
     in if all_digits ds \<and> - (2 ^ 63) \<le> v \<and> v < 2 ^ 63 then Some v else None)"

definition ParseUint16 :: "bytes \<Rightarrow> nat" where
  "ParseUint16 bs = (if all_digits bs then min (undigits bs) 65535 else 0)"

text \<open>The bytes of an address: \<open>None\<close> is a panic, \<open>Some None\<close> the end of \<^verbatim>\<open>_neighborRes\<close> with a nil payload.\<close>

fun addrBytes :: "nat \<Rightarrow> bytes list \<Rightarrow> bytes option option" where
  "addrBytes 0 split = Some (Some [])"
| "addrBytes (Suc n) [] = None"
| "addrBytes (Suc n) (s # split) = (case Atoi s of
     None \<Rightarrow> Some None
   | Some addrPart \<Rightarrow> map_option (map_option (\<lambda>bs. word_of_int addrPart # bs)) (addrBytes n split))"

fun neighborBytes :: "bytes list \<Rightarrow> bytes option option" where
  "neighborBytes [] = Some (Some [])"
| "neighborBytes (ipportIter # ipportList) = (let ipport = split_on 58 ipportIter in
     case addrBytes 4 (split_on 46 (hd ipport)) of
       None \<Rightarrow> None
     | Some None \<Rightarrow> Some None
     | Some (Some bs) \<Rightarrow>
         if length ipport < 2 then None
         else map_option (map_option (\<lambda>r. bs @ be_fixed 2 (ParseUint16 (ipport ! 1)) @ r)) (neighborBytes ipportList))"

definition neighborPayload :: "bytes list \<Rightarrow> bytes option" where
  "neighborPayload ipportList = map_option (\<lambda>r. case r of None \<Rightarrow> [] | Some bs \<Rightarrow> bs) (neighborBytes ipportList)"

definition addrText :: "bytes \<Rightarrow> bytes" where
  "addrText bs = digits (unat (bs ! 0)) @ 46 # digits (unat (bs ! 1)) @ 46 # digits (unat (bs ! 2)) @ 46 # digits (unat (bs ! 3)) @
     58 # digits (be_nat (take 2 (drop 4 bs)))"

function parseNeighbors :: "bytes \<Rightarrow> bytes list" where
  "parseNeighbors payload = (if length payload < 6 then [] else addrText payload # parseNeighbors (drop 6 payload))"
  by pat_completeness auto
termination by (relation "measure length") auto

declare parseNeighbors.simps [simp del]

lemma split_on_free: "sep \<notin> set bs \<Longrightarrow> split_on sep bs = [bs]"
  by (induction bs) auto

lemma split_on_sep: "sep \<notin> set bs \<Longrightarrow> split_on sep (bs @ sep # r) = bs # split_on sep r"
  by (induction bs) auto

lemma digits_free: "\<not> digit_byte b \<Longrightarrow> b \<notin> set (digits n)"
  using digits_digit by blast

lemma all_digits_digits [simp]: "all_digits (digits n)"
  by (auto simp: all_digits_def list_all_iff digits_digit)

lemma Atoi_digits: "n < 2 ^ 63 \<Longrightarrow> Atoi (digits n) = Some (int n)"
proof -
  assume n: "n < 2 ^ 63"
  obtain b r where d: "digits n = b # r" by (cases "digits n") auto
  then have "digit_byte b" using digits_digit [of b n] by simp
  then have "b \<noteq> 45" "b \<noteq> 43" by (auto simp: digit_byte_def)
  then show ?thesis using d n all_digits_digits [of n] undigits_digits [of n] by (simp add: Atoi_def Let_def)
qed

lemma ParseUint16_digits: "n < 65536 \<Longrightarrow> ParseUint16 (digits n) = n"
  by (simp add: ParseUint16_def)

lemma addrText_bytes:
  assumes "6 \<le> length bs"
  shows "neighborBytes (addrText bs # l) = map_option (map_option (\<lambda>r. take 6 bs @ r)) (neighborBytes l)"
proof -
  have c: "\<not> digit_byte 46" "\<not> digit_byte 58" by (simp_all add: digit_byte_def)
  let ?d = "\<lambda>i. digits (unat (bs ! i))"
  let ?ip = "?d 0 @ 46 # ?d 1 @ 46 # ?d 2 @ 46 # ?d 3" and ?port = "digits (be_nat (take 2 (drop 4 bs)))"
  have "58 \<notin> set ?ip" using c by (simp add: digits_free)
  then have ipport: "split_on 58 (addrText bs) = [?ip, ?port]"
    using split_on_sep [of 58 ?ip ?port] c by (simp add: addrText_def split_on_free digits_free)
  have "split_on 46 ?ip = [?d 0, ?d 1, ?d 2, ?d 3]" using c by (simp add: split_on_sep split_on_free digits_free)
  moreover have "Atoi (?d i) = Some (int (unat (bs ! i)))" for i
    by (rule Atoi_digits, rule less_trans [OF unat_byte_lt]) simp
  ultimately have addr: "addrBytes 4 (split_on 46 ?ip) = Some (Some [bs ! 0, bs ! 1, bs ! 2, bs ! 3])"
    by (simp add: numeral_eq_Suc)
  have "be_nat (take 2 (drop 4 bs)) < 65536" using be_nat_bound [of "take 2 (drop 4 bs)"] assms by simp
  then have port: "be_fixed 2 (ParseUint16 ?port) = take 2 (drop 4 bs)"
    using assms be_fixed_be_nat [of "take 2 (drop 4 bs)"] by (simp add: ParseUint16_digits)
  have "take 6 bs = [bs ! 0, bs ! 1, bs ! 2, bs ! 3] @ take 2 (drop 4 bs)"
    using assms by (intro nth_equalityI) (auto simp: nth_append less_Suc_eq numeral_eq_Suc nth_Cons')
  then show ?thesis using ipport addr port by (simp add: Let_def)
qed

text \<open>
  A list of neighbours survives the network. For every payload that is a sequence of addresses of six bytes, the
  texts \<^verbatim>\<open>_processNeighborRes\<close> makes of it are serialised by \<^verbatim>\<open>_neighborRes\<close> to the same payload, without
  panic; the receiver and the sender of a neighbour list agree on every address and port.
\<close>

theorem neighbor_roundtrip:
  assumes "length payload mod 6 = 0"
  shows "neighborPayload (parseNeighbors payload) = Some payload"
proof -
  have "neighborBytes (parseNeighbors payload) = Some (Some payload)"
    using assms
  proof (induction payload rule: parseNeighbors.induct)
    case (1 payload)
    show ?case
    proof (cases "length payload < 6")
      case True
      then have "payload = []" using 1(2) by simp
      then show ?thesis by (simp add: parseNeighbors.simps)
    next
      case False
      then have "length (drop 6 payload) mod 6 = 0" using 1(2) by (simp add: mod_if)
      from 1(1) [OF False this] show ?thesis
        using False by (subst parseNeighbors.simps) (simp add: addrText_bytes del: neighborBytes.simps)
    qed
  qed
  then show ?thesis by (simp add: neighborPayload_def)
qed

theorem neighbor_roundtrip_witness:
  "parseNeighbors [127, 0, 0, 1, 31, 64] = [of_string ''127.0.0.1:8000''] \<and>
   neighborPayload [of_string ''127.0.0.1:8000''] = Some [127, 0, 0, 1, 31, 64]"
proof -
  have "parseNeighbors [127, 0, 0, 1, 31, 64] = [of_string ''127.0.0.1:8000'']"
    by (simp add: parseNeighbors.simps addrText_def digits.simps be_nat_def of_string_def of_char_def)
  then show ?thesis using neighbor_roundtrip [of "[127, 0, 0, 1, 31, 64]"] by simp
qed

subsection \<open>Handshakes and requests by counter\<close>

definition PrepareHandshake :: "u8 \<Rightarrow> int \<Rightarrow> bytes" where
  "PrepareHandshake pingType localPort = BuildPacket pingType (be_fixed 2 (unat (word_of_int localPort :: u16)))"

definition pongPort :: "bytes \<Rightarrow> bytes" where
  "pongPort payload = (if length payload = 2 then digits (be_nat payload) else [])"

record specialTxRequest =
  sr_senderHash :: hash
  sr_reqType :: u8
  sr_txcnt :: u32

text \<open>The counter takes four of its eight bytes, and one byte is skipped.\<close>

definition specialTx_Encoding :: "specialTxRequest \<Rightarrow> bytes" where
  "specialTx_Encoding R = [sr_reqType R] @ be_fixed 4 (unat (sr_txcnt R)) @ replicate 4 0 @ [0] @ fit 32 (sr_senderHash R)"

text \<open>What \<^verbatim>\<open>specialTxRes\<close> reads from a request: the counter and the sender, \<open>None\<close> for another length.\<close>

definition specialTx_parse :: "bytes \<Rightarrow> (u32 \<times> hash) option" where
  "specialTx_parse payload = (if length payload \<noteq> 42 then None
     else Some (word_of_nat (be_nat (take 4 (take 8 (drop 1 payload)))), take 32 (drop 10 payload)))"

lemma pongPort_handshake:
  assumes "0 \<le> port" "port < 65536"
  shows "pongPort (drop 5 (PrepareHandshake t port)) = digits (nat port)"
proof -
  have "unat (word_of_int port :: u16) = nat port" using assms by (simp add: unsigned_of_int take_bit_int_eq_self)
  then show ?thesis using assms be_nat_fixed [of 2 "nat port"] by (simp add: PrepareHandshake_def BuildPacket_def pongPort_def nat_less_iff)
qed

lemma specialTx_roundtrip:
  "length (sr_senderHash R) = 32 \<Longrightarrow> specialTx_parse (specialTx_Encoding R) = Some (sr_txcnt R, sr_senderHash R)"
proof -
  assume "length (sr_senderHash R) = 32"
  moreover have "unat (sr_txcnt R) < 256 ^ 4" using unsigned_less [of "sr_txcnt R", where ?'a = nat] by simp
  ultimately show ?thesis by (simp add: specialTx_parse_def specialTx_Encoding_def be_nat_fixed fit_def)
qed

subsection \<open>The common time\<close>

text \<open>The quotient of Go rounds towards zero; an index out of range is a panic.\<close>

definition half64 :: "int \<Rightarrow> int" where
  "half64 s = (let v = sint (word_of_int s :: u64) in if v < 0 then - ((- v) div 2) else v div 2)"

definition calcMedian :: "int list \<Rightarrow> int option" where
  "calcMedian ipeerTimes = (let s = sort ipeerTimes; n = length s in
     if n mod 2 = 1 then Some (s ! (n div 2))
     else if n div 2 + 1 < n then Some (half64 (s ! (n div 2 + 1) + s ! (n div 2))) else None)"

definition MIN_PEERS_FOR_TIME :: nat where "MIN_PEERS_FOR_TIME = 5"

text \<open>The machine's clock is read twice.\<close>

definition writeSystemTime :: "int list \<Rightarrow> int \<Rightarrow> int \<Rightarrow> int option" where
  "writeSystemTime peerTimes now now' = (let ipeerTimes = filter (\<lambda>t. t \<noteq> 0) (peerTimes @ [now]) in
     if length ipeerTimes < MIN_PEERS_FOR_TIME then Some now' else calcMedian ipeerTimes)"

lemma sorted_low_count:
  assumes "sorted s" "i < length s" "s ! i < (lo :: int)"
  shows "i < length (filter (\<lambda>t. t < lo) s)"
proof -
  have "{0..i} \<subseteq> {j. j < length s \<and> s ! j < lo}" using assms sorted_nth_mono [OF assms(1)] by force
  then have "card {0..i} \<le> card {j. j < length s \<and> s ! j < lo}" by (intro card_mono) auto
  then show ?thesis by (simp add: length_filter_conv_card)
qed

lemma sorted_high_count:
  assumes "sorted s" "i < length s" "(hi :: int) < s ! i"
  shows "length s - i \<le> length (filter (\<lambda>t. hi < t) s)"
proof -
  have "{i..<length s} \<subseteq> {j. j < length s \<and> hi < s ! j}" using assms sorted_nth_mono [OF assms(1)] by force
  then have "card {i..<length s} \<le> card {j. j < length s \<and> hi < s ! j}" by (intro card_mono) auto
  then show ?thesis by (simp add: length_filter_conv_card)
qed

lemma outliers_count:
  fixes lo hi :: int
  shows "length (filter (\<lambda>t. t < lo) s) \<le> length (filter (\<lambda>t. \<not> (lo \<le> t \<and> t \<le> hi)) s)"
    "length (filter (\<lambda>t. hi < t) s) \<le> length (filter (\<lambda>t. \<not> (lo \<le> t \<and> t \<le> hi)) s)"
  by (induction s) auto

text \<open>
  C28: a few wrong clocks do not move the common time. If of the times that count, the own one included, so few lie outside
  of a range that twice their number plus two is below the number of times, then \<^verbatim>\<open>calcMedian\<close> does not panic and its
  result lies in that range, for times below \<open>2 ^ 62\<close>.
\<close>

theorem calcMedian_robust:
  assumes "2 * length (filter (\<lambda>t. \<not> (lo \<le> t \<and> t \<le> hi)) ts) + 2 < length ts" "0 \<le> lo" "hi < 2 ^ 62"
  shows "\<exists>m. calcMedian ts = Some m \<and> lo \<le> m \<and> m \<le> hi"
proof -
  let ?s = "sort ts" and ?n = "length ts" and ?k = "length (filter (\<lambda>t. \<not> (lo \<le> t \<and> t \<le> hi)) ts)"
  have k: "length (filter (\<lambda>t. \<not> (lo \<le> t \<and> t \<le> hi)) ?s) = ?k"
    by (metis length_sort filter_sort)
  have mid: "lo \<le> ?s ! i \<and> ?s ! i \<le> hi" if "i < ?n" "?k \<le> i" "?k < ?n - i" for i
  proof (rule ccontr)
    assume "\<not> ?thesis"
    then have "?s ! i < lo \<or> hi < ?s ! i" by auto
    then show False
      using sorted_low_count [of ?s i lo] sorted_high_count [of ?s i hi] outliers_count(1) [of lo ?s hi] outliers_count(2) [of hi ?s lo] k that
      by auto
  qed
  show ?thesis
  proof (cases "?n mod 2 = 1")
    case True
    then show ?thesis using mid [of "?n div 2"] assms(1) by (auto simp: calcMedian_def Let_def)
  next
    case False
    then have n: "?n = 2 * (?n div 2)" by presburger
    let ?a = "?s ! (?n div 2)" and ?b = "?s ! (?n div 2 + 1)"
    have ab: "lo \<le> ?a \<and> ?a \<le> hi" "lo \<le> ?b \<and> ?b \<le> hi"
      using mid [of "?n div 2"] mid [of "?n div 2 + 1"] assms(1) n by linarith+
    then have "- (2 ^ 63) \<le> ?b + ?a" "?b + ?a < 2 ^ 63" using assms(2,3) by auto
    then have "sint (word_of_int (?b + ?a) :: u64) = ?b + ?a" by (simp only: sint_sbintrunc') (simp add: signed_take_bit_int_eq_self)
    then have "half64 (?b + ?a) = (?b + ?a) div 2" using ab assms(2) by (simp add: half64_def Let_def)
    moreover have "calcMedian ts = Some (half64 (?b + ?a))" using False assms(1) n by (simp add: calcMedian_def Let_def)
    moreover have "lo \<le> (?b + ?a) div 2" "(?b + ?a) div 2 \<le> hi" using ab by presburger+
    ultimately show ?thesis by simp
  qed
qed

theorem calcMedian_robust_witness:
  "\<exists>m. calcMedian [1600000003, 1600000001, 9, 1600000002, 1600000009] = Some m \<and> 1600000000 \<le> m \<and> m \<le> 1600000010"
  by (rule calcMedian_robust) simp_all

end
