(* ===== verification/MerkleProof.thy ===== *)
theory MerkleProof
  imports Merkle
begin

text \<open>
  Merkle proofs: \<^verbatim>\<open>GetIntermediate\<close> of \<^verbatim>\<open>src/protocol/merkletree.go\<close>, which climbs the parent pointers of a leaf. A node
  has no parent pointer here; the climb repeats the levels of \<^verbatim>\<open>buildIntermediate\<close> and follows the position of the
  node from level to level. The leaf doubled at the end of an odd list is one object at two neighbouring positions, which
  are paired with each other, so that both have the same parent.
\<close>

definition helperNodes :: "crypto_env \<Rightarrow> Node \<Rightarrow> Node \<Rightarrow> Node \<Rightarrow> Node list option" where
  "helperNodes C left right currentNode =
     (if node_Hash currentNode = node_Hash left then Some [right, parent C left right]
      else if node_Hash currentNode = node_Hash right then Some [left, parent C left right]
      else None)"

text \<open>The climb from position \<open>i\<close> of a level; \<open>None\<close> is the error of a node that is not below its parent.\<close>

function climb :: "crypto_env \<Rightarrow> Node list \<Rightarrow> nat \<Rightarrow> Node list option" where
  "climb C nl i =
     (if length nl \<le> 2 then helperNodes C (nl ! 0) (nl ! 1) (nl ! i)
      else let l = dropToPower2 (length nl); nodes = pair_up C (take l nl) @ drop l nl
           in if i < l then (case helperNodes C (nl ! (2 * (i div 2))) (nl ! (2 * (i div 2) + 1)) (nl ! i) of
                  None \<Rightarrow> None | Some hs \<Rightarrow> map_option (\<lambda>r. hs @ r) (climb C nodes (i div 2)))
              else climb C nodes (l div 2 + (i - l)))"
  by pat_completeness auto
termination
proof (relation "measure (\<lambda>(C, nl, i). length nl)")
  show "wf (measure (\<lambda>(C :: crypto_env, nl :: Node list, i :: nat). length nl))" by simp
qed (use level_length(4) in auto)

declare climb.simps [simp del]

text \<open>The position of the first leaf with a hash.\<close>

fun leafIndex :: "Node list \<Rightarrow> hash \<Rightarrow> nat option" where
  "leafIndex [] h = None"
| "leafIndex (n # ns) h = (if h = node_Hash n then Some 0 else map_option Suc (leafIndex ns h))"

text \<open>\<^verbatim>\<open>GetIntermediate(GetLeaf(merkleTree, h))\<close>; the outer \<open>None\<close> is the panic on a hash without leaf.\<close>

definition GetIntermediate :: "crypto_env \<Rightarrow> MerkleTree \<Rightarrow> hash \<Rightarrow> Node list option option" where
  "GetIntermediate C m leafHash = map_option (climb C (mt_Leafs m)) (leafIndex (mt_Leafs m) leafHash)"

subsection \<open>Proofs lead to the root\<close>

text \<open>What a client checks: from the leaf, each pair of a helper and a parent is an inner node, up to the root.\<close>

fun valid_path :: "crypto_env \<Rightarrow> hash \<Rightarrow> Node list \<Rightarrow> hash \<Rightarrow> bool" where
  "valid_path C h [] root \<longleftrightarrow> h = root"
| "valid_path C h [n] root \<longleftrightarrow> False"
| "valid_path C h (s # p # ns) root \<longleftrightarrow>
     (node_Hash p = sha3 C (h @ node_Hash s) \<or> node_Hash p = sha3 C (node_Hash s @ h)) \<and> valid_path C (node_Hash p) ns root"

lemma helperNodes_path:
  assumes "c = a \<or> c = b"
  shows "\<exists>hs. helperNodes C a b c = Some hs \<and> valid_path C (node_Hash c) (hs @ r) root = valid_path C (node_Hash (parent C a b)) r root"
  using assms by (auto simp: helperNodes_def parent_def)

lemma pair_up_nth: "i < length ns div 2 \<Longrightarrow> pair_up C ns ! i = parent C (ns ! (2 * i)) (ns ! (2 * i + 1))"
proof (induction C ns arbitrary: i rule: pair_up.induct)
  case (1 C l r ns)
  then show ?case by (cases i) auto
qed auto

lemma climb_path:
  assumes "2 \<le> length nl" "i < length nl" "buildIntermediate C nl = Some root"
  shows "\<exists>hs. climb C nl i = Some hs \<and> valid_path C (node_Hash (nl ! i)) hs (node_Hash root)"
  using assms
proof (induction "length nl" arbitrary: nl i rule: less_induct)
  case less
  show ?case
  proof (cases "length nl = 2")
    case True
    then have i: "i = 0 \<or> i = 1" using less.prems(2) by auto
    have "root = parent C (nl ! 0) (nl ! 1)" using less.prems(3) True by (simp add: buildIntermediate.simps)
    moreover have "climb C nl i = helperNodes C (nl ! 0) (nl ! 1) (nl ! i)" using True by (simp add: climb.simps)
    ultimately show ?thesis using helperNodes_path [of "nl ! i" "nl ! 0" "nl ! 1" C "[]" "node_Hash root"] i by auto
  next
    case False
    then have big: "2 < length nl" using less.prems(1) by simp
    let ?l = "dropToPower2 (length nl)"
    let ?n = "pair_up C (take ?l nl) @ drop ?l nl"
    note len = level_length(1-3) [OF big] level_length(4,5) [OF big, of C]
    have build: "buildIntermediate C ?n = Some root"
      using less.prems(3) big by (subst (asm) buildIntermediate.simps) (simp add: Let_def)
    note IH = less.hyps [OF len(4,5) _ build]
    have half: "length (pair_up C (take ?l nl)) = ?l div 2" using len(2) by simp
    show ?thesis
    proof (cases "i < ?l")
      case True
      let ?a = "nl ! (2 * (i div 2))" and ?b = "nl ! (2 * (i div 2) + 1)"
      have i2: "i div 2 < ?l div 2" using True len(3) by presburger
      then have n: "?n ! (i div 2) = parent C ?a ?b" using half True len(2,3) by (auto simp: nth_append pair_up_nth)
      have "i div 2 < length ?n" using i2 half by simp
      from IH [OF this] obtain r where r: "climb C ?n (i div 2) = Some r" "valid_path C (node_Hash (parent C ?a ?b)) r (node_Hash root)"
        by (auto simp: n)
      have "nl ! i = ?a \<or> nl ! i = ?b" by (cases "even i") (auto elim!: evenE oddE)
      from helperNodes_path [OF this, of C r "node_Hash root"] show ?thesis
        using r big True by (subst climb.simps) (auto simp: Let_def)
    next
      case False
      then have n: "?n ! (?l div 2 + (i - ?l)) = nl ! i" and lt: "?l div 2 + (i - ?l) < length ?n"
        using half less.prems(2) len(2) by (auto simp: nth_append)
      have "climb C nl i = climb C ?n (?l div 2 + (i - ?l))" using big False by (subst climb.simps) (simp add: Let_def)
      with IH [OF lt] show ?thesis unfolding n by simp
    qed
  qed
qed

lemma leafIndex_Some:
  "h \<in> node_Hash ` set ns \<Longrightarrow> \<exists>i < length ns. leafIndex ns h = Some i \<and> node_Hash (ns ! i) = h"
proof (induction ns)
  case (Cons n ns)
  show ?case
  proof (cases "h = node_Hash n")
    case False
    then obtain i where "i < length ns" "leafIndex ns h = Some i" "node_Hash (ns ! i) = h" using Cons by auto
    then show ?thesis using False by (intro exI [of _ "Suc i"]) simp
  qed simp
qed simp

text \<open>
  C26: the Merkle proofs a node hands out are right. For every transaction hash listed in a block (other than zero), \<^verbatim>\<open>GetIntermediate\<close>
  on its leaf returns helper nodes that lead, hash by hash, from the transaction to the Merkle root of the block.
\<close>

theorem GetIntermediate_proves:
  assumes "BuildMerkleTree C b = Some (Some t)" "h \<in> set (block_txHashes b)" "h \<noteq> zero_hash"
  shows "\<exists>hs. GetIntermediate C t h = Some (Some hs) \<and> valid_path C h hs (mt_merkleRoot t)"
proof -
  let ?l = "pad_leafs (leafs_of (block_txHashes b))"
  have nz: "\<exists>h \<in> set (block_txHashes b). h \<noteq> zero_hash" using assms(2,3) by blast
  obtain root where root: "buildIntermediate C ?l = Some root" and t: "t = \<lparr>mt_Root = root, mt_merkleRoot = node_Hash root, mt_Leafs = ?l\<rparr>"
    using newTree_Some [OF nz, of C] assms(1) by (auto simp: BuildMerkleTree_def tree_or_nil_def split: if_splits)
  have mem: "LeafNode h \<in> set (leafs_of (block_txHashes b))" using assms(2,3) by (simp add: leafs_of_def)
  then have "h \<in> node_Hash ` set ?l" by (force simp: image_iff)
  from leafIndex_Some [OF this] obtain i where i: "i < length ?l" "leafIndex ?l h = Some i" "node_Hash (?l ! i) = h" by blast
  have "2 \<le> length ?l" using mem pad_leafs_length [of "leafs_of (block_txHashes b)"] by fastforce
  from climb_path [OF this i(1) root] i show ?thesis by (auto simp: GetIntermediate_def t)
qed

theorem GetIntermediate_proves_witness:
  "\<exists>t hs. BuildMerkleTree mix_crypto demo_tx_block = Some (Some t) \<and> GetIntermediate mix_crypto t (demo_hash 3) = Some (Some hs) \<and>
     valid_path mix_crypto (demo_hash 3) hs (demo_hash 81)"
proof -
  let ?t = "\<lparr>mt_Root = demo_root, mt_merkleRoot = demo_hash 81, mt_Leafs = map LeafNode [demo_hash 1, demo_hash 2, demo_hash 3, demo_hash 3]\<rparr>"
  have t: "BuildMerkleTree mix_crypto demo_tx_block = Some (Some ?t)"
    by (simp add: BuildMerkleTree_def demo_tx_block_hashes demo_tree tree_or_nil_def)
  from GetIntermediate_proves [OF this, of "demo_hash 3"] t show ?thesis by (auto simp: demo_tx_block_hashes)
qed

end
