(* ===== verification/Network.thy ===== *)
theory Network
  imports Wire MerkleProof Storage
begin

text \<open>
  The message handlers of the package \<^verbatim>\<open>src/p2p\<close>: peers (\<^verbatim>\<open>peer.go\<close>), incoming messages (\<^verbatim>\<open>incoming.go\<close>,
  \<^verbatim>\<open>process.go\<close>), answers to requests (\<^verbatim>\<open>response.go\<close>) and the transactions and blocks that are passed on to the miner
  (\<^verbatim>\<open>miner_interface.go\<close>).

  A handler maps the state of the package to the messages it sends, in order, and the new state; \<open>None\<close> is a panic.
  Sending into a channel is a message to its reader. A peer is a pointer, a number here; the Go maps of connections are lists in
  one of their iteration orders. The byte streams of the package \<^verbatim>\<open>gob\<close> and the Bloom filter of a third-party package are
  arguments: \<open>gobBytes\<close> gives the stream of an encoding, the other fields the value that decoding any stream leaves
  behind, which is never nil.
\<close>

record gob_env =
  gobBytes :: "blob \<Rightarrow> bytes"
  gobFunds :: "bytes \<Rightarrow> FundsTx"
  gobAcc :: "bytes \<Rightarrow> AccTx"
  gobAgg :: "bytes \<Rightarrow> AggTx"
  gobUpdate :: "bytes \<Rightarrow> UpdateTx"
  gobBlock :: "bytes \<Rightarrow> Block"
  bloomFilter :: "hash list \<Rightarrow> bytes"

definition blobBytes :: "gob_env \<Rightarrow> blob \<Rightarrow> bytes" where
  "blobBytes G b = (case b of Raw bs \<Rightarrow> bs | _ \<Rightarrow> gobBytes G b)"

record peer =
  p_remoteAddr :: bytes
  p_listenerPort :: bytes
  p_time :: int
  p_peerType :: nat

record 'd net =
  nworld :: "'d world"
  peer_at :: "nat \<Rightarrow> peer"
  minerConns :: "nat list"
  clientConns :: "nat list"
  sendingMap :: "(bytes \<times> nat \<times> bytes list) list"
  iplistChan :: "bytes list"
  lastNotFoundTxWithHash :: hash
  ReceivedFundsTXStash :: "FundsTx list"
  ReceivedAggTxStash :: "AggTx list"
  ReceivedStakeTxStash :: "StakeTx list"
  ReceivedAccTxStash :: "AccTx list"
  ReceivedUpdateTxStash :: "UpdateTx list"
  Ipport :: bytes

datatype message =
    Send nat bytes | MinerBrdcst bytes | ToMiner Transaction | ToBlockReq bytes | ToBlockIn bytes | CloseConn nat | StartPeer nat

type_synonym 'd handler = "(message list \<times> 'd net) option"

definition PEERTYPE_MINER :: nat where "PEERTYPE_MINER = 1"
definition PEERTYPE_CLIENT :: nat where "PEERTYPE_CLIENT = 2"
definition MIN_MINERS :: nat where "MIN_MINERS = 20"
definition MAX_MINERS :: nat where "MAX_MINERS = 30"

subsection \<open>Peers\<close>

definition getIPPort :: "'d net \<Rightarrow> nat \<Rightarrow> bytes" where
  "getIPPort n p = hd (split_on 58 (p_remoteAddr (peer_at n p))) @ 58 # p_listenerPort (peer_at n p)"

definition getAllPeers :: "'d net \<Rightarrow> nat \<Rightarrow> nat list" where
  "getAllPeers n peerType = (if peerType = PEERTYPE_MINER then minerConns n else if peerType = PEERTYPE_CLIENT then clientConns n else [])"

definition contains :: "'d net \<Rightarrow> bytes \<Rightarrow> nat \<Rightarrow> bool" where
  "contains n ipport peerType = list_ex (\<lambda>p. getIPPort n p = ipport) (getAllPeers n peerType)"

definition peers_len :: "'d net \<Rightarrow> nat \<Rightarrow> nat" where
  "peers_len n peerType = length (getAllPeers n peerType)"

definition peerSelfConn :: "'d net \<Rightarrow> bytes \<Rightarrow> bool" where
  "peerSelfConn n newIpport = (newIpport = Ipport n)"

text \<open>Both results of \<^verbatim>\<open>isConnectionAlreadyInSendingMap\<close> and the map it leaves.\<close>

definition isConnectionAlreadyInSendingMap :: "'d net \<Rightarrow> nat \<Rightarrow> bool \<times> bool \<times> 'd net" where
  "isConnectionAlreadyInSendingMap n p = (case find (\<lambda>(ip, q, msgs). getIPPort n q = getIPPort n p) (sendingMap n) of
     None \<Rightarrow> (False, False, n)
   | Some (ip, q, msgs) \<Rightarrow>
       if q \<noteq> p then (True, True, n\<lparr>sendingMap := AList.update (getIPPort n p) (p, msgs) (sendingMap n)\<rparr>) else (True, False, n))"

definition noteSender :: "nat \<Rightarrow> 'd net \<Rightarrow> 'd net" where
  "noteSender p n = (case isConnectionAlreadyInSendingMap n p of (already, update, n') \<Rightarrow>
     if \<not> already \<and> \<not> update then n'\<lparr>sendingMap := AList.update (getIPPort n' p) (p, []) (sendingMap n')\<rparr> else n')"

definition addPeer :: "nat \<Rightarrow> 'd net \<Rightarrow> 'd net" where
  "addPeer p n =
     (let n1 = (if p_peerType (peer_at n p) = PEERTYPE_MINER
                then n\<lparr>minerConns := p # filter (\<lambda>q. getIPPort n q \<noteq> getIPPort n p) (minerConns n)\<rparr> else n);
          n2 = (if p_peerType (peer_at n p) = PEERTYPE_CLIENT then n1\<lparr>clientConns := List.insert p (clientConns n1)\<rparr> else n1)
      in fold noteSender (minerConns n2) n2)"

definition deletePeer :: "nat \<Rightarrow> 'd net \<Rightarrow> 'd net" where
  "deletePeer p n =
     (let n1 = (if p_peerType (peer_at n p) = PEERTYPE_MINER then n\<lparr>minerConns := removeAll p (minerConns n)\<rparr> else n)
      in if p_peerType (peer_at n p) = PEERTYPE_CLIENT then n1\<lparr>clientConns := removeAll p (clientConns n1)\<rparr> else n1)"

text \<open>The times of the miners are consumed.\<close>

definition getMinerTimes :: "'d net \<Rightarrow> int list \<times> 'd net" where
  "getMinerTimes n = (map (\<lambda>p. p_time (peer_at n p)) (minerConns n),
     n\<lparr>peer_at := (\<lambda>p. if p \<in> set (minerConns n) then (peer_at n p)\<lparr>p_time := 0\<rparr> else peer_at n p)\<rparr>)"

text \<open>\<^verbatim>\<open>sendData\<close> reads the type at index 4 of the packet.\<close>

definition sendData :: "nat \<Rightarrow> bytes \<Rightarrow> 'd net \<Rightarrow> 'd handler" where
  "sendData p packet n = (if length packet \<le> 4 then None else Some ([Send p packet], n))"

subsection \<open>Broadcasts\<close>

text \<open>
  The transaction of a broadcast; \<open>None\<close> is nil. Only the decoders of configuration and staking transactions return nil, after which
  the broadcast is dropped; another type that is no broadcast leaves the transaction nil and its hash panics.
\<close>

definition decodeTx :: "gob_env \<Rightarrow> bytes \<Rightarrow> u8 \<Rightarrow> Transaction option" where
  "decodeTx G payload brdcstType =
     (if brdcstType = FUNDSTX_BRDCST then Some (TFunds (gobFunds G payload))
      else if brdcstType = ACCTX_BRDCST then Some (TAcc (gobAcc G payload))
      else if brdcstType = UPDATETX_BRDCST then Some (TUpdate (gobUpdate G payload))
      else if brdcstType = CONFIGTX_BRDCST then map_option TConfig (ConfigTx_Decode payload)
      else if brdcstType = STAKETX_BRDCST then map_option TStake (StakeTx_Decode payload)
      else if brdcstType = AGGTX_BRDCST then Some (TAgg (gobAgg G payload))
      else None)"

definition processTxBrdcst :: "'d env \<Rightarrow> gob_env \<Rightarrow> nat \<Rightarrow> bytes \<Rightarrow> u8 \<Rightarrow> 'd net \<Rightarrow> 'd handler" where
  "processTxBrdcst E G p payload brdcstType n = (case decodeTx G payload brdcstType of
     None \<Rightarrow> if brdcstType = CONFIGTX_BRDCST \<or> brdcstType = STAKETX_BRDCST then Some ([], n) else None
   | Some tx \<Rightarrow>
       let ack = (if contains n (getIPPort n p) PEERTYPE_MINER then [] else [Send p (BuildPacket TX_BRDCST_ACK [])]); w = nworld n
       in case world_Hash E w tx of None \<Rightarrow> None | Some h \<Rightarrow>
         if ReadOpenTx w h \<noteq> None \<or> ReadClosedTx E w h \<noteq> None then Some (ack, n)
         else map_option (\<lambda>w'. (ack @ [MinerBrdcst (BuildPacket brdcstType payload)], n\<lparr>nworld := w'\<rparr>)) (WriteOpenTx E tx w))"

definition processTimeRes :: "nat \<Rightarrow> bytes \<Rightarrow> 'd net \<Rightarrow> 'd handler" where
  "processTimeRes p payload n = (if length payload < 8 then None
     else Some ([], n\<lparr>peer_at := (peer_at n)(p := (peer_at n p)\<lparr>p_time := sint (get_be64 (take 8 payload))\<rparr>)\<rparr>))"

text \<open>
  The channel \<^verbatim>\<open>iplistChan\<close> holds 400 addresses. The condition admits one more, whose sender waits for a reader; it stands at the
  end of the list.
\<close>

definition processNeighborRes :: "bytes \<Rightarrow> 'd net \<Rightarrow> 'd handler" where
  "processNeighborRes payload n = Some ([], fold (\<lambda>ipport n.
     if \<not> contains n ipport PEERTYPE_MINER \<and> \<not> peerSelfConn n ipport \<and> length (iplistChan n) \<le> MIN_MINERS * MIN_MINERS
     then n\<lparr>iplistChan := iplistChan n @ [ipport]\<rparr> else n) (parseNeighbors payload) n)"

definition processBlockBrdcst :: "bytes \<Rightarrow> 'd net \<Rightarrow> 'd handler" where
  "processBlockBrdcst payload n = Some ([ToBlockIn payload], n)"

subsection \<open>Answers\<close>

text \<open>The transaction of a hash: a transaction in the invalid pool overrides a closed one, which overrides an open one.\<close>

definition findTx :: "'d env \<Rightarrow> 'd world \<Rightarrow> hash \<Rightarrow> Transaction option" where
  "findTx E w h = (case txINVALIDMemPool w h of Some t \<Rightarrow> Some t | None \<Rightarrow>
     (case ReadClosedTx E w h of Some t \<Rightarrow> Some t | None \<Rightarrow> ReadOpenTx w h))"

text \<open>The packet of an answer; a request of unknown kind for another type of transaction leaves it nil.\<close>

definition txPacket :: "gob_env \<Rightarrow> u8 \<Rightarrow> Transaction \<Rightarrow> bytes" where
  "txPacket G txKind tx = (let enc = blobBytes G (tx_Encode tx) in
     if txKind = FUNDSTX_REQ then BuildPacket FUNDSTX_RES enc
     else if txKind = ACCTX_REQ then BuildPacket ACCTX_RES enc
     else if txKind = CONFIGTX_REQ then BuildPacket CONFIGTX_RES enc
     else if txKind = STAKETX_REQ then BuildPacket STAKETX_RES enc
     else if txKind = AGGTX_REQ then BuildPacket AGGTX_RES enc
     else if txKind = UPDATETX_REQ then BuildPacket UPDATETX_RES enc
     else if txKind = UNKNOWNTX_REQ then (case tx of TFunds _ \<Rightarrow> BuildPacket FUNDSTX_RES enc | TAgg _ \<Rightarrow> BuildPacket AGGTX_RES enc | _ \<Rightarrow> [])
     else [])"

definition noteNotFound :: "hash \<Rightarrow> 'd net \<Rightarrow> 'd net" where
  "noteNotFound h n = (if lastNotFoundTxWithHash n \<noteq> h then n\<lparr>lastNotFoundTxWithHash := h\<rparr> else n)"

definition txRes :: "'d env \<Rightarrow> gob_env \<Rightarrow> nat \<Rightarrow> bytes \<Rightarrow> u8 \<Rightarrow> 'd net \<Rightarrow> 'd handler" where
  "txRes E G p payload txKind n = (if length payload \<noteq> 32 then Some ([], n)
     else case findTx E (nworld n) payload of
       None \<Rightarrow> map_option (\<lambda>(ms, n'). (ms, noteNotFound payload n')) (sendData p (BuildPacket NOT_FOUND []) n)
     | Some tx \<Rightarrow> sendData p (txPacket G txKind tx) n)"

definition notFoundTxRes :: "'d env \<Rightarrow> gob_env \<Rightarrow> bytes \<Rightarrow> 'd net \<Rightarrow> 'd handler" where
  "notFoundTxRes E G payload n = (if length payload \<noteq> 32 then Some ([], n)
     else case findTx E (nworld n) payload of
       None \<Rightarrow> Some ([], noteNotFound payload n)
     | Some tx \<Rightarrow> let enc = blobBytes G (tx_Encode tx) in
         Some ([MinerBrdcst (case tx of TFunds _ \<Rightarrow> BuildPacket FUNDSTX_BRDCST enc | TAcc _ \<Rightarrow> BuildPacket ACCTX_BRDCST enc
           | TConfig _ \<Rightarrow> BuildPacket CONFIGTX_BRDCST enc | TStake _ \<Rightarrow> BuildPacket STAKETX_BRDCST enc
           | TAgg _ \<Rightarrow> BuildPacket AGGTX_BRDCST enc | TUpdate _ \<Rightarrow> [])], n))"

text \<open>The first transaction of the sender among those with a counter.\<close>

fun searchTxcnt :: "'d env \<Rightarrow> 'd world \<Rightarrow> hash \<Rightarrow> hash list \<Rightarrow> Transaction option" where
  "searchTxcnt E w senderHash [] = None"
| "searchTxcnt E w senderHash (h # hs) =
     (case (case ReadOpenTx w h of Some t \<Rightarrow> Some t | None \<Rightarrow> (case txINVALIDMemPool w h of Some t \<Rightarrow> Some t | None \<Rightarrow> ReadClosedTx E w h)) of
        Some t \<Rightarrow> if tx_Sender t = senderHash then Some t else searchTxcnt E w senderHash hs
      | None \<Rightarrow> searchTxcnt E w senderHash hs)"

definition specialTxRes :: "'d env \<Rightarrow> gob_env \<Rightarrow> nat \<Rightarrow> bytes \<Rightarrow> 'd net \<Rightarrow> 'd handler" where
  "specialTxRes E G p payload n = (case specialTx_parse payload of
     None \<Rightarrow> Some ([], n)
   | Some (txcnt, senderHash) \<Rightarrow> (case searchTxcnt E (nworld n) senderHash (TxcntToTxMap (nworld n) txcnt) of
       Some tx \<Rightarrow> let enc = blobBytes G (tx_Encode tx) in
         map_option (\<lambda>(ms, n'). (ms @ [MinerBrdcst (BuildPacket FUNDSTX_BRDCST enc)], n')) (sendData p (BuildPacket FUNDSTX_RES enc) n)
     | None \<Rightarrow> sendData p (BuildPacket NOT_FOUND []) n))"

definition requestedBlock :: "'d env \<Rightarrow> 'd world \<Rightarrow> bytes \<Rightarrow> Block option" where
  "requestedBlock E w payload = (case ReadClosedBlock E w (take 32 payload) of Some b \<Rightarrow> Some b | None \<Rightarrow>
     (case ReadClosedBlockWithoutTx E w (drop 32 payload) of Some b \<Rightarrow> Some b | None \<Rightarrow> ReadOpenBlock E w (take 32 payload)))"

definition blockRes :: "'d env \<Rightarrow> gob_env \<Rightarrow> nat \<Rightarrow> bytes \<Rightarrow> 'd net \<Rightarrow> 'd handler" where
  "blockRes E G p payload n =
     (let block = (if length payload = 64 then requestedBlock E (nworld n) payload
                   else if length payload = 0 then ReadLastClosedBlock E (nworld n) else None)
      in sendData p (case block of Some b \<Rightarrow> BuildPacket BLOCK_RES (blobBytes G (Block_Encode b)) | None \<Rightarrow> BuildPacket NOT_FOUND []) n)"

text \<open>The keys of the accounts in a block: a missing transaction, or one of another type, panics.\<close>

definition closedOrOpen :: "'d env \<Rightarrow> 'd world \<Rightarrow> hash \<Rightarrow> Transaction option" where
  "closedOrOpen E w h = (case ReadClosedTx E w h of Some t \<Rightarrow> Some t | None \<Rightarrow> ReadOpenTx w h)"

fun GetAccTxPubKeys :: "'d env \<Rightarrow> 'd world \<Rightarrow> hash list \<Rightarrow> hash list option" where
  "GetAccTxPubKeys E w [] = Some []"
| "GetAccTxPubKeys E w (h # hs) = (case closedOrOpen E w h of
     Some (TAcc tx) \<Rightarrow> map_option (\<lambda>ks. at_Issuer tx # SerializeHashContent (crypto E) (fbytes (at_PubKey tx)) # ks) (GetAccTxPubKeys E w hs)
   | _ \<Rightarrow> None)"

fun GetFundsTxPubKeys :: "'d env \<Rightarrow> 'd world \<Rightarrow> hash list \<Rightarrow> hash list option" where
  "GetFundsTxPubKeys E w [] = Some []"
| "GetFundsTxPubKeys E w (h # hs) = (case closedOrOpen E w h of
     Some (TFunds tx) \<Rightarrow> map_option (\<lambda>ks. ft_From tx # ft_To tx # ks) (GetFundsTxPubKeys E w hs)
   | _ \<Rightarrow> None)"

definition GetTxPubKeys :: "'d env \<Rightarrow> 'd world \<Rightarrow> Block \<Rightarrow> hash list option" where
  "GetTxPubKeys E w b = (case GetAccTxPubKeys E w (bl_AccTxData b) of None \<Rightarrow> None | Some ks \<Rightarrow>
     map_option (\<lambda>ks'. ks @ ks') (GetFundsTxPubKeys E w (bl_FundsTxData b)))"

definition InitBloomFilter :: "gob_env \<Rightarrow> hash list \<Rightarrow> Block \<Rightarrow> Block" where
  "InitBloomFilter G txPubKeys b = b\<lparr>bl_NrElementsBF := word_of_nat (length txPubKeys), bl_BloomFilter := Some (bloomFilter G txPubKeys)\<rparr>"

definition blockHeaderRes :: "'d env \<Rightarrow> gob_env \<Rightarrow> nat \<Rightarrow> bytes \<Rightarrow> 'd net \<Rightarrow> 'd handler" where
  "blockHeaderRes E G p payload n =
     (case (if length payload = 64 then requestedBlock E (nworld n) payload else ReadLastClosedBlock E (nworld n)) of
        None \<Rightarrow> None
      | Some b \<Rightarrow> (case GetTxPubKeys E (nworld n) b of None \<Rightarrow> None | Some ks \<Rightarrow>
          sendData p (BuildPacket BlOCK_HEADER_RES (blobBytes G (Block_EncodeHeader (InitBloomFilter G ks b)))) n))"

definition accRes :: "gob_env \<Rightarrow> nat \<Rightarrow> bytes \<Rightarrow> 'd net \<Rightarrow> 'd handler" where
  "accRes G p payload n = (if length payload \<noteq> 32 then Some ([], n)
     else sendData p (BuildPacket ACC_RES (case GetAccount (nworld n) payload of None \<Rightarrow> [] | Some a \<Rightarrow> blobBytes G (Account_Encode a))) n)"

definition rootAccRes :: "gob_env \<Rightarrow> nat \<Rightarrow> bytes \<Rightarrow> 'd net \<Rightarrow> 'd handler" where
  "rootAccRes G p payload n = (if length payload \<noteq> 32 then Some ([], n)
     else sendData p (BuildPacket ROOTACC_RES
       (case GetRootAccount (nworld n) payload of Inr (Some a) \<Rightarrow> blobBytes G (Account_Encode a) | _ \<Rightarrow> [])) n)"

definition pongRes :: "nat \<Rightarrow> bytes \<Rightarrow> u8 \<Rightarrow> 'd net \<Rightarrow> 'd handler" where
  "pongRes p payload pingType n = (let port = pongPort payload in
     if port = [] then Some ([CloseConn p], n)
     else let n1 = n\<lparr>peer_at := (peer_at n)(p := (peer_at n p)\<lparr>p_listenerPort := port\<rparr>)\<rparr> in
       if peers_len n1 PEERTYPE_MINER \<ge> MAX_MINERS then Some ([], n1)
       else let (t, packet) = (if pingType = MINER_PING then (PEERTYPE_MINER, BuildPacket MINER_PONG [])
                               else if pingType = CLIENT_PING then (PEERTYPE_CLIENT, BuildPacket CLIENT_PONG [])
                               else (p_peerType (peer_at n1 p), []))
            in map_option (\<lambda>(ms, n'). (StartPeer p # ms, n'))
                 (sendData p packet (n1\<lparr>peer_at := (peer_at n1)(p := (peer_at n1 p)\<lparr>p_peerType := t\<rparr>)\<rparr>)))"

definition neighborRes :: "nat \<Rightarrow> 'd net \<Rightarrow> 'd handler" where
  "neighborRes p n = (case neighborPayload (map (getIPPort n) (getAllPeers n PEERTYPE_MINER)) of
     None \<Rightarrow> None | Some payload \<Rightarrow> sendData p (BuildPacket NEIGHBOR_RES payload) n)"

definition intermediateNodesRes :: "'d env \<Rightarrow> nat \<Rightarrow> bytes \<Rightarrow> 'd net \<Rightarrow> 'd handler" where
  "intermediateNodesRes E p payload n = (if length payload \<noteq> 64 then Some ([], n)
     else case ReadClosedBlock E (nworld n) (take 32 payload) of
       None \<Rightarrow> None
     | Some b \<Rightarrow> (case BuildMerkleTree (crypto E) b of
         Some (Some t) \<Rightarrow> (case GetIntermediate (crypto E) t (drop 32 payload) of
             None \<Rightarrow> None
           | Some None \<Rightarrow> sendData p (BuildPacket NOT_FOUND []) n
           | Some (Some hs) \<Rightarrow> sendData p (BuildPacket INTERMEDIATE_NODES_RES (slices_Encode (map node_Hash hs) 32)) n)
       | _ \<Rightarrow> None))"

subsection \<open>Messages for the miner\<close>

text \<open>The search of a stash hashes its transactions one after the other.\<close>

fun AlreadyInStash :: "('a \<Rightarrow> hash option) \<Rightarrow> 'a list \<Rightarrow> hash \<Rightarrow> bool option" where
  "AlreadyInStash hash [] h = Some False"
| "AlreadyInStash hash (t # ts) h = (case hash t of None \<Rightarrow> None | Some k \<Rightarrow> if k = h then Some True else AlreadyInStash hash ts h)"

text \<open>The stash after a transaction arrived, and whether it is new.\<close>

definition stashTx :: "('a \<Rightarrow> hash option) \<Rightarrow> 'a \<Rightarrow> 'a list \<Rightarrow> (bool \<times> 'a list) option" where
  "stashTx hash tx stash = (case hash tx of None \<Rightarrow> None | Some h \<Rightarrow>
     map_option (\<lambda>old. if old then (False, stash) else (True, if length (stash @ [tx]) > 100 then tl (stash @ [tx]) else stash @ [tx]))
       (AlreadyInStash hash stash h))"

definition forwardNew :: "Transaction \<Rightarrow> ('s \<Rightarrow> 'd net) \<Rightarrow> (bool \<times> 's) option \<Rightarrow> 'd handler" where
  "forwardNew tx upd r = map_option (\<lambda>(new, stash). (if new then [ToMiner tx] else [], upd stash)) r"

definition forwardTxReqToMiner :: "'d env \<Rightarrow> gob_env \<Rightarrow> bytes \<Rightarrow> u8 \<Rightarrow> 'd net \<Rightarrow> 'd handler" where
  "forwardTxReqToMiner E G payload txType n = (let C = crypto E; cm = ChamMap (nworld n) in
     if txType = FUNDSTX_RES then let tx = gobFunds G payload in
       forwardNew (TFunds tx) (\<lambda>s. n\<lparr>ReceivedFundsTXStash := s\<rparr>) (stashTx (FundsTx_Hash C cm) tx (ReceivedFundsTXStash n))
     else if txType = ACCTX_RES then let tx = gobAcc G payload in
       forwardNew (TAcc tx) (\<lambda>s. n\<lparr>ReceivedAccTxStash := s\<rparr>) (stashTx (AccTx_Hash C) tx (ReceivedAccTxStash n))
     else if txType = CONFIGTX_RES then (case ConfigTx_Decode payload of None \<Rightarrow> Some ([], n) | Some tx \<Rightarrow> Some ([ToMiner (TConfig tx)], n))
     else if txType = STAKETX_RES then (case StakeTx_Decode payload of None \<Rightarrow> Some ([], n) | Some tx \<Rightarrow>
       forwardNew (TStake tx) (\<lambda>s. n\<lparr>ReceivedStakeTxStash := s\<rparr>) (stashTx (\<lambda>t. Some (StakeTx_Hash C t)) tx (ReceivedStakeTxStash n)))
     else if txType = AGGTX_RES then let tx = gobAgg G payload in
       forwardNew (TAgg tx) (\<lambda>s. n\<lparr>ReceivedAggTxStash := s\<rparr>) (stashTx (\<lambda>t. Some (AggTx_Hash C t)) tx (ReceivedAggTxStash n))
     else if txType = UPDATETX_RES then let tx = gobUpdate G payload in
       forwardNew (TUpdate tx) (\<lambda>s. n\<lparr>ReceivedUpdateTxStash := s\<rparr>) (stashTx (UpdateTx_Hash C cm) tx (ReceivedUpdateTxStash n))
     else Some ([], n))"

definition forwardBlockReqToMiner :: "gob_env \<Rightarrow> bytes \<Rightarrow> 'd net \<Rightarrow> 'd handler" where
  "forwardBlockReqToMiner G payload n = (let block = gobBlock G payload in
     if BlockAlreadyInStash (ReceivedBlockStash (nworld n)) (bl_Hash block) then Some ([], n)
     else Some ([ToBlockReq payload], n\<lparr>nworld := WriteToReceivedStash block (nworld n)\<rparr>))"

subsection \<open>Dispatch\<close>

definition processIncomingMsg :: "'d env \<Rightarrow> gob_env \<Rightarrow> nat \<Rightarrow> Header \<Rightarrow> bytes \<Rightarrow> 'd net \<Rightarrow> 'd handler" where
  "processIncomingMsg E G p header payload n = (let t = hd_TypeID header in
     if t \<in> {FUNDSTX_BRDCST, ACCTX_BRDCST, UPDATETX_BRDCST, CONFIGTX_BRDCST, STAKETX_BRDCST, AGGTX_BRDCST} then processTxBrdcst E G p payload t n
     else if t = BLOCK_BRDCST then processBlockBrdcst payload n
     else if t = TIME_BRDCST then processTimeRes p payload n
     else if t \<in> {FUNDSTX_REQ, ACCTX_REQ, CONFIGTX_REQ, STAKETX_REQ, AGGTX_REQ, UPDATETX_REQ, UNKNOWNTX_REQ} then txRes E G p payload t n
     else if t = SPECIALTX_REQ then specialTxRes E G p payload n
     else if t = NOT_FOUND_TX_REQ then (if \<not> peerSelfConn n (getIPPort n p) then notFoundTxRes E G payload n else Some ([], n))
     else if t = BLOCK_REQ then blockRes E G p payload n
     else if t = BLOCK_HEADER_REQ then blockHeaderRes E G p payload n
     else if t = ACC_REQ then accRes G p payload n
     else if t = ROOTACC_REQ then rootAccRes G p payload n
     else if t \<in> {MINER_PING, CLIENT_PING} then pongRes p payload t n
     else if t = NEIGHBOR_REQ then neighborRes p n
     else if t = INTERMEDIATE_NODES_REQ then intermediateNodesRes E p payload n
     else if t = NEIGHBOR_RES then (if \<not> peerSelfConn n (getIPPort n p) then processNeighborRes payload n else Some ([], n))
     else if t = BLOCK_RES then forwardBlockReqToMiner G payload n
     else if t \<in> {FUNDSTX_RES, ACCTX_RES, CONFIGTX_RES, STAKETX_RES, AGGTX_RES, UPDATETX_RES} then forwardTxReqToMiner E G payload t n
     else Some ([], n))"

text \<open>A connection that delivers one message.\<close>

definition handleMessage :: "'d env \<Rightarrow> gob_env \<Rightarrow> nat \<Rightarrow> bytes list \<Rightarrow> 'd net \<Rightarrow> (bytes list \<times> message list \<times> 'd net) option" where
  "handleMessage E G p conn n = (case RcvData conn of
     Inl _ \<Rightarrow> Some ([], [CloseConn p], n)
   | Inr (header, payload, conn') \<Rightarrow> map_option (\<lambda>(ms, n'). (conn', ms, n')) (processIncomingMsg E G p header payload n))"

end
