(* ===== verification/Services.thy ===== *)
theory Services
  imports Network
begin

text \<open>
  The services of the package \<^verbatim>\<open>src/p2p\<close> that run beside the message handlers: requests to other miners (\<^verbatim>\<open>request.go\<close>,
  \<^verbatim>\<open>miner_request.go\<close>), broadcasts with the queue of messages for peers that are away (\<^verbatim>\<open>services.go\<close>), and the set-up,
  start and end of connections (\<^verbatim>\<open>server.go\<close>). A goroutine is a function that one event of its channel runs. Dialling a
  connection, the clock and the fill of a channel are arguments.
\<close>

text \<open>Operations in turn, with what they send.\<close>

fun in_turn :: "('a \<Rightarrow> 'd net \<Rightarrow> ('m list \<times> 'd net) option) \<Rightarrow> 'a list \<Rightarrow> 'd net \<Rightarrow> ('m list \<times> 'd net) option" where
  "in_turn f [] n = Some ([], n)"
| "in_turn f (x # xs) n = (case f x n of None \<Rightarrow> None | Some (ms, n') \<Rightarrow> map_option (\<lambda>(ms', n''). (ms @ ms', n'')) (in_turn f xs n'))"

subsection \<open>Requests\<close>

definition sendMiners :: "bytes \<Rightarrow> 'd net \<Rightarrow> 'd handler" where
  "sendMiners packet n = in_turn (\<lambda>p. sendData p packet) (getAllPeers n PEERTYPE_MINER) n"

definition NeighborReq :: "'d net \<Rightarrow> 'd handler" where
  "NeighborReq n = sendMiners (BuildPacket NEIGHBOR_REQ []) n"

definition neighborBrdcst :: "'d net \<Rightarrow> 'd handler" where
  "neighborBrdcst n = (case neighborPayload (map (getIPPort n) (getAllPeers n PEERTYPE_MINER)) of
     None \<Rightarrow> None | Some payload \<Rightarrow> sendMiners (BuildPacket NEIGHBOR_RES payload) n)"

text \<open>
  A block request waits for a miner: \<open>polls\<close> are the states seen at the start and then every two seconds, and
  \<open>None\<close> is a wait that goes on.
\<close>

definition BlockReq :: "hash \<Rightarrow> hash \<Rightarrow> 'd net list \<Rightarrow> 'd handler option" where
  "BlockReq hash hashWithoutTx polls =
     map_option (sendMiners (BuildPacket BLOCK_REQ (hash @ hashWithoutTx))) (find (\<lambda>n. peers_len n PEERTYPE_MINER > 0) polls)"

definition getRandomPeer :: "u32 \<Rightarrow> 'd net \<Rightarrow> nat \<Rightarrow> nat option" where
  "getRandomPeer rand n peerType = (let peerList = getAllPeers n peerType in
     if length peerList = 0 then None else Some (peerList ! (unat rand mod length peerList)))"

text \<open>The inner \<open>None\<close> is the error that there is no connection.\<close>

definition LastBlockReq :: "u32 \<Rightarrow> 'd net \<Rightarrow> 'd handler option" where
  "LastBlockReq rand n = map_option (\<lambda>p. sendData p (BuildPacket BLOCK_REQ []) n) (getRandomPeer rand n PEERTYPE_MINER)"

definition TxReq :: "hash \<Rightarrow> u8 \<Rightarrow> 'd net \<Rightarrow> 'd handler" where
  "TxReq hash reqType n = sendMiners (BuildPacket reqType hash) n"

definition TxWithTxCntReq :: "bytes \<Rightarrow> u8 \<Rightarrow> 'd net \<Rightarrow> 'd handler" where
  "TxWithTxCntReq payload reqType n = sendMiners (BuildPacket reqType payload) n"

subsection \<open>Broadcasts\<close>

definition forwardBlockBrdcstToMiner :: "bytes \<Rightarrow> bytes" where
  "forwardBlockBrdcstToMiner block = BuildPacket BLOCK_BRDCST block"

definition forwardBlockHeaderBrdcstToMiner :: "bytes \<Rightarrow> bytes" where
  "forwardBlockHeaderBrdcstToMiner blockHeader = BuildPacket BLOCK_HEADER_BRDCST blockHeader"

definition forwardVerifiedTxsToMiner :: "bytes \<Rightarrow> bytes" where
  "forwardVerifiedTxsToMiner verifiedTxs = BuildPacket VERIFIEDTX_BRDCST verifiedTxs"

definition timeBrdcst :: "int \<Rightarrow> bytes" where
  "timeBrdcst now = BuildPacket TIME_BRDCST (be64 (word_of_int now))"

text \<open>What goes into the channels of the clients.\<close>

definition clientBroadcast :: "bytes \<Rightarrow> 'd net \<Rightarrow> (nat \<times> bytes) list" where
  "clientBroadcast msg n = map (\<lambda>p. (p, msg)) (filter (\<lambda>p. contains n (getIPPort n p) PEERTYPE_CLIENT) (clientConns n))"

text \<open>The reader of the channel of a peer.\<close>

definition peerBroadcast :: "nat \<Rightarrow> bytes list \<Rightarrow> 'd net \<Rightarrow> 'd handler" where
  "peerBroadcast p msgs n = in_turn (sendData p) msgs n"

text \<open>
  The queue of a peer that is back. The loop ranges over the queue as it was, skips a message when the channel is full at that
  moment (\<open>full j\<close>, for the \<open>j\<close>-th check), and for each message sent removes the first of the queue.
\<close>

fun drain :: "(nat \<Rightarrow> bool) \<Rightarrow> nat \<Rightarrow> bytes list \<Rightarrow> bytes list \<Rightarrow> bytes list \<times> bytes list" where
  "drain full j [] queue = ([], queue)"
| "drain full j (m # ms) queue = (if full j then drain full (Suc j) ms queue
     else case drain full (Suc j) ms (tl queue) of (sent, queue') \<Rightarrow> (m # sent, queue'))"

definition store :: "bytes \<Rightarrow> bytes list \<Rightarrow> bytes list" where
  "store msg messages = (if length messages > 40 then tl messages else messages) @ [msg]"

text \<open>
  One entry of \<^verbatim>\<open>sendingMap\<close>. If \<^verbatim>\<open>isConnectionAlreadyInSendingMap\<close> replaces the entry itself, the change of the old one is lost.
\<close>

definition sendEntry :: "(nat \<Rightarrow> bool) \<Rightarrow> bytes \<Rightarrow> bytes \<Rightarrow> 'd net \<Rightarrow> ((nat \<times> bytes) list \<times> 'd net) option" where
  "sendEntry full msg key n = (case map_of (sendingMap n) key of
     None \<Rightarrow> Some ([], n)
   | Some (q, messages) \<Rightarrow>
       let ip = getIPPort n q in
       if contains n ip PEERTYPE_MINER then
         (case isConnectionAlreadyInSendingMap n q of (_, replaced, n') \<Rightarrow>
            (case map_of (sendingMap n') ip of
               None \<Rightarrow> None
             | Some (receiver, _) \<Rightarrow> (case drain full 0 messages messages of (sent, queue) \<Rightarrow>
                 Some (map (Pair receiver) (msg # sent),
                   if replaced \<and> ip = key then n' else n'\<lparr>sendingMap := AList.update key (q, queue) (sendingMap n')\<rparr>))))
       else Some ([], n\<lparr>sendingMap := AList.update key (q, store msg messages) (sendingMap n)\<rparr>))"

definition sendAndSearchMessages :: "(bytes \<Rightarrow> nat \<Rightarrow> bool) \<Rightarrow> bytes \<Rightarrow> 'd net \<Rightarrow> ((nat \<times> bytes) list \<times> 'd net) option" where
  "sendAndSearchMessages full msg n = in_turn (\<lambda>key. sendEntry (full key) msg key) (map fst (sendingMap n)) n"

text \<open>The events of the two services that keep the connections and the queues.\<close>

datatype service_event = Register nat | Disconnect nat | Broadcast "bytes \<Rightarrow> nat \<Rightarrow> bool" bytes

fun serve :: "service_event \<Rightarrow> 'd net \<Rightarrow> ((nat \<times> bytes) list \<times> 'd net) option" where
  "serve (Register p) n = Some ([], addPeer p n)"
| "serve (Disconnect p) n = Some ([], deletePeer p n)"
| "serve (Broadcast full msg) n = sendAndSearchMessages full msg n"

subsection \<open>Connections\<close>

text \<open>The outcome of a dial: the new peer, its remote address, and what it sends.\<close>

datatype dialled = NoConn | Conn nat bytes "bytes list"

datatype connect_error = AlreadyEstablished | SelfConnect | DialFailed | PortInvalid | HandshakeFailed

definition peerExists :: "'d net \<Rightarrow> bytes \<Rightarrow> bool" where
  "peerExists n newIpport = list_ex (\<lambda>p. getIPPort n p = newIpport) (getAllPeers n PEERTYPE_MINER)"

definition newPeer :: "bytes \<Rightarrow> bytes \<Rightarrow> nat \<Rightarrow> peer" where
  "newPeer remoteAddr listenerPort peerType = \<lparr>p_remoteAddr = remoteAddr, p_listenerPort = listenerPort, p_time = 0, p_peerType = peerType\<rparr>"

text \<open>The port of an address; an address without one panics.\<close>

definition portOf :: "bytes \<Rightarrow> bytes option" where
  "portOf ipport = (case split_on 58 ipport of _ # port # _ \<Rightarrow> Some port | _ \<Rightarrow> None)"

definition IsBootstrap :: "bytes \<Rightarrow> 'd net \<Rightarrow> bool option" where
  "IsBootstrap bootstrapServer n = (case (portOf bootstrapServer, portOf (Ipport n)) of
     (Some bootstrapPort, Some thisPort) \<Rightarrow> Some (thisPort = bootstrapPort) | _ \<Rightarrow> None)"

definition initiateNewMinerConnection :: "dialled \<Rightarrow> bytes \<Rightarrow> 'd net \<Rightarrow> ((connect_error + nat \<times> bytes list) \<times> message list \<times> 'd net) option" where
  "initiateNewMinerConnection answer dial n =
     (if peerExists n dial then Some (Inl AlreadyEstablished, [], n)
      else if peerSelfConn n dial then Some (Inl SelfConnect, [], n)
      else case portOf dial of None \<Rightarrow> None | Some port \<Rightarrow>
       (case answer of
          NoConn \<Rightarrow> Some (Inl DialFailed, [], n)
        | Conn p remoteAddr conn \<Rightarrow>
            let n' = n\<lparr>peer_at := (peer_at n)(p := newPeer remoteAddr port PEERTYPE_MINER)\<rparr> in
            (case portOf (Ipport n) of None \<Rightarrow> None | Some localPort \<Rightarrow>
             (case Atoi localPort of
                None \<Rightarrow> Some (Inl PortInvalid, [CloseConn p], n')
              | Some localPort \<Rightarrow>
                  let ping = Send p (PrepareHandshake MINER_PING localPort) in
                  (case RcvData conn of
                     Inr (header, payload, conn') \<Rightarrow>
                       if hd_TypeID header \<noteq> MINER_PONG then Some (Inl HandshakeFailed, [ping, CloseConn p], n')
                       else Some (Inr (p, conn'), [ping], n')
                   | Inl _ \<Rightarrow> Some (Inl HandshakeFailed, [ping, CloseConn p], n'))))))"

text \<open>A failed connection to the bootstrap server starts \<^verbatim>\<open>peerConn\<close> with a nil peer, which panics.\<close>

definition bootstrap_node :: "bytes \<Rightarrow> dialled \<Rightarrow> 'd net \<Rightarrow> 'd handler" where
  "bootstrap_node bootstrapServer answer n = (case initiateNewMinerConnection answer bootstrapServer n of
     Some (Inr (p, conn), ms, n') \<Rightarrow> Some (ms @ [StartPeer p], n') | _ \<Rightarrow> None)"

definition p2p_Init :: "bytes \<Rightarrow> bytes \<Rightarrow> dialled \<Rightarrow> 'd net \<Rightarrow> 'd handler" where
  "p2p_Init bootstrapServer ipport answer n =
     (let n' = n\<lparr>Ipport := ipport, minerConns := [], clientConns := [], sendingMap := []\<rparr> in
      case IsBootstrap bootstrapServer n' of
        None \<Rightarrow> None
      | Some True \<Rightarrow> Some ([], n')
      | Some False \<Rightarrow> bootstrap_node bootstrapServer answer n')"

text \<open>
  The start of \<^verbatim>\<open>peerConn\<close>, and its end after an error of the connection: a lost miner is tried again unless it was the
  last one tried.
\<close>

definition startPeer :: "nat \<Rightarrow> 'd net \<Rightarrow> 'd handler" where
  "startPeer p n = map_option (\<lambda>(ms, n'). (ms, addPeer p n'))
     (if p_peerType (peer_at n p) = PEERTYPE_MINER then neighborBrdcst n else Some ([], n))"

definition lostPeer :: "nat \<Rightarrow> bytes \<times> 'd net \<Rightarrow> bytes \<times> 'd net" where
  "lostPeer p = (\<lambda>(lastTriedPeer, n).
     if p_peerType (peer_at n p) = PEERTYPE_MINER then
       let n' = deletePeer p n; ip = getIPPort n' p in
       if lastTriedPeer \<noteq> ip then (ip, n'\<lparr>iplistChan := iplistChan n' @ [ip]\<rparr>) else (lastTriedPeer, n')
     else if p_peerType (peer_at n p) = PEERTYPE_CLIENT then (lastTriedPeer, deletePeer p n)
     else (lastTriedPeer, n))"

subsection \<open>The health check\<close>

text \<open>The seconds between two rounds.\<close>

definition healthInterval :: "'d net \<Rightarrow> nat" where
  "healthInterval n = (let k = length (getAllPeers n PEERTYPE_MINER); nrOfMiners = (if k > 1 then k else 1) in
     (if k > 6 then 6 else nrOfMiners) * 5)"

definition tryConnect :: "(nat \<Rightarrow> dialled) \<Rightarrow> nat \<Rightarrow> bytes \<Rightarrow> 'd net \<Rightarrow> (message list \<times> 'd net) option" where
  "tryConnect dials k ip n = (case initiateNewMinerConnection (dials k) ip n of
     None \<Rightarrow> None
   | Some (Inl _, ms, n') \<Rightarrow> Some (ms, n')
   | Some (Inr (p, _), ms, n') \<Rightarrow> Some (ms @ [StartPeer p], n'))"

text \<open>The addresses in the channel, until it is empty; \<open>k\<close> counts the dials.\<close>

fun connectAll :: "(nat \<Rightarrow> dialled) \<Rightarrow> nat \<Rightarrow> bytes list \<Rightarrow> 'd net \<Rightarrow> (message list \<times> 'd net) option" where
  "connectAll dials k [] n = Some ([], n\<lparr>iplistChan := []\<rparr>)"
| "connectAll dials k (ip # ips) n =
     (let n1 = n\<lparr>iplistChan := ips\<rparr> in
      if \<not> peerExists n1 ip \<and> \<not> peerSelfConn n1 ip
      then (case tryConnect dials k ip n1 of None \<Rightarrow> None | Some (ms, n2) \<Rightarrow>
             map_option (\<lambda>(ms', n3). (ms @ ms', n3)) (connectAll dials (Suc k) ips n2))
      else connectAll dials k ips n1)"

definition healthRound :: "bytes \<Rightarrow> (nat \<Rightarrow> dialled) \<Rightarrow> 'd net \<Rightarrow> 'd handler" where
  "healthRound bootstrapServer dials n =
     (case (if Ipport n \<noteq> bootstrapServer \<and> \<not> contains n bootstrapServer PEERTYPE_MINER then tryConnect dials 0 bootstrapServer n else Some ([], n)) of
        None \<Rightarrow> None
      | Some (ms1, n1) \<Rightarrow> (case connectAll dials 1 (iplistChan n1) n1 of
          None \<Rightarrow> None
        | Some (ms2, n2) \<Rightarrow> map_option (\<lambda>(ms3, n3). (ms1 @ ms2 @ ms3, n3)) (NeighborReq n2)))"

end
