(* ===== verification/Consensus.thy ===== *)
theory Consensus
  imports Validation
begin

text \<open>
  Consensus: the proof of stake (\<^verbatim>\<open>src/miner/proofofstake.go\<close>), the choice between competing chains
  (\<^verbatim>\<open>src/miner/longestchain.go\<close>), slashing proofs (\<^verbatim>\<open>src/miner/slashing.go\<close>) and \<^verbatim>\<open>preValidate\<close> and
  \<^verbatim>\<open>slashingCheck\<close> of \<^verbatim>\<open>src/miner/block_validation.go\<close>.

  The network is an argument: \<open>net k\<close> is the outcome of the \<open>k\<close>-th block request, either the block that
  arrived or a timeout together with the blocks that other goroutines stashed during the wait. Loops
  whose end depends on the stored chain carry fuel.
\<close>

datatype reply = Reply Block | Timeout "Block list"

datatype 'a run = Running | Crash | Done 'a

definition bind_run :: "'a run \<Rightarrow> ('a \<Rightarrow> 'b run) \<Rightarrow> 'b run" where
  "bind_run r f = (case r of Running \<Rightarrow> Running | Crash \<Rightarrow> Crash | Done a \<Rightarrow> f a)"

subsection \<open>Proof of stake\<close>

definition posHash :: "crypto_env \<Rightarrow> bytes list \<Rightarrow> u32 \<Rightarrow> bytes \<Rightarrow> int \<Rightarrow> hash" where
  "posHash C prevProofs height commitmentProof timestamp =
     sha3 C (concat prevProofs @ commitmentProof @ be_fixed 4 (unat height) @ be64 (word_of_int timestamp))"

text \<open>The first eight bytes of the hash are divided by the balance.\<close>

definition posScaled :: "hash \<Rightarrow> u64 \<Rightarrow> bytes" where
  "posScaled pos balance = be64 (get_be64 (take 8 pos) div balance) @ drop 8 pos"

fun bytesZero :: "bytes \<Rightarrow> nat \<Rightarrow> nat \<Rightarrow> bool" where
  "bytesZero pos byteNr 0 = True"
| "bytesZero pos byteNr (Suc n) = (if pos ! byteNr \<noteq> 0 then False else bytesZero pos (Suc byteNr) n)"

definition leadingZeros :: "u8 \<Rightarrow> bytes \<Rightarrow> bool" where
  "leadingZeros diff pos =
     (if \<not> bytesZero pos 0 (unat diff div 8) then False
      else \<not> (unat diff mod 8 \<noteq> 0 \<and> unat (pos ! (unat diff div 8)) \<ge> 2 ^ (8 - unat diff mod 8)))"

text \<open>A balance of 0 makes the division panic: \<open>None\<close>.\<close>

definition validateProofOfStake :: "crypto_env \<Rightarrow> u8 \<Rightarrow> bytes list \<Rightarrow> u32 \<Rightarrow> u64 \<Rightarrow> bytes \<Rightarrow> int \<Rightarrow> bool option" where
  "validateProofOfStake C diff prevProofs height balance commitmentProof timestamp =
     (if balance = 0 then None
      else Some (leadingZeros diff (posScaled (posHash C prevProofs height commitmentProof timestamp) balance)))"

datatype mining_error = MinedTooLong | NoLastBlock | OtherBlockValidated | ZeroBalance

text \<open>
  The mining loop. A tick of the clock carries the world and the time seen at that moment; the list of ticks ends when
  the run is observed no further.
\<close>

fun posLoop :: "'d env \<Rightarrow> u8 \<Rightarrow> hash \<Rightarrow> bytes list \<Rightarrow> u32 \<Rightarrow> u64 \<Rightarrow> bytes \<Rightarrow> nat \<Rightarrow> ('d world \<times> int) list \<Rightarrow> (mining_error + int) option" where
  "posLoop E diff prevHash prevProofs height balance commitmentProof cnt [] = None"
| "posLoop E diff prevHash prevProofs height balance commitmentProof cnt ((w, now) # ticks) =
     (let cnt' = cnt + 1 in
      if cnt' \<ge> 30 * 15 then Some (Inl MinedTooLong)
      else case (case lastBlock w of None \<Rightarrow> ReadLastClosedBlock E w | Some b \<Rightarrow> Some b) of
        None \<Rightarrow> Some (Inl NoLastBlock)
      | Some l \<Rightarrow>
          if prevHash \<noteq> bl_Hash l then Some (Inl OtherBlockValidated)
          else if balance = 0 then Some (Inl ZeroBalance)
          else if leadingZeros diff (posScaled (posHash (crypto E) prevProofs height commitmentProof now) balance) then Some (Inr now)
          else posLoop E diff prevHash prevProofs height balance commitmentProof cnt' ticks)"

definition proofOfStake :: "'d env \<Rightarrow> u8 \<Rightarrow> hash \<Rightarrow> bytes list \<Rightarrow> u32 \<Rightarrow> u64 \<Rightarrow> bytes \<Rightarrow> ('d world \<times> int) list \<Rightarrow> (mining_error + int) option" where
  "proofOfStake E diff prevHash prevProofs height balance commitmentProof ticks =
     posLoop E diff prevHash prevProofs height balance commitmentProof 0 ticks"

text \<open>The predecessor of a block, in one of the two buckets of closed blocks.\<close>

definition closedPrev :: "'d env \<Rightarrow> 'd world \<Rightarrow> Block \<Rightarrow> Block option" where
  "closedPrev E w b = (case ReadClosedBlock E w (bl_PrevHash b) of
     Some p \<Rightarrow> Some p | None \<Rightarrow> ReadClosedBlockWithoutTx E w (bl_PrevHashWithoutTx b))"

fun GetLatestProofs :: "'d env \<Rightarrow> 'd world \<Rightarrow> nat \<Rightarrow> Block \<Rightarrow> bytes list" where
  "GetLatestProofs E w 0 b = []"
| "GetLatestProofs E w (Suc n) b =
     (if bl_Height b > 0 then
        (case closedPrev E w b of None \<Rightarrow> [] | Some c \<Rightarrow> bl_CommitmentProof c # GetLatestProofs E w n c)
      else [])"

subsection \<open>The longest chain\<close>

text \<open>\<^verbatim>\<open>InvertBlockArray\<close> swaps in place.\<close>

function invertLoop :: "'a list \<Rightarrow> int \<Rightarrow> int \<Rightarrow> 'a list" where
  "invertLoop xs i j = (if i < j then invertLoop (xs[nat i := xs ! nat j, nat j := xs ! nat i]) (i + 1) (j - 1) else xs)"
  by pat_completeness auto
termination by (relation "measure (\<lambda>(xs, i, j). nat (j - i))") auto

declare invertLoop.simps [simp del]

definition InvertBlockArray :: "Block list \<Rightarrow> Block list" where
  "InvertBlockArray array = invertLoop array 0 (int (length array) - 1)"

text \<open>The search of a stash for a hash.\<close>

definition findInStash :: "hash \<Rightarrow> Block list \<Rightarrow> Block option" where
  "findInStash h stash = find (\<lambda>b. bl_Hash b = h) stash"

text \<open>When the predecessor is an open block, the loop starts over with the same block.\<close>

fun getNewChain :: "'d env \<Rightarrow> (nat \<Rightarrow> reply) \<Rightarrow> nat \<Rightarrow> nat \<Rightarrow> Block \<Rightarrow> Block list \<Rightarrow> 'd world \<Rightarrow> ((Block \<times> Block list) option \<times> nat \<times> 'd world) run" where
  "getNewChain E net 0 k newBlock newChain w = Running"
| "getNewChain E net (Suc fuel) k newBlock newChain w =
     (let chain = newChain @ [newBlock] in
      case closedPrev E w newBlock of
        Some a \<Rightarrow> Done (Some (a, InvertBlockArray chain), k, w)
      | None \<Rightarrow>
          if ReadOpenBlock E w (bl_PrevHash newBlock) \<noteq> None then getNewChain E net fuel k newBlock chain w
          else (case findInStash (bl_PrevHash newBlock) (ReceivedBlockStash w) of
             Some b \<Rightarrow> getNewChain E net fuel k b chain w
           | None \<Rightarrow> (case net k of
               Reply b \<Rightarrow> getNewChain E net fuel (Suc k) b chain (WriteToReceivedStash b w)
             | Timeout bs \<Rightarrow> let w' = fold WriteToReceivedStash bs w in
                 (case findInStash (bl_PrevHash newBlock) (ReceivedBlockStash w') of
                    Some b \<Rightarrow> getNewChain E net fuel (Suc k) b chain w'
                  | None \<Rightarrow> Done (None, Suc k, w')))))"

datatype chain_error = NoAncestor | LastBlockNotFound | BlockNotFound | ShorterChain

fun rollbackPath :: "'d env \<Rightarrow> 'd world \<Rightarrow> nat \<Rightarrow> Block \<Rightarrow> Block \<Rightarrow> Block list \<Rightarrow> Block list option run" where
  "rollbackPath E w 0 ancestor tmp acc = Running"
| "rollbackPath E w (Suc fuel) ancestor tmp acc =
     (if bl_Hash tmp = bl_Hash ancestor \<or> bl_HashWithoutTx tmp = bl_HashWithoutTx ancestor then Done (Some acc)
      else case closedPrev E w tmp of
        None \<Rightarrow> Done None
      | Some p \<Rightarrow> rollbackPath E w fuel ancestor p (acc @ [tmp]))"

definition getBlockSequences :: "'d env \<Rightarrow> (nat \<Rightarrow> reply) \<Rightarrow> nat \<Rightarrow> nat \<Rightarrow> Block \<Rightarrow> 'd world \<Rightarrow> ((chain_error + Block list \<times> Block list) \<times> nat \<times> 'd world) run" where
  "getBlockSequences E net fuel k newBlock w =
     bind_run (getNewChain E net fuel k newBlock [] w) (\<lambda>(r, k', w').
       case r of None \<Rightarrow> Done (Inl NoAncestor, k', w')
       | Some (ancestor, newChain) \<Rightarrow>
         (case (case lastBlock w' of None \<Rightarrow> ReadLastClosedBlock E w' | Some b \<Rightarrow> Some b) of
            None \<Rightarrow> Done (Inl LastBlockNotFound, k', w')
          | Some tmp \<Rightarrow> bind_run (rollbackPath E w' fuel ancestor tmp []) (\<lambda>p.
              case p of None \<Rightarrow> Done (Inl BlockNotFound, k', w')
              | Some blocksToRollback \<Rightarrow>
                  if length blocksToRollback \<ge> length newChain then Done (Inl ShorterChain, k', w')
                  else Done (Inr (blocksToRollback, newChain), k', w'))))"

subsection \<open>Slashing\<close>

text \<open>After a timeout without a stashed block the nil block is dereferenced.\<close>

fun sameChainLoop :: "'d env \<Rightarrow> (nat \<Rightarrow> reply) \<Rightarrow> nat \<Rightarrow> nat \<Rightarrow> Block \<Rightarrow> Block \<Rightarrow> 'd world \<Rightarrow> (bool \<times> nat \<times> 'd world) run" where
  "sameChainLoop E net 0 k higher lower w = Running"
| "sameChainLoop E net (Suc fuel) k higher lower w =
     (if bl_Height higher = 0 then Done (False, k, w)
      else
        let (next, k', w') = (case closedPrev E w higher of
            Some b \<Rightarrow> (Some b, k, w)
          | None \<Rightarrow> (case net k of
              Reply b \<Rightarrow> (Some b, Suc k, WriteToReceivedStash b w)
            | Timeout bs \<Rightarrow> let w1 = fold WriteToReceivedStash bs w in
                (findInStash (bl_PrevHash higher) (ReceivedBlockStash w1), Suc k, w1)))
        in case next of
             None \<Rightarrow> Crash
           | Some b \<Rightarrow> if bl_Hash b = bl_Hash lower then Done (True, k', w') else sameChainLoop E net fuel k' b lower w')"

definition IsInSameChain :: "'d env \<Rightarrow> (nat \<Rightarrow> reply) \<Rightarrow> nat \<Rightarrow> nat \<Rightarrow> Block \<Rightarrow> Block \<Rightarrow> 'd world \<Rightarrow> (bool \<times> nat \<times> 'd world) run" where
  "IsInSameChain E net fuel k b1 b2 w =
     (if bl_Height b1 = bl_Height b2 then Done (False, k, w)
      else if bl_Height b1 > bl_Height b2 then sameChainLoop E net fuel k b1 b2 w
      else sameChainLoop E net fuel k b2 b1 w)"

text \<open>The stored proof names the predecessor of the block where it means the earlier block without transactions.\<close>

definition recordProof :: "Block \<Rightarrow> Block \<Rightarrow> 'd world \<Rightarrow> 'd world" where
  "recordProof block prevBlock w = w\<lparr>slashingDict := AList.update (bl_Beneficiary block)
     \<lparr>sp_ConflictingBlockHash1 = bl_Hash block, sp_ConflictingBlockHash2 = bl_Hash prevBlock,
      sp_ConflictingBlockHashWithoutTx1 = bl_HashWithoutTx block, sp_ConflictingBlockHashWithoutTx2 = bl_PrevHashWithoutTx block\<rparr> (slashingDict w)\<rparr>"

definition inWindow :: "Parameters \<Rightarrow> Block \<Rightarrow> Block \<Rightarrow> bool" where
  "inWindow p prevBlock block \<longleftrightarrow>
     ucast (bl_Height prevBlock) < ucast (bl_Height block) + SlashingWindowSize p \<or>
     ucast (bl_Height block) < ucast (bl_Height prevBlock) + SlashingWindowSize p"

fun seekLoop :: "'d env \<Rightarrow> (nat \<Rightarrow> reply) \<Rightarrow> nat \<Rightarrow> nat \<Rightarrow> Block \<Rightarrow> Block list \<Rightarrow> 'd world \<Rightarrow> (nat \<times> 'd world) run" where
  "seekLoop E net fuel k block [] w = Done (k, w)"
| "seekLoop E net fuel k block (p # ps) w =
     bind_run (IsInSameChain E net fuel k p block w) (\<lambda>(same, k', w').
       if same then Done (k', w')
       else seekLoop E net fuel k' block ps
         (if bl_Beneficiary p = bl_Beneficiary block \<and> inWindow (activeParameters w') p block then recordProof block p w' else w'))"

text \<open>The error of a missing last block is dropped by the caller.\<close>

definition seekSlashingProof :: "'d env \<Rightarrow> (nat \<Rightarrow> reply) \<Rightarrow> nat \<Rightarrow> nat \<Rightarrow> Block \<Rightarrow> 'd world \<Rightarrow> (nat \<times> 'd world) run" where
  "seekSlashingProof E net fuel k block w = (case ReadLastClosedBlock E w of
     None \<Rightarrow> Done (k, w)
   | Some l \<Rightarrow> if bl_Hash l = bl_Hash block \<or> bl_Hash l = bl_PrevHash block then Done (k, w)
              else seekLoop E net fuel k block (ReadAllClosedBlocks E w) w)"

datatype slash_error = InvalidHashes | SameHashes | OnSameChain | OutsideWindow

definition closedEither :: "'d env \<Rightarrow> 'd world \<Rightarrow> hash \<Rightarrow> hash \<Rightarrow> Block option" where
  "closedEither E w h hWithoutTx = (case ReadClosedBlock E w h of Some b \<Rightarrow> Some b | None \<Rightarrow> ReadClosedBlockWithoutTx E w hWithoutTx)"

text \<open>
  A conflicting block that is not closed is still nil when \<^verbatim>\<open>IsInSameChain\<close> dereferences it: the process panics,
  and the code that would request the block is never reached.
\<close>

definition slashingCheck :: "'d env \<Rightarrow> (nat \<Rightarrow> reply) \<Rightarrow> nat \<Rightarrow> nat \<Rightarrow> hash \<Rightarrow> hash \<Rightarrow> hash \<Rightarrow> hash \<Rightarrow> hash \<Rightarrow> 'd world \<Rightarrow>
    (slash_error option \<times> nat \<times> 'd world) run" where
  "slashingCheck E net fuel k slashedAddress h1 h2 hw1 hw2 w =
     (if h1 = zero_hash \<or> h2 = zero_hash then Done (Some InvalidHashes, k, w)
      else if h1 = h2 then Done (Some SameHashes, k, w)
      else case (closedEither E w h1 hw1, closedEither E w h2 hw2) of
        (Some b1, Some b2) \<Rightarrow> bind_run (IsInSameChain E net fuel k b1 b2 w) (\<lambda>(same, k', w').
           if same then Done (Some OnSameChain, k', w')
           else if \<not> bl_Height b1 < ucast (SlashingWindowSize (activeParameters w')) + bl_Height b2 then Done (Some OutsideWindow, k', w')
           else Done (None, k', w'\<lparr>slashingDict := AList.delete slashedAddress (slashingDict w')\<rparr>))
      | _ \<Rightarrow> Crash)"

subsection \<open>preValidate\<close>

text \<open>
  The RSA signature check of the standard library is the argument \<open>rsa\<close> (modulus, exponent, digest and signature);
  \<open>clock\<close> gives the system time kept by the package \<^verbatim>\<open>p2p\<close>, the time of the machine, and the flag \<^verbatim>\<open>uptodate\<close>.
\<close>

type_synonym rsa_check = "nat \<Rightarrow> nat \<Rightarrow> bytes \<Rightarrow> bytes \<Rightarrow> bool"

definition COMM_PUBLIC_EXPONENT :: nat where "COMM_PUBLIC_EXPONENT = 65537"

definition CreateRSAPubKeyFromBytes :: "bytes \<Rightarrow> nat \<times> nat" where
  "CreateRSAPubKeyFromBytes bytModulus = (be_nat bytModulus, COMM_PUBLIC_EXPONENT)"

definition VerifyMessageWithRSAKey :: "rsa_check \<Rightarrow> crypto_env \<Rightarrow> nat \<times> nat \<Rightarrow> bytes \<Rightarrow> bytes \<Rightarrow> bool" where
  "VerifyMessageWithRSAKey rsa C pubKey msg fixedSig = rsa (fst pubKey) (snd pubKey) (sha256 C msg) fixedSig"

record clock =
  systemTime :: int
  unixNow :: int
  uptodate :: bool

datatype block_error =
    NoBeneficiary | NotValidator | BadTimestamp timestamp_error | TooLarge | Duplicate duplicate_error | BadCommitment | BadNonce
  | TooFarAhead | WaitingTime | BadSlashing slash_error | BadMerkleRoot

definition add64 :: "int \<Rightarrow> int \<Rightarrow> int" where
  "add64 a b = sint (word_of_int (a + b) :: u64)"

text \<open>Reading the Merkle root; the construction that does not return ends the process.\<close>

definition merkleCheck :: "crypto_env \<Rightarrow> Block \<Rightarrow> bool run" where
  "merkleCheck C block = (if bl_Aggregated block then Done True
     else case BuildMerkleTree C block of None \<Rightarrow> Running | Some t \<Rightarrow> Done (MerkleRoot t = bl_MerkleRoot block))"

definition preValidate :: "'d env \<Rightarrow> rsa_check \<Rightarrow> clock \<Rightarrow> (nat \<Rightarrow> reply) \<Rightarrow> nat \<Rightarrow> nat \<Rightarrow> Block \<Rightarrow> bool \<Rightarrow> 'd world \<Rightarrow>
    (block_error option \<times> nat \<times> 'd world) run" where
  "preValidate E rsa clk net fuel k block initialSetup w =
     (case GetAccount w (bl_Beneficiary block) of
        None \<Rightarrow> Done (Some NoBeneficiary, k, w)
      | Some acc \<Rightarrow>
        if \<not> acc_IsStaking acc then Done (Some NotValidator, k, w)
        else case (if \<not> initialSetup \<and> uptodate clk then timestampCheck (systemTime clk) (bl_Timestamp block) else None) of
          Some e \<Rightarrow> Done (Some (BadTimestamp e), k, w)
        | None \<Rightarrow>
        if GetSize block > BlockSize (activeParameters w) then Done (Some TooLarge, k, w)
        else case validateNoDuplicateTx block of
          Some e \<Rightarrow> Done (Some (Duplicate e), k, w)
        | None \<Rightarrow>
        if \<not> VerifyMessageWithRSAKey rsa (crypto E) (CreateRSAPubKeyFromBytes (acc_CommitmentKey acc)) (digits (unat (bl_Height block)))
              (bl_CommitmentProof block)
        then Done (Some BadCommitment, k, w)
        else case (if initialSetup then Some True
                   else validateProofOfStake (crypto E) (getDifficulty w)
                     (GetLatestProofs E w (nat (numIncludedPrevProofs (activeParameters w))) block)
                     (bl_Height block) (acc_Balance acc) (bl_CommitmentProof block) (bl_Timestamp block)) of
          None \<Rightarrow> Crash
        | Some False \<Rightarrow> Done (Some BadNonce, k, w)
        | Some True \<Rightarrow>
        if bl_Timestamp block > add64 (unixNow clk) (sint (AcceptedTimeDiff (activeParameters w))) then Done (Some TooFarAhead, k, w)
        else if bl_Height block - acc_StakingBlockHeight acc < ucast (WaitingMinimum (activeParameters w)) then Done (Some WaitingTime, k, w)
        else bind_run
          (if bl_SlashedAddress block = zero_hash then Done (None, k, w)
           else slashingCheck E net fuel k (bl_SlashedAddress block) (bl_ConflictingBlockHash1 block) (bl_ConflictingBlockHash2 block)
             (bl_ConflictingBlockHashWithoutTx1 block) (bl_ConflictingBlockHashWithoutTx2 block) w)
          (\<lambda>(e, k', w'). case e of
             Some e' \<Rightarrow> Done (Some (BadSlashing e'), k', w')
           | None \<Rightarrow> bind_run (merkleCheck (crypto E) block) (\<lambda>ok.
               Done (if ok then None else Some BadMerkleRoot, k', w'))))"

end
