(* ===== verification/Building.thy ===== *)
theory Building
  imports Consensus VMExec
begin

text \<open>
  Checking transactions and adding them to a new block: \<^verbatim>\<open>src/miner/tx_verification.go\<close>, the addition and update
  functions of the files \<^verbatim>\<open>src/miner/block_*tx.go\<close> and of \<^verbatim>\<open>src/miner/block.go\<close>, and \<^verbatim>\<open>GetAddressFromPubKey\<close> of
  \<^verbatim>\<open>src/crypto/keypair.go\<close>. \<open>None\<close> is a panic, or a contract that does not return.

  A transaction is a pointer that the memory pools share. Where a function writes through it, \<open>touch\<close> replaces it
  wherever the pools hold it. An account in the state copy of a block shares the arrays of its contract and its contract
  variables with the account in \<^verbatim>\<open>State\<close> it was copied from; what the virtual machine writes there is
  visible in both. Slices that a contract run starts with have no spare capacity.
\<close>

record miner_config =
  multisigPubKey :: "nat \<times> nat"
  validatorAccAddress :: bytes

subsection \<open>tx\_verification.go\<close>

definition GetAddressFromPubKey :: "nat \<times> nat \<Rightarrow> bytes" where
  "GetAddressFromPubKey pubKey = fit 32 (big_Bytes (fst pubKey)) @ fit 32 (big_Bytes (snd pubKey))"

definition IsSigned :: "crypto_env \<Rightarrow> hash \<Rightarrow> bytes \<Rightarrow> bytes \<Rightarrow> bool" where
  "IsSigned C h signature address =
     Transactions.ecdsa_Verify C (be_nat (take 32 address), be_nat (drop 32 address)) h (be_nat (take 32 signature)) (be_nat (drop 32 signature))"

definition verifyFundsTx :: "'d env \<Rightarrow> miner_config \<Rightarrow> 'd world \<Rightarrow> FundsTx \<Rightarrow> bool option" where
  "verifyFundsTx E cfg w tx =
     (if ft_Amount tx = 0 \<or> ft_Amount tx > MAX_MONEY then Some False
      else case (State w (ft_From tx), State w (ft_To tx)) of
        (Some accFrom, Some accTo) \<Rightarrow> (case world_Hash E w (TFunds tx) of None \<Rightarrow> None | Some h \<Rightarrow>
          Some (IsSigned (crypto E) h (ft_Sig1 tx) (acc_Address accFrom) \<and>
            (ft_Sig2 tx = replicate 64 0 \<or> IsSigned (crypto E) h (ft_Sig2 tx) (GetAddressFromPubKey (multisigPubKey cfg)))))
      | _ \<Rightarrow> Some False)"

definition signedByRoot :: "'d env \<Rightarrow> 'd world \<Rightarrow> hash option \<Rightarrow> bytes \<Rightarrow> bool option" where
  "signedByRoot E w txHash signature = (if RootKeys w = [] then Some False
     else map_option (\<lambda>h. list_ex (\<lambda>(k, address). IsSigned (crypto E) h signature address) (RootKeys w)) txHash)"

definition verifyAccTx :: "'d env \<Rightarrow> 'd world \<Rightarrow> AccTx \<Rightarrow> bool option" where
  "verifyAccTx E w tx = signedByRoot E w (world_Hash E w (TAcc tx)) (at_Sig tx)"

definition verifyConfigTx :: "'d env \<Rightarrow> 'd world \<Rightarrow> ConfigTx \<Rightarrow> bool option" where
  "verifyConfigTx E w tx = signedByRoot E w (world_Hash E w (TConfig tx)) (ct_Sig tx)"

text \<open>The account of a stake transaction is overwritten with the hash of the address.\<close>

definition verifyStakeTx :: "'d env \<Rightarrow> 'd world \<Rightarrow> StakeTx \<Rightarrow> bool \<times> StakeTx" where
  "verifyStakeTx E w tx = (case State w (st_Account tx) of
     None \<Rightarrow> (False, tx)
   | Some accFrom \<Rightarrow>
       let tx' = tx\<lparr>st_Account := SerializeHashContent (crypto E) (fbytes (acc_Address accFrom))\<rparr>
       in (IsSigned (crypto E) (StakeTx_Hash (crypto E) tx') (st_Sig tx') (acc_Address accFrom), tx'))"

definition verifyAggTx :: "AggTx \<Rightarrow> bool" where
  "verifyAggTx tx = True"

fun updatableSig :: "Transaction \<Rightarrow> bytes option" where
  "updatableSig (TFunds tx) = Some (ft_Sig1 tx)"
| "updatableSig (TAcc tx) = Some (at_Sig tx)"
| "updatableSig (TUpdate tx) = Some (ut_Sig tx)"
| "updatableSig _ = None"

text \<open>The transaction to update, from the open or the closed transactions.\<close>

definition txToUpdate :: "'d env \<Rightarrow> 'd world \<Rightarrow> hash \<Rightarrow> Transaction option" where
  "txToUpdate E w h = (case ReadOpenTx w h of Some t \<Rightarrow> Some t | None \<Rightarrow> ReadClosedTx E w h)"

definition verifyUpdateTx :: "'d env \<Rightarrow> 'd world \<Rightarrow> UpdateTx \<Rightarrow> bool option" where
  "verifyUpdateTx E w tx = (case State w (ut_Issuer tx) of
     None \<Rightarrow> Some False
   | Some issuer \<Rightarrow> (case txToUpdate E w (ut_TxToUpdateHash tx) of
       None \<Rightarrow> Some False
     | Some t \<Rightarrow> (case world_Hash E w (TUpdate tx) of None \<Rightarrow> None | Some h \<Rightarrow>
         if \<not> IsSigned (crypto E) h (ut_Sig tx) (acc_Address issuer) then Some False
         else case world_Hash E w t of None \<Rightarrow> None | Some th \<Rightarrow>
           (case updatableSig t of None \<Rightarrow> Some False | Some sg \<Rightarrow> Some (IsSigned (crypto E) th sg (acc_Address issuer))))))"

definition verify :: "'d env \<Rightarrow> miner_config \<Rightarrow> 'd world \<Rightarrow> Transaction \<Rightarrow> (bool \<times> Transaction) option" where
  "verify E cfg w tx = (case tx of
     TFunds f \<Rightarrow> map_option (\<lambda>ok. (ok, tx)) (verifyFundsTx E cfg w f)
   | TAcc a \<Rightarrow> map_option (\<lambda>ok. (ok, tx)) (verifyAccTx E w a)
   | TConfig c \<Rightarrow> map_option (\<lambda>ok. (ok, tx)) (verifyConfigTx E w c)
   | TStake s \<Rightarrow> (case verifyStakeTx E w s of (ok, s') \<Rightarrow> Some (ok, TStake s'))
   | TAgg g \<Rightarrow> Some (verifyAggTx g, tx)
   | TUpdate u \<Rightarrow> map_option (\<lambda>ok. (ok, tx)) (verifyUpdateTx E w u))"

subsection \<open>Contracts\<close>

text \<open>\<^verbatim>\<open>NewContext\<close> on a heap with the contract and the transaction data.\<close>

definition contractHeap :: "Account \<Rightarrow> FundsTx \<Rightarrow> heap" where
  "contractHeap acc tx = [case acc_Contract acc of None \<Rightarrow> [] | Some c \<Rightarrow> c, case ft_Data tx of None \<Rightarrow> [] | Some d \<Rightarrow> d]"

definition whole :: "heap \<Rightarrow> nat \<Rightarrow> slice" where
  "whole h i = \<lparr>sl_arr = i, sl_off = 0, sl_len = length (h ! i), sl_cap = length (h ! i)\<rparr>"

definition NewContext :: "Account \<Rightarrow> FundsTx \<Rightarrow> Context" where
  "NewContext acc tx = (let h = contractHeap acc tx in
     \<lparr>Contract = whole h 0, ContractVariables = acc_ContractVariables acc, Address = acc_Address acc, Issuer = acc_Issuer acc,
      Balance = acc_Balance acc, changes = [], From = ft_From tx, Amount = ft_Amount tx, Data = whole h 1, Fee = ft_Fee tx,
      Sig1 = ft_Sig1 tx\<rparr>)"

text \<open>
  A run of the contract of the receiver: the error message of a failed run, or success with the new contract variables;
  in both cases with the bytes the contract and the data have afterwards. \<open>Crash\<close> is a panic of the machine, \<open>Running\<close> a
  contract that never returns. The fuel is enough for every run.
\<close>

definition runContract :: "vm_env \<Rightarrow> Account \<Rightarrow> FundsTx \<Rightarrow> ((bytes + bytes list) \<times> bytes \<times> bytes) run" where
  "runContract V acc tx = (let c = NewContext acc tx; h = contractHeap acc tx in
     case Exec V (unat (ft_Fee tx) + 1) (NewVM h c) of
       Some (Return ok vm) \<Rightarrow>
         (if ok then (case PersistChanges (ctx vm) of None \<Rightarrow> Crash
            | Some c' \<Rightarrow> Done (Inr (ContractVariables c'), sl_bytes (hp vm) (whole h 0), sl_bytes (hp vm) (whole h 1)))
          else Done (Inl (GetErrorMsg vm), sl_bytes (hp vm) (whole h 0), sl_bytes (hp vm) (whole h 1)))
     | Some Panic \<Rightarrow> Crash
     | _ \<Rightarrow> Running)"

text \<open>Writing through a transaction pointer that the pools and the transactions waiting for aggregation share.\<close>

definition touch :: "Transaction \<Rightarrow> Transaction \<Rightarrow> 'd world \<Rightarrow> 'd world" where
  "touch tx tx' w = w\<lparr>txMemPool := (\<lambda>h. if txMemPool w h = Some tx then Some tx' else txMemPool w h),
     txINVALIDMemPool := (\<lambda>h. if txINVALIDMemPool w h = Some tx then Some tx' else txINVALIDMemPool w h),
     FundsTxBeforeAggregation := map (\<lambda>f. case (TFunds f = tx, tx') of (True, TFunds f') \<Rightarrow> f' | _ \<Rightarrow> f) (FundsTxBeforeAggregation w)\<rparr>"

subsection \<open>Adding transactions\<close>

datatype add_error =
    FeeTooLow | NotVerified | SenderMissing | ReceiverMissing | NoFunds | WrongTxCnt | BalanceOverflow | ContractFailed bytes
  | AccAlreadyExists | StakingSet

type_synonym 'd added = "(add_error option \<times> Block \<times> 'd world) option"

text \<open>The local copy of an account; \<open>None\<close> if the account does not exist.\<close>

definition copyAccount :: "'d env \<Rightarrow> 'd world \<Rightarrow> hash \<Rightarrow> Block \<Rightarrow> Block option" where
  "copyAccount E w h b = (if bl_StateCopy b h \<noteq> None then Some b
     else case State w h of
       None \<Rightarrow> None
     | Some acc \<Rightarrow> Some (if SerializeHashContent (crypto E) (fbytes (acc_Address acc)) = h
         then b\<lparr>bl_StateCopy := (bl_StateCopy b)(h := Some acc)\<rparr> else b))"

definition updCopy :: "hash \<Rightarrow> (Account \<Rightarrow> Account) \<Rightarrow> Block \<Rightarrow> Block" where
  "updCopy h f b = b\<lparr>bl_StateCopy := (bl_StateCopy b)(h := map_option f (bl_StateCopy b h))\<rparr>"

definition invalid :: "'d env \<Rightarrow> add_error \<Rightarrow> FundsTx \<Rightarrow> Block \<Rightarrow> 'd world \<Rightarrow> 'd added" where
  "invalid E e tx b w = map_option (\<lambda>w'. (Some e, b, w')) (WriteINVALIDOpenTx E (TFunds tx) w)"

text \<open>
  The contract of the receiver, if the transaction carries data: the variables and the bytes it has changed. The miner goes
  on only if the contract returns; \<open>None\<close> is a panic or a contract that never returns.
\<close>

definition callContract :: "vm_env \<Rightarrow> FundsTx \<Rightarrow> Block \<Rightarrow> 'd world \<Rightarrow> (bytes option \<times> FundsTx \<times> Block \<times> 'd world) option" where
  "callContract V tx b w = (case bl_StateCopy b (ft_To tx) of
     None \<Rightarrow> None
   | Some acc \<Rightarrow>
       if ft_Data tx \<noteq> None \<and> acc_Contract acc \<noteq> None then
         (case runContract V acc tx of Running \<Rightarrow> None | Crash \<Rightarrow> None
          | Done (result, contract, data) \<Rightarrow>
              let tx' = tx\<lparr>ft_Data := Some data\<rparr>;
                  upd = (\<lambda>a. a\<lparr>acc_Contract := Some contract, acc_ContractVariables :=
                    (case result of Inl _ \<Rightarrow> acc_ContractVariables a | Inr vars \<Rightarrow> vars)\<rparr>)
              in Some (case result of Inl msg \<Rightarrow> Some msg | Inr _ \<Rightarrow> None, tx', updCopy (ft_To tx) upd b,
                   updAcc (ft_To tx) upd (touch (TFunds tx) (TFunds tx') w)))
       else Some (None, tx, b, w))"

definition payCopy :: "FundsTx \<Rightarrow> Block \<Rightarrow> Block" where
  "payCopy tx b = updCopy (ft_To tx) (addBalance (ft_Amount tx))
     (updCopy (ft_From tx) (\<lambda>a. a\<lparr>acc_TxCnt := acc_TxCnt a + 1, acc_Balance := acc_Balance a - (ft_Amount tx + ft_Fee tx)\<rparr>) b)"

text \<open>A counter below the one of the sender ends without error and without effect on the block.\<close>

definition addFundsTx :: "'d env \<Rightarrow> vm_env \<Rightarrow> Block \<Rightarrow> FundsTx \<Rightarrow> 'd world \<Rightarrow> 'd added" where
  "addFundsTx E V b tx w =
     (case copyAccount E w (ft_From tx) b of None \<Rightarrow> invalid E SenderMissing tx b w | Some b1 \<Rightarrow>
     (case copyAccount E w (ft_To tx) b1 of None \<Rightarrow> invalid E ReceiverMissing tx b1 w | Some b2 \<Rightarrow>
     (case bl_StateCopy b2 (ft_From tx) of None \<Rightarrow> None | Some accSender \<Rightarrow>
      if \<not> IsRootKey w (ft_From tx) \<and> ft_Amount tx + ft_Fee tx > acc_Balance accSender then invalid E NoFunds tx b2 w
      else if acc_TxCnt accSender \<noteq> ft_TxCnt tx then
        (if ft_TxCnt tx < acc_TxCnt accSender then
           (case world_Hash E w (TFunds tx) of None \<Rightarrow> None | Some h \<Rightarrow>
              if ReadClosedTx E w h \<noteq> None
              then map_option (\<lambda>w'. (None, b2, w')) (Option.bind (DeleteOpenTx E (TFunds tx) w) (DeleteINVALIDOpenTx E (TFunds tx)))
              else Some (None, b2, w))
         else invalid E WrongTxCnt tx b2 w)
      else case bl_StateCopy b2 (ft_To tx) of None \<Rightarrow> None | Some accReceiver \<Rightarrow>
        if acc_Balance accReceiver + ft_Amount tx > MAX_MONEY then invalid E BalanceOverflow tx b2 w
        else case callContract V tx b2 w of
          None \<Rightarrow> None
        | Some (Some msg, tx', b3, w3) \<Rightarrow> invalid E (ContractFailed msg) tx' b3 w3
        | Some (None, tx', b3, w3) \<Rightarrow> Some (None, payCopy tx' b3, WriteFundsTxBeforeAggregation tx' w3))))"

definition addAccTx :: "'d env \<Rightarrow> Block \<Rightarrow> AccTx \<Rightarrow> 'd world \<Rightarrow> 'd added" where
  "addAccTx E b tx w =
     (if \<not> bit (at_Header tx) 1 \<and> State w (sha3 (crypto E) (at_PubKey tx)) \<noteq> None then Some (Some AccAlreadyExists, b, w)
      else map_option (\<lambda>h. (None, b\<lparr>bl_AccTxData := bl_AccTxData b @ [h]\<rparr>, w)) (world_Hash E w (TAcc tx)))"

definition addConfigTx :: "'d env \<Rightarrow> Block \<Rightarrow> ConfigTx \<Rightarrow> 'd world \<Rightarrow> 'd added" where
  "addConfigTx E b tx w = Some (None, b\<lparr>bl_ConfigTxData := bl_ConfigTxData b @ [ConfigTx_Hash (crypto E) tx]\<rparr>, w)"

definition addStakeTx :: "'d env \<Rightarrow> Block \<Rightarrow> StakeTx \<Rightarrow> 'd world \<Rightarrow> 'd added" where
  "addStakeTx E b tx w =
     (case copyAccount E w (st_Account tx) b of None \<Rightarrow> Some (Some SenderMissing, b, w) | Some b1 \<Rightarrow>
     (case bl_StateCopy b1 (st_Account tx) of None \<Rightarrow> None | Some acc \<Rightarrow>
      if \<not> IsRootKey w (st_Account tx) \<and> st_Fee tx + StakingMinimum (activeParameters w) \<ge> acc_Balance acc then Some (Some NoFunds, b1, w)
      else if acc_IsStaking acc = st_IsStaking tx then Some (Some StakingSet, b1, w)
      else let b2 = updCopy (st_Account tx) (\<lambda>a. a\<lparr>acc_IsStaking := st_IsStaking tx, acc_CommitmentKey := st_CommitmentKey tx\<rparr>) b1
           in Some (None, b2\<lparr>bl_StakeTxData := bl_StakeTxData b2 @ [StakeTx_Hash (crypto E) tx]\<rparr>, w)))"

subsection \<open>Updates\<close>

text \<open>\<open>Some (False, w)\<close> is the error of a transaction that is not found.\<close>

definition updateLocalTx :: "'d env \<Rightarrow> hash \<Rightarrow> ChameleonHashCheckString option \<Rightarrow> bytes option \<Rightarrow> 'd world \<Rightarrow> (bool \<times> 'd world) option" where
  "updateLocalTx E txHash newCheckString newData w = (case ReadOpenTx w txHash of
     Some t \<Rightarrow> let t' = tx_SetCheckString newCheckString (tx_SetData newData t) in
       map_option (\<lambda>w'. (True, w')) (WriteOpenTx E t' (touch t t' w))
   | None \<Rightarrow> (case ReadClosedTx E w txHash of
       Some t \<Rightarrow> map_option (\<lambda>w'. (True, w')) (WriteClosedTx E (tx_SetCheckString newCheckString (tx_SetData newData t)) w)
     | None \<Rightarrow> Some (False, w)))"

text \<open>The block is written to the closed blocks even when it was read from the open ones.\<close>

definition handleTxUpdate :: "'d env \<Rightarrow> UpdateTx \<Rightarrow> 'd world \<Rightarrow> 'd world option" where
  "handleTxUpdate E u w = map_option (\<lambda>(found, w1).
     case ReadBlockByTxHash E w1 (ut_TxToUpdateHash u) of
       None \<Rightarrow> w1
     | Some b \<Rightarrow> WriteClosedBlock E (b\<lparr>bl_NrUpdates := bl_NrUpdates b + 1\<rparr>) (DeleteOpenBlock E (bl_Hash b) w1))
     (updateLocalTx E (ut_TxToUpdateHash u) (ut_TxToUpdateCheckString u) (ut_TxToUpdateData u) w)"

definition addUpdateTx :: "'d env \<Rightarrow> Block \<Rightarrow> UpdateTx \<Rightarrow> 'd world \<Rightarrow> 'd added" where
  "addUpdateTx E b u w = (case handleTxUpdate E u w of None \<Rightarrow> None | Some w1 \<Rightarrow>
     map_option (\<lambda>h. (None, b\<lparr>bl_UpdateTxData := bl_UpdateTxData b @ [h]\<rparr>, w1)) (world_Hash E w1 (TUpdate u)))"

subsection \<open>block.go\<close>

definition addTx :: "'d env \<Rightarrow> vm_env \<Rightarrow> miner_config \<Rightarrow> Block \<Rightarrow> Transaction \<Rightarrow> 'd world \<Rightarrow> 'd added" where
  "addTx E V cfg b tx w = (case tx of TAgg g \<Rightarrow> Some (None, b, w) | _ \<Rightarrow>
     if TxFee tx < FeeMinimum (activeParameters w) then Some (Some FeeTooLow, b, w)
     else case verify E cfg w tx of
       None \<Rightarrow> None
     | Some (ok, tx') \<Rightarrow> let w' = touch tx tx' w in
         if \<not> ok then Some (Some NotVerified, b, w')
         else case tx' of
           TAcc a \<Rightarrow> addAccTx E b a w'
         | TFunds f \<Rightarrow> addFundsTx E V b f w'
         | TConfig c \<Rightarrow> addConfigTx E b c w'
         | TStake s \<Rightarrow> addStakeTx E b s w'
         | TUpdate u \<Rightarrow> addUpdateTx E b u w'
         | TAgg g \<Rightarrow> Some (None, b, w'))"

text \<open>The stake transactions of the block are not recorded.\<close>

definition storeBlockByTxs :: "'d env \<Rightarrow> Block \<Rightarrow> 'd world \<Rightarrow> 'd world" where
  "storeBlockByTxs E b = fold (\<lambda>h. WriteBlockHashByTxHash E h (bl_Hash b))
     (bl_AggTxData b @ bl_FundsTxData b @ bl_AccTxData b @ bl_ConfigTxData b @ bl_UpdateTxData b)"

definition addFundsTxFinal :: "'d env \<Rightarrow> 'd world \<Rightarrow> FundsTx \<Rightarrow> Block \<Rightarrow> Block option" where
  "addFundsTxFinal E w tx b = map_option (\<lambda>h. b\<lparr>bl_FundsTxData := bl_FundsTxData b @ [h]\<rparr>) (world_Hash E w (TFunds tx))"

definition addAggTxFinal :: "'d env \<Rightarrow> AggTx \<Rightarrow> Block \<Rightarrow> Block" where
  "addAggTxFinal E tx b = b\<lparr>bl_AggTxData := sort_by ByHash_Less (bl_AggTxData b @ [AggTx_Hash (crypto E) tx])\<rparr>"

end
