(* ===== verification/ConsensusProps.thy ===== *)
theory ConsensusProps
  imports Consensus Scenario
begin

text \<open>
  Properties of the consensus: the bit check of the proof of stake is a comparison of numbers, mined blocks pass it, the
  longer chain wins; and inputs on which the search for a chain or the check of a slashing
  proof does not return.
\<close>

subsection \<open>Proof of stake\<close>

lemma bytesZero_iff: "bytesZero pos i n \<longleftrightarrow> (\<forall>k < n. pos ! (i + k) = 0)"
proof (induction pos i n rule: bytesZero.induct)
  case (2 pos i n)
  then show ?case by (auto simp: less_Suc_eq_0_disj)
qed simp

lemma be_nat_append: "be_nat (xs @ ys) = be_nat xs * 256 ^ length ys + be_nat ys"
  by (induction xs) (simp_all add: be_nat_Cons algebra_simps power_add)

lemma be_nat_zero_iff: "be_nat xs = 0 \<longleftrightarrow> (\<forall>k < length xs. xs ! k = 0)"
proof (induction xs)
  case (Cons x xs)
  then show ?case by (auto simp: be_nat_Cons less_Suc_eq_0_disj unat_eq_zero)
qed simp

lemma scaled_less: "(lo :: nat) < m \<Longrightarrow> n * m + lo < t * m \<longleftrightarrow> n < t"
proof
  assume lo: "lo < m" and "n * m + lo < t * m"
  then have "n * m < t * m" by linarith
  then show "n < t" by simp
next
  assume lo: "lo < m" and "n < t"
  then have "Suc n * m \<le> t * m" by (intro mult_le_mono1) simp
  with lo show "n * m + lo < t * m" by simp
qed

lemma leadingZeros_less:
  assumes "length pos = 32"
  shows "leadingZeros diff pos \<longleftrightarrow> be_nat pos < 2 ^ (256 - unat diff)"
proof -
  define k where "k = unat diff div 8"
  define r where "r = unat diff mod 8"
  have d: "unat diff = 8 * k + r" "r < 8" by (simp_all add: k_def r_def)
  have "unat diff < 256" using unsigned_less [of diff] by simp
  then have k: "k < 32" using d by linarith
  define lo where "lo = be_nat (drop (Suc k) pos)"
  define n where "n = be_nat (take k pos) * 256 + unat (pos ! k)"
  have "pos = take k pos @ pos ! k # drop (Suc k) pos" using k assms by (simp add: id_take_nth_drop)
  then have "be_nat pos = be_nat (take k pos @ [pos ! k]) * 256 ^ length (drop (Suc k) pos) + lo"
    unfolding lo_def by (metis append.assoc append_Cons append_Nil be_nat_append)
  then have pos: "be_nat pos = n * 256 ^ (31 - k) + lo" using assms by (simp add: be_nat_snoc n_def algebra_simps)
  have "lo < 256 ^ (31 - k)" using be_nat_bound [of "drop (Suc k) pos"] assms by (simp add: lo_def)
  moreover have "(2 :: nat) ^ (256 - unat diff) = 2 ^ (8 - r) * 256 ^ (31 - k)"
  proof -
    have "256 - unat diff = (8 - r) + 8 * (31 - k)" using d k by auto
    then have "(2 :: nat) ^ (256 - unat diff) = 2 ^ (8 - r) * (2 ^ 8) ^ (31 - k)" by (simp only: power_add power_mult)
    then show ?thesis by simp
  qed
  ultimately have "be_nat pos < 2 ^ (256 - unat diff) \<longleftrightarrow> n < 2 ^ (8 - r)" using scaled_less pos by simp
  also have "\<dots> \<longleftrightarrow> be_nat (take k pos) = 0 \<and> unat (pos ! k) < 2 ^ (8 - r)"
  proof -
    have "(2 :: nat) ^ (8 - r) \<le> 2 ^ 8" by (rule power_increasing) auto
    then show ?thesis by (cases "be_nat (take k pos)") (auto simp: n_def)
  qed
  also have "be_nat (take k pos) = 0 \<longleftrightarrow> bytesZero pos 0 k" using k assms by (simp add: be_nat_zero_iff bytesZero_iff)
  also have "unat (pos ! k) < 2 ^ (8 - r) \<longleftrightarrow> \<not> (r \<noteq> 0 \<and> unat (pos ! k) \<ge> 2 ^ (8 - r))"
    using unat_byte_lt [of "pos ! k"] by (cases "r = 0") auto
  finally show ?thesis by (simp add: leadingZeros_def k_def r_def)
qed

text \<open>
  C16: the bit test of the proof of stake is a threshold. \<^verbatim>\<open>validateProofOfStake\<close> accepts a time stamp exactly if the
  hash, with its first 64 bits divided by the balance, is as a 256-bit number below \<open>2 ^ (256 - diff)\<close>; for a
  difficulty of at most 64 this says that the 64-bit quotient is below \<open>2 ^ (64 - diff)\<close>, so the chance
  grows with the balance. A balance of zero panics.
\<close>

theorem validateProofOfStake_threshold:
  assumes "length (posHash C prevProofs height proof t) = 32"
  shows "validateProofOfStake C diff prevProofs height balance proof t =
     (if balance = 0 then None else Some (be_nat (posScaled (posHash C prevProofs height proof t) balance) < 2 ^ (256 - unat diff))) \<and>
   (unat diff \<le> 64 \<and> balance \<noteq> 0 \<longrightarrow>
     validateProofOfStake C diff prevProofs height balance proof t =
     Some (unat (get_be64 (take 8 (posHash C prevProofs height proof t))) div unat balance < 2 ^ (64 - unat diff)))"
proof -
  let ?h = "posHash C prevProofs height proof t"
  let ?q = "get_be64 (take 8 ?h) div balance"
  have l: "length (posScaled ?h balance) = 32" using assms by (simp add: posScaled_def)
  have q: "be_nat (be64 ?q) = unat (get_be64 (take 8 ?h)) div unat balance"
  proof -
    have "unat ?q < 256 ^ 8" using unsigned_less [of ?q] by simp
    then show ?thesis by (simp add: be64_def be_nat_fixed unat_div)
  qed
  have "be_nat (drop 8 ?h) < 256 ^ 24" using be_nat_bound [of "drop 8 ?h"] assms by simp
  then have "be_nat (posScaled ?h balance) < 2 ^ (64 - unat diff) * 256 ^ 24 \<longleftrightarrow> unat (get_be64 (take 8 ?h)) div unat balance < 2 ^ (64 - unat diff)"
    using assms unfolding posScaled_def be_nat_append q by (subst scaled_less [symmetric]) auto
  moreover have "(2 :: nat) ^ (256 - unat diff) = 2 ^ (64 - unat diff) * 256 ^ 24" if "unat diff \<le> 64"
  proof -
    have "256 - unat diff = (64 - unat diff) + 8 * 24" using that by simp
    then have "(2 :: nat) ^ (256 - unat diff) = 2 ^ (64 - unat diff) * (2 ^ 8) ^ 24" by (simp only: power_add power_mult)
    then show ?thesis by simp
  qed
  ultimately show ?thesis using leadingZeros_less [OF l] by (simp add: validateProofOfStake_def)
qed

lemma demo_hash_head: "get_be64 (take 8 (demo_hash b)) = 0"
proof -
  have "be_nat (replicate 8 0) = 0" by (simp add: be_nat_zero_iff)
  then show ?thesis by (simp add: demo_hash_def get_be64_def)
qed

theorem validateProofOfStake_threshold_witness:
  "validateProofOfStake (crypto demo_E) 12 [] 1 5 [] 1600000000 = Some True \<and>
   length (posHash (crypto demo_E) [] 1 [] 1600000000) = 32"
proof -
  have h: "posHash (crypto demo_E) [] 1 [] 1600000000 = demo_hash 9" by (simp add: posHash_def)
  show ?thesis using validateProofOfStake_threshold [of "crypto demo_E" "[]" 1 "[]" 1600000000 12 5] unfolding h by (auto simp: demo_hash_head)
qed

lemma posLoop_validates:
  "posLoop E diff prevHash prevProofs height balance proof cnt ticks = Some (Inr t) \<Longrightarrow>
   validateProofOfStake (crypto E) diff prevProofs height balance proof t = Some True \<and> t \<in> snd ` set ticks"
proof (induction ticks arbitrary: cnt)
  case (Cons tick ticks)
  obtain w now where "tick = (w, now)" by (cases tick)
  with Cons.prems Cons.IH [of "cnt + 1"] show ?case
    by (auto simp: validateProofOfStake_def Let_def split: if_splits option.splits)
qed simp

lemma posLoop_answers:
  "450 \<le> cnt + length ticks \<Longrightarrow> cnt < 450 \<Longrightarrow> posLoop E diff prevHash prevProofs height balance proof cnt ticks \<noteq> None"
proof (induction ticks arbitrary: cnt)
  case (Cons tick ticks)
  obtain w now where "tick = (w, now)" by (cases tick)
  with Cons.prems Cons.IH [of "cnt + 1"] show ?case by (auto simp: Let_def split: option.splits)
qed simp

text \<open>
  C17: what is mined is accepted. When the mining loop returns a time stamp, \<^verbatim>\<open>validateProofOfStake\<close> accepts it for the
  same difficulty, proofs, height and balance, and the time is that of a tick at which the predecessor was still
  the last block; and the loop gives an answer after at most 450 ticks.
\<close>

theorem proofOfStake_validates:
  "(\<forall>t. proofOfStake E diff prevHash prevProofs height balance proof ticks = Some (Inr t) \<longrightarrow>
      validateProofOfStake (crypto E) diff prevProofs height balance proof t = Some True \<and> t \<in> snd ` set ticks) \<and>
   (450 \<le> length ticks \<longrightarrow> proofOfStake E diff prevHash prevProofs height balance proof ticks \<noteq> None)"
  using posLoop_validates posLoop_answers [of 0 ticks] by (fastforce simp: proofOfStake_def)

theorem proofOfStake_validates_witness:
  "proofOfStake demo_E 12 zero_hash [] 1 5 [] [(demo_world Map.empty []\<lparr>lastBlock := Some zero_block\<rparr>, 1600000000)] = Some (Inr 1600000000) \<and>
   validateProofOfStake (crypto demo_E) 12 [] 1 5 [] 1600000000 = Some True"
proof -
  have "bytesZero (posScaled (demo_hash 9) 5) 0 1" "posScaled (demo_hash 9) 5 ! 1 = 0"
    unfolding posScaled_def demo_hash_head by (simp_all add: be64_def be_fixed_def le_fixed_def nth_append rev_nth)
  then have "leadingZeros 12 (posScaled (demo_hash 9) 5)" by (simp add: leadingZeros_def)
  then have p: "proofOfStake demo_E 12 zero_hash [] 1 5 [] [(demo_world Map.empty []\<lparr>lastBlock := Some zero_block\<rparr>, 1600000000)] =
      Some (Inr 1600000000)"
    by (simp add: proofOfStake_def posHash_def zero_block_def)
  with proofOfStake_validates [of demo_E 12 zero_hash "[]" 1 5 "[]"] show ?thesis by blast
qed

subsection \<open>The longest chain\<close>

lemma invertLoop_nth:
  assumes "0 \<le> i" "j < int (length xs)" "i \<le> j + 1"
  shows "length (invertLoop xs i j) = length xs \<and>
    (\<forall>k < length xs. invertLoop xs i j ! k = (if i \<le> int k \<and> int k \<le> j then xs ! nat (i + j - int k) else xs ! k))"
  using assms
proof (induction xs i j rule: invertLoop.induct)
  case (1 xs i j)
  show ?case
  proof (cases "i < j")
    case True
    let ?ys = "xs[nat i := xs ! nat j, nat j := xs ! nat i]"
    have IH: "length (invertLoop ?ys (i + 1) (j - 1)) = length ?ys \<and>
      (\<forall>k < length ?ys. invertLoop ?ys (i + 1) (j - 1) ! k = (if i + 1 \<le> int k \<and> int k \<le> j - 1 then ?ys ! nat (i + 1 + (j - 1) - int k) else ?ys ! k))"
      using "1.prems" True by (intro "1.IH" [OF True]) auto
    have "invertLoop xs i j ! k = (if i \<le> int k \<and> int k \<le> j then xs ! nat (i + j - int k) else xs ! k)" if "k < length xs" for k
    proof -
      have "invertLoop xs i j ! k = (if i + 1 \<le> int k \<and> int k \<le> j - 1 then ?ys ! nat (i + 1 + (j - 1) - int k) else ?ys ! k)"
        using IH that True by (subst invertLoop.simps) simp
      moreover have "?ys ! m = (if int m = j then xs ! nat i else if int m = i then xs ! nat j else xs ! m)" if "m < length xs" for m
        using that True "1.prems" by (auto simp: nth_list_update)
      moreover have "nat (i + 1 + (j - 1) - int k) = nat (i + j - int k)" by simp
      moreover have "nat (i + j - int k) < length xs" "int (nat (i + j - int k)) = i + j - int k" if "i \<le> int k" "int k \<le> j"
        using that "1.prems" by auto
      ultimately show ?thesis using that True by (cases "int k = i"; cases "int k = j") auto
    qed
    moreover have "length (invertLoop xs i j) = length xs" using IH True by (subst invertLoop.simps) simp
    ultimately show ?thesis by blast
  next
    case False
    then have "invertLoop xs i j = xs" by (subst invertLoop.simps) simp
    moreover have "nat (i + j - int k) = k" if "i \<le> int k" "int k \<le> j" for k using that False by simp
    ultimately show ?thesis by simp
  qed
qed

lemma InvertBlockArray_rev: "InvertBlockArray bs = rev bs"
proof (rule nth_equalityI)
  show "length (InvertBlockArray bs) = length (rev bs)"
    using invertLoop_nth [of 0 "int (length bs) - 1" bs] by (simp add: InvertBlockArray_def)
next
  fix k assume "k < length (InvertBlockArray bs)"
  then have k: "k < length bs" using invertLoop_nth [of 0 "int (length bs) - 1" bs] by (simp add: InvertBlockArray_def)
  then have "nat (0 + (int (length bs) - 1) - int k) = length bs - Suc k" by simp
  with k show "InvertBlockArray bs ! k = rev bs ! k"
    using invertLoop_nth [of 0 "int (length bs) - 1" bs] by (auto simp: InvertBlockArray_def rev_nth)
qed

definition sameBlock :: "Block \<Rightarrow> Block \<Rightarrow> bool" where
  "sameBlock b a \<longleftrightarrow> bl_Hash b = bl_Hash a \<or> bl_HashWithoutTx b = bl_HashWithoutTx a"

text \<open>The blocks from \<open>b\<close> back to, and without, the ancestor, along stored predecessors.\<close>

inductive closedPath :: "'d env \<Rightarrow> 'd world \<Rightarrow> Block \<Rightarrow> Block list \<Rightarrow> Block \<Rightarrow> bool" for E w where
  path_end: "sameBlock b a \<Longrightarrow> closedPath E w b [] a"
| path_step: "\<not> sameBlock b a \<Longrightarrow> closedPrev E w b = Some p \<Longrightarrow> closedPath E w p bs a \<Longrightarrow> closedPath E w b (b # bs) a"

inductive_cases closedPath_NilE: "closedPath E w b [] a"

lemma rollbackPath_closed:
  "rollbackPath E w fuel a b acc = Done (Some bs) \<Longrightarrow> \<exists>bs'. bs = acc @ bs' \<and> closedPath E w b bs' a"
proof (induction E w fuel a b acc rule: rollbackPath.induct)
  case (2 E w fuel a b acc)
  show ?case
  proof (cases "sameBlock b a")
    case True
    with "2.prems" show ?thesis by (auto simp: sameBlock_def intro!: path_end)
  next
    case False
    with "2.prems" obtain p where p: "closedPrev E w b = Some p" "rollbackPath E w fuel a p (acc @ [b]) = Done (Some bs)"
      by (auto simp: sameBlock_def split: option.splits)
    with "2.IH" False obtain bs' where "bs = (acc @ [b]) @ bs'" "closedPath E w p bs' a" by (auto simp: sameBlock_def)
    with p(1) False show ?thesis by (auto intro!: path_step)
  qed
qed simp

text \<open>Closed blocks are one higher than their predecessor; then the walk ends.\<close>

definition heights_ok :: "'d env \<Rightarrow> 'd world \<Rightarrow> bool" where
  "heights_ok E w \<longleftrightarrow> (\<forall>b p. closedPrev E w b = Some p \<longrightarrow> bl_Height p < bl_Height b)"

lemma rollbackPath_returns:
  "heights_ok E w \<Longrightarrow> unat (bl_Height b) < fuel \<Longrightarrow> rollbackPath E w fuel a b acc \<noteq> Running"
proof (induction E w fuel a b acc rule: rollbackPath.induct)
  case (2 E w fuel a b acc)
  have "unat (bl_Height p) < fuel" if "closedPrev E w b = Some p" for p
    using 2(2,3) that unfolding heights_ok_def word_less_nat_alt by fastforce
  with 2 show ?case by (auto split: option.splits)
qed simp

lemma db_WriteToReceivedStash [simp]: "db (WriteToReceivedStash b w) = db w" "lastBlock (WriteToReceivedStash b w) = lastBlock w"
  by (simp_all add: WriteToReceivedStash_def Let_def)

lemma db_fold_stash [simp]: "db (fold WriteToReceivedStash bs w) = db w" "lastBlock (fold WriteToReceivedStash bs w) = lastBlock w"
  by (induction bs arbitrary: w) simp_all

lemma closedPrev_db: "db w' = db w \<Longrightarrow> closedPrev E w' b = closedPrev E w b"
  by (simp add: closedPrev_def ReadClosedBlock_def ReadClosedBlockWithoutTx_def read_block_def cong: option.case_cong)

text \<open>Each block names its predecessor by hash, unless that came from the network, where the code does not compare the hashes.\<close>

definition linked :: "(nat \<Rightarrow> reply) \<Rightarrow> Block list \<Rightarrow> bool" where
  "linked net bs \<longleftrightarrow> (\<forall>i. Suc i < length bs \<longrightarrow> bl_PrevHash (bs ! Suc i) = bl_Hash (bs ! i) \<or> (\<exists>k. net k = Reply (bs ! i)))"

lemma linked_snoc: "linked net (bs @ [b]) \<longleftrightarrow> linked net bs \<and> (bs \<noteq> [] \<longrightarrow> bl_PrevHash b = bl_Hash (last bs) \<or> (\<exists>k. net k = Reply (last bs)))"
proof (cases bs rule: rev_cases)
  case (snoc cs c)
  let ?ok = "\<lambda>xs i. bl_PrevHash (xs ! Suc i) = bl_Hash (xs ! i) \<or> (\<exists>k. net k = Reply (xs ! i))"
  have "Suc i < length (bs @ [b]) \<longleftrightarrow> Suc i < length bs \<or> i = length cs" for i using snoc by auto
  then have "linked net (bs @ [b]) \<longleftrightarrow> (\<forall>i. Suc i < length bs \<longrightarrow> ?ok (bs @ [b]) i) \<and> ?ok (bs @ [b]) (length cs)"
    unfolding linked_def by blast
  also have "(\<forall>i. Suc i < length bs \<longrightarrow> ?ok (bs @ [b]) i) \<longleftrightarrow> linked net bs"
    by (simp add: linked_def nth_append)
  finally show ?thesis using snoc by (simp add: nth_append)
qed (simp add: linked_def)

lemma findInStash_hash: "findInStash h bs = Some b \<Longrightarrow> bl_Hash b = h"
  by (auto simp: findInStash_def find_Some_iff)

text \<open>With an open predecessor the loop makes no progress.\<close>

lemma getNewChain_open:
  assumes "closedPrev E w b = None" "ReadOpenBlock E w (bl_PrevHash b) \<noteq> None"
  shows "getNewChain E net fuel k b chain w = Running"
  using assms by (induction fuel arbitrary: chain) simp_all

definition chain_spec :: "'d env \<Rightarrow> (nat \<Rightarrow> reply) \<Rightarrow> 'd world \<Rightarrow> Block \<Rightarrow> Block list \<Rightarrow> Block \<Rightarrow> bool" where
  "chain_spec E net w b new a \<longleftrightarrow> new \<noteq> [] \<and> last new = b \<and> closedPrev E w (hd new) = Some a \<and> linked net new"

lemma chain_spec_snoc:
  assumes "chain_spec E net w x new a" "db w = db v" "bl_Hash x = bl_PrevHash b \<or> (\<exists>k. net k = Reply x)"
  shows "chain_spec E net v b (new @ [b]) a"
  using assms by (auto simp: chain_spec_def linked_snoc closedPrev_db [OF assms(2)])

lemma getNewChain_spec:
  assumes "getNewChain E net fuel k b chain w = Done (r, k', w')"
  shows "db w' = db w \<and> lastBlock w' = lastBlock w \<and>
    (\<forall>a bs. r = Some (a, bs) \<longrightarrow> (\<exists>new. bs = new @ rev chain \<and> chain_spec E net w b new a))"
  using assms
proof (induction E net fuel k b chain w rule: getNewChain.induct)
  case (2 E net fuel k b chain w)
  let ?chain = "chain @ [b]"
  show ?case
  proof (cases "closedPrev E w b")
    case (Some a)
    with "2.prems" show ?thesis by (auto simp: InvertBlockArray_rev chain_spec_def linked_def Let_def)
  next
    case None
    with "2.prems" have no: "ReadOpenBlock E w (bl_PrevHash b) = None" using getNewChain_open [OF None] by (metis run.distinct(3))
    note prems = "2.prems" [unfolded getNewChain.simps Let_def None option.case no simp_thms if_False]
    have wrap: ?thesis if ih: "db w' = db v \<and> lastBlock w' = lastBlock v \<and>
          (\<forall>a bs. r = Some (a, bs) \<longrightarrow> (\<exists>new. bs = new @ rev ?chain \<and> chain_spec E net v x new a))"
        and v: "db v = db w" "lastBlock v = lastBlock w" and x: "bl_Hash x = bl_PrevHash b \<or> (\<exists>k. net k = Reply x)" for v x
      using ih v chain_spec_snoc [OF _ v(1) x] by fastforce
    show ?thesis
    proof (cases "findInStash (bl_PrevHash b) (ReceivedBlockStash w)")
      case (Some x)
      with prems have "getNewChain E net fuel k x ?chain w = Done (r, k', w')" by simp
      from "2.IH"(4) [OF refl None _ Some this] show ?thesis
        using no findInStash_hash [OF Some] by (intro wrap [of w x]) auto
    next
      case none: None
      show ?thesis
      proof (cases "net k")
        case (Reply x)
        with prems none have "getNewChain E net fuel (Suc k) x ?chain (WriteToReceivedStash x w) = Done (r, k', w')" by simp
        from "2.IH"(2) [OF refl None _ none Reply this] show ?thesis
          using no Reply by (intro wrap [of "WriteToReceivedStash x w" x]) auto
      next
        case (Timeout bs)
        let ?v = "fold WriteToReceivedStash bs w"
        show ?thesis
        proof (cases "findInStash (bl_PrevHash b) (ReceivedBlockStash ?v)")
          case (Some x)
          with prems none Timeout have "getNewChain E net fuel (Suc k) x ?chain ?v = Done (r, k', w')" by simp
          from "2.IH"(3) [OF refl None _ none Timeout refl Some this] show ?thesis
            using no findInStash_hash [OF Some] by (intro wrap [of ?v x]) auto
        next
          case stash: None
          with prems none Timeout have "w' = ?v" "r = None" by auto
          then show ?thesis by simp
        qed
      qed
    qed
  qed
qed simp

text \<open>
  C6: the longer chain wins. When \<^verbatim>\<open>getBlockSequences\<close> asks for a rollback, there is a common
  ancestor such that the blocks to roll back are the stored chain from the last block back to
  the ancestor, the blocks to validate start at a successor of the ancestor and end with the new block, and
  there are more of them than blocks to roll back. Each block to validate names its predecessor by hash, unless that
  predecessor is a reply of the network, whose hash the code does not compare with the one it asked for.
\<close>

theorem getBlockSequences_longest:
  assumes "getBlockSequences E net fuel k b w = Done (Inr (toRollback, toValidate), k', w')"
  shows "length toRollback < length toValidate \<and> last toValidate = b \<and>
    (\<exists>ancestor tip. closedPrev E w (hd toValidate) = Some ancestor \<and> closedPath E w' tip toRollback ancestor \<and>
       (lastBlock w = Some tip \<or> lastBlock w = None \<and> ReadLastClosedBlock E w' = Some tip)) \<and>
    (\<forall>i. Suc i < length toValidate \<longrightarrow>
       bl_PrevHash (toValidate ! Suc i) = bl_Hash (toValidate ! i) \<or> (\<exists>k. net k = Reply (toValidate ! i)))"
proof -
  obtain r k1 w1 where chain: "getNewChain E net fuel k b [] w = Done (r, k1, w1)"
    using assms by (auto simp: getBlockSequences_def bind_run_def split: run.splits)
  note rest = assms [unfolded getBlockSequences_def bind_run_def chain run.case prod.case]
  then obtain a new where r: "r = Some (a, new)" by (cases r) auto
  then obtain tip where tip: "(case lastBlock w1 of None \<Rightarrow> ReadLastClosedBlock E w1 | Some b \<Rightarrow> Some b) = Some tip"
    using rest by (auto split: option.splits)
  have path: "rollbackPath E w1 fuel a tip [] = Done (Some toRollback)" and len: "length toRollback < length new"
      and eq: "toValidate = new" "w1 = w'"
    using rest r tip by (auto split: run.splits option.splits if_splits)
  have spec: "chain_spec E net w b new a" "lastBlock w1 = lastBlock w" using getNewChain_spec [OF chain] r by auto
  have "closedPath E w' tip toRollback a" using rollbackPath_closed [OF path] eq by simp
  moreover have "lastBlock w = Some tip \<or> lastBlock w = None \<and> ReadLastClosedBlock E w' = Some tip"
    using tip spec(2) eq by (auto split: option.splits)
  ultimately show ?thesis using len spec(1) eq by (auto simp: chain_spec_def linked_def)
qed

text \<open>
  The witness: the last block 1 and the stashed block 2 both follow the genesis block; block 3 follows block 2.
\<close>

definition demo_chain :: "byte \<Rightarrow> byte \<Rightarrow> u32 \<Rightarrow> Block" where
  "demo_chain h p height = zero_block\<lparr>bl_Hash := demo_hash h, bl_HashWithoutTx := demo_hash h, bl_PrevHash := demo_hash p,
     bl_PrevHashWithoutTx := demo_hash p, bl_Height := height\<rparr>"

lemma demo_chain_simps [simp]:
  "bl_Hash (demo_chain h p n) = demo_hash h" "bl_HashWithoutTx (demo_chain h p n) = demo_hash h"
  "bl_PrevHash (demo_chain h p n) = demo_hash p" "bl_PrevHashWithoutTx (demo_chain h p n) = demo_hash p"
  "bl_Height (demo_chain h p n) = n" "Block_Decode (Block_Encode (demo_chain h p n)) = Some (demo_chain h p n)"
  by (simp_all add: demo_chain_def Block_Encode_def zero_block_def)

definition demo_fork :: "demo_db world" where
  "demo_fork = (demo_world Map.empty [])\<lparr>db := [((''closedblocks'', demo_hash 0), Block_Encode (demo_chain 0 0 0)),
     ((''closedblocks'', demo_hash 1), Block_Encode (demo_chain 1 0 1))], lastBlock := Some (demo_chain 1 0 1),
     ReceivedBlockStash := [demo_chain 2 0 1]\<rparr>"

lemmas chain_eval = getBlockSequences_def closedPrev_def ReadClosedBlock_def ReadClosedBlockWithoutTx_def ReadOpenBlock_def read_block_def
  findInStash_def bind_run_def InvertBlockArray_rev demo_fork_def

theorem getBlockSequences_longest_witness:
  "getBlockSequences demo_E (\<lambda>_. Timeout []) 5 0 (demo_chain 3 2 2) demo_fork =
     Done (Inr ([demo_chain 1 0 1], [demo_chain 2 0 1, demo_chain 3 2 2]), 0, demo_fork) \<and>
   bl_PrevHash (demo_chain 3 2 2) = bl_Hash (demo_chain 2 0 1)"
proof -
  have run: "getBlockSequences demo_E (\<lambda>_. Timeout []) 5 0 (demo_chain 3 2 2) demo_fork =
     Done (Inr ([demo_chain 1 0 1], [demo_chain 2 0 1, demo_chain 3 2 2]), 0, demo_fork)"
    by (simp add: chain_eval numeral_eq_Suc Let_def)
  with getBlockSequences_longest [OF run] show ?thesis by simp
qed

text \<open>
  A block whose predecessor is an open block blocks the miner for ever. \<^verbatim>\<open>getNewChain\<close> finds the predecessor in the
  open blocks and starts over with the same block, whatever the network does, so \<^verbatim>\<open>getBlockSequences\<close> does
  not return for any number of iterations.
\<close>

theorem getBlockSequences_open_predecessor:
  assumes "closedPrev E w b = None" "ReadOpenBlock E w (bl_PrevHash b) \<noteq> None"
  shows "getBlockSequences E net fuel k b w = Running"
  by (simp add: getBlockSequences_def bind_run_def getNewChain_open [OF assms])

theorem getBlockSequences_open_predecessor_witness:
  "getBlockSequences demo_E (\<lambda>_. Reply (demo_chain 2 0 1)) 1000 0 (demo_chain 3 2 2)
     ((demo_world Map.empty [])\<lparr>db := [((''openblocks'', demo_hash 2), Block_Encode (demo_chain 2 0 1))]\<rparr>) = Running"
  by (rule getBlockSequences_open_predecessor) (simp_all add: chain_eval)

subsection \<open>Slashing\<close>

text \<open>
  A slashing proof about an unknown block ends the process. For two different non-zero hashes of which the first is not the hash
  of a closed block, \<^verbatim>\<open>slashingCheck\<close> panics instead of requesting the block.
\<close>

theorem slashingCheck_unknown_block:
  assumes "h1 \<noteq> zero_hash" "h2 \<noteq> zero_hash" "h1 \<noteq> h2" "closedEither E w h1 hw1 = None"
  shows "slashingCheck E net fuel k slashed h1 h2 hw1 hw2 w = Crash"
  using assms by (simp add: slashingCheck_def)

theorem slashingCheck_unknown_block_witness:
  "slashingCheck demo_E (\<lambda>_. Reply (demo_chain 2 0 1)) 10 0 (demo_hash 9) (demo_hash 2) (demo_hash 1) (demo_hash 2) (demo_hash 1) demo_fork = Crash"
  by (rule slashingCheck_unknown_block) (simp_all add: chain_eval closedEither_def)

subsection \<open>preValidate\<close>

lemma bind_run_Done: "bind_run r f = Done x \<longleftrightarrow> (\<exists>a. r = Done a \<and> f a = Done x)"
  by (cases r) (auto simp: bind_run_def)

lemma preValidate_accepts:
  assumes "preValidate E rsa clk net fuel k block initialSetup w = Done (None, k', w')"
  shows "\<exists>acc. GetAccount w (bl_Beneficiary block) = Some acc \<and> acc_IsStaking acc \<and>
      (initialSetup \<or> validateProofOfStake (crypto E) (getDifficulty w) (GetLatestProofs E w (nat (numIncludedPrevProofs (activeParameters w))) block)
         (bl_Height block) (acc_Balance acc) (bl_CommitmentProof block) (bl_Timestamp block) = Some True)"
    "GetSize block \<le> BlockSize (activeParameters w)" "validateNoDuplicateTx block = None"
    "merkleCheck (crypto E) block = Done True"
  using assms
  by (auto simp: preValidate_def bind_run_Done not_less split: option.splits if_splits bool.splits)

end
