(* ===== verification/BuildingProps.thy ===== *)
theory BuildingProps
  imports Building Money ConsensusProps VMProps
begin

text \<open>
  What adding a transaction to a block guarantees: money moves without overflow, which of the added transfers the
  validation accepts, and that an update keeps the hash of the transaction it changes.
\<close>

subsection \<open>Funds transactions\<close>

text \<open>The account a funds transaction is checked against: the local copy, or the one in the state.\<close>

definition localAcc :: "'d world \<Rightarrow> Block \<Rightarrow> hash \<Rightarrow> Account option" where
  "localAcc w b h = (case bl_StateCopy b h of Some a \<Rightarrow> Some a | None \<Rightarrow> State w h)"

lemma copyAccount_localAcc: "copyAccount E w h b = Some b' \<Longrightarrow> localAcc w b' = localAcc w b"
  by (auto simp: copyAccount_def localAcc_def fun_eq_iff split: if_splits option.splits)

lemma copyAccount_keeps:
  "copyAccount E w h b = Some b' \<Longrightarrow> bl_StateCopy b k \<noteq> None \<Longrightarrow> bl_StateCopy b' k = bl_StateCopy b k"
  by (auto simp: copyAccount_def split: if_splits option.splits)

lemma localAcc_copy: "bl_StateCopy b h = Some a \<Longrightarrow> localAcc w b h = Some a"
  by (simp add: localAcc_def)

lemma callContract_keeps:
  assumes "callContract V tx b w = Some (msg, tx', b', w')"
  shows "\<exists>d. tx' = tx\<lparr>ft_Data := d\<rparr>"
    "map_option acc_Balance (bl_StateCopy b' h) = map_option acc_Balance (bl_StateCopy b h)"
    "map_option acc_TxCnt (bl_StateCopy b' h) = map_option acc_TxCnt (bl_StateCopy b h)"
    "length (FundsTxBeforeAggregation w') = length (FundsTxBeforeAggregation w)"
proof -
  show "\<exists>d. tx' = tx\<lparr>ft_Data := d\<rparr>"
    using assms by (intro exI [of _ "ft_Data tx'"]) (auto simp: callContract_def Let_def split: option.splits if_splits run.splits)
qed (use assms in \<open>auto simp: callContract_def updCopy_def updAcc_def touch_def Let_def option.map_comp comp_def split: option.splits if_splits run.splits\<close>)

lemma addFundsTx_added:
  assumes "addFundsTx E V b tx w = Some (None, b', w')" "localAcc w b (ft_From tx) = Some s" "ft_TxCnt tx = acc_TxCnt s"
  obtains r b1 b3 tx' w3 where "localAcc w b (ft_To tx) = Some r" "bl_StateCopy b1 (ft_From tx) = Some s" "bl_StateCopy b1 (ft_To tx) = Some r"
    "localAcc w b1 = localAcc w b" "IsRootKey w (ft_From tx) \<or> ft_Amount tx + ft_Fee tx \<le> acc_Balance s" "acc_Balance r + ft_Amount tx \<le> MAX_MONEY"
    "callContract V tx b1 w = Some (None, tx', b3, w3)" "b' = payCopy tx' b3" "w' = WriteFundsTxBeforeAggregation tx' w3"
proof -
  obtain b1 where b1: "copyAccount E w (ft_From tx) b = Some b1" using assms(1) by (auto simp: addFundsTx_def invalid_def split: option.splits)
  obtain b2 where b2: "copyAccount E w (ft_To tx) b1 = Some b2" using assms(1) b1 by (auto simp: addFundsTx_def invalid_def split: option.splits)
  have l: "localAcc w b2 = localAcc w b" using copyAccount_localAcc [OF b1] copyAccount_localAcc [OF b2] by simp
  obtain s' where s': "bl_StateCopy b2 (ft_From tx) = Some s'" using assms(1) b1 b2 by (auto simp: addFundsTx_def split: option.splits)
  have s: "s' = s" using localAcc_copy [OF s', of w] assms(2) l by simp
  note add = assms(1) [unfolded addFundsTx_def b1 b2 option.case s' s]
  have c: "IsRootKey w (ft_From tx) \<or> ft_Amount tx + ft_Fee tx \<le> acc_Balance s"
    using add by (auto simp: invalid_def split: if_splits)
  obtain r where r: "bl_StateCopy b2 (ft_To tx) = Some r" using add assms(3) c by (auto simp: invalid_def split: if_splits option.splits)
  have c2: "acc_Balance r + ft_Amount tx \<le> MAX_MONEY" using add assms(3) c r by (auto simp: invalid_def split: if_splits)
  have "\<exists>tx' b3 w3. callContract V tx b2 w = Some (None, tx', b3, w3) \<and> b' = payCopy tx' b3 \<and> w' = WriteFundsTxBeforeAggregation tx' w3"
    using add assms(3) c c2 r by (auto simp: invalid_def split: if_splits option.splits)
  then show thesis using that l localAcc_copy [OF r, of w] s' [unfolded s] r c c2 by metis
qed

text \<open>What a payment does to the balances and counters of the local copy.\<close>

lemma payCopy_balance:
  assumes "map_option acc_Balance (bl_StateCopy b (ft_From tx)) = Some vs" "map_option acc_Balance (bl_StateCopy b (ft_To tx)) = Some vr"
    "map_option acc_TxCnt (bl_StateCopy b (ft_From tx)) = Some n" "map_option acc_TxCnt (bl_StateCopy b (ft_To tx)) = Some m"
  shows "\<exists>s' r'. bl_StateCopy (payCopy tx b) (ft_From tx) = Some s' \<and> bl_StateCopy (payCopy tx b) (ft_To tx) = Some r' \<and>
    acc_TxCnt s' = n + 1 \<and> acc_TxCnt r' = m + (if ft_To tx = ft_From tx then 1 else 0) \<and>
    acc_Balance s' = vs - (ft_Amount tx + ft_Fee tx) + (if ft_To tx = ft_From tx then ft_Amount tx else 0) \<and>
    acc_Balance r' = vr + ft_Amount tx - (if ft_To tx = ft_From tx then ft_Amount tx + ft_Fee tx else 0)"
  using assms by (auto simp: payCopy_def updCopy_def)

lemma payCopy_data [simp]: "payCopy (tx\<lparr>ft_Data := d\<rparr>) b = payCopy tx b"
  by (simp add: payCopy_def)

lemma payCopy_others: "h \<noteq> ft_From tx \<Longrightarrow> h \<noteq> ft_To tx \<Longrightarrow> bl_StateCopy (payCopy tx b) h = bl_StateCopy b h"
  by (simp add: payCopy_def updCopy_def)

lemma addFundsTx_balances:
  assumes "addFundsTx E V b tx w = Some (None, b', w')" "localAcc w b (ft_From tx) = Some s" "localAcc w b (ft_To tx) = Some r"
    "ft_TxCnt tx = acc_TxCnt s"
  shows "IsRootKey w (ft_From tx) \<or> ft_Amount tx + ft_Fee tx \<le> acc_Balance s" "acc_Balance r + ft_Amount tx \<le> MAX_MONEY"
    "\<exists>s' r'. bl_StateCopy b' (ft_From tx) = Some s' \<and> bl_StateCopy b' (ft_To tx) = Some r' \<and>
      acc_TxCnt s' = acc_TxCnt s + 1 \<and> acc_TxCnt r' = acc_TxCnt r + (if ft_To tx = ft_From tx then 1 else 0) \<and>
      acc_Balance s' = acc_Balance s - (ft_Amount tx + ft_Fee tx) + (if ft_To tx = ft_From tx then ft_Amount tx else 0) \<and>
      acc_Balance r' = acc_Balance r + ft_Amount tx - (if ft_To tx = ft_From tx then ft_Amount tx + ft_Fee tx else 0)"
    "\<exists>txs d. FundsTxBeforeAggregation w' = txs @ [tx\<lparr>ft_Data := d\<rparr>] \<and> length txs = length (FundsTxBeforeAggregation w)"
proof -
  obtain r1 b1 b3 tx' w3 where a: "localAcc w b (ft_To tx) = Some r1" "bl_StateCopy b1 (ft_From tx) = Some s" "bl_StateCopy b1 (ft_To tx) = Some r1"
    "localAcc w b1 = localAcc w b" "IsRootKey w (ft_From tx) \<or> ft_Amount tx + ft_Fee tx \<le> acc_Balance s" "acc_Balance r1 + ft_Amount tx \<le> MAX_MONEY"
    "callContract V tx b1 w = Some (None, tx', b3, w3)" "b' = payCopy tx' b3" "w' = WriteFundsTxBeforeAggregation tx' w3"
    using addFundsTx_added [OF assms(1,2,4)] by metis
  have r: "r1 = r" using a(1) assms(3) by simp
  show "IsRootKey w (ft_From tx) \<or> ft_Amount tx + ft_Fee tx \<le> acc_Balance s" "acc_Balance r + ft_Amount tx \<le> MAX_MONEY"
    using a(5,6) r by simp_all
  note k = callContract_keeps [OF a(7)]
  obtain d where tx': "tx' = tx\<lparr>ft_Data := d\<rparr>" using k(1) by blast
  show "\<exists>txs d. FundsTxBeforeAggregation w' = txs @ [tx\<lparr>ft_Data := d\<rparr>] \<and> length txs = length (FundsTxBeforeAggregation w)"
    using a(9) k(4) tx' by (auto simp: WriteFundsTxBeforeAggregation_def)
  have b': "b' = payCopy tx b3" using a(8) tx' by simp
  show "\<exists>s' r'. bl_StateCopy b' (ft_From tx) = Some s' \<and> bl_StateCopy b' (ft_To tx) = Some r' \<and>
      acc_TxCnt s' = acc_TxCnt s + 1 \<and> acc_TxCnt r' = acc_TxCnt r + (if ft_To tx = ft_From tx then 1 else 0) \<and>
      acc_Balance s' = acc_Balance s - (ft_Amount tx + ft_Fee tx) + (if ft_To tx = ft_From tx then ft_Amount tx else 0) \<and>
      acc_Balance r' = acc_Balance r + ft_Amount tx - (if ft_To tx = ft_From tx then ft_Amount tx + ft_Fee tx else 0)"
    unfolding b' by (rule payCopy_balance) (simp_all add: k(2,3) a(2,3) r)
qed

text \<open>
  C15: a transfer added to a block moves exactly its amount. When \<^verbatim>\<open>addFundsTx\<close> accepts a transaction of the
  expected counter from a sender that is not a root account to another account, the amount and the fee together do not
  exceed the maximum and the balances do not either, then the sender's copy has paid amount plus fee and the receiver's
  copy has got the amount as plain numbers, without wrapping, the receiver stays below the maximum, the counter is one
  up, and the transaction waits for the aggregation.
\<close>

theorem addFundsTx_exact:
  assumes "addFundsTx E V b tx w = Some (None, b', w')" "localAcc w b (ft_From tx) = Some s" "localAcc w b (ft_To tx) = Some r"
    "ft_TxCnt tx = acc_TxCnt s" "ft_From tx \<noteq> ft_To tx" "\<not> IsRootKey w (ft_From tx)" "payable tx"
    "acc_Balance s \<le> MAX_MONEY" "acc_Balance r \<le> MAX_MONEY"
  shows "\<exists>s' r' txs d. bl_StateCopy b' (ft_From tx) = Some s' \<and> bl_StateCopy b' (ft_To tx) = Some r' \<and>
    uint (acc_Balance s') = uint (acc_Balance s) - (uint (ft_Amount tx) + uint (ft_Fee tx)) \<and>
    uint (acc_Balance r') = uint (acc_Balance r) + uint (ft_Amount tx) \<and> acc_Balance r' \<le> MAX_MONEY \<and>
    acc_TxCnt s' = acc_TxCnt s + 1 \<and>
    FundsTxBeforeAggregation w' = txs @ [tx\<lparr>ft_Data := d\<rparr>] \<and> length txs = length (FundsTxBeforeAggregation w)"
proof -
  note a = addFundsTx_balances [OF assms(1-4)]
  obtain s' r' where sr: "bl_StateCopy b' (ft_From tx) = Some s'" "bl_StateCopy b' (ft_To tx) = Some r'" "acc_TxCnt s' = acc_TxCnt s + 1"
    "acc_Balance s' = acc_Balance s - (ft_Amount tx + ft_Fee tx)" "acc_Balance r' = acc_Balance r + ft_Amount tx"
    using a(3) assms(5) by auto
  have max: "uint MAX_MONEY = 9223372036854775807" by (simp add: MAX_MONEY_def)
  have pay: "uint (ft_Amount tx) + uint (ft_Fee tx) \<le> uint MAX_MONEY" using assms(7) by (simp add: payable_uint)
  then have sum: "uint (ft_Amount tx + ft_Fee tx) = uint (ft_Amount tx) + uint (ft_Fee tx)" using max by (simp add: uint_word_ariths)
  have "ft_Amount tx + ft_Fee tx \<le> acc_Balance s" using a(1) assms(6) by blast
  then have "uint (acc_Balance s') = uint (acc_Balance s) - (uint (ft_Amount tx) + uint (ft_Fee tx))"
    using sum by (simp add: sr(4) uint_sub_lem [THEN iffD1] word_le_def)
  moreover have "uint (acc_Balance r') = uint (acc_Balance r) + uint (ft_Amount tx)"
  proof -
    have "uint (acc_Balance r) \<le> uint MAX_MONEY" using assms(9) by (simp add: word_le_def)
    moreover have "0 \<le> uint (ft_Fee tx)" by simp
    ultimately have "uint (acc_Balance r) + uint (ft_Amount tx) < 18446744073709551616" using pay max by linarith
    then show ?thesis by (simp add: sr(5) uint_word_ariths)
  qed
  moreover have "acc_Balance r' \<le> MAX_MONEY" using a(2) sr(5) by simp
  ultimately show ?thesis using sr(1-3) a(4) by blast
qed

definition demo_paying :: "demo_db world" where
  "demo_paying = demo_world [demo_hash 9 \<mapsto> demo_acc 9 100 0 False, demo_hash 2 \<mapsto> demo_acc 2 7 0 False] []"

definition demo_copy :: Block where
  "demo_copy = (demo_block 3)\<lparr>bl_StateCopy := [demo_hash 9 \<mapsto> demo_acc 9 100 0 False, demo_hash 2 \<mapsto> demo_acc 2 7 0 False]\<rparr>"

lemma demo_copy_simps [simp]:
  "bl_StateCopy demo_copy (demo_hash 9) = Some (demo_acc 9 100 0 False)" "bl_StateCopy demo_copy (demo_hash 2) = Some (demo_acc 2 7 0 False)"
  by (simp_all add: demo_copy_def)

lemma demo_adds:
  "addFundsTx demo_E V demo_copy (demo_tx 9 2 5 1 0) demo_paying = Some (None, payCopy (demo_tx 9 2 5 1 0) demo_copy,
     WriteFundsTxBeforeAggregation (demo_tx 9 2 5 1 0) demo_paying)"
  by (simp add: addFundsTx_def copyAccount_def callContract_def IsRootKey_def demo_paying_def MAX_MONEY_def demo_tx_def ConstrFundsTx_def)

theorem addFundsTx_exact_witness:
  "\<exists>b' w' s' r'. addFundsTx demo_E demo_env demo_copy (demo_tx 9 2 5 1 0) demo_paying = Some (None, b', w') \<and>
     bl_StateCopy b' (demo_hash 9) = Some s' \<and> bl_StateCopy b' (demo_hash 2) = Some r' \<and> uint (acc_Balance s') = 94 \<and> uint (acc_Balance r') = 12"
  using addFundsTx_exact [OF demo_adds [of demo_env], of "demo_acc 9 100 0 False" "demo_acc 2 7 0 False"] demo_adds [of demo_env]
  by (auto simp: localAcc_def IsRootKey_def demo_paying_def payable_def MAX_MONEY_def)

text \<open>
  C8: what validators make of a transfer that a miner added. Suppose \<^verbatim>\<open>addFundsTx\<close> accepted a transaction of the expected
  counter whose sender is no root account, and a validator sees the same two accounts and root keys and has not closed the
  transaction yet. If the sender is staking and the transaction would leave it with less than the minimum stake, which the
  miner does not check, \<^verbatim>\<open>fundsStateChange\<close> rejects it. Otherwise it accepts, and leaves both accounts with
  the counters and balances of the miner's copy, except that the fee is still with the sender: it is collected later, by \<^verbatim>\<open>collectTxFees\<close>.
\<close>

theorem addFundsTx_validates:
  assumes "addFundsTx E V b tx w = Some (None, b', w')" "localAcc w b (ft_From tx) = Some s" "localAcc w b (ft_To tx) = Some r"
    "ft_TxCnt tx = acc_TxCnt s" "\<not> IsRootKey w (ft_From tx)"
    and "State v (ft_From tx) = Some s" "State v (ft_To tx) = Some r" "RootKeys v = RootKeys w"
    "world_Hash E v (TFunds tx) = Some h" "ReadClosedTx E v h = None"
  shows "if acc_IsStaking s \<and> ft_Fee tx + MIN_STAKING_MINIMUM + ft_Amount tx > acc_Balance s
    then fundsStateChange E False [tx] v = Some (Some StakingMinimumViolated, v)
    else \<exists>v' s' r' s1 r1. fundsStateChange E False [tx] v = Some (None, v') \<and>
      bl_StateCopy b' (ft_From tx) = Some s1 \<and> bl_StateCopy b' (ft_To tx) = Some r1 \<and>
      State v' (ft_From tx) = Some s' \<and> State v' (ft_To tx) = Some r' \<and>
      acc_TxCnt s' = acc_TxCnt s1 \<and> acc_TxCnt r' = acc_TxCnt r1 \<and> acc_Balance s' = acc_Balance s1 + ft_Fee tx \<and>
      acc_Balance r' = acc_Balance r1 + (if ft_To tx = ft_From tx then ft_Fee tx else 0)"
proof -
  note a = addFundsTx_balances [OF assms(1-4)]
  have "\<not> IsRootKey v (ft_From tx)" using assms(5,8) by (simp add: IsRootKey_def)
  note run = this assms(6,7,9,10) fundsStateChange_def fundsTxChange_def GetRootAccount_def GetAccount_def Let_def
  show ?thesis
  proof (cases "acc_IsStaking s \<and> ft_Fee tx + MIN_STAKING_MINIMUM + ft_Amount tx > acc_Balance s")
    case True
    then have "fundsTxError False tx s (Some r) = Some StakingMinimumViolated"
      using a(1,2) assms(4,5) by (simp add: fundsTxError_def add.commute not_less)
    then show ?thesis using True by (simp add: run)
  next
    case False
    then have "fundsTxError False tx s (Some r) = None"
      using a(1,2) assms(4,5) by (simp add: fundsTxError_def add.commute not_less)
    then have "fundsStateChange E False [tx] v = Some (None, updAcc (ft_To tx) (addBalance (ft_Amount tx))
        (updAcc (ft_From tx) (\<lambda>a. subBalance (ft_Amount tx) (a\<lparr>acc_TxCnt := acc_TxCnt a + 1\<rparr>)) v))"
      by (simp add: run)
    with a(3) False show ?thesis using assms(6,7) by (auto simp: updAcc_def)
  qed
qed

theorem addFundsTx_validates_witness:
  "\<exists>b' w' v'. addFundsTx demo_E demo_env demo_copy (demo_tx 9 2 5 1 0) demo_paying = Some (None, b', w') \<and>
     fundsStateChange demo_E False [demo_tx 9 2 5 1 0] demo_paying = Some (None, v')"
proof -
  have "world_Hash demo_E demo_paying (TFunds (demo_tx 9 2 5 1 0)) = Some zero_hash" by (simp add: world_Hash_def demo_paying_def)
  from addFundsTx_validates [OF demo_adds _ _ _ _ _ _ refl this, of "demo_acc 9 100 0 False" "demo_acc 2 7 0 False"] demo_adds [of demo_env]
  show ?thesis by (auto simp: localAcc_def IsRootKey_def demo_paying_def)
qed

subsection \<open>Updates\<close>

text \<open>The pool of open transactions files every transaction under its hash.\<close>

definition pool_keyed :: "'d env \<Rightarrow> 'd world \<Rightarrow> bool" where
  "pool_keyed E w \<longleftrightarrow> (\<forall>h t. txMemPool w h = Some t \<longrightarrow> world_Hash E w t = Some h)"

lemma pool_keyed_unique: "pool_keyed E w \<Longrightarrow> txMemPool w h = Some t \<Longrightarrow> txMemPool w k = Some t \<longleftrightarrow> k = h"
  unfolding pool_keyed_def by (metis option.inject)

text \<open>
  C14: an update of an open transaction keeps its hash. When the new check string is one that
  \<^verbatim>\<open>GenerateChCollision\<close> makes for the new data with the sender's trapdoor, \<^verbatim>\<open>updateLocalTx\<close> finds the funds
  transaction under its hash and stores it with the new data under the same hash; no other entry of the pool changes,
  so that every open transaction is still filed under its hash.
\<close>

theorem updateLocalTx_keeps_hash:
  assumes "odd p" "2 < p" "p \<le> 256 ^ 32" "x ^ (p - 1) mod p = 1 mod (p :: nat)"
    and "pool_keyed E w" "ReadOpenTx w h = Some (TFunds f)" "be_nat h < (p - 1) div 2"
    and "ChamMap w (ft_From f) = Some (keygen p x tk)" "ft_CheckString f = Some cs"
  shows "\<exists>cs' w'. GenerateChCollision (sha256 (crypto E)) k (keygen p x tk) cs (FundsTx_SHA3 (crypto E) f)
        (FundsTx_SHA3 (crypto E) (f\<lparr>ft_Data := d\<rparr>)) = Some cs' \<and>
     updateLocalTx E h (Some cs') d w = Some (True, w') \<and>
     txMemPool w' = (txMemPool w)(h \<mapsto> TFunds (f\<lparr>ft_Data := d, ft_CheckString := Some cs'\<rparr>)) \<and> pool_keyed E w'"
proof -
  let ?old = "FundsTx_SHA3 (crypto E) f" and ?new = "FundsTx_SHA3 (crypto E) (f\<lparr>ft_Data := d\<rparr>)"
  have pool: "txMemPool w h = Some (TFunds f)" using assms(6) by (simp add: ReadOpenTx_def)
  then have "world_Hash E w (TFunds f) = Some h" using assms(5) by (simp add: pool_keyed_def)
  then have "ChameleonHash (sha256 (crypto E)) (Some (keygen p x tk)) (Some cs) ?old = Some h"
    using assms(8,9) by (simp add: world_Hash_def FundsTx_Hash_def)
  from collision_correct [OF assms(1-4) this assms(7)]
  obtain cs' where cs': "GenerateChCollision (sha256 (crypto E)) k (keygen p x tk) cs ?old ?new = Some cs'"
    "ChameleonHash (sha256 (crypto E)) (Some (keygen p x tk)) (Some cs') ?new = Some h" by blast
  let ?t = "TFunds (f\<lparr>ft_Data := d, ft_CheckString := Some cs'\<rparr>)"
  have "FundsTx_SHA3 (crypto E) (f\<lparr>ft_Data := d, ft_CheckString := Some cs'\<rparr>) = ?new"
    by (simp add: FundsTx_SHA3_def FundsTx_content_def)
  then have h: "tx_Hash (crypto E) (ChamMap w) ?t = Some h"
    using cs'(2) assms(8) by (simp add: FundsTx_Hash_def)
  let ?w = "touch (TFunds f) ?t w"
  have t: "txMemPool ?w = (txMemPool w)(h \<mapsto> ?t)" "ChamMap ?w = ChamMap w"
    by (simp_all add: touch_def fun_eq_iff pool_keyed_unique [OF assms(5) pool])
  obtain w' where w': "updateLocalTx E h (Some cs') d w = Some (True, w')" "txMemPool w' = (txMemPool w)(h \<mapsto> ?t)" "ChamMap w' = ChamMap w"
    using h assms(6) t by (simp add: updateLocalTx_def WriteOpenTx_def WriteTxcntToTx_def world_Hash_def Let_def)
  then have "pool_keyed E w'" using h assms(5) by (auto simp: pool_keyed_def world_Hash_def)
  then show ?thesis using w' cs'(1) by blast
qed

theorem updateLocalTx_keeps_hash_witness:
  "\<exists>cs' w'. updateLocalTx demo_E zero_hash (Some cs') (Some [7]) (demo_paying\<lparr>txMemPool := [zero_hash \<mapsto> TFunds (demo_tx 9 2 5 1 0)]\<rparr>) = Some (True, w') \<and>
     txMemPool w' = [zero_hash \<mapsto> TFunds ((demo_tx 9 2 5 1 0)\<lparr>ft_Data := Some [7], ft_CheckString := Some cs'\<rparr>)]"
proof -
  let ?w = "demo_paying\<lparr>txMemPool := [zero_hash \<mapsto> TFunds (demo_tx 9 2 5 1 0)]\<rparr>"
  have w: "pool_keyed demo_E ?w" "ReadOpenTx ?w zero_hash = Some (TFunds (demo_tx 9 2 5 1 0))"
    "ChamMap ?w (ft_From (demo_tx 9 2 5 1 0)) = Some (keygen 23 2 3)" "ft_CheckString (demo_tx 9 2 5 1 0) = Some (NewCheckString 8 1)"
    by (simp_all add: pool_keyed_def ReadOpenTx_def world_Hash_def demo_paying_def) (simp_all add: demo_cham_def demo_tx_def ConstrFundsTx_def)
  have z: "be_nat zero_hash = 0" by (simp add: be_nat_zero_iff zero_hash_def)
  show ?thesis using updateLocalTx_keeps_hash [OF _ _ _ _ w(1,2) _ w(3,4), of 7 "Some [7]"] by (auto simp: z)
qed

end
