(* ===== verification/NetworkProps.thy ===== *)
theory NetworkProps
  imports Network BuildingProps
begin

text \<open>
  What messages from the network can do to a node: nothing but add to the pool of open transactions and to the stash of
  received blocks; a transaction is passed on once. The last part records the messages that end the process.
\<close>

subsection \<open>Effects on the state\<close>

text \<open>Only the open transactions and the stash have changed, and no open transaction is lost or replaced.\<close>

definition only_pools :: "'d world \<Rightarrow> 'd world \<Rightarrow> bool" where
  "only_pools w w' \<longleftrightarrow> txMemPool w \<subseteq>\<^sub>m txMemPool w' \<and>
     w' = w\<lparr>txMemPool := txMemPool w', TxcntToTxMap := TxcntToTxMap w', ReceivedBlockStash := ReceivedBlockStash w'\<rparr>"

lemma only_pools_refl [simp]: "only_pools w w"
  by (simp add: only_pools_def)

lemma sendData_keeps: "sendData p packet n = Some (ms, n') \<Longrightarrow> n' = n"
  by (auto simp: sendData_def split: if_splits)

lemma WriteOpenTx_keyed:
  assumes "WriteOpenTx E tx w = Some w'" "world_Hash E w tx = Some h" "ReadOpenTx w h = None" "pool_keyed E w"
  shows "pool_keyed E w'" "only_pools w w'" "ReadOpenTx w' h = Some tx" "ChamMap w' = ChamMap w" "db w' = db w"
proof -
  have w': "txMemPool w' = (txMemPool w)(h \<mapsto> tx)" "w' = w\<lparr>txMemPool := (txMemPool w)(h \<mapsto> tx), TxcntToTxMap := TxcntToTxMap w'\<rparr>"
    using assms(1,2) by (auto simp: WriteOpenTx_def WriteTxcntToTx_def world_Hash_def Let_def split: Transaction.splits)
  show "ChamMap w' = ChamMap w" "db w' = db w" by (subst w'(2), simp)+
  have st: "ReceivedBlockStash w' = ReceivedBlockStash w" by (subst w'(2), simp)
  show "pool_keyed E w'" using assms(2,4) \<open>ChamMap w' = ChamMap w\<close> by (auto simp: pool_keyed_def world_Hash_def w'(1))
  show "ReadOpenTx w' h = Some tx" by (simp add: ReadOpenTx_def w'(1))
  have "txMemPool w \<subseteq>\<^sub>m txMemPool w'" using assms(3) by (auto simp: map_le_def w'(1) ReadOpenTx_def)
  moreover have "w' = w\<lparr>txMemPool := txMemPool w', TxcntToTxMap := TxcntToTxMap w', ReceivedBlockStash := ReceivedBlockStash w'\<rparr>"
    unfolding w'(1) st by (rule trans [OF w'(2)]) (cases w, simp)
  ultimately show "only_pools w w'" unfolding only_pools_def by blast
qed

lemma processTxBrdcst_keeps:
  assumes "processTxBrdcst E G p payload t n = Some (ms, n')" "pool_keyed E (nworld n)"
  shows "only_pools (nworld n) (nworld n') \<and> pool_keyed E (nworld n')"
proof -
  consider "nworld n' = nworld n" | tx h where "world_Hash E (nworld n) tx = Some h" "ReadOpenTx (nworld n) h = None"
      "WriteOpenTx E tx (nworld n) = Some (nworld n')"
    using assms(1) by (auto simp: processTxBrdcst_def Let_def split: option.splits if_splits)
  then show ?thesis
  proof cases
    case 2
    then show ?thesis using WriteOpenTx_keyed [OF 2(3,1,2) assms(2)] by blast
  qed (use assms(2) in simp)
qed

lemma processNeighborRes_keeps: "processNeighborRes payload n = Some (ms, n') \<Longrightarrow> nworld n' = nworld n"
proof -
  have "nworld (fold (\<lambda>ipport n. if c ipport n then n\<lparr>iplistChan := iplistChan n @ [ipport]\<rparr> else n) ips n) = nworld n" for ips c and n :: "'a net"
    by (induction ips arbitrary: n) auto
  then show "processNeighborRes payload n = Some (ms, n') \<Longrightarrow> nworld n' = nworld n" by (auto simp: processNeighborRes_def)
qed

lemma forwardBlock_keeps:
  assumes "forwardBlockReqToMiner G payload n = Some (ms, n')" "pool_keyed E (nworld n)"
  shows "only_pools (nworld n) (nworld n') \<and> pool_keyed E (nworld n')"
  using assms
  by (auto simp: forwardBlockReqToMiner_def Let_def WriteToReceivedStash_def only_pools_def pool_keyed_def world_Hash_def split: if_splits)

lemma answers_keep:
  "txRes E G p payload t n = Some (ms, n') \<Longrightarrow> nworld n' = nworld n"
  "notFoundTxRes E G payload n = Some (ms, n') \<Longrightarrow> nworld n' = nworld n"
  "specialTxRes E G p payload n = Some (ms, n') \<Longrightarrow> nworld n' = nworld n"
  "blockRes E G p payload n = Some (ms, n') \<Longrightarrow> nworld n' = nworld n"
  "blockHeaderRes E G p payload n = Some (ms, n') \<Longrightarrow> nworld n' = nworld n"
  "accRes G p payload n = Some (ms, n') \<Longrightarrow> nworld n' = nworld n"
  "rootAccRes G p payload n = Some (ms, n') \<Longrightarrow> nworld n' = nworld n"
  "neighborRes p n = Some (ms, n') \<Longrightarrow> nworld n' = nworld n"
  "intermediateNodesRes E p payload n = Some (ms, n') \<Longrightarrow> nworld n' = nworld n"
  "pongRes p payload t n = Some (ms, n') \<Longrightarrow> nworld n' = nworld n"
  "processTimeRes p payload n = Some (ms, n') \<Longrightarrow> nworld n' = nworld n"
  by (auto simp: txRes_def notFoundTxRes_def specialTxRes_def blockRes_def blockHeaderRes_def accRes_def rootAccRes_def neighborRes_def
      intermediateNodesRes_def pongRes_def processTimeRes_def noteNotFound_def sendData_def Let_def split: if_splits option.splits prod.splits)

lemma forwardTx_keeps: "forwardTxReqToMiner E G payload t n = Some (ms, n') \<Longrightarrow> nworld n' = nworld n"
  by (auto simp: forwardTxReqToMiner_def forwardNew_def Let_def split: if_splits option.splits)

lemma processIncomingMsg_cases:
  assumes "processIncomingMsg E G p header payload n = Some (ms, n')"
  obtains "nworld n' = nworld n" | t where "processTxBrdcst E G p payload t n = Some (ms, n')" | "forwardBlockReqToMiner G payload n = Some (ms, n')"
  using assms unfolding processIncomingMsg_def Let_def
  by (auto simp: processBlockBrdcst_def split: if_splits dest: answers_keep processNeighborRes_keeps forwardTx_keeps)

lemma processIncomingMsg_only_pools:
  assumes "processIncomingMsg E G p header payload n = Some (ms, n')" "pool_keyed E (nworld n)"
  shows "only_pools (nworld n) (nworld n') \<and> pool_keyed E (nworld n')"
  using assms(1)
  by (cases rule: processIncomingMsg_cases) (use processTxBrdcst_keeps [OF _ assms(2)] forwardBlock_keeps [OF _ assms(2)] assms(2) in auto)

text \<open>
  C29: no message from a peer touches the ledger. Whatever type and payload a message has, if its handler returns then the
  accounts, the database, the parameters, the other pools and all else of the miner's state are as before, except that transactions
  may have been added to the open ones and blocks to the stash of received ones; every open transaction is still there
  and filed under its hash.
\<close>

theorem processIncomingMsg_keeps:
  assumes "processIncomingMsg E G p header payload n = Some (ms, n')" "pool_keyed E (nworld n)"
  shows "nworld n' = (nworld n)\<lparr>txMemPool := txMemPool (nworld n'), TxcntToTxMap := TxcntToTxMap (nworld n'),
      ReceivedBlockStash := ReceivedBlockStash (nworld n')\<rparr> \<and>
    (\<forall>h t. txMemPool (nworld n) h = Some t \<longrightarrow> txMemPool (nworld n') h = Some t) \<and> pool_keyed E (nworld n')"
proof -
  show ?thesis using processIncomingMsg_only_pools [OF assms] unfolding only_pools_def by (auto simp: map_le_def dom_def)
qed

definition demo_peer :: peer where
  "demo_peer = \<lparr>p_remoteAddr = of_string ''10.0.0.1:4000'', p_listenerPort = of_string ''8000'', p_time = 0, p_peerType = 1\<rparr>"

definition demo_net :: "'d world \<Rightarrow> 'd net" where
  "demo_net w = \<lparr>nworld = w, peer_at = (\<lambda>_. demo_peer), minerConns = [], clientConns = [], sendingMap = [], iplistChan = [],
     lastNotFoundTxWithHash = zero_hash, ReceivedFundsTXStash = [], ReceivedAggTxStash = [], ReceivedStakeTxStash = [],
     ReceivedAccTxStash = [], ReceivedUpdateTxStash = [], Ipport = of_string ''10.0.0.2:8000''\<rparr>"

definition demo_gob :: gob_env where
  "demo_gob = \<lparr>gobBytes = (\<lambda>_. []), gobFunds = (\<lambda>_. demo_tx 9 2 5 1 0), gobAcc = undefined, gobAgg = undefined, gobUpdate = undefined,
     gobBlock = (\<lambda>_. zero_block), bloomFilter = (\<lambda>_. [])\<rparr>"

lemma demo_broadcast:
  "processTxBrdcst demo_E demo_gob 0 [1] FUNDSTX_BRDCST (demo_net demo_paying) = Some ([Send 0 (BuildPacket TX_BRDCST_ACK []),
     MinerBrdcst (BuildPacket FUNDSTX_BRDCST [1])], (demo_net demo_paying)\<lparr>nworld := demo_paying\<lparr>txMemPool := [zero_hash \<mapsto> TFunds (demo_tx 9 2 5 1 0)],
       TxcntToTxMap := (TxcntToTxMap demo_paying)(0 := TxcntToTxMap demo_paying 0 @ [zero_hash])\<rparr>\<rparr>)"
  by (simp add: processTxBrdcst_def decodeTx_def demo_gob_def demo_net_def contains_def getAllPeers_def PEERTYPE_MINER_def demo_paying_def
      world_Hash_def ReadOpenTx_def WriteOpenTx_def WriteTxcntToTx_def Let_def)

theorem processIncomingMsg_keeps_witness:
  "\<exists>ms n'. processIncomingMsg demo_E demo_gob 0 \<lparr>hd_Len = 1, hd_TypeID = FUNDSTX_BRDCST\<rparr> [1] (demo_net demo_paying) = Some (ms, n') \<and>
     State (nworld n') = State demo_paying \<and> pool_keyed demo_E (nworld n')"
proof -
  have "pool_keyed demo_E (nworld (demo_net demo_paying))" by (simp add: pool_keyed_def demo_net_def demo_paying_def)
  moreover have "processIncomingMsg demo_E demo_gob 0 \<lparr>hd_Len = 1, hd_TypeID = FUNDSTX_BRDCST\<rparr> [1] (demo_net demo_paying) =
      processTxBrdcst demo_E demo_gob 0 [1] FUNDSTX_BRDCST (demo_net demo_paying)"
    by (simp add: processIncomingMsg_def)
  ultimately obtain ms n' where r: "processIncomingMsg demo_E demo_gob 0 \<lparr>hd_Len = 1, hd_TypeID = FUNDSTX_BRDCST\<rparr> [1] (demo_net demo_paying) = Some (ms, n')"
    and k: "pool_keyed demo_E (nworld (demo_net demo_paying))"
    using demo_broadcast by simp
  note keeps = processIncomingMsg_keeps [OF this]
  have "State (nworld n') = State (nworld (demo_net demo_paying))" using arg_cong [OF keeps [THEN conjunct1], of State] by simp
  then show ?thesis using r keeps by (auto simp: demo_net_def)
qed

subsection \<open>Broadcasts stop\<close>

lemma WriteOpenTx_read:
  assumes "WriteOpenTx E tx w = Some w'" and h: "world_Hash E w tx = Some h"
  shows "ReadOpenTx w' h = Some tx \<and> world_Hash E w' tx = Some h"
proof -
  have "txMemPool w' = (txMemPool w)(h \<mapsto> tx) \<and> ChamMap w' = ChamMap w"
    using assms by (cases tx) (auto simp: WriteOpenTx_def WriteTxcntToTx_def Let_def)
  then show ?thesis using h by (simp add: ReadOpenTx_def world_Hash_def)
qed

text \<open>Messages of any type, from any peers, one after the other.\<close>

inductive messages :: "'d env \<Rightarrow> gob_env \<Rightarrow> 'd net \<Rightarrow> 'd net \<Rightarrow> bool" for E G n where
  none: "messages E G n n"
| one_more: "messages E G n n1 \<Longrightarrow> processIncomingMsg E G p header payload n1 = Some (ms, n2) \<Longrightarrow> messages E G n n2"

lemma only_pools_trans: "only_pools w w1 \<Longrightarrow> only_pools w1 w2 \<Longrightarrow> only_pools w w2"
  unfolding only_pools_def
proof (intro conjI; elim conjE)
  assume w1: "w1 = w\<lparr>txMemPool := txMemPool w1, TxcntToTxMap := TxcntToTxMap w1, ReceivedBlockStash := ReceivedBlockStash w1\<rparr>"
    and w2: "w2 = w1\<lparr>txMemPool := txMemPool w2, TxcntToTxMap := TxcntToTxMap w2, ReceivedBlockStash := ReceivedBlockStash w2\<rparr>"
  show "w2 = w\<lparr>txMemPool := txMemPool w2, TxcntToTxMap := TxcntToTxMap w2, ReceivedBlockStash := ReceivedBlockStash w2\<rparr>"
    by (subst (1) w2, subst w1) simp
qed (rule map_le_trans)

lemma messages_only_pools:
  "messages E G n n' \<Longrightarrow> pool_keyed E (nworld n) \<Longrightarrow> only_pools (nworld n) (nworld n') \<and> pool_keyed E (nworld n')"
proof (induction rule: messages.induct)
  case (one_more n1 p header payload ms n2)
  then show ?case using processIncomingMsg_only_pools [OF one_more.hyps(2)] only_pools_trans by blast
qed simp

lemma only_pools_known:
  assumes "only_pools w w'" "world_Hash E w tx = Some h" "ReadOpenTx w h \<noteq> None \<or> ReadClosedTx E w h \<noteq> None"
  shows "world_Hash E w' tx = Some h \<and> (ReadOpenTx w' h \<noteq> None \<or> ReadClosedTx E w' h \<noteq> None)"
proof -
  obtain p t s where w': "w' = w\<lparr>txMemPool := p, TxcntToTxMap := t, ReceivedBlockStash := s\<rparr>" and le: "txMemPool w \<subseteq>\<^sub>m p"
    using assms(1) unfolding only_pools_def by metis
  have db: "db w' = db w" by (simp add: w')
  have "ReadClosedTx E w' h = ReadClosedTx E w h" by (simp only: ReadClosedTx_def db)
  moreover have "ReadOpenTx w h \<noteq> None \<longrightarrow> ReadOpenTx w' h \<noteq> None"
    using le by (force simp: ReadOpenTx_def w' map_le_def dom_def)
  ultimately show ?thesis using assms(2,3) by (auto simp: world_Hash_def w')
qed

lemma processTxBrdcst_known:
  assumes "processTxBrdcst E G p payload t n = Some (ms, n')" "decodeTx G payload t = Some tx"
  obtains h where "world_Hash E (nworld n') tx = Some h" "ReadOpenTx (nworld n') h \<noteq> None \<or> ReadClosedTx E (nworld n') h \<noteq> None"
proof -
  obtain h where h: "world_Hash E (nworld n) tx = Some h" using assms by (auto simp: processTxBrdcst_def Let_def split: option.splits)
  show thesis
  proof (cases "ReadOpenTx (nworld n) h \<noteq> None \<or> ReadClosedTx E (nworld n) h \<noteq> None")
    case True
    then have "n' = n" using assms h by (auto simp: processTxBrdcst_def Let_def)
    then show thesis using that True h by simp
  next
    case False
    then have "WriteOpenTx E tx (nworld n) = Some (nworld n')" using assms h by (auto simp: processTxBrdcst_def Let_def)
    then show thesis using that h by (simp add: WriteOpenTx_read)
  qed
qed

text \<open>
  C30: between two blocks a node passes a transaction on once. After a broadcast of a transaction was processed, and then any messages from
  any peers, the same broadcast from any peer is processed without panic, changes nothing and sends at most the acknowledgement to its
  sender: nothing goes to the other miners. (The miner itself may take the transaction out of the open ones while it prepares a block.)
\<close>

theorem processTxBrdcst_once:
  assumes "processTxBrdcst E G p payload t n = Some (ms, n1)" "pool_keyed E (nworld n)" "messages E G n1 n2"
  shows "\<exists>ack. processTxBrdcst E G q payload t n2 = Some (ack, n2) \<and> set ack \<subseteq> {Send q (BuildPacket TX_BRDCST_ACK [])}"
proof (cases "decodeTx G payload t")
  case (Some tx)
  obtain h where h: "world_Hash E (nworld n1) tx = Some h" "ReadOpenTx (nworld n1) h \<noteq> None \<or> ReadClosedTx E (nworld n1) h \<noteq> None"
    using processTxBrdcst_known [OF assms(1) Some] .
  have "pool_keyed E (nworld n1)" using processTxBrdcst_keeps [OF assms(1,2)] by simp
  then have "only_pools (nworld n1) (nworld n2)" using messages_only_pools [OF assms(3)] by simp
  from only_pools_known [OF this h] show ?thesis using Some by (auto simp: processTxBrdcst_def Let_def)
qed (use assms(1) in \<open>auto simp: processTxBrdcst_def split: if_splits\<close>)

theorem processTxBrdcst_once_witness:
  "\<exists>ms n1 ms2 n2 ack. processTxBrdcst demo_E demo_gob 0 [1] FUNDSTX_BRDCST (demo_net demo_paying) = Some (ms, n1) \<and>
     MinerBrdcst (BuildPacket FUNDSTX_BRDCST [1]) \<in> set ms \<and>
     processIncomingMsg demo_E demo_gob 3 \<lparr>hd_Len = 0, hd_TypeID = BLOCK_RES\<rparr> [] n1 = Some (ms2, n2) \<and>
     processTxBrdcst demo_E demo_gob 5 [1] FUNDSTX_BRDCST n2 = Some (ack, n2) \<and>
     MinerBrdcst (BuildPacket FUNDSTX_BRDCST [1]) \<notin> set ack"
proof -
  obtain ms n1 where 1: "processTxBrdcst demo_E demo_gob 0 [1] FUNDSTX_BRDCST (demo_net demo_paying) = Some (ms, n1)"
    "MinerBrdcst (BuildPacket FUNDSTX_BRDCST [1]) \<in> set ms"
    using demo_broadcast by simp
  obtain ms2 n2 where 2: "processIncomingMsg demo_E demo_gob 3 \<lparr>hd_Len = 0, hd_TypeID = BLOCK_RES\<rparr> [] n1 = Some (ms2, n2)"
    by (cases "forwardBlockReqToMiner demo_gob [] n1") (auto simp: processIncomingMsg_def forwardBlockReqToMiner_def Let_def split: if_splits)
  have "pool_keyed demo_E (nworld (demo_net demo_paying))" by (simp add: pool_keyed_def demo_net_def demo_paying_def)
  note once = processTxBrdcst_once [OF 1(1) this messages.one_more [OF messages.none 2], of 5]
  show ?thesis using 1 2 once by fastforce
qed

subsection \<open>Messages that end the process\<close>

text \<open>
  A peer can end the process with one message. A time of less than eight bytes is read out of range; a request for the
  header of an unknown block, or for the Merkle proof in one, dereferences nil; and a request of unknown kind for the hash of
  a transaction that is neither a funds nor an aggregation transaction makes \<^verbatim>\<open>sendData\<close> read the type of a nil packet.
\<close>

lemma processIncomingMsg_panics:
  "(length payload < 8 \<longrightarrow> processIncomingMsg E G p \<lparr>hd_Len = l, hd_TypeID = TIME_BRDCST\<rparr> payload n = None) \<and>
   (length payload = 64 \<and> requestedBlock E (nworld n) payload = None \<longrightarrow>
      processIncomingMsg E G p \<lparr>hd_Len = l, hd_TypeID = BLOCK_HEADER_REQ\<rparr> payload n = None \<and>
      processIncomingMsg E G p \<lparr>hd_Len = l, hd_TypeID = INTERMEDIATE_NODES_REQ\<rparr> payload n = None) \<and>
   (length payload = 32 \<and> findTx E (nworld n) payload = Some (TAcc tx) \<longrightarrow>
      processIncomingMsg E G p \<lparr>hd_Len = l, hd_TypeID = UNKNOWNTX_REQ\<rparr> payload n = None)"
  by (auto simp: processIncomingMsg_def processTimeRes_def blockHeaderRes_def intermediateNodesRes_def requestedBlock_def txRes_def
      txPacket_def sendData_def split: option.splits)

end
