(* ===== verification/ServicesProps.thy ===== *)
theory ServicesProps
  imports Services NetworkProps
begin

text \<open>
  The registry of peers and the queues of delayed messages: every connected miner gets a broadcast, and one that was away gets the
  messages it missed.
\<close>

subsection \<open>The registry\<close>

definition keyed_queues :: "'d net \<Rightarrow> bool" where
  "keyed_queues n \<longleftrightarrow> distinct (map fst (sendingMap n)) \<and> (\<forall>(ip, q, ms) \<in> set (sendingMap n). ip = getIPPort n q \<and> length ms \<le> 41)"

definition registered :: "'d net \<Rightarrow> nat \<Rightarrow> bool" where
  "registered n p \<longleftrightarrow> (case map_of (sendingMap n) (getIPPort n p) of Some (q, ms) \<Rightarrow> q = p | None \<Rightarrow> False)"

definition registry_ok :: "'d net \<Rightarrow> bool" where
  "registry_ok n \<longleftrightarrow> keyed_queues n \<and> distinct (map (getIPPort n) (minerConns n)) \<and> (\<forall>p \<in> set (minerConns n). registered n p)"

lemma getIPPort_updates [simp]:
  "getIPPort (n\<lparr>sendingMap := s\<rparr>) = getIPPort n" "getIPPort (n\<lparr>minerConns := c\<rparr>) = getIPPort n" "getIPPort (n\<lparr>clientConns := c\<rparr>) = getIPPort n"
  by (simp_all add: getIPPort_def fun_eq_iff)

lemma contains_queues [simp]: "contains (n\<lparr>sendingMap := s\<rparr>) = contains n"
  by (simp add: contains_def getAllPeers_def fun_eq_iff)

lemma keyed_iff:
  "keyed_queues n \<longleftrightarrow> distinct (map fst (sendingMap n)) \<and>
     (\<forall>k q ms. map_of (sendingMap n) k = Some (q, ms) \<longrightarrow> k = getIPPort n q \<and> length ms \<le> 41)"
  unfolding keyed_queues_def by (auto dest: map_of_SomeD)

lemma find_keyed:
  "distinct (map fst xs) \<Longrightarrow> \<forall>(k, q, ms) \<in> set xs. k = f q \<Longrightarrow>
   find (\<lambda>(ip, q, ms). f q = k) xs = map_option (\<lambda>(q, ms). (k, q, ms)) (map_of xs k)"
  by (induction xs) auto

text \<open>With queues filed under the addresses of their peers, the search of \<^verbatim>\<open>isConnectionAlreadyInSendingMap\<close> is a lookup.\<close>

lemma isConnectionAlready_keyed:
  assumes "keyed_queues n"
  shows "isConnectionAlreadyInSendingMap n p = (case map_of (sendingMap n) (getIPPort n p) of
     None \<Rightarrow> (False, False, n)
   | Some (q, ms) \<Rightarrow> if q \<noteq> p then (True, True, n\<lparr>sendingMap := AList.update (getIPPort n p) (p, ms) (sendingMap n)\<rparr>) else (True, False, n))"
proof -
  have "\<forall>(k, q, ms) \<in> set (sendingMap n). k = getIPPort n q" using assms by (auto simp: keyed_queues_def)
  with assms find_keyed [of "sendingMap n" "getIPPort n" "getIPPort n p"] show ?thesis
    by (auto simp: isConnectionAlreadyInSendingMap_def keyed_queues_def split: option.split)
qed

lemma keyed_update:
  "keyed_queues n \<Longrightarrow> length ms \<le> 41 \<Longrightarrow> keyed_queues (n\<lparr>sendingMap := AList.update (getIPPort n q) (q, ms) (sendingMap n)\<rparr>)"
  by (auto simp: keyed_iff distinct_update update_conv' split: if_splits)

definition queue_of :: "'d net \<Rightarrow> bytes \<Rightarrow> bytes list" where
  "queue_of n ip = (case map_of (sendingMap n) ip of Some (q, ms) \<Rightarrow> ms | None \<Rightarrow> [])"

lemma noteSender_keyed:
  assumes "keyed_queues n"
  obtains s where "noteSender p n = n\<lparr>sendingMap := s\<rparr>" "keyed_queues (n\<lparr>sendingMap := s\<rparr>)"
    "map_of s = (map_of (sendingMap n))(getIPPort n p \<mapsto> (p, queue_of n (getIPPort n p)))"
proof (cases "map_of (sendingMap n) (getIPPort n p)")
  case None
  show ?thesis
    by (rule that [of "AList.update (getIPPort n p) (p, []) (sendingMap n)"])
      (use None assms keyed_update [OF assms, of "[]" p] in
        \<open>simp_all add: noteSender_def isConnectionAlready_keyed update_conv' queue_of_def\<close>)
next
  case (Some v)
  obtain q ms where v: "v = (q, ms)" by (cases v)
  have len: "length ms \<le> 41" using assms Some v by (auto simp: keyed_iff)
  show ?thesis
  proof (cases "q = p")
    case True
    then have "noteSender p n = n" using Some v assms by (simp add: noteSender_def isConnectionAlready_keyed)
    then show ?thesis by (intro that [of "sendingMap n"]) (use Some v True assms in \<open>simp_all add: fun_upd_idem queue_of_def\<close>)
  next
    case False
    then have "noteSender p n = n\<lparr>sendingMap := AList.update (getIPPort n p) (p, ms) (sendingMap n)\<rparr>"
      using Some v assms by (simp add: noteSender_def isConnectionAlready_keyed)
    then show ?thesis
      by (rule that) (use Some v keyed_update [OF assms len] in \<open>simp_all add: update_conv' queue_of_def\<close>)
  qed
qed

lemma fold_noteSender:
  assumes "keyed_queues n" "distinct (map (getIPPort n) ps)"
  shows "\<exists>s. fold noteSender ps n = n\<lparr>sendingMap := s\<rparr> \<and> keyed_queues (n\<lparr>sendingMap := s\<rparr>) \<and>
    (\<forall>p \<in> set ps. map_of s (getIPPort n p) = Some (p, queue_of n (getIPPort n p))) \<and>
    (\<forall>k. k \<notin> getIPPort n ` set ps \<longrightarrow> map_of s k = map_of (sendingMap n) k)"
  using assms
proof (induction ps arbitrary: n)
  case Nil
  then show ?case by (intro exI [of _ "sendingMap n"]) simp
next
  case (Cons p ps)
  obtain s where s: "noteSender p n = n\<lparr>sendingMap := s\<rparr>" "keyed_queues (n\<lparr>sendingMap := s\<rparr>)"
    "map_of s = (map_of (sendingMap n))(getIPPort n p \<mapsto> (p, queue_of n (getIPPort n p)))"
    using noteSender_keyed [OF Cons.prems(1)] .
  have new: "\<forall>q \<in> set ps. getIPPort n q \<noteq> getIPPort n p" using Cons.prems(2) by (auto simp: image_iff)
  obtain s' where s': "fold noteSender ps (n\<lparr>sendingMap := s\<rparr>) = n\<lparr>sendingMap := s'\<rparr>" "keyed_queues (n\<lparr>sendingMap := s'\<rparr>)"
    "\<forall>q \<in> set ps. map_of s' (getIPPort n q) = Some (q, queue_of (n\<lparr>sendingMap := s\<rparr>) (getIPPort n q))"
    "\<forall>k. k \<notin> getIPPort n ` set ps \<longrightarrow> map_of s' k = map_of s k"
    using Cons.IH [OF s(2)] Cons.prems(2) by auto
  have "queue_of (n\<lparr>sendingMap := s\<rparr>) (getIPPort n q) = queue_of n (getIPPort n q)" if "q \<in> set ps" for q
    using new that s(3) by (simp add: queue_of_def)
  moreover have "map_of s' (getIPPort n p) = map_of s (getIPPort n p)" using s'(4) new by (metis imageE)
  ultimately show ?case using s(1,3) s' by (intro exI [of _ s']) auto
qed

lemma addPeer_conns:
  assumes "keyed_queues n" "distinct (map (getIPPort n) (minerConns n))"
  shows "registry_ok (addPeer p n)"
    "minerConns (addPeer p n) = (if p_peerType (peer_at n p) = PEERTYPE_MINER then p # filter (\<lambda>q. getIPPort n q \<noteq> getIPPort n p) (minerConns n) else minerConns n)"
    "getIPPort (addPeer p n) = getIPPort n"
    "p_peerType (peer_at n p) = PEERTYPE_MINER \<Longrightarrow> map_of (sendingMap (addPeer p n)) (getIPPort n p) = Some (p, queue_of n (getIPPort n p))"
proof -
  define n2 where "n2 = (let n1 = (if p_peerType (peer_at n p) = PEERTYPE_MINER
                then n\<lparr>minerConns := p # filter (\<lambda>q. getIPPort n q \<noteq> getIPPort n p) (minerConns n)\<rparr> else n)
      in if p_peerType (peer_at n p) = PEERTYPE_CLIENT then n1\<lparr>clientConns := List.insert p (clientConns n1)\<rparr> else n1)"
  have a: "addPeer p n = fold noteSender (minerConns n2) n2" by (simp add: addPeer_def n2_def Let_def)
  have n2: "getIPPort n2 = getIPPort n" "sendingMap n2 = sendingMap n" by (simp_all add: n2_def Let_def)
  have k: "keyed_queues n2" using assms(1) by (simp add: keyed_queues_def n2)
  have c: "minerConns n2 = (if p_peerType (peer_at n p) = PEERTYPE_MINER then p # filter (\<lambda>q. getIPPort n q \<noteq> getIPPort n p) (minerConns n) else minerConns n)"
    by (simp add: n2_def Let_def)
  have d: "distinct (map (getIPPort n2) (minerConns n2))" using assms(2) by (auto simp: n2 c distinct_map_filter)
  obtain s where s: "addPeer p n = n2\<lparr>sendingMap := s\<rparr>" "keyed_queues (n2\<lparr>sendingMap := s\<rparr>)"
    "\<forall>q \<in> set (minerConns n2). map_of s (getIPPort n q) = Some (q, queue_of n (getIPPort n q))"
    using fold_noteSender [OF k d] unfolding a by (auto simp: n2 queue_of_def)
  show "getIPPort (addPeer p n) = getIPPort n" by (simp add: s(1) n2)
  show "minerConns (addPeer p n) = (if p_peerType (peer_at n p) = PEERTYPE_MINER then p # filter (\<lambda>q. getIPPort n q \<noteq> getIPPort n p) (minerConns n) else minerConns n)"
    by (simp add: s(1) c)
  show "registry_ok (addPeer p n)" using s(2,3) d by (simp add: s(1) registry_ok_def registered_def n2)
  show "map_of (sendingMap (addPeer p n)) (getIPPort n p) = Some (p, queue_of n (getIPPort n p))"
    if "p_peerType (peer_at n p) = PEERTYPE_MINER" using s(3) that by (simp add: s(1) c)
qed

lemma deletePeer_ok: "registry_ok n \<Longrightarrow> registry_ok (deletePeer p n)"
  by (auto simp: deletePeer_def Let_def registry_ok_def keyed_queues_def registered_def distinct_map inj_on_def distinct_removeAll split: option.splits)

subsection \<open>A broadcast\<close>

text \<open>What a broadcast sends for an entry of \<^verbatim>\<open>sendingMap\<close>, and what it leaves.\<close>

type_synonym entry = "bytes \<times> nat \<times> bytes list"

definition entry_sent :: "'d net \<Rightarrow> (bytes \<Rightarrow> nat \<Rightarrow> bool) \<Rightarrow> bytes \<Rightarrow> entry \<Rightarrow> (nat \<times> bytes) list" where
  "entry_sent n full msg = (\<lambda>(ip, q, ms). if contains n ip PEERTYPE_MINER then map (Pair q) (msg # fst (drain (full ip) 0 ms ms)) else [])"

definition entry_left :: "'d net \<Rightarrow> (bytes \<Rightarrow> nat \<Rightarrow> bool) \<Rightarrow> bytes \<Rightarrow> entry \<Rightarrow> entry" where
  "entry_left n full msg = (\<lambda>(ip, q, ms). (ip, q, if contains n ip PEERTYPE_MINER then snd (drain (full ip) 0 ms ms) else store msg ms))"

lemma entry_apply:
  "entry_sent n full msg (ip, q, ms) = (if contains n ip PEERTYPE_MINER then map (Pair q) (msg # fst (drain (full ip) 0 ms ms)) else [])"
  "entry_left n full msg (ip, q, ms) = (ip, q, if contains n ip PEERTYPE_MINER then snd (drain (full ip) 0 ms ms) else store msg ms)"
  by (simp_all add: entry_sent_def entry_left_def)

lemma drain_length: "length (snd (drain full j ms queue)) \<le> length queue"
  by (induction full j ms queue rule: drain.induct) (auto split: prod.splits)

lemma drain_all: "drain (\<lambda>_. False) j ms (ms @ rest) = (ms, rest)"
  by (induction ms arbitrary: j) auto

text \<open>A message skipped because the channel was full is removed from the queue in place of the one that was sent.\<close>

lemma drain_skips: "drain (\<lambda>j. j = 0) 0 [m1, m2] [m1, m2] = ([m2], [m2])"
  by simp

lemma entry_left_keys: "fst (entry_left n full msg e) = fst e" "map fst (map (entry_left n full msg) es) = map fst es"
  by (auto simp: entry_left_def split: prod.split)

lemma update_middle: "k \<notin> fst ` set xs \<Longrightarrow> AList.update k v (xs @ (k, u) # ys) = xs @ (k, v) # ys"
  by (induction xs) auto

lemma map_of_middle: "k \<notin> fst ` set xs \<Longrightarrow> ((map_of ys)(k \<mapsto> u) ++ map_of xs) k = Some u"
  by (simp add: map_add_dom_app_simps dom_map_of_conv_image_fst)

lemma sendEntry_keyed:
  assumes "keyed_queues (n\<lparr>sendingMap := xs @ e # ys\<rparr>)"
  shows "sendEntry (full (fst e)) msg (fst e) (n\<lparr>sendingMap := xs @ e # ys\<rparr>) =
    Some (entry_sent n full msg e, n\<lparr>sendingMap := xs @ entry_left n full msg e # ys\<rparr>)"
proof -
  obtain ip q ms where e: "e = (ip, q, ms)" by (cases e)
  have new: "ip \<notin> fst ` set xs" and ip: "getIPPort n q = ip" using assms by (auto simp: keyed_queues_def e)
  show ?thesis
    unfolding e fst_conv sendEntry_def
    by (simp add: isConnectionAlready_keyed [OF assms [unfolded e]] map_of_middle [OF new] update_middle [OF new] ip Let_def
        entry_sent_def entry_left_def split: prod.split)
qed

lemma entry_left_keyed:
  assumes "keyed_queues (n\<lparr>sendingMap := xs @ e # ys\<rparr>)"
  shows "keyed_queues (n\<lparr>sendingMap := xs @ entry_left n full msg e # ys\<rparr>)"
proof -
  obtain ip q ms where e: "e = (ip, q, ms)" by (cases e)
  have "length ms \<le> 41" using assms by (auto simp: keyed_queues_def e)
  then have "length (snd (drain (full ip) 0 ms ms)) \<le> 41" "length (store msg ms) \<le> 41"
    using drain_length [of "full ip" 0 ms ms] by (auto simp: store_def)
  then show ?thesis using assms by (auto simp: keyed_queues_def e entry_left_def)
qed

text \<open>A broadcast handles the entries independently of each other.\<close>

lemma sendAndSearchMessages_exact:
  assumes "keyed_queues n"
  shows "sendAndSearchMessages full msg n = Some (concat (map (entry_sent n full msg) (sendingMap n)),
      n\<lparr>sendingMap := map (entry_left n full msg) (sendingMap n)\<rparr>) \<and>
    keyed_queues (n\<lparr>sendingMap := map (entry_left n full msg) (sendingMap n)\<rparr>)"
proof -
  have "in_turn (\<lambda>key. sendEntry (full key) msg key) (map fst ys) (n\<lparr>sendingMap := xs @ ys\<rparr>) =
      Some (concat (map (entry_sent n full msg) ys), n\<lparr>sendingMap := xs @ map (entry_left n full msg) ys\<rparr>) \<and>
    keyed_queues (n\<lparr>sendingMap := xs @ map (entry_left n full msg) ys\<rparr>)"
    if "keyed_queues (n\<lparr>sendingMap := xs @ ys\<rparr>)" for xs ys
    using that
  proof (induction ys arbitrary: xs)
    case (Cons e ys)
    have "keyed_queues (n\<lparr>sendingMap := (xs @ [entry_left n full msg e]) @ ys\<rparr>)" using entry_left_keyed [OF Cons.prems] by simp
    from Cons.IH [OF this] show ?case by (simp add: sendEntry_keyed [OF Cons.prems])
  qed simp
  from this [of "[]" "sendingMap n"] assms show ?thesis by (simp add: sendAndSearchMessages_def)
qed

lemma map_of_left:
  "map_of (map (entry_left n full msg) es) k = map_option (\<lambda>(q, ms). snd (entry_left n full msg (k, q, ms))) (map_of es k)"
  by (induction es) (auto simp: entry_apply)

lemma serve_registry:
  assumes "registry_ok n"
  shows "\<exists>sent n'. serve e n = Some (sent, n') \<and> registry_ok n'"
proof (cases e)
  case (Register p)
  have "registry_ok (addPeer p n)" by (rule addPeer_conns(1)) (use assms in \<open>simp_all add: registry_ok_def\<close>)
  then show ?thesis using Register by simp
next
  case (Disconnect p)
  then show ?thesis using assms deletePeer_ok by simp
next
  case (Broadcast full msg)
  have k: "keyed_queues n" using assms by (simp add: registry_ok_def)
  note x = sendAndSearchMessages_exact [OF k, of full msg]
  have "registered (n\<lparr>sendingMap := map (entry_left n full msg) (sendingMap n)\<rparr>) p" if "registered n p" for p
    using that by (auto simp: registered_def map_of_left entry_apply split: option.splits)
  then show ?thesis using x assms by (simp add: Broadcast registry_ok_def)
qed

lemma run_registry: "registry_ok n \<Longrightarrow> \<exists>sent n'. in_turn serve es n = Some (sent, n') \<and> registry_ok n'"
proof (induction es arbitrary: n)
  case (Cons e es)
  obtain sent n1 where n1: "serve e n = Some (sent, n1)" "registry_ok n1" using serve_registry [OF Cons.prems] by blast
  from Cons.IH [OF n1(2)] n1(1) show ?case by fastforce
qed simp

text \<open>
  C39: the registry of connections and the queues. After any registrations, disconnections and broadcasts since the start of the
  package, handled one after the other, none of which panics, the connected miners have different addresses and every queue holds
  at most 41 messages; a further broadcast writes its message to the channel of every connected miner, and nothing to a peer
  whose address has no connection.
\<close>

theorem broadcast_reaches_miners:
  assumes "minerConns n = []" "sendingMap n = []"
  shows "\<exists>sent n1 sent' n2. in_turn serve events n = Some (sent, n1) \<and> distinct (map (getIPPort n1) (minerConns n1)) \<and>
    (\<forall>(ip, q, ms) \<in> set (sendingMap n1). length ms \<le> 41) \<and> serve (Broadcast full msg) n1 = Some (sent', n2) \<and>
    (\<forall>p \<in> set (minerConns n1). (p, msg) \<in> set sent') \<and> (\<forall>(r, m) \<in> set sent'. contains n1 (getIPPort n1 r) PEERTYPE_MINER)"
proof -
  have "registry_ok n" using assms by (simp add: registry_ok_def keyed_queues_def)
  then obtain sent n1 where n1: "in_turn serve events n = Some (sent, n1)" "registry_ok n1" using run_registry by blast
  have k: "keyed_queues n1" using n1(2) by (simp add: registry_ok_def)
  have "(p, msg) \<in> set (concat (map (entry_sent n1 full msg) (sendingMap n1)))" if p: "p \<in> set (minerConns n1)" for p
  proof -
    obtain ms where "map_of (sendingMap n1) (getIPPort n1 p) = Some (p, ms)"
      using n1(2) p by (auto simp: registry_ok_def registered_def split: option.splits)
    then have e: "(getIPPort n1 p, p, ms) \<in> set (sendingMap n1)" by (rule map_of_SomeD)
    have "contains n1 (getIPPort n1 p) PEERTYPE_MINER" using p by (auto simp: contains_def getAllPeers_def list_ex_iff)
    then have "(p, msg) \<in> set (entry_sent n1 full msg (getIPPort n1 p, p, ms))" by (simp add: entry_apply)
    with e show ?thesis by (auto intro!: bexI [of _ "(getIPPort n1 p, p, ms)"])
  qed
  moreover have "\<forall>(r, m) \<in> set (concat (map (entry_sent n1 full msg) (sendingMap n1))). contains n1 (getIPPort n1 r) PEERTYPE_MINER"
    using k by (fastforce simp: keyed_queues_def entry_apply split: if_splits)
  moreover have "\<forall>(ip, q, ms) \<in> set (sendingMap n1). length ms \<le> 41" using k by (auto simp: keyed_queues_def)
  ultimately show ?thesis using n1 sendAndSearchMessages_exact [OF k, of full msg] by (auto simp: registry_ok_def)
qed

theorem broadcast_reaches_miners_witness:
  "\<exists>sent n1 sent' n2. in_turn serve [Register 0, Disconnect 0, Register 1] (demo_net demo_paying) = Some (sent, n1) \<and> minerConns n1 = [1] \<and>
    serve (Broadcast (\<lambda>_ _. True) [7]) n1 = Some (sent', n2) \<and> (1, [7]) \<in> set sent'"
proof -
  have start: "minerConns (demo_net demo_paying) = []" "sendingMap (demo_net demo_paying) = []" by (simp_all add: demo_net_def)
  have "minerConns n1 = [1]" if "in_turn serve [Register 0, Disconnect 0, Register 1] (demo_net demo_paying) = Some (sent, n1)" for sent n1
    using that by (auto simp: deletePeer_def Let_def keyed_queues_def getIPPort_def demo_net_def demo_peer_def PEERTYPE_MINER_def
        PEERTYPE_CLIENT_def addPeer_def noteSender_def isConnectionAlreadyInSendingMap_def)
  with broadcast_reaches_miners [OF start, of "[Register 0, Disconnect 0, Register 1]" "\<lambda>_ _. True" "[7]"]
  show ?thesis by fastforce
qed

subsection \<open>A peer that was away\<close>

lemma store_fold: "length old \<le> 41 \<Longrightarrow> fold store msgs old = drop (length (old @ msgs) - 41) (old @ msgs)"
proof (induction msgs arbitrary: old)
  case (Cons m msgs)
  have "length (store m old) \<le> 41" using Cons.prems by (auto simp: store_def)
  note ih = Cons.IH [OF this]
  show ?case
  proof (cases "length old = 41")
    case True
    then obtain x xs where "old = x # xs" "length xs = 40" by (cases old) auto
    then show ?thesis using ih by (simp add: store_def)
  next
    case False
    then show ?thesis using ih Cons.prems by (simp add: store_def)
  qed
qed simp

lemma away_run:
  assumes "keyed_queues n" "map_of (sendingMap n) ip = Some (q, old)" "\<not> contains n ip PEERTYPE_MINER"
  shows "\<exists>sent s. in_turn serve (map (Broadcast full) msgs) n = Some (sent, n\<lparr>sendingMap := s\<rparr>) \<and> keyed_queues (n\<lparr>sendingMap := s\<rparr>) \<and>
    map_of s ip = Some (q, fold store msgs old) \<and> (\<forall>(r, m) \<in> set sent. getIPPort n r \<noteq> ip)"
  using assms
proof (induction msgs arbitrary: n old)
  case Nil
  then show ?case by (intro exI [of _ "[]"] exI [of _ "sendingMap n"]) simp
next
  case (Cons m msgs)
  let ?s = "map (entry_left n full m) (sendingMap n)"
  note x = sendAndSearchMessages_exact [OF Cons.prems(1), of full m]
  have "map_of ?s ip = Some (q, store m old)" using Cons.prems(2,3) by (simp add: map_of_left entry_apply)
  then obtain sent s where s: "in_turn serve (map (Broadcast full) msgs) (n\<lparr>sendingMap := ?s\<rparr>) = Some (sent, n\<lparr>sendingMap := s\<rparr>)"
    "keyed_queues (n\<lparr>sendingMap := s\<rparr>)" "map_of s ip = Some (q, fold store msgs (store m old))" "\<forall>(r, m) \<in> set sent. getIPPort n r \<noteq> ip"
    using Cons.IH [of "n\<lparr>sendingMap := ?s\<rparr>" "store m old"] x Cons.prems(3) by auto
  have "\<forall>(r, m') \<in> set (concat (map (entry_sent n full m) (sendingMap n))). getIPPort n r \<noteq> ip"
    using Cons.prems(1,3) by (fastforce simp: keyed_queues_def entry_apply split: if_splits)
  with s(4) have "\<forall>(r, m') \<in> set (concat (map (entry_sent n full m) (sendingMap n)) @ sent). getIPPort n r \<noteq> ip" by auto
  then show ?case using s(1-3) x by (intro exI [of _ "concat (map (entry_sent n full m) (sendingMap n)) @ sent"] exI [of _ s]) simp
qed

lemma sent_to:
  assumes "distinct (map fst es)" "\<forall>(ip, q, ms) \<in> set es. ip = f q" "map_of es (f p) = Some (p, ms)"
  shows "filter (\<lambda>e. fst e = p) (concat (map (entry_sent n full msg) es)) = entry_sent n full msg (f p, p, ms)"
proof -
  have pairs: "filter (\<lambda>e. fst e = p) (map (Pair q) ms) = (if q = p then map (Pair q) ms else [])" for q and ms :: "bytes list"
    by (induction ms) auto
  have own: "filter (\<lambda>e. fst e = p) (entry_sent n full msg (ip, q, ms)) = (if q = p then entry_sent n full msg (ip, q, ms) else [])" for ip q ms
    by (simp add: entry_apply pairs del: list.map)
  have none: "filter (\<lambda>e. fst e = p) (concat (map (entry_sent n full msg) es)) = []" if "f p \<notin> fst ` set es" "\<forall>(ip, q, ms) \<in> set es. ip = f q" for es
    using that by (induction es) (auto simp: own)
  show ?thesis using assms
  proof (induction es)
    case (Cons e es)
    obtain ip q ms' where e: "e = (ip, q, ms')" by (cases e)
    have ip: "ip = f q" using Cons.prems(2) e by simp
    have es: "\<forall>(ip, q, ms) \<in> set es. ip = f q" using Cons.prems(2) by simp
    show ?case
    proof (cases "f q = f p")
      case True
      then have eq: "q = p" "ms' = ms" using Cons.prems(3) e ip by simp_all
      have "f p \<notin> fst ` set es" using Cons.prems(1) e ip eq(1) by simp
      then have "filter (\<lambda>e. fst e = p) (concat (map (entry_sent n full msg) es)) = []" using es by (rule none)
      then show ?thesis using e ip eq own [of ip p ms] by simp
    next
      case False
      then have "filter (\<lambda>e. fst e = p) (concat (map (entry_sent n full msg) es)) = entry_sent n full msg (f p, p, ms)"
        using Cons.IH Cons.prems(1,3) e ip es by simp
      then show ?thesis using e own [of ip q ms'] False by auto
    qed
  qed simp
qed

text \<open>
  C40: delayed messages. After any registrations, disconnections and broadcasts since the start of the package, handled one after the
  other, take an address that was registered before and has no connection. Further broadcasts send nothing to it and are queued;
  when a miner registers under the address again, even as a new peer, the next broadcast writes to its channel the new message
  followed by the last 41 messages queued, in their order, and leaves its queue empty, provided that the channel is never seen full.
\<close>

theorem delayed_delivery:
  assumes "minerConns n0 = []" "sendingMap n0 = []" "in_turn serve events n0 = Some (sent0, n)"
    and "map_of (sendingMap n) (getIPPort n p) = Some (q, old)" "\<not> contains n (getIPPort n p) PEERTYPE_MINER"
    and "p_peerType (peer_at n p) = PEERTYPE_MINER"
  shows "\<exists>sent n1 sent' n2. in_turn serve (map (Broadcast full) msgs) n = Some (sent, n1) \<and> (\<forall>(r, m) \<in> set sent. getIPPort n r \<noteq> getIPPort n p) \<and>
    in_turn serve [Register p, Broadcast (\<lambda>_ _. False) msg] n1 = Some (sent', n2) \<and>
    map snd (filter (\<lambda>e. fst e = p) sent') = msg # drop (length (old @ msgs) - 41) (old @ msgs) \<and>
    map_of (sendingMap n2) (getIPPort n p) = Some (p, [])"
proof -
  have "registry_ok n0" using assms(1,2) by (simp add: registry_ok_def keyed_queues_def)
  then have ok: "registry_ok n" using run_registry [of n0 events] assms(3) by fastforce
  then have k: "keyed_queues n" and len: "length old \<le> 41" using assms(4) by (auto simp: registry_ok_def keyed_iff)
  obtain sent s where s: "in_turn serve (map (Broadcast full) msgs) n = Some (sent, n\<lparr>sendingMap := s\<rparr>)" "keyed_queues (n\<lparr>sendingMap := s\<rparr>)"
    "map_of s (getIPPort n p) = Some (q, fold store msgs old)" "\<forall>(r, m) \<in> set sent. getIPPort n r \<noteq> getIPPort n p"
    using away_run [OF k assms(4,5)] by blast
  let ?n1 = "n\<lparr>sendingMap := s\<rparr>" and ?q = "drop (length (old @ msgs) - 41) (old @ msgs)"
  have "distinct (map (getIPPort ?n1) (minerConns ?n1))" using ok by (simp add: registry_ok_def)
  note a = addPeer_conns [OF s(2) this, of p]
  let ?a = "addPeer p ?n1"
  have q: "map_of (sendingMap ?a) (getIPPort ?a p) = Some (p, ?q)"
    using a(3,4) assms(6) s(3) store_fold [OF len, of msgs] by (simp add: queue_of_def)
  have k': "keyed_queues ?a" using a(1) by (simp add: registry_ok_def)
  have here: "contains ?a (getIPPort ?a p) PEERTYPE_MINER" using a(2) assms(6) by (simp add: contains_def getAllPeers_def)
  note x = sendAndSearchMessages_exact [OF k', of "\<lambda>_ _. False" msg]
  have "filter (\<lambda>e. fst e = p) (concat (map (entry_sent ?a (\<lambda>_ _. False) msg) (sendingMap ?a))) =
      entry_sent ?a (\<lambda>_ _. False) msg (getIPPort ?a p, p, ?q)"
    by (rule sent_to) (use k' q in \<open>auto simp: keyed_queues_def\<close>)
  also have "\<dots> = map (Pair p) (msg # ?q)" using here drain_all [of 0 ?q "[]"] by (simp add: entry_apply)
  finally have f: "map snd (filter (\<lambda>e. fst e = p) (concat (map (entry_sent ?a (\<lambda>_ _. False) msg) (sendingMap ?a)))) = msg # ?q" by (simp add: comp_def)
  have "map_of (map (entry_left ?a (\<lambda>_ _. False) msg) (sendingMap ?a)) (getIPPort ?a p) = Some (p, [])"
    using q here drain_all [of 0 ?q "[]"] by (simp add: map_of_left entry_apply)
  moreover have "in_turn serve [Register p, Broadcast (\<lambda>_ _. False) msg] ?n1 = Some (concat (map (entry_sent ?a (\<lambda>_ _. False) msg) (sendingMap ?a)),
      ?a\<lparr>sendingMap := map (entry_left ?a (\<lambda>_ _. False) msg) (sendingMap ?a)\<rparr>)" using x by simp
  moreover have "getIPPort ?a p = getIPPort n p" using a(3) by simp
  ultimately show ?thesis using s(1,4) f by (intro exI conjI) (assumption | simp)+
qed

theorem delayed_delivery_witness:
  "\<exists>sent0 n sent n1 sent' n2. in_turn serve [Register 0, Disconnect 0] (demo_net demo_paying) = Some (sent0, n) \<and>
    in_turn serve (map (Broadcast (\<lambda>_ _. True)) [[1], [2]]) n = Some (sent, n1) \<and>
    in_turn serve [Register 1, Broadcast (\<lambda>_ _. False) [3]] n1 = Some (sent', n2) \<and> map snd (filter (\<lambda>e. fst e = 1) sent') = [[3], [1], [2]]"
proof -
  let ?init = "demo_net demo_paying"
  let ?away = "?init\<lparr>sendingMap := [(getIPPort ?init 0, 0, [])]\<rparr>"
  have start: "minerConns ?init = []" "sendingMap ?init = []" by (simp_all add: demo_net_def)
  have run: "in_turn serve [Register 0, Disconnect 0] ?init = Some ([], ?away)"
    by (simp add: deletePeer_def Let_def getIPPort_def demo_net_def demo_peer_def PEERTYPE_MINER_def PEERTYPE_CLIENT_def
        addPeer_def noteSender_def isConnectionAlreadyInSendingMap_def)
  have h: "map_of (sendingMap ?away) (getIPPort ?away 1) = Some (0, [])" "\<not> contains ?away (getIPPort ?away 1) PEERTYPE_MINER"
    "p_peerType (peer_at ?away 1) = PEERTYPE_MINER"
    by (simp_all add: getIPPort_def contains_def getAllPeers_def demo_net_def demo_peer_def PEERTYPE_MINER_def)
  from delayed_delivery [OF start run h, of "\<lambda>_ _. True" "[[1], [2]]" "[3]"] run show ?thesis by fastforce
qed

end
