(* ===== verification/Aggregation.thy ===== *)
theory Aggregation
  imports Building
begin

text \<open>
  Aggregation of funds transactions: \<^verbatim>\<open>src/miner/block_aggregatetx.go\<close> without \<^verbatim>\<open>fetchAggTxData\<close>, and the sorting and counting
  helpers of \<^verbatim>\<open>src/miner/utils.go\<close>. The maps \<^verbatim>\<open>DifferentSenders\<close> and \<^verbatim>\<open>DifferentReceivers\<close> are association lists. Go
  iterates over a map in an order of its own at every loop; the argument \<open>it\<close> gives the order of the \<open>n\<close>-th iteration.
\<close>

type_synonym counts = "(hash \<times> u32) list"
type_synonym iteration = "nat \<Rightarrow> counts \<Rightarrow> counts"

subsection \<open>utils.go\<close>

definition getMaxKeyAndValueFormMap :: "counts \<Rightarrow> u32 \<times> hash" where
  "getMaxKeyAndValueFormMap m = fold (\<lambda>(k, v) (max, biggestK). if v > max then (v, k) else (max, biggestK)) m (0, zero_hash)"

fun multiSorter_Less :: "('a \<Rightarrow> 'a \<Rightarrow> bool) list \<Rightarrow> 'a \<Rightarrow> 'a \<Rightarrow> bool" where
  "multiSorter_Less [] p q = False"
| "multiSorter_Less [lt] p q = lt p q"
| "multiSorter_Less (lt # lt' # lts) p q = (if lt p q then True else if lt q p then False else multiSorter_Less (lt' # lts) p q)"

definition sortTxBeforeAggregation :: "FundsTx list \<Rightarrow> FundsTx list" where
  "sortTxBeforeAggregation = sort_by (multiSorter_Less
     [\<lambda>c1 c2. bytes_less (take 32 (ft_From c1)) (take 32 (ft_From c2)), \<lambda>c1 c2. ft_TxCnt c1 < ft_TxCnt c2])"

definition countKey :: "hash \<Rightarrow> counts \<Rightarrow> counts" where
  "countKey k m = AList.update k ((case map_of m k of None \<Rightarrow> 0 | Some c \<Rightarrow> c) + 1) m"

definition countKeys :: "hash list \<Rightarrow> counts" where
  "countKeys ks = fold countKey ks []"

subsection \<open>Historic transactions\<close>

text \<open>
  A loop over the transactions of a closed block: those of the sender or to the receiver that are not aggregated yet are
  collected and closed again as aggregated. The inner \<open>None\<close> is the early \<^verbatim>\<open>return nil\<close> at a transaction that is not
  closed; what was written before stays written.
\<close>

fun historicFunds :: "'d env \<Rightarrow> hash \<Rightarrow> hash \<Rightarrow> hash list \<Rightarrow> Transaction list \<Rightarrow> 'd world \<Rightarrow> (Transaction list option \<times> 'd world) option" where
  "historicFunds E s r [] acc w = Some (Some acc, w)"
| "historicFunds E s r (h # hs) acc w = (case ReadClosedTx E w h of
     None \<Rightarrow> Some (None, w)
   | Some (TFunds trx) \<Rightarrow>
       if \<not> ft_Aggregated trx \<and> (ft_From trx = s \<or> ft_To trx = r)
       then let trx' = TFunds (trx\<lparr>ft_Aggregated := True\<rparr>) in
         (case WriteClosedTx E trx' w of None \<Rightarrow> None | Some w' \<Rightarrow> historicFunds E s r hs (acc @ [trx']) w')
       else historicFunds E s r hs acc w
   | Some _ \<Rightarrow> None)"

text \<open>The first sender or receiver of an aggregation transaction; an empty list panics.\<close>

definition aggMatches :: "hash \<Rightarrow> hash \<Rightarrow> AggTx \<Rightarrow> bool option" where
  "aggMatches s r trx = (if gt_Aggregated trx then Some False
     else if gt_From trx = [] then None
     else if hd (gt_From trx) = s then Some True
     else if gt_To trx = [] then None
     else Some (hd (gt_To trx) = r))"

fun historicAggs :: "'d env \<Rightarrow> hash \<Rightarrow> hash \<Rightarrow> hash list \<Rightarrow> Transaction list \<Rightarrow> 'd world \<Rightarrow> (Transaction list option \<times> 'd world) option" where
  "historicAggs E s r [] acc w = Some (Some acc, w)"
| "historicAggs E s r (h # hs) acc w = (case ReadClosedTx E w h of
     None \<Rightarrow> Some (None, w)
   | Some (TAgg trx) \<Rightarrow> (case aggMatches s r trx of
       None \<Rightarrow> None
     | Some True \<Rightarrow> let trx' = TAgg (trx\<lparr>gt_Aggregated := True\<rparr>) in
         (case WriteClosedTx E trx' w of None \<Rightarrow> None | Some w' \<Rightarrow> historicAggs E s r hs (acc @ [trx']) w')
     | Some False \<Rightarrow> historicAggs E s r hs acc w)
   | Some _ \<Rightarrow> None)"

fun historicBlocks :: "'d env \<Rightarrow> hash \<Rightarrow> hash \<Rightarrow> Block list \<Rightarrow> Transaction list \<Rightarrow> 'd world \<Rightarrow> (Transaction list \<times> 'd world) option" where
  "historicBlocks E s r [] acc w = Some (acc, w)"
| "historicBlocks E s r (b # bs) acc w = (case historicFunds E s r (bl_FundsTxData b) acc w of
     None \<Rightarrow> None
   | Some (None, w1) \<Rightarrow> Some ([], w1)
   | Some (Some acc1, w1) \<Rightarrow> (case historicAggs E s r (bl_AggTxData b) acc1 w1 of
       None \<Rightarrow> None
     | Some (None, w2) \<Rightarrow> Some ([], w2)
     | Some (Some acc2, w2) \<Rightarrow> historicBlocks E s r bs acc2 w2))"

definition searchTransactionsInHistoricBlocks :: "'d env \<Rightarrow> hash \<Rightarrow> hash \<Rightarrow> 'd world \<Rightarrow> (Transaction list \<times> 'd world) option" where
  "searchTransactionsInHistoricBlocks E s r w = historicBlocks E s r (ReadAllClosedBlocksWithTransactions E w) [] w"

subsection \<open>AggregateTransactions\<close>

text \<open>
  When there are as many senders as receivers, the first closed transaction of the first sender or to the first receiver decides
  which of the two addresses is searched: \<open>Some None\<close> if there is none, \<open>None\<close> is a panic.
\<close>

fun keyInFunds :: "'d env \<Rightarrow> 'd world \<Rightarrow> hash list \<Rightarrow> hash list \<Rightarrow> hash list \<Rightarrow> (hash \<times> hash) option option" where
  "keyInFunds E w senders receivers [] = Some None"
| "keyInFunds E w senders receivers (h # hs) = (if senders = [] \<and> receivers = [] then keyInFunds E w senders receivers hs
     else case ReadClosedTx E w h of
       Some (TFunds trx) \<Rightarrow>
         if senders \<noteq> [] \<and> ft_From trx = hd senders then Some (Some (hd senders, zero_hash))
         else if receivers \<noteq> [] \<and> ft_To trx = hd receivers then Some (Some (zero_hash, hd receivers))
         else keyInFunds E w senders receivers hs
     | _ \<Rightarrow> None)"

fun keyInAggs :: "'d env \<Rightarrow> 'd world \<Rightarrow> hash list \<Rightarrow> hash list \<Rightarrow> hash list \<Rightarrow> (hash \<times> hash) option option" where
  "keyInAggs E w senders receivers [] = Some None"
| "keyInAggs E w senders receivers (h # hs) = (case ReadClosedTx E w h of
     None \<Rightarrow> keyInAggs E w senders receivers hs
   | Some (TAgg trx) \<Rightarrow>
       if length (gt_From trx) = 1 \<and> senders \<noteq> [] \<and> hd (gt_From trx) = hd senders then Some (Some (hd senders, zero_hash))
       else if length (gt_To trx) = 1 \<and> receivers \<noteq> [] \<and> hd (gt_To trx) = hd receivers then Some (Some (zero_hash, hd receivers))
       else keyInAggs E w senders receivers hs
   | Some _ \<Rightarrow> None)"

fun historicKey :: "'d env \<Rightarrow> 'd world \<Rightarrow> hash list \<Rightarrow> hash list \<Rightarrow> Block list \<Rightarrow> (hash \<times> hash) option option" where
  "historicKey E w senders receivers [] = Some None"
| "historicKey E w senders receivers (b # bs) = (case keyInFunds E w senders receivers (bl_FundsTxData b) of
     None \<Rightarrow> None
   | Some (Some k) \<Rightarrow> Some (Some k)
   | Some None \<Rightarrow> (case keyInAggs E w senders receivers (bl_AggTxData b) of
       None \<Rightarrow> None | Some (Some k) \<Rightarrow> Some (Some k) | Some None \<Rightarrow> historicKey E w senders receivers bs))"

definition historicTransactions :: "'d env \<Rightarrow> hash list \<Rightarrow> hash list \<Rightarrow> 'd world \<Rightarrow> (Transaction list \<times> 'd world) option" where
  "historicTransactions E senders receivers w =
     (let nrOfSenders = length (remdups senders); nrOfReceivers = length (remdups receivers) in
      if nrOfSenders = nrOfReceivers then
        (case historicKey E w senders receivers (ReadAllClosedBlocksWithTransactions E w) of
           None \<Rightarrow> None | Some None \<Rightarrow> Some ([], w) | Some (Some (s, r)) \<Rightarrow> searchTransactionsInHistoricBlocks E s r w)
      else if nrOfSenders < nrOfReceivers then searchTransactionsInHistoricBlocks E (hd senders) zero_hash w
      else searchTransactionsInHistoricBlocks E zero_hash (hd receivers) w)"

text \<open>The transactions are hashed and written to the open transactions.\<close>

fun openAll :: "'d env \<Rightarrow> FundsTx list \<Rightarrow> 'd world \<Rightarrow> (hash list \<times> 'd world) option" where
  "openAll E [] w = Some ([], w)"
| "openAll E (tx # txs) w = (case world_Hash E w (TFunds tx) of None \<Rightarrow> None | Some h \<Rightarrow>
     (case WriteOpenTx E (TFunds tx) w of None \<Rightarrow> None | Some w' \<Rightarrow> map_option (\<lambda>(hs, w''). (h # hs, w'')) (openAll E txs w')))"

text \<open>A list with one distinct entry is cut to it.\<close>

definition shorten :: "hash list \<Rightarrow> hash list" where
  "shorten ks = (if length (remdups ks) = 1 then take 1 ks else ks)"

text \<open>The first component of the result is false for the error of an empty list.\<close>

definition AggregateTransactions :: "'d env \<Rightarrow> FundsTx list \<Rightarrow> Block \<Rightarrow> 'd world \<Rightarrow> (bool \<times> Block \<times> 'd world) option" where
  "AggregateTransactions E txs b w =
     (case openAll E txs w of None \<Rightarrow> None | Some (hs, w1) \<Rightarrow>
      let senders = shorten (map ft_From txs); receivers = shorten (map ft_To txs) in
      (case historicTransactions E senders receivers w1 of None \<Rightarrow> None | Some (historic, w2) \<Rightarrow>
      (case those (map (world_Hash E w2) historic) of None \<Rightarrow> None | Some hs' \<Rightarrow>
        if length (hs @ hs') > 1 then
          (case ConstrAggTx (crypto E) (sum_list (map ft_Amount txs)) 0 senders receivers (hs @ hs') of
             None \<Rightarrow> None
           | Some aggTx \<Rightarrow> map_option (\<lambda>w3. (True, addAggTxFinal E aggTx b, w3)) (WriteOpenTx E (TAgg aggTx) w2))
        else (case txs of
            tx # _ \<Rightarrow> map_option (\<lambda>b'. (True, b', w2)) (addFundsTxFinal E w2 tx b)
          | [] \<Rightarrow> Some (False, b, w2)))))"

subsection \<open>Splitting\<close>

text \<open>The transactions of the most frequent sender or receiver, and the others.\<close>

definition pickGroup :: "iteration \<Rightarrow> nat \<Rightarrow> counts \<Rightarrow> counts \<Rightarrow> FundsTx list \<Rightarrow> FundsTx list \<times> FundsTx list" where
  "pickGroup it n senders receivers txs =
     (let (maxSender, addressSender) = getMaxKeyAndValueFormMap (it (2 * n) senders);
          (maxReceiver, addressReceiver) = getMaxKeyAndValueFormMap (it (2 * n + 1) receivers)
      in if maxSender \<ge> maxReceiver then partition (\<lambda>tx. ft_From tx = addressSender) txs
         else partition (\<lambda>tx. ft_To tx = addressReceiver) txs)"

text \<open>The loop. Its counter of rounds is without effect in the code, which sets the flag again after the test.\<close>

fun splitLoop :: "'d env \<Rightarrow> iteration \<Rightarrow> nat \<Rightarrow> nat \<Rightarrow> counts \<Rightarrow> counts \<Rightarrow> FundsTx list \<Rightarrow> Block \<Rightarrow> 'd world \<Rightarrow> (Block \<times> 'd world) run" where
  "splitLoop E it 0 n senders receivers txs b w = Running"
| "splitLoop E it (Suc fuel) n senders receivers txs b w =
     (case pickGroup it n senders receivers txs of (txToAggregate, rest) \<Rightarrow>
      let senders' = countKeys (map ft_From rest); receivers' = countKeys (map ft_To rest) in
      (case AggregateTransactions E txToAggregate b w of
         None \<Rightarrow> Crash
       | Some (ok, b', w') \<Rightarrow>
           if rest \<noteq> [] \<and> senders' \<noteq> [] \<and> receivers' \<noteq> []
           then splitLoop E it fuel (Suc n) senders' receivers' rest b' w'
           else Done (b', w')))"

definition splitSortedAggregatableTransactions :: "'d env \<Rightarrow> iteration \<Rightarrow> nat \<Rightarrow> counts \<Rightarrow> counts \<Rightarrow> Block \<Rightarrow> 'd world \<Rightarrow> (Block \<times> 'd world) run" where
  "splitSortedAggregatableTransactions E it fuel senders receivers b w =
     bind_run (splitLoop E it fuel 0 senders receivers (sortTxBeforeAggregation (FundsTxBeforeAggregation w)) b w)
       (\<lambda>(b', w'). Done (b', DeleteAllFundsTxBeforeAggregation w'))"

end
