(* ===== verification/Preparation.thy ===== *)
theory Preparation
  imports Aggregation Network
begin

text \<open>
  Preparation of a block: \<^verbatim>\<open>src/miner/blockpreparation.go\<close>. The open transactions are sorted and the ones that fit are chosen, missing
  counters of their senders are looked up or requested from the network, and the transactions are added to the block and aggregated.

  The order in which Go lists its maps and what the network answers are arguments. A slice is a list together with its length
  where the code shortens it while a loop still reads the array behind it. \<open>None\<close> and \<open>Crash\<close> are a panic.
\<close>

subsection \<open>Sorting\<close>

text \<open>\<^verbatim>\<open>openTxs.Less\<close>; the type assertion at its end panics on an update transaction.\<close>

definition openTxs_Less :: "Transaction \<Rightarrow> Transaction \<Rightarrow> bool option" where
  "openTxs_Less fi fj = (case fi of
     TAcc _ \<Rightarrow> Some True | TConfig _ \<Rightarrow> Some True | TStake _ \<Rightarrow> Some True | TAgg _ \<Rightarrow> Some True
   | _ \<Rightarrow> (case fj of
       TAcc _ \<Rightarrow> Some False | TConfig _ \<Rightarrow> Some False | TStake _ \<Rightarrow> Some False | TAgg _ \<Rightarrow> Some False
     | _ \<Rightarrow> (case (fi, fj) of (TFunds a, TFunds b) \<Rightarrow> Some (ft_TxCnt a < ft_TxCnt b) | _ \<Rightarrow> None)))"

definition sortOpenTxs :: "Transaction list \<Rightarrow> Transaction list option" where
  "sortOpenTxs txs = Sort openTxs_Less txs"

subsection \<open>Selection\<close>

definition TRANSACTION_HASH_SIZE :: int where "TRANSACTION_HASH_SIZE = 32"

text \<open>
  The state of the first loop of a round: the array behind \<^verbatim>\<open>openTxs\<close> and the length of the slice, the counter
  \<^verbatim>\<open>nonAggregatableTxCounter\<close>, the chosen transactions and the two maps of counters.
\<close>

record selection =
  se_arr :: "Transaction list"
  se_len :: nat
  nonAggregatableTxCounter :: nat
  TxToAppend :: "Transaction list"
  DifferentSenders :: counts
  DifferentReceivers :: counts

text \<open>\<^verbatim>\<open>openTxs = append(openTxs[:i], openTxs[i+1:]...)\<close>: the array is shifted in place, and what is behind it stays.\<close>

definition removeAt :: "nat \<Rightarrow> selection \<Rightarrow> selection option" where
  "removeAt i s = (if Suc i > se_len s then None
     else Some (s\<lparr>se_arr := take i (se_arr s) @ drop (Suc i) (take (se_len s) (se_arr s)) @ drop (se_len s - 1) (se_arr s), se_len := se_len s - 1\<rparr>))"

text \<open>
  The loop reads as many entries as the slice had before the first removal. The flag is true for the early return of
  \<^verbatim>\<open>checkBestCombination\<close>.
\<close>

fun scanOpenTxs :: "int \<Rightarrow> nat \<Rightarrow> nat \<Rightarrow> selection \<Rightarrow> (bool \<times> selection) option" where
  "scanOpenTxs blockSize i 0 s = Some (False, s)"
| "scanOpenTxs blockSize i (Suc k) s = (case se_arr s ! i of
     TFunds tx \<Rightarrow> scanOpenTxs blockSize (Suc i) k
       (s\<lparr>DifferentSenders := countKey (ft_From tx) (DifferentSenders s), DifferentReceivers := countKey (ft_To tx) (DifferentReceivers s)\<rparr>)
   | TAgg _ \<Rightarrow> scanOpenTxs blockSize (Suc i) k s
   | tx \<Rightarrow>
       if (int (nonAggregatableTxCounter s) + 1) * TRANSACTION_HASH_SIZE < blockSize then
         let s' = s\<lparr>nonAggregatableTxCounter := nonAggregatableTxCounter s + 1, TxToAppend := TxToAppend s @ [tx]\<rparr> in
         if i \<noteq> se_len s' then (case removeAt i s' of None \<Rightarrow> None | Some s'' \<Rightarrow> scanOpenTxs blockSize (Suc i) k s'')
         else scanOpenTxs blockSize (Suc i) k s'
       else Some (True, s))"

definition fundsWith :: "(FundsTx \<Rightarrow> bool) \<Rightarrow> Transaction list \<Rightarrow> Transaction list" where
  "fundsWith P txs = filter (\<lambda>tx. case tx of TFunds f \<Rightarrow> P f | _ \<Rightarrow> False) txs"

text \<open>The funds transactions of the most frequent sender or receiver, and the others; all other types are dropped.\<close>

definition pickOpen :: "iteration \<Rightarrow> nat \<Rightarrow> selection \<Rightarrow> Transaction list \<times> Transaction list" where
  "pickOpen it n s =
     (let (maxSender, addressSender) = getMaxKeyAndValueFormMap (it (2 * n) (DifferentSenders s));
          (maxReceiver, addressReceiver) = getMaxKeyAndValueFormMap (it (2 * n + 1) (DifferentReceivers s));
          txs = take (se_len s) (se_arr s)
      in if maxSender \<ge> maxReceiver
         then (fundsWith (\<lambda>f. ft_From f = addressSender) txs, fundsWith (\<lambda>f. ft_From f \<noteq> addressSender) txs)
         else (fundsWith (\<lambda>f. ft_To f = addressReceiver) txs, fundsWith (\<lambda>f. ft_To f \<noteq> addressReceiver) txs))"

function checkLoop :: "iteration \<Rightarrow> int \<Rightarrow> nat \<Rightarrow> Transaction list \<Rightarrow> selection \<Rightarrow> selection option" where
  "checkLoop it blockSize nrWhenCombinedBest openTxs s =
     (case scanOpenTxs blockSize 0 (length openTxs) (s\<lparr>se_arr := openTxs, se_len := length openTxs\<rparr>) of
        None \<Rightarrow> None
      | Some (True, s1) \<Rightarrow> Some s1
      | Some (False, s1) \<Rightarrow> (case pickOpen it nrWhenCombinedBest s1 of (chosen, rest) \<Rightarrow>
          let s2 = s1\<lparr>DifferentSenders := [], DifferentReceivers := []\<rparr>; nr = nrWhenCombinedBest + 1 in
          if (int nr + int (nonAggregatableTxCounter s2)) * TRANSACTION_HASH_SIZE \<ge> blockSize then Some s2
          else let s3 = s2\<lparr>TxToAppend := TxToAppend s2 @ chosen\<rparr> in
            if rest \<noteq> [] then checkLoop it blockSize nr rest s3 else Some s3))"
  by pat_completeness auto
termination
  by (relation "measure (\<lambda>(it, blockSize, nr, openTxs, s). nat (blockSize - int nr * TRANSACTION_HASH_SIZE))")
    (auto simp: TRANSACTION_HASH_SIZE_def)

declare checkLoop.simps [simp del]

definition noSelection :: selection where
  "noSelection = \<lparr>se_arr = [], se_len = 0, nonAggregatableTxCounter = 0, TxToAppend = [], DifferentSenders = [], DifferentReceivers = []\<rparr>"

definition checkBestCombination :: "iteration \<Rightarrow> int \<Rightarrow> Transaction list \<Rightarrow> selection option" where
  "checkBestCombination it blockSize openTxs = checkLoop it blockSize 0 openTxs noSelection"

subsection \<open>Missing counters\<close>

text \<open>The map \<^verbatim>\<open>missingTxCntSender\<close>: the highest counter seen and the missing ones of each sender.\<close>

type_synonym missing_map = "(hash \<times> u32 \<times> u32 list) list"

definition gap :: "u32 \<Rightarrow> u32 \<Rightarrow> u32 list" where
  "gap txcnt limit = concat (map (\<lambda>i. if i = 1 then [0, 1] else [word_of_nat i]) [unat (txcnt + 1)..<unat limit])"

definition noteMissing :: "'d world \<Rightarrow> Transaction \<Rightarrow> missing_map \<Rightarrow> missing_map" where
  "noteMissing w tx m = (case tx of TFunds trx \<Rightarrow>
     (let m1 = (case (map_of m (ft_From trx), State w (ft_From trx)) of
                  (None, Some acc) \<Rightarrow> AList.update (ft_From trx) (if acc_TxCnt acc = 0 then 0 else acc_TxCnt acc - 1, []) m | _ \<Rightarrow> m)
      in case map_of m1 (ft_From trx) of
           None \<Rightarrow> m1
         | Some (txcnt, missing) \<Rightarrow> AList.update (ft_From trx)
             (if ft_TxCnt trx > txcnt then ft_TxCnt trx else txcnt, missing @ gap txcnt (ft_TxCnt trx)) m1)
   | _ \<Rightarrow> m)"

text \<open>The answer to a request: no connection, a transaction from the channel, or none in time and then the stash.\<close>

datatype special_reply = NotSent | Arrived FundsTx | TimedOut "FundsTx list"

definition fetchMissing :: "'d env \<Rightarrow> (hash \<Rightarrow> u32 \<Rightarrow> special_reply) \<Rightarrow> hash \<Rightarrow> u32 \<Rightarrow> 'd world \<Rightarrow> (Transaction option \<times> 'd world) option" where
  "fetchMissing E net sender txcnt w = (case searchTxcnt E w sender (ReadTxcntToTx w txcnt) of
     Some tx \<Rightarrow> Some (Some tx, w)
   | None \<Rightarrow> (case net sender txcnt of
       NotSent \<Rightarrow> Some (None, w)
     | Arrived trx \<Rightarrow>
         if ft_TxCnt trx \<noteq> txcnt \<and> ft_From trx \<noteq> sender then Some (None, w)
         else map_option (\<lambda>w'. (Some (TFunds trx), w')) (WriteOpenTx E (TFunds trx) w)
     | TimedOut stash \<Rightarrow> (case find (\<lambda>trx. ft_From trx = sender \<and> ft_TxCnt trx = txcnt) stash of
         None \<Rightarrow> Some (None, w)
       | Some trx \<Rightarrow> map_option (\<lambda>w'. (Some (TFunds trx), w')) (WriteOpenTx E (TFunds trx) w))))"

text \<open>
  The missing counters of one sender. A block that arrives meanwhile ends the loop; \<open>blockIn\<close> tells whether
  \<^verbatim>\<open>receivedBlockInTheMeantime\<close> is set when a counter is looked up, or, without a counter, after the sender.
\<close>

fun fetchCounters :: "'d env \<Rightarrow> (hash \<Rightarrow> u32 \<Rightarrow> special_reply) \<Rightarrow> (hash \<Rightarrow> u32 option \<Rightarrow> bool) \<Rightarrow> hash \<Rightarrow> u32 list \<Rightarrow> 'd world \<Rightarrow> (Transaction list \<times> 'd world) option" where
  "fetchCounters E net blockIn sender [] w = Some ([], w)"
| "fetchCounters E net blockIn sender (c # cs) w = (if blockIn sender (Some c) then Some ([], w)
     else case fetchMissing E net sender c w of None \<Rightarrow> None | Some (tx, w1) \<Rightarrow>
       map_option (\<lambda>(txs, w2). ((case tx of None \<Rightarrow> txs | Some t \<Rightarrow> t # txs), w2)) (fetchCounters E net blockIn sender cs w1))"

definition limitMissing :: "u64 \<Rightarrow> u32 list \<Rightarrow> u32 list option" where
  "limitMissing interval cs = (if int (length cs) > sint interval then (if sint interval < 0 then None else Some (take (nat (sint interval)) cs)) else Some cs)"

fun fetchSenders :: "'d env \<Rightarrow> (hash \<Rightarrow> u32 \<Rightarrow> special_reply) \<Rightarrow> (hash \<Rightarrow> u32 option \<Rightarrow> bool) \<Rightarrow> missing_map \<Rightarrow> 'd world \<Rightarrow> (Transaction list \<times> 'd world) option" where
  "fetchSenders E net blockIn [] w = Some ([], w)"
| "fetchSenders E net blockIn ((sender, txcnt, missing) # m) w = (case limitMissing (BlockInterval (activeParameters w)) missing of None \<Rightarrow> None | Some cs \<Rightarrow>
     (case fetchCounters E net blockIn sender cs w of None \<Rightarrow> None | Some (txs, w1) \<Rightarrow>
        if blockIn sender None then Some (txs, w1)
        else map_option (\<lambda>(txs', w2). (txs @ txs', w2)) (fetchSenders E net blockIn m w1)))"

subsection \<open>prepareBlock\<close>

text \<open>
  What the pointer to a transaction shows after \<^verbatim>\<open>addTx\<close> has returned an error: the verification overwrites the account of a staking
  transaction, a contract that fails may have written to the data of its call.
\<close>

definition fundsAfter :: "'d env \<Rightarrow> vm_env \<Rightarrow> Block \<Rightarrow> FundsTx \<Rightarrow> 'd world \<Rightarrow> FundsTx" where
  "fundsAfter E V b tx w = (case Option.bind (copyAccount E w (ft_From tx) b) (copyAccount E w (ft_To tx)) of
     None \<Rightarrow> tx | Some b' \<Rightarrow> (case callContract V tx b' w of Some (msg, tx', b'', w') \<Rightarrow> tx' | None \<Rightarrow> tx))"

definition txAfter :: "'d env \<Rightarrow> vm_env \<Rightarrow> miner_config \<Rightarrow> Block \<Rightarrow> Transaction \<Rightarrow> 'd world \<Rightarrow> add_error \<Rightarrow> Transaction" where
  "txAfter E V cfg b tx w e = (case e of
     FeeTooLow \<Rightarrow> tx
   | ContractFailed _ \<Rightarrow> (case tx of TFunds f \<Rightarrow> TFunds (fundsAfter E V b f w) | _ \<Rightarrow> tx)
   | _ \<Rightarrow> (case verify E cfg w tx of Some (ok, tx') \<Rightarrow> tx' | None \<Rightarrow> tx))"

fun addAll :: "'d env \<Rightarrow> vm_env \<Rightarrow> miner_config \<Rightarrow> Transaction list \<Rightarrow> Block \<Rightarrow> 'd world \<Rightarrow> (Block \<times> 'd world) option" where
  "addAll E V cfg [] b w = Some (b, w)"
| "addAll E V cfg (tx # txs) b w = (case addTx E V cfg b tx w of
     None \<Rightarrow> None
   | Some (None, b', w') \<Rightarrow> addAll E V cfg txs b' w'
   | Some (Some e, b', w') \<Rightarrow> (case DeleteOpenTx E (txAfter E V cfg b tx w e) w' of None \<Rightarrow> None | Some w'' \<Rightarrow> addAll E V cfg txs b' w''))"

definition blockSpace :: "Parameters \<Rightarrow> int" where
  "blockSpace p = sint (BlockSize p) - (FixedSpace p + BloomFilterSize p)"

text \<open>
  \<open>opentxs\<close> lists the pools of open and invalid transactions, \<open>order\<close> is the order in which the senders with missing counters are
  listed, and \<open>fuel\<close> bounds the rounds of the aggregation.
\<close>

definition prepareBlock :: "'d env \<Rightarrow> vm_env \<Rightarrow> miner_config \<Rightarrow> iteration \<Rightarrow> (missing_map \<Rightarrow> missing_map) \<Rightarrow> (hash \<Rightarrow> u32 \<Rightarrow> special_reply) \<Rightarrow>
    (hash \<Rightarrow> u32 option \<Rightarrow> bool) \<Rightarrow> nat \<Rightarrow> Transaction list \<Rightarrow> Block \<Rightarrow> 'd world \<Rightarrow> (Block \<times> 'd world) run" where
  "prepareBlock E V cfg it order net blockIn fuel opentxs b w =
     (case sortOpenTxs opentxs of None \<Rightarrow> Crash | Some tmpCopy \<Rightarrow>
     (case checkBestCombination it (blockSpace (activeParameters w)) tmpCopy of None \<Rightarrow> Crash | Some s \<Rightarrow>
      let w1 = w\<lparr>FundsTxBeforeAggregation := []\<rparr> in
     (case fetchSenders E net blockIn (order (fold (noteMissing w1) (TxToAppend s) [])) w1 of None \<Rightarrow> Crash | Some (missing, w2) \<Rightarrow>
     (case sortOpenTxs (TxToAppend s @ missing) of None \<Rightarrow> Crash | Some opentxToAdd \<Rightarrow>
     (case addAll E V cfg opentxToAdd b w2 of None \<Rightarrow> Crash | Some (b', w3) \<Rightarrow>
        if FundsTxBeforeAggregation w3 = [] then Done (b', w3)
        else splitSortedAggregatableTransactions E it fuel (DifferentSenders s) (DifferentReceivers s) b' w3)))))"

end
