(* ===== verification/Fetching.thy ===== *)
theory Fetching
  imports Building
begin

text \<open>
  Fetching the transactions of a block: \<^verbatim>\<open>src/miner/fetch_transactions.go\<close> and the fetch functions of the files
  \<^verbatim>\<open>src/miner/block_*tx.go\<close>. A transaction is looked up in the closed and open transactions and requested from the network
  otherwise.

  What the network answers to a request is an argument, so that every interleaving of answers is covered. The six goroutines run
  one after the other here; the errors they send are collected, and the result is an error if there is one (which of several
  errors is returned depends on the scheduler). \<open>None\<close> and \<open>Crash\<close> are a panic.
\<close>

datatype fetch_error = AlreadyInBlock | TxNotRead | FetchTimeout | WrongTxHash

text \<open>No connection, an answer from the channel, or none in time and then the transactions of the stash.\<close>

datatype 'a answer = Unsent | Answered 'a | Expired "'a list"

text \<open>A request of unknown kind is answered on one of two channels.\<close>

datatype unknown_answer = UUnsent | GotAgg AggTx | GotFunds FundsTx | UExpired "AggTx list" "FundsTx list"

text \<open>The network, for each kind of request; requests that are repeated carry the number of the try.\<close>

record fetch_net =
  accNet :: "hash \<Rightarrow> AccTx answer"
  fundsNet :: "hash \<Rightarrow> FundsTx answer"
  configNet :: "hash \<Rightarrow> ConfigTx answer"
  stakeNet :: "hash \<Rightarrow> StakeTx answer"
  updateNet :: "hash \<Rightarrow> UpdateTx answer"
  aggNet :: "nat \<Rightarrow> hash \<Rightarrow> AggTx answer"
  unknownNet :: "nat \<Rightarrow> hash \<Rightarrow> unknown_answer"

text \<open>The search of a stash hashes its transactions one after the other.\<close>

fun findHashed :: "('a \<Rightarrow> hash option) \<Rightarrow> 'a list \<Rightarrow> hash \<Rightarrow> 'a option option" where
  "findHashed hash [] h = Some None"
| "findHashed hash (t # ts) h = (case hash t of None \<Rightarrow> None | Some k \<Rightarrow> if k = h then Some (Some t) else findHashed hash ts h)"

subsection \<open>Account, configuration, staking and update transactions\<close>

text \<open>
  The four functions differ in the type, and in whether a timeout ends the loop: for account and update transactions it does
  not, and the nil transaction, whose hash is zero, stays in the slice. The errors come with the transactions put into the slice, which has \<open>room\<close> entries
  left; an index beyond panics.
\<close>

fun fetchPlain :: "(Transaction \<Rightarrow> 'a option) \<Rightarrow> ('a \<Rightarrow> hash option) \<Rightarrow> bool \<Rightarrow> (hash \<Rightarrow> 'a answer) \<Rightarrow> 'd env \<Rightarrow> 'd world \<Rightarrow> bool \<Rightarrow> nat \<Rightarrow> hash list \<Rightarrow>
    (fetch_error list \<times> 'a list) option" where
  "fetchPlain cast hash onTimeout net E w initialSetup room [] = Some ([], [])"
| "fetchPlain cast hash onTimeout net E w initialSetup room (txHash # hs) =
     (let put = (\<lambda>es t. if room = 0 then None
            else map_option (\<lambda>(es', ts). (es @ es', t # ts)) (fetchPlain cast hash onTimeout net E w initialSetup (room - 1) hs))
      in case ReadClosedTx E w txHash of
           Some closedTx \<Rightarrow> if initialSetup then Option.bind (cast closedTx) (put []) else Some ([AlreadyInBlock], [])
         | None \<Rightarrow> (case ReadOpenTx w txHash of
             Some tx \<Rightarrow> Option.bind (cast tx) (put [])
           | None \<Rightarrow> (case net txHash of
               Unsent \<Rightarrow> Some ([TxNotRead], [])
             | Answered t \<Rightarrow> (case hash t of None \<Rightarrow> None | Some k \<Rightarrow> put (if k \<noteq> txHash then [WrongTxHash] else []) t)
             | Expired stash \<Rightarrow> if onTimeout then Some ([FetchTimeout], [])
                 else if room = 0 then None
                 else map_option (\<lambda>(es, ts). (FetchTimeout # (if txHash \<noteq> zero_hash then [WrongTxHash] else []) @ es, ts)) (fetchPlain cast hash onTimeout net E w initialSetup (room - 1) hs))))"

definition fetchAccTxData :: "fetch_net \<Rightarrow> 'd env \<Rightarrow> 'd world \<Rightarrow> bool \<Rightarrow> Block \<Rightarrow> (fetch_error list \<times> AccTx list) option" where
  "fetchAccTxData N E w initialSetup b = fetchPlain asAcc (AccTx_Hash (crypto E)) False (accNet N) E w initialSetup (unat (bl_NrAccTx b)) (bl_AccTxData b)"

definition fetchConfigTxData :: "fetch_net \<Rightarrow> 'd env \<Rightarrow> 'd world \<Rightarrow> bool \<Rightarrow> Block \<Rightarrow> (fetch_error list \<times> ConfigTx list) option" where
  "fetchConfigTxData N E w initialSetup b =
     fetchPlain asConfig (\<lambda>t. Some (ConfigTx_Hash (crypto E) t)) True (configNet N) E w initialSetup (unat (bl_NrConfigTx b)) (bl_ConfigTxData b)"

definition fetchStakeTxData :: "fetch_net \<Rightarrow> 'd env \<Rightarrow> 'd world \<Rightarrow> bool \<Rightarrow> Block \<Rightarrow> (fetch_error list \<times> StakeTx list) option" where
  "fetchStakeTxData N E w initialSetup b =
     fetchPlain asStake (\<lambda>t. Some (StakeTx_Hash (crypto E) t)) True (stakeNet N) E w initialSetup (unat (bl_NrStakeTx b)) (bl_StakeTxData b)"

fun asUpdate :: "Transaction \<Rightarrow> UpdateTx option" where
  "asUpdate (TUpdate u) = Some u" | "asUpdate _ = None"

definition fetchUpdateTxData :: "fetch_net \<Rightarrow> 'd env \<Rightarrow> 'd world \<Rightarrow> bool \<Rightarrow> Block \<Rightarrow> (fetch_error list \<times> UpdateTx list) option" where
  "fetchUpdateTxData N E w initialSetup b =
     fetchPlain asUpdate (UpdateTx_Hash (crypto E) (ChamMap w)) False (updateNet N) E w initialSetup (unat (bl_NrUpdateTx b)) (bl_UpdateTxData b)"

subsection \<open>Funds transactions\<close>

text \<open>The last component of a result is the world: answers are written to the open transactions.\<close>

definition fetchedFunds :: "'d env \<Rightarrow> bool \<Rightarrow> FundsTx \<Rightarrow> 'd world \<Rightarrow> 'd world option" where
  "fetchedFunds E initialSetup t w = Option.bind (WriteOpenTx E (TFunds t) w)
     (\<lambda>w'. if initialSetup then WriteBootstrapTxReceived E (TFunds t) w' else Some w')"

text \<open>The request of a transaction, and the search of the stash when it is not answered in time.\<close>

definition fetchFundsNet :: "fetch_net \<Rightarrow> 'd env \<Rightarrow> bool \<Rightarrow> hash \<Rightarrow> 'd world \<Rightarrow> (fetch_error list \<times> FundsTx option \<times> 'd world) option" where
  "fetchFundsNet N E initialSetup txHash w = (case fundsNet N txHash of
      Unsent \<Rightarrow> Some ([TxNotRead], None, w)
    | Answered t \<Rightarrow> (case fetchedFunds E initialSetup t w of None \<Rightarrow> None | Some w' \<Rightarrow> (case world_Hash E w' (TFunds t) of None \<Rightarrow> None
        | Some k \<Rightarrow> Some (if k \<noteq> txHash then [WrongTxHash] else [], Some t, w')))
    | Expired stash \<Rightarrow> map_option (\<lambda>r. case r of None \<Rightarrow> ([FetchTimeout], None, w) | Some t \<Rightarrow> ([], Some t, w))
        (findHashed (FundsTx_Hash (crypto E) (ChamMap w)) stash txHash))"

text \<open>One hash: the errors and whether they end the loop, the transaction and the world.\<close>

definition fetchFundsTx :: "fetch_net \<Rightarrow> 'd env \<Rightarrow> miner_config \<Rightarrow> bool \<Rightarrow> hash \<Rightarrow> 'd world \<Rightarrow> (fetch_error list \<times> FundsTx option \<times> 'd world) option" where
  "fetchFundsTx N E cfg initialSetup txHash w =
     (case ReadClosedTx E w txHash of
        Some closedTx \<Rightarrow> if initialSetup then map_option (\<lambda>t. ([], Some t, w)) (asFunds closedTx) else Some ([AlreadyInBlock], None, w)
      | None \<Rightarrow> (case ReadOpenTx w txHash of
          Some tx \<Rightarrow> map_option (\<lambda>t. ([], Some t, w)) (asFunds tx)
        | None \<Rightarrow>
          (case ReadINVALIDOpenTx w txHash of
               None \<Rightarrow> fetchFundsNet N E initialSetup txHash w
             | Some txINVALID \<Rightarrow> (case verify E cfg w txINVALID of None \<Rightarrow> None
                 | Some (ok, tx') \<Rightarrow> if ok then map_option (\<lambda>t. ([], Some t, touch txINVALID tx' w)) (asFunds tx')
                     else fetchFundsNet N E initialSetup txHash w))))"

fun fetchFunds :: "fetch_net \<Rightarrow> 'd env \<Rightarrow> miner_config \<Rightarrow> bool \<Rightarrow> nat \<Rightarrow> hash list \<Rightarrow> 'd world \<Rightarrow> (fetch_error list \<times> FundsTx list \<times> 'd world) option" where
  "fetchFunds N E cfg initialSetup room [] w = Some ([], [], w)"
| "fetchFunds N E cfg initialSetup room (txHash # hs) w = (case fetchFundsTx N E cfg initialSetup txHash w of
     None \<Rightarrow> None
   | Some (es, None, w') \<Rightarrow> Some (es, [], w')
   | Some (es, Some t, w') \<Rightarrow> if room = 0 then None
       else map_option (\<lambda>(es', ts, w''). (es @ es', t # ts, w'')) (fetchFunds N E cfg initialSetup (room - 1) hs w'))"

definition fetchFundsTxData :: "fetch_net \<Rightarrow> 'd env \<Rightarrow> miner_config \<Rightarrow> bool \<Rightarrow> Block \<Rightarrow> 'd world \<Rightarrow> (fetch_error list \<times> FundsTx list \<times> 'd world) option" where
  "fetchFundsTxData N E cfg initialSetup b w = fetchFunds N E cfg initialSetup (unat (bl_NrFundsTx b)) (bl_FundsTxData b) w"

subsection \<open>Aggregated transactions\<close>

text \<open>A closed, open or invalid transaction.\<close>

definition anyTx :: "'d env \<Rightarrow> 'd world \<Rightarrow> hash \<Rightarrow> Transaction option" where
  "anyTx E w h = (case ReadClosedTx E w h of Some t \<Rightarrow> Some t | None \<Rightarrow> (case ReadOpenTx w h of Some t \<Rightarrow> Some t | None \<Rightarrow> ReadINVALIDOpenTx w h))"

text \<open>
  The request of \<^verbatim>\<open>fetchFundsTxRecursively\<close>. When the stash of aggregation transactions holds the transaction, the code searches
  the other stash for it, where it is not; the nil transaction panics.
\<close>

definition requestUnknown :: "fetch_net \<Rightarrow> 'd env \<Rightarrow> hash \<Rightarrow> 'd world \<Rightarrow> (fetch_error + Transaction) option" where
  "requestUnknown N E txHash w =
     (let cm = ChamMap w; received = (\<lambda>t. case world_Hash E w t of None \<Rightarrow> None
            | Some k \<Rightarrow> if k \<noteq> txHash then Some (Inl WrongTxHash) else Some (Inr t))
      in case unknownNet N 0 txHash of
        UUnsent \<Rightarrow> Some (Inl TxNotRead)
      | GotAgg t \<Rightarrow> received (TAgg t)
      | GotFunds t \<Rightarrow> received (TFunds t)
      | UExpired aggStash fundsStash \<Rightarrow> (case findHashed (FundsTx_Hash (crypto E) cm) fundsStash txHash of
            None \<Rightarrow> None
          | Some (Some t) \<Rightarrow> received (TFunds t)
          | Some None \<Rightarrow> (case findHashed (\<lambda>t. Some (AggTx_Hash (crypto E) t)) aggStash txHash of
                None \<Rightarrow> None | Some (Some t) \<Rightarrow> None | Some None \<Rightarrow> Some (Inl FetchTimeout))))"

text \<open>One transaction of the recursion.\<close>

definition recursiveTx :: "fetch_net \<Rightarrow> 'd env \<Rightarrow> hash \<Rightarrow> 'd world \<Rightarrow> (fetch_error + Transaction \<times> 'd world) option" where
  "recursiveTx N E txHash w = (case anyTx E w txHash of Some t \<Rightarrow> Some (Inr (t, w))
     | None \<Rightarrow> (case requestUnknown N E txHash w of None \<Rightarrow> None
         | Some (Inl e) \<Rightarrow> Some (Inl e)
         | Some (Inr t) \<Rightarrow> map_option (\<lambda>w'. Inr (t, w')) (WriteOpenTx E t w)))"

text \<open>
  The recursion over nested aggregations, which a cycle of transactions never ends: \<open>fuel\<close> bounds the depth. The error
  of an inner call is kept until the next inner call.
\<close>

fun fetchRecursive :: "fetch_net \<Rightarrow> 'd env \<Rightarrow> nat \<Rightarrow> hash list \<Rightarrow> fetch_error option \<Rightarrow> FundsTx list \<Rightarrow> 'd world \<Rightarrow> (fetch_error option \<times> FundsTx list \<times> 'd world) option option" where
  "fetchRecursive N E fuel [] er acc w = Some (Some (er, if er = None then acc else [], w))"
| "fetchRecursive N E fuel (txHash # hs) er acc w =
     (case recursiveTx N E txHash w of
        None \<Rightarrow> Some None
      | Some (Inl e) \<Rightarrow> Some (Some (Some e, [], w))
      | Some (Inr (t, w')) \<Rightarrow> (case t of
          TFunds f \<Rightarrow> fetchRecursive N E fuel hs er (acc @ [f]) w'
        | TAgg g \<Rightarrow> (case fuel of 0 \<Rightarrow> None
            | Suc n \<Rightarrow> (case fetchRecursive N E n (gt_AggregatedTxSlice g) None [] w' of
                None \<Rightarrow> None
              | Some None \<Rightarrow> Some None
              | Some (Some (e, fs, w'')) \<Rightarrow> fetchRecursive N E fuel hs e (acc @ fs) w''))
        | _ \<Rightarrow> fetchRecursive N E fuel hs er acc w'))"

text \<open>
  The transactions of an aggregation transaction that are not closed yet. The branch that would read the invalid
  transactions is behind a test that fails, so they are requested; \<open>tries\<close> counts the requests left.
\<close>

fun requestNew :: "fetch_net \<Rightarrow> 'd env \<Rightarrow> nat \<Rightarrow> nat \<Rightarrow> hash \<Rightarrow> 'd world \<Rightarrow> (fetch_error + Transaction) option" where
  "requestNew N E tries 0 txHash w = Some (Inl FetchTimeout)"
| "requestNew N E tries (Suc left) txHash w = (case unknownNet N tries txHash of
     UUnsent \<Rightarrow> Some (Inl TxNotRead)
   | GotAgg t \<Rightarrow> Some (Inr (TAgg t))
   | GotFunds t \<Rightarrow> Some (Inr (TFunds t))
   | UExpired aggStash fundsStash \<Rightarrow> (case findHashed (\<lambda>t. Some (AggTx_Hash (crypto E) t)) aggStash txHash of
         None \<Rightarrow> None
       | Some (Some t) \<Rightarrow> Some (Inr (TAgg t))
       | Some None \<Rightarrow> (case findHashed (FundsTx_Hash (crypto E) (ChamMap w)) fundsStash txHash of
           None \<Rightarrow> None | Some (Some t) \<Rightarrow> Some (Inr (TFunds t)) | Some None \<Rightarrow> requestNew N E (Suc tries) left txHash w)))"

text \<open>The flag of the result tells that an error has ended the function.\<close>

fun fetchNew :: "fetch_net \<Rightarrow> 'd env \<Rightarrow> hash list \<Rightarrow> 'd world \<Rightarrow> (bool \<times> fetch_error list \<times> FundsTx list \<times> 'd world) option" where
  "fetchNew N E [] w = Some (False, [], [], w)"
| "fetchNew N E (txHash # hs) w =
     (let found = (\<lambda>es fs w'. map_option (\<lambda>(stop, es', fs', w''). (stop, es @ es', fs @ fs', w'')) (fetchNew N E hs w')) in
      case ReadClosedTx E w txHash of Some t \<Rightarrow> found [] [] w
      | None \<Rightarrow> (case ReadOpenTx w txHash of
          Some (TAgg g) \<Rightarrow> found [] [] w
        | Some (TFunds f) \<Rightarrow> found [] [f] w
        | Some _ \<Rightarrow> None
        | None \<Rightarrow> (case requestNew N E 0 3 txHash w of
            None \<Rightarrow> None
          | Some (Inl e) \<Rightarrow> Some (True, [e], [], w)
          | Some (Inr t) \<Rightarrow> (case (WriteOpenTx E t w, world_Hash E w t) of
              (Some w', Some k) \<Rightarrow> found (if k \<noteq> txHash then [WrongTxHash] else []) (case t of TFunds f \<Rightarrow> [f] | _ \<Rightarrow> []) w'
            | _ \<Rightarrow> None))))"

text \<open>The aggregation transaction itself.\<close>

fun requestAgg :: "fetch_net \<Rightarrow> 'd env \<Rightarrow> nat \<Rightarrow> nat \<Rightarrow> hash \<Rightarrow> 'd world \<Rightarrow> (fetch_error + AggTx \<times> 'd world) option" where
  "requestAgg N E tries 0 txHash w = Some (Inl FetchTimeout)"
| "requestAgg N E tries (Suc left) txHash w = (case aggNet N tries txHash of
     Unsent \<Rightarrow> Some (Inl TxNotRead)
   | Answered t \<Rightarrow> map_option (\<lambda>w'. Inr (t, w')) (WriteOpenTx E (TAgg t) w)
   | Expired stash \<Rightarrow> (case findHashed (\<lambda>t. Some (AggTx_Hash (crypto E) t)) stash txHash of
       None \<Rightarrow> None | Some (Some t) \<Rightarrow> Some (Inr (t, w)) | Some None \<Rightarrow> requestAgg N E (Suc tries) left txHash w))"

definition fetchAggTx :: "fetch_net \<Rightarrow> 'd env \<Rightarrow> bool \<Rightarrow> hash \<Rightarrow> 'd world \<Rightarrow> (fetch_error list \<times> AggTx option \<times> 'd world) option" where
  "fetchAggTx N E initialSetup aggTxHash w =
     (let network = (case requestAgg N E 0 3 aggTxHash w of
          None \<Rightarrow> None
        | Some (Inl e) \<Rightarrow> Some ([e], None, w)
        | Some (Inr (t, w')) \<Rightarrow> Some (if AggTx_Hash (crypto E) t \<noteq> aggTxHash then [WrongTxHash] else [], Some t, w'))
      in case ReadClosedTx E w aggTxHash of
           Some tx \<Rightarrow> (case asAgg tx of None \<Rightarrow> None
             | Some t \<Rightarrow> if \<not> initialSetup \<and> \<not> gt_Aggregated t then Some ([AlreadyInBlock], None, w) else Some ([], Some t, w))
         | None \<Rightarrow> (case (case ReadOpenTx w aggTxHash of Some t \<Rightarrow> Some t | None \<Rightarrow> ReadINVALIDOpenTx w aggTxHash) of
             Some tx \<Rightarrow> map_option (\<lambda>t. ([], Some t, w)) (asAgg tx)
           | None \<Rightarrow> network))"

text \<open>
  During the initial setup the transactions of an aggregation replace those of the aggregations before it. The outer \<open>None\<close> of
  a result stands for a recursion deeper than the fuel.
\<close>

fun fetchAggs :: "fetch_net \<Rightarrow> 'd env \<Rightarrow> nat \<Rightarrow> bool \<Rightarrow> nat \<Rightarrow> hash list \<Rightarrow> FundsTx list \<Rightarrow> 'd world \<Rightarrow>
    (fetch_error list \<times> AggTx list \<times> FundsTx list \<times> 'd world) option option" where
  "fetchAggs N E fuel initialSetup room [] transactions w = Some (Some ([], [], transactions, w))"
| "fetchAggs N E fuel initialSetup room (aggTxHash # hs) transactions w = (case fetchAggTx N E initialSetup aggTxHash w of
     None \<Rightarrow> Some None
   | Some (es, None, w1) \<Rightarrow> Some (Some (es, [], transactions, w1))
   | Some (es, Some t, w1) \<Rightarrow>
       let onward = (\<lambda>es' trs w2. map_option (map_option (\<lambda>(es'', ts, trs', w3). (es @ es' @ es'', t # ts, trs', w3)))
             (fetchAggs N E fuel initialSetup (room - 1) hs trs w2))
       in if room = 0 then Some None
          else if initialSetup then
            (if gt_Aggregated t then onward [] transactions w1
             else case fetchRecursive N E fuel (gt_AggregatedTxSlice t) None [] w1 of
                None \<Rightarrow> None
              | Some None \<Rightarrow> Some None
              | Some (Some (Some e, fs, w2)) \<Rightarrow> Some (Some (es @ [e], [t], fs, w2))
              | Some (Some (None, fs, w2)) \<Rightarrow> onward [] fs w2)
          else (case fetchNew N E (gt_AggregatedTxSlice t) w1 of
                None \<Rightarrow> Some None
              | Some (True, es', fs, w2) \<Rightarrow> Some (Some (es @ es', [t], transactions @ fs, w2))
              | Some (False, es', fs, w2) \<Rightarrow> onward es' (transactions @ fs) w2))"

definition fetchAggTxData :: "fetch_net \<Rightarrow> 'd env \<Rightarrow> nat \<Rightarrow> bool \<Rightarrow> Block \<Rightarrow> 'd world \<Rightarrow>
    (fetch_error list \<times> AggTx list \<times> FundsTx list \<times> 'd world) option option" where
  "fetchAggTxData N E fuel initialSetup b w = fetchAggs N E fuel initialSetup (unat (bl_NrAggTx b)) (bl_AggTxData b) [] w"

subsection \<open>fetch\_transactions.go\<close>

text \<open>
  A slice that is longer than the list of hashes keeps nil entries, at which a later state change panics; the model stops here
  with \<open>Crash\<close>.
\<close>

definition fetchTransactions :: "fetch_net \<Rightarrow> 'd env \<Rightarrow> miner_config \<Rightarrow> nat \<Rightarrow> bool \<Rightarrow> Block \<Rightarrow> 'd world \<Rightarrow> ((fetch_error + blockData) \<times> 'd world) run" where
  "fetchTransactions N E cfg fuel initialSetup b w =
     (case (fetchAccTxData N E w initialSetup b, fetchConfigTxData N E w initialSetup b, fetchStakeTxData N E w initialSetup b,
            fetchUpdateTxData N E w initialSetup b) of
        (Some (es1, as), Some (es2, cs), Some (es3, ss), Some (es4, us)) \<Rightarrow>
          (case fetchFundsTxData N E cfg initialSetup b w of None \<Rightarrow> Crash | Some (es5, fs, w1) \<Rightarrow>
          (case fetchAggTxData N E fuel initialSetup b w1 of None \<Rightarrow> Running | Some None \<Rightarrow> Crash | Some (Some (es6, gs, aggFs, w2)) \<Rightarrow>
           (case es1 @ es5 @ es2 @ es3 @ es4 @ es6 of
              e # _ \<Rightarrow> Done (Inl e, w2)
            | [] \<Rightarrow>
              if length as \<noteq> unat (bl_NrAccTx b) \<or> length fs \<noteq> unat (bl_NrFundsTx b) \<or> length cs \<noteq> unat (bl_NrConfigTx b) \<or>
                 length ss \<noteq> unat (bl_NrStakeTx b) \<or> length us \<noteq> unat (bl_NrUpdateTx b) \<or> length gs \<noteq> unat (bl_NrAggTx b) then Crash
              else Done (Inr \<lparr>accTxSlice = as, fundsTxSlice = fs, configTxSlice = cs, stakeTxSlice = ss, aggTxSlice = gs,
                     aggregatedFundsTxSlice = (if gs \<noteq> [] then aggFs else []), updateTxSlice = us, bd_block = b\<rparr>, w2))))
      | _ \<Rightarrow> Crash)"

end
