(* ===== verification/Mining.thy ===== *)
theory Mining
  imports Preparation Fetching Consensus
begin

text \<open>
  The life of a miner: construction of a block (\<^verbatim>\<open>newBlock\<close>, \<^verbatim>\<open>finalizeBlock\<close> of \<^verbatim>\<open>src/miner/block.go\<close>), \<^verbatim>\<open>validate\<close> of
  \<^verbatim>\<open>src/miner/block_validation.go\<close>, received blocks and broadcasts (\<^verbatim>\<open>src/miner/p2p_interface.go\<close>), \<^verbatim>\<open>initState\<close> of
  \<^verbatim>\<open>src/miner/state.go\<close>, and \<^verbatim>\<open>Init\<close> and the mining loop of \<^verbatim>\<open>src/miner/blockchain.go\<close> as a step relation.

  The environment of a node collects what is not code of the repository: the database and the cryptography, the contract
  environment, the RSA functions of the standard library (\<open>rsaSign\<close> with the private key of the miner, \<open>rsaSignRoot\<close> with the one
  of the root), the decoding of streams, the floating-point computation of the difficulty, and whether the node is the bootstrap server.
\<close>

record 'd node_env =
  nE :: "'d env"
  nV :: vm_env
  nG :: gob_env
  nCfg :: miner_config
  rsaCheck :: rsa_check
  rsaSign :: "bytes \<Rightarrow> bytes option"
  rsaSignRoot :: "bytes \<Rightarrow> bytes option"
  newDifficulty :: "'d world \<Rightarrow> timerange \<Rightarrow> u8"
  bootstrap :: bool

subsection \<open>block.go\<close>

definition newBlock :: "hash \<Rightarrow> hash \<Rightarrow> bytes \<Rightarrow> u32 \<Rightarrow> Block" where
  "newBlock prevHash prevHashWithoutTx commitmentProof height = zero_block\<lparr>bl_PrevHash := prevHash, bl_PrevHashWithoutTx := prevHashWithoutTx,
     bl_CommitmentProof := commitmentProof, bl_Height := height, bl_StateCopy := Map.empty, bl_Aggregated := False\<rparr>"

text \<open>\<^verbatim>\<open>copy\<close> into an array of 256 bytes.\<close>

definition copy256 :: "bytes \<Rightarrow> bytes" where
  "copy256 bs = take 256 (bs @ replicate 256 0)"

definition SignMessageWithRSAKey :: "(bytes \<Rightarrow> bytes option) \<Rightarrow> crypto_env \<Rightarrow> bytes \<Rightarrow> bytes option" where
  "SignMessageWithRSAKey rsa C msg = map_option copy256 (rsa (sha256 C msg))"

datatype finalize_error = ValidatorMissing | SigningFailed | NotMined mining_error

definition addSlashing :: "hash \<times> SlashingProof \<Rightarrow> Block \<Rightarrow> Block" where
  "addSlashing p b = b\<lparr>bl_SlashedAddress := fst p,
     bl_ConflictingBlockHash1 := sp_ConflictingBlockHash1 (snd p), bl_ConflictingBlockHash2 := sp_ConflictingBlockHash2 (snd p),
     bl_ConflictingBlockHashWithoutTx1 := sp_ConflictingBlockHashWithoutTx1 (snd p),
     bl_ConflictingBlockHashWithoutTx2 := sp_ConflictingBlockHashWithoutTx2 (snd p)\<rparr>"

text \<open>The nonce, the hashes, the counters and the proof.\<close>

definition sealBlock :: "crypto_env \<Rightarrow> int \<Rightarrow> bytes \<Rightarrow> Block \<Rightarrow> Block" where
  "sealBlock C nonce commitmentProof b =
     (let nonceBuf = be64 (word_of_int nonce) in
      b\<lparr>bl_Nonce := nonceBuf, bl_Timestamp := nonce, bl_Hash := sha3 C (nonceBuf @ HashBlock C b),
        bl_HashWithoutTx := sha3 C (nonceBuf @ HashBlockWithoutMerkleRoot C b),
        bl_NrAccTx := word_of_nat (length (bl_AccTxData b)), bl_NrFundsTx := word_of_nat (length (bl_FundsTxData b)),
        bl_NrConfigTx := word_of_nat (length (bl_ConfigTxData b)), bl_NrStakeTx := word_of_nat (length (bl_StakeTxData b)),
        bl_NrAggTx := word_of_nat (length (bl_AggTxData b)), bl_NrUpdateTx := word_of_nat (length (bl_UpdateTxData b)),
        bl_CommitmentProof := commitmentProof\<rparr>)"

text \<open>
  \<open>order\<close> lists the map \<^verbatim>\<open>slashingDict\<close>; \<open>ticks\<close> is what the search for a nonce sees, and \<open>w'\<close> the world when it ends:
  other goroutines run meanwhile.
\<close>

definition finalizeBlock :: "'d node_env \<Rightarrow> ((hash \<times> SlashingProof) list \<Rightarrow> (hash \<times> SlashingProof) list) \<Rightarrow> ('d world \<times> int) list \<Rightarrow>
    Block \<Rightarrow> 'd world \<Rightarrow> 'd world \<Rightarrow> (finalize_error option \<times> Block \<times> 'd world) run" where
  "finalizeBlock N order ticks block w w' =
     (let E = nE N; C = crypto E;
          b1 = (if slashingDict w \<noteq> [] then addSlashing (hd (order (slashingDict w))) block else block)
      in case BuildMerkleTree C b1 of None \<Rightarrow> Running | Some tree \<Rightarrow>
        let b2 = b1\<lparr>bl_MerkleRoot := MerkleRoot tree\<rparr> in
        case GetAccount w (SerializeHashContent C (fbytes (validatorAccAddress (nCfg N)))) of None \<Rightarrow> Done (Some ValidatorMissing, b2, w') | Some validatorAcc \<Rightarrow>
        let b3 = b2\<lparr>bl_Beneficiary := Account_Hash C validatorAcc\<rparr> in
        case SignMessageWithRSAKey (rsaSign N) C (digits (unat (bl_Height b3))) of None \<Rightarrow> Done (Some SigningFailed, b3, w') | Some commitmentProof \<Rightarrow>
        case proofOfStake E (getDifficulty w) (bl_PrevHash b3) (GetLatestProofs E w (nat (numIncludedPrevProofs (activeParameters w))) b3)
               (bl_Height b3) (acc_Balance validatorAcc) commitmentProof ticks of
          None \<Rightarrow> Running
        | Some (Inl e) \<Rightarrow> (case (if e = OtherBlockValidated
              then map_option DeleteAllFundsTxBeforeAggregation (do_each (WriteOpenTx E) (map TFunds (FundsTxBeforeAggregation w')) w') else Some w') of
            None \<Rightarrow> Crash | Some w1 \<Rightarrow> Done (Some (NotMined e), b3, w1))
        | Some (Inr nonce) \<Rightarrow> let b4 = sealBlock C nonce commitmentProof b3 in Done (None, b4, storeBlockByTxs E b4 w'))"

subsection \<open>validate\<close>

datatype validate_error =
    AlreadyValidated | ChainError chain_error | RollbackError rollback_error | PreError block_error | FetchError fetch_error | StateError ledger_error

fun rollbackBlocks :: "'d env \<Rightarrow> Block list \<Rightarrow> 'd world \<Rightarrow> (rollback_error option \<times> 'd world) option" where
  "rollbackBlocks E [] w = Some (None, w)"
| "rollbackBlocks E (b # bs) w = (case rollback E b w of
     None \<Rightarrow> None
   | Some (Some e, w') \<Rightarrow> Some (Some e, w')
   | Some (None, w') \<Rightarrow> rollbackBlocks E bs w')"

text \<open>
  One block. \<open>k\<close> counts the block requests, \<open>fnet\<close> is the network for its transactions; a slashing proof is looked for when
  \<open>seek\<close> holds.
\<close>

definition validateBlock :: "'d node_env \<Rightarrow> clock \<Rightarrow> (nat \<Rightarrow> reply) \<Rightarrow> fetch_net \<Rightarrow> nat \<Rightarrow> nat \<Rightarrow> bool \<Rightarrow> bool \<Rightarrow> Block \<Rightarrow> 'd world \<Rightarrow>
    (validate_error option \<times> nat \<times> 'd world) run" where
  "validateBlock N clk net fnet fuel k initialSetup seek block w =
     bind_run (preValidate (nE N) (rsaCheck N) clk net fuel k block initialSetup w) (\<lambda>(e, k1, w1). case e of
       Some e' \<Rightarrow> Done (Some (PreError e'), k1, w1)
     | None \<Rightarrow> bind_run (fetchTransactions fnet (nE N) (nCfg N) fuel initialSetup block w1) (\<lambda>(r, w2). case r of
         Inl e' \<Rightarrow> Done (Some (FetchError e'), k1, w2)
       | Inr data \<Rightarrow> bind_run (if seek then seekSlashingProof (nE N) net fuel k1 block w2 else Done (k1, w2)) (\<lambda>(k2, w3).
           case validateState (nE N) data initialSetup w3 of
             None \<Rightarrow> Crash
           | Some (Some e', w4) \<Rightarrow> Done (Some (StateError e'), k2, w4)
           | Some (None, w4) \<Rightarrow> (case postValidate (nE N) (newDifficulty N) (bootstrap N) data initialSetup w4 of
               None \<Rightarrow> Crash | Some w5 \<Rightarrow> Done (None, k2, w5)))))"

text \<open>The blocks of the new chain; the \<open>i\<close>-th one has the network \<open>fnet i\<close>.\<close>

fun validateBlocks :: "'d node_env \<Rightarrow> clock \<Rightarrow> (nat \<Rightarrow> reply) \<Rightarrow> (nat \<Rightarrow> fetch_net) \<Rightarrow> nat \<Rightarrow> nat \<Rightarrow> nat \<Rightarrow> bool \<Rightarrow> Block list \<Rightarrow> 'd world \<Rightarrow>
    (validate_error option \<times> 'd world) run" where
  "validateBlocks N clk net fnet fuel i k initialSetup [] w = Done (None, w)"
| "validateBlocks N clk net fnet fuel i k initialSetup (b # bs) w =
     bind_run (validateBlock N clk net (fnet i) fuel k initialSetup (bl_Height b > 0) b w) (\<lambda>(e, k', w'). case e of
       Some e' \<Rightarrow> Done (Some e', w')
     | None \<Rightarrow> validateBlocks N clk net fnet fuel (Suc i) k' initialSetup bs w')"

definition validate :: "'d node_env \<Rightarrow> clock \<Rightarrow> (nat \<Rightarrow> reply) \<Rightarrow> (nat \<Rightarrow> fetch_net) \<Rightarrow> nat \<Rightarrow> Block \<Rightarrow> bool \<Rightarrow> 'd world \<Rightarrow>
    (validate_error option \<times> 'd world) run" where
  "validate N clk net fnet fuel b initialSetup w =
     (if ReadClosedBlock (nE N) w (bl_Hash b) \<noteq> None then Done (Some AlreadyValidated, w)
      else bind_run (getBlockSequences (nE N) net fuel 0 b w) (\<lambda>(r, k, w1). case r of
        Inl e \<Rightarrow> Done (Some (ChainError e), w1)
      | Inr (blocksToRollback, blocksToValidate) \<Rightarrow> (case rollbackBlocks (nE N) blocksToRollback w1 of
          None \<Rightarrow> Crash
        | Some (Some e, w2) \<Rightarrow> Done (Some (RollbackError e), w2)
        | Some (None, w2) \<Rightarrow>
            validateBlocks N (clk\<lparr>uptodate := length blocksToValidate < DELAYED_BLOCKS\<rparr>) net fnet fuel 0 k initialSetup blocksToValidate w2)))"

subsection \<open>p2p\_interface.go\<close>

datatype received = Known | Replaced | Accepted | Rejected validate_error

text \<open>A block whose hash is closed replaces the stored one when its number of updates differs, without a check.\<close>

definition processBlock :: "'d node_env \<Rightarrow> clock \<Rightarrow> (nat \<Rightarrow> reply) \<Rightarrow> (nat \<Rightarrow> fetch_net) \<Rightarrow> nat \<Rightarrow> bytes \<Rightarrow> 'd world \<Rightarrow> (received \<times> 'd world) run" where
  "processBlock N clk net fnet fuel payload w =
     (let block = gobBlock (nG N) payload in
      case ReadClosedBlock (nE N) w (bl_Hash block) of
        Some closedBlock \<Rightarrow>
          if bl_NrUpdates closedBlock = bl_NrUpdates block then Done (Known, w)
          else Done (Replaced, WriteClosedBlock (nE N) block w)
      | None \<Rightarrow> bind_run (validate N clk net fnet fuel block False (WriteToReceivedStash block w)) (\<lambda>(e, w').
          Done (case e of None \<Rightarrow> Accepted | Some e' \<Rightarrow> Rejected e', w')))"

text \<open>What is broadcast: a block and its header, and verified transactions.\<close>

definition broadcastBlock :: "'d env \<Rightarrow> gob_env \<Rightarrow> 'd world \<Rightarrow> Block \<Rightarrow> (blob \<times> blob) option" where
  "broadcastBlock E G w block = map_option (\<lambda>ks. (Block_Encode block, Block_EncodeHeader (InitBloomFilter G ks block))) (GetTxPubKeys E w block)"

definition FUNDSTX_SIZE :: nat where "FUNDSTX_SIZE = 246"

definition broadcastVerifiedFundsTxs :: "gob_env \<Rightarrow> FundsTx list \<Rightarrow> bytes" where
  "broadcastVerifiedFundsTxs G txs = slices_Encode (map (\<lambda>tx. blobBytes G (FundsTx_Encode tx)) txs) FUNDSTX_SIZE"

definition broadcastVerifiedAggTxsToOtherMiners :: "gob_env \<Rightarrow> AggTx list \<Rightarrow> bytes list" where
  "broadcastVerifiedAggTxsToOtherMiners G txs = map (\<lambda>tx. BuildPacket AGGTX_BRDCST (blobBytes G (AggTx_Encode tx))) txs"

definition broadcastVerifiedFundsTxsToOtherMiners :: "gob_env \<Rightarrow> FundsTx list \<Rightarrow> bytes list" where
  "broadcastVerifiedFundsTxsToOtherMiners G txs = map (\<lambda>tx. BuildPacket FUNDSTX_BRDCST (blobBytes G (FundsTx_Encode tx))) txs"

subsection \<open>initState\<close>

text \<open>
  A node that is not the bootstrap server requests the chain from its end; \<open>net k\<close> is the outcome of the \<open>k\<close>-th
  request. A request that times out without a stashed block is repeated for ever: \<open>fuel\<close> bounds the requests.
\<close>

definition closeReceived :: "'d env \<Rightarrow> Block \<Rightarrow> 'd world \<Rightarrow> 'd world" where
  "closeReceived E b w = (if bl_Aggregated b then WriteClosedBlockWithoutTx E b w else WriteClosedBlock E b w)"

definition appendNew :: "Block list \<Rightarrow> Block \<Rightarrow> Block list" where
  "appendNew bs b = (if bs \<noteq> [] \<and> bl_Hash (last bs) = bl_Hash b then bs else bs @ [b])"

fun fetchChain :: "'d env \<Rightarrow> (nat \<Rightarrow> reply) \<Rightarrow> nat \<Rightarrow> nat \<Rightarrow> Block \<Rightarrow> Block list \<Rightarrow> 'd world \<Rightarrow> (Block list \<times> nat \<times> 'd world) run" where
  "fetchChain E net 0 k lb bs w = Running"
| "fetchChain E net (Suc fuel) k lb bs w =
     (let (found, w1) = (case net k of Reply b \<Rightarrow> (Some b, w)
            | Timeout stash \<Rightarrow> let w' = fold WriteToReceivedStash stash w in (findInStash (bl_PrevHash lb) (ReceivedBlockStash w'), w'))
      in case found of
           None \<Rightarrow> fetchChain E net fuel (Suc k) lb bs w1
         | Some b \<Rightarrow> let w2 = closeReceived E b w1; bs' = appendNew bs b in
             if bl_Height b = 0 then Done (bs', Suc k, w2) else fetchChain E net fuel (Suc k) b bs' w2)"

datatype init_error = NoLastBlockReceived | GenesisNotSigned | InitBlockInvalid validate_error

definition initialChain :: "'d node_env \<Rightarrow> (nat \<Rightarrow> reply) \<Rightarrow> nat \<Rightarrow> 'd world \<Rightarrow> ((init_error + Block list) \<times> nat \<times> 'd world) run" where
  "initialChain N net fuel w =
     (if bootstrap N then Done (Inr (ReadAllClosedBlocks (nE N) w), 0, w)
      else case net 0 of
        Timeout stash \<Rightarrow> Done (Inl NoLastBlockReceived, 1, fold WriteToReceivedStash stash w)
      | Reply b \<Rightarrow> bind_run (fetchChain (nE N) net fuel 1 b [b] (WriteLastClosedBlock (nE N) b (WriteClosedBlock (nE N) b w)))
          (\<lambda>(bs, k, w'). Done (Inr bs, k, w')))"

text \<open>The first block of the greatest height.\<close>

definition highest :: "Block \<Rightarrow> Block list \<Rightarrow> Block" where
  "highest b bs = fold (\<lambda>x m. if bl_Height x > bl_Height m then x else m) bs b"

text \<open>The genesis block has the zero hash and is not validated.\<close>

definition genesisData :: "Block \<Rightarrow> blockData" where
  "genesisData b = \<lparr>accTxSlice = [], fundsTxSlice = [], configTxSlice = [], stakeTxSlice = [], aggTxSlice = [], aggregatedFundsTxSlice = [],
     updateTxSlice = [], bd_block = b\<rparr>"

fun initBlocks :: "'d node_env \<Rightarrow> clock \<Rightarrow> (nat \<Rightarrow> reply) \<Rightarrow> (nat \<Rightarrow> fetch_net) \<Rightarrow> nat \<Rightarrow> nat \<Rightarrow> nat \<Rightarrow> Block list \<Rightarrow> 'd world \<Rightarrow>
    (init_error option \<times> 'd world) run" where
  "initBlocks N clk net fnet fuel i k [] w = Done (None, w)"
| "initBlocks N clk net fnet fuel i k (b # bs) w =
     (if bl_Hash b \<noteq> zero_hash then
        bind_run (validateBlock N clk net (fnet i) fuel k True False b w) (\<lambda>(e, k', w'). case e of
          Some e' \<Rightarrow> Done (Some (InitBlockInvalid e'), w')
        | None \<Rightarrow> initBlocks N clk net fnet fuel (Suc i) k' bs w')
      else case postValidate (nE N) (newDifficulty N) (bootstrap N) (genesisData b) True w of
        None \<Rightarrow> Crash | Some w' \<Rightarrow> initBlocks N clk net fnet fuel (Suc i) k bs w')"

definition initState :: "'d node_env \<Rightarrow> clock \<Rightarrow> (nat \<Rightarrow> reply) \<Rightarrow> (nat \<Rightarrow> fetch_net) \<Rightarrow> nat \<Rightarrow> 'd world \<Rightarrow> ((init_error + Block) \<times> 'd world) run" where
  "initState N clk net fnet fuel w =
     bind_run (initialChain N net fuel w) (\<lambda>(r, k, w1). case r of
       Inl e \<Rightarrow> Done (Inl e, w1)
     | Inr chain \<Rightarrow>
       (case (case chain of
          c # cs \<Rightarrow> Some (highest c chain, chain, w1)
        | [] \<Rightarrow> (let g = newBlock zero_hash zero_hash (replicate 256 0) 0 in
            map_option (\<lambda>proof. let b = g\<lparr>bl_CommitmentProof := proof\<rparr> in
                (b, [b], WriteClosedBlock (nE N) b (WriteLastClosedBlock (nE N) b w1)))
              (SignMessageWithRSAKey (rsaSignRoot N) (crypto (nE N)) (digits (unat (bl_Height g)))))) of
          None \<Rightarrow> Done (Inl GenesisNotSigned, w1)
        | Some (initialBlock, blocks, w2) \<Rightarrow>
          let allClosedBlocks = (if bootstrap N then blocks else InvertBlockArray blocks) in
          bind_run (initBlocks N clk net fnet fuel 0 k allClosedBlocks w2) (\<lambda>(e, w3). case e of
            Some e' \<Rightarrow> Done (Inl e', w3)
          | None \<Rightarrow> (case lastBlock w3 of None \<Rightarrow> Crash
              | Some l \<Rightarrow> Done (Inr initialBlock, w3\<lparr>lastBlock := Some (highest l allClosedBlocks)\<rparr>)))))"

subsection \<open>blockchain.go\<close>

definition initRootKey :: "'d env \<Rightarrow> bytes \<Rightarrow> bytes \<Rightarrow> ChameleonHashParameters option \<Rightarrow> 'd world \<Rightarrow> 'd world" where
  "initRootKey E rootAddress rootModulus rootChamHashParams w =
     (let rootAddressHash = SerializeHashContent (crypto E) (fbytes rootAddress);
          rootAcc = NewAccount rootAddress zero_hash (StakingMinimum (activeParameters w)) True (copy256 rootModulus) None [] rootChamHashParams
      in w\<lparr>State := (State w)(rootAddressHash := Some rootAcc), RootKeys := AList.update rootAddressHash (acc_Address rootAcc) (RootKeys w),
           ChamMap := (ChamMap w)(rootAddressHash := acc_Parameters rootAcc)\<rparr>)"

text \<open>
  The transactions received during the initial setup, in the order \<open>hashes\<close> of the map; those that are no longer open are nil
  and skipped.
\<close>

definition ReadAllBootstrapReceivedTransactions :: "hash list \<Rightarrow> 'd world \<Rightarrow> Transaction list" where
  "ReadAllBootstrapReceivedTransactions hashes w = List.map_filter (txMemPool w) hashes"

definition closeBootstrapTx :: "'d env \<Rightarrow> Transaction \<Rightarrow> 'd world \<Rightarrow> 'd world option" where
  "closeBootstrapTx E tx w = Option.bind (DeleteOpenTx E tx w) (WriteClosedTx E tx)"

definition Init :: "'d node_env \<Rightarrow> bytes \<Rightarrow> bytes \<Rightarrow> ChameleonHashParameters option \<Rightarrow> clock \<Rightarrow> (nat \<Rightarrow> reply) \<Rightarrow> (nat \<Rightarrow> fetch_net) \<Rightarrow> nat \<Rightarrow>
    ('d world \<Rightarrow> hash list) \<Rightarrow> 'd world \<Rightarrow> ((init_error + Block) \<times> 'd world) run" where
  "Init N rootAddress rootModulus rootChamHashParams clk net fnet fuel hashes w =
     (let w1 = initRootKey (nE N) rootAddress rootModulus rootChamHashParams (w\<lparr>parameterSlice := parameterSlice w @ [NewDefaultParameters]\<rparr>);
          w2 = w1\<lparr>currentTargetTime := \<lparr>tr_first = 0, tr_last = 0\<rparr>, target := target w1 @ [13]\<rparr>
      in bind_run (initState N clk net fnet fuel w2) (\<lambda>(r, w3). case r of
           Inl e \<Rightarrow> Done (Inl e, w3)
         | Inr initialBlock \<Rightarrow> (case do_each (closeBootstrapTx (nE N)) (ReadAllBootstrapReceivedTransactions (hashes w3) w3) w3 of
             None \<Rightarrow> Crash | Some w4 \<Rightarrow> Done (Inr initialBlock, DeleteBootstrapReceivedMempool w4))))"

text \<open>The block after the last one.\<close>

definition nextBlock :: "'d world \<Rightarrow> Block option" where
  "nextBlock w = map_option (\<lambda>l. newBlock (bl_Hash l) (bl_HashWithoutTx l) (replicate 256 0) (bl_Height l + 1)) (lastBlock w)"

text \<open>
  The mining loop beside the goroutine that processes received blocks. The loop is either searching a nonce for a block, with the
  world seen when \<^verbatim>\<open>finalizeBlock\<close> started, or about to validate a finished block, or about to build the next one. The mutex
  \<^verbatim>\<open>blockValidation\<close> makes \<^verbatim>\<open>validate\<close> and the construction of a block single steps. A message of the network may
  change the pools and the stash of the node between any two steps.
\<close>

datatype 'd phase = Searching Block "'d world" | Validating Block | Assembling

type_synonym 'd node = "'d phase \<times> 'd world"

inductive node_step :: "'d node_env \<Rightarrow> 'd node \<Rightarrow> 'd node \<Rightarrow> bool" for N where
  Mined: "finalizeBlock N order ticks b w0 w = Done (None, b', w') \<Longrightarrow> node_step N (Searching b w0, w) (Validating b', w')"
| NotMined: "finalizeBlock N order ticks b w0 w = Done (Some e, b', w') \<Longrightarrow> node_step N (Searching b w0, w) (Assembling, w')"
| Validated: "validate N clk net fnet fuel b False w = Done (e, w') \<Longrightarrow> node_step N (Validating b, w) (Assembling, w')"
| NextBlock: "nextBlock w = Some b \<Longrightarrow> prepareBlock (nE N) (nV N) (nCfg N) it order snet blockIn fuel opentxs b w = Done (b', w') \<Longrightarrow>
    node_step N (Assembling, w) (Searching b' w', w')"
| Received: "processBlock N clk net fnet fuel payload w = Done (r, w') \<Longrightarrow> node_step N (ph, w) (ph, w')"
| Message: "nworld n = w \<Longrightarrow> processIncomingMsg (nE N) (nG N) p header payload n = Some (ms, n') \<Longrightarrow> node_step N (ph, w) (ph, nworld n')"

inductive_cases node_stepE: "node_step N s s'"

text \<open>The nodes that a start from an empty process reaches.\<close>

inductive reachable :: "'d node_env \<Rightarrow> 'd node \<Rightarrow> bool" for N where
  Started: "parameterSlice w = [] \<Longrightarrow> target w = [] \<Longrightarrow> ReceivedBlockStash w = [] \<Longrightarrow>
    Init N rootAddress rootModulus rootChamHashParams clk net fnet fuel hashes w = Done (Inr b, w') \<Longrightarrow>
    reachable N (Searching (newBlock (bl_Hash b) (bl_HashWithoutTx b) (replicate 256 0) (bl_Height b + 1)) w', w')"
| Step: "reachable N s \<Longrightarrow> node_step N s s' \<Longrightarrow> reachable N s'"

end
