(* ===== verification/AggregationProps.thy ===== *)
theory AggregationProps
  imports Aggregation Money Scenario
begin

text \<open>
  Aggregation keeps every transaction: the loop of \<^verbatim>\<open>splitSortedAggregatableTransactions\<close> ends and splits the waiting transactions
  into groups with one sender or one receiver, and each group enters the block as one entry.
\<close>

subsection \<open>The most frequent address\<close>

lemma getMax_fold:
  "fold (\<lambda>(k, v) (m, b). if v > m then (v, k) else (m, b)) xs (m0, k0) = (m, k) \<Longrightarrow>
   (m0 :: u32) \<le> m \<and> ((m, k) = (m0, k0) \<or> (k, m) \<in> set xs) \<and> (\<forall>(k', v) \<in> set xs. v \<le> m)"
proof (induction xs arbitrary: m0 k0)
  case (Cons x xs)
  obtain k' v where x: "x = (k', v)" by force
  show ?case
  proof (cases "v > m0")
    case True
    then show ?thesis using Cons.IH [of v k'] Cons.prems x by auto
  next
    case False
    then show ?thesis using Cons.IH [of m0 k0] Cons.prems x by auto
  qed
qed auto

lemma getMax_key:
  assumes "getMaxKeyAndValueFormMap m = (c, k)" "\<exists>(k', v) \<in> set m. 0 < v"
  shows "(k, c) \<in> set m" "\<forall>(k', v) \<in> set m. v \<le> c" "0 < c"
proof -
  from getMax_fold [OF assms(1) [unfolded getMaxKeyAndValueFormMap_def]]
  have r: "(c, k) = (0, zero_hash) \<or> (k, c) \<in> set m" and "\<forall>(k', v) \<in> set m. v \<le> c" by auto
  then show "\<forall>(k', v) \<in> set m. v \<le> c" by simp
  with assms(2) show "0 < c" by fastforce
  with r show "(k, c) \<in> set m" by auto
qed

lemma map_of_countKey: "map_of (countKey k m) = (map_of m)(k \<mapsto> (case map_of m k of None \<Rightarrow> 0 | Some c \<Rightarrow> c) + 1)"
  by (simp add: countKey_def update_conv')

lemma map_of_fold_countKey:
  "map_of (fold countKey ks m) k = (if k \<in> set ks then Some ((case map_of m k of None \<Rightarrow> 0 | Some c \<Rightarrow> c) + word_of_nat (count_list ks k)) else map_of m k)"
  by (induction ks arbitrary: m) (auto simp: map_of_countKey split: option.splits)

lemma distinct_countKeys: "distinct (map fst (countKeys ks))"
proof -
  have "distinct (map fst m) \<Longrightarrow> distinct (map fst (fold countKey ks m))" for m
    by (induction ks arbitrary: m) (simp_all add: countKey_def distinct_update)
  then show ?thesis by (simp add: countKeys_def)
qed

lemma countKeys_mem: "(k, v) \<in> set (countKeys ks) \<longleftrightarrow> k \<in> set ks \<and> v = word_of_nat (count_list ks k)"
proof -
  have "map_of (countKeys ks) k = (if k \<in> set ks then Some (word_of_nat (count_list ks k)) else None)"
    using map_of_fold_countKey [of ks "[]" k] by (simp add: countKeys_def)
  then show ?thesis using map_of_eq_Some_iff [OF distinct_countKeys, of ks k v] by (auto split: if_splits)
qed

lemma countKeys_Nil [simp]: "countKeys ks = [] \<longleftrightarrow> ks = []"
proof
  assume "countKeys ks = []"
  then have "(k, word_of_nat (count_list ks k)) \<notin> set (countKeys ks)" for k by simp
  then show "ks = []" unfolding countKeys_mem by (cases ks) auto
qed (simp add: countKeys_def)

lemma countKeys_pos:
  assumes "length ks < 2 ^ 32" "(k, v) \<in> set (countKeys ks)"
  shows "0 < v"
proof -
  have k: "k \<in> set ks" "v = word_of_nat (count_list ks k)" using assms(2) by (simp_all add: countKeys_mem)
  have "count_list ks k \<le> length ks" by (rule count_le_length)
  moreover have "0 < count_list ks k" using k(1) by (meson count_list_0_iff gr0I)
  ultimately have "unat (word_of_nat (count_list ks k) :: u32) = count_list ks k"
    using assms(1) by (simp add: unsigned_of_nat take_bit_nat_eq_self)
  then show ?thesis using k(2) \<open>0 < count_list ks k\<close> by (simp add: word_less_nat_alt)
qed

subsection \<open>Groups\<close>

text \<open>A group has one sender or one receiver.\<close>

definition one_side :: "FundsTx list \<Rightarrow> bool" where
  "one_side g \<longleftrightarrow> (\<exists>s. \<forall>tx \<in> set g. ft_From tx = s) \<or> (\<exists>r. \<forall>tx \<in> set g. ft_To tx = r)"

lemma pickGroup_partition:
  assumes "pickGroup it n senders receivers txs = (g, rest)"
  shows "mset g + mset rest = mset txs \<and> one_side g"
proof -
  obtain P where g: "(g, rest) = partition P txs" and P: "(\<exists>s. P = (\<lambda>tx. ft_From tx = s)) \<or> (\<exists>r. P = (\<lambda>tx. ft_To tx = r))"
    using assms unfolding pickGroup_def Let_def by (auto split: prod.splits if_splits)
  have "g = filter P txs" "rest = filter (\<lambda>x. \<not> P x) txs" using g by (auto simp: comp_def)
  then show ?thesis using P unfolding one_side_def by auto
qed

definition lists_map :: "iteration \<Rightarrow> bool" where
  "lists_map it \<longleftrightarrow> (\<forall>n m. mset (it n m) = mset m)"

lemma pickGroup_progress:
  assumes "pickGroup it n (countKeys (map ft_From txs)) (countKeys (map ft_To txs)) txs = (g, rest)"
    "lists_map it" "txs \<noteq> []" "length txs < 2 ^ 32"
  shows "g \<noteq> []"
proof -
  have some: "\<exists>(k, v) \<in> set (countKeys (map f txs)). 0 < v" for f :: "FundsTx \<Rightarrow> hash"
  proof -
    obtain k v where kv: "(k, v) \<in> set (countKeys (map f txs))"
      using assms(3) by (metis countKeys_Nil last_in_set map_is_Nil_conv prod.collapse)
    then show ?thesis using countKeys_pos [of "map f txs"] assms(4) by fastforce
  qed
  have it: "set (it i m) = set m" for i m using assms(2) unfolding lists_map_def by (metis set_mset_mset)
  obtain ms s mr r where m: "getMaxKeyAndValueFormMap (it (2 * n) (countKeys (map ft_From txs))) = (ms, s)"
    "getMaxKeyAndValueFormMap (it (2 * n + 1) (countKeys (map ft_To txs))) = (mr, r)" by force
  have "s \<in> ft_From ` set txs" "r \<in> ft_To ` set txs"
    using getMax_key(1) [OF m(1)] getMax_key(1) [OF m(2)] some unfolding it by (auto simp: countKeys_mem)
  then show ?thesis
    using assms(1) unfolding pickGroup_def m Let_def by (auto simp: filter_empty_conv split: if_splits)
qed

text \<open>The reference: groups are aggregated one after the other.\<close>

fun aggregateGroups :: "'d env \<Rightarrow> FundsTx list list \<Rightarrow> Block \<Rightarrow> 'd world \<Rightarrow> (Block \<times> 'd world) run" where
  "aggregateGroups E [] b w = Done (b, w)"
| "aggregateGroups E (g # gs) b w = (case AggregateTransactions E g b w of None \<Rightarrow> Crash | Some (ok, b', w') \<Rightarrow> aggregateGroups E gs b' w')"

lemma splitLoop_step:
  assumes "pickGroup it n senders receivers txs = (g, rest)"
    "rest \<noteq> [] \<Longrightarrow> \<exists>gs. (\<forall>b w. splitLoop E it fuel (Suc n) (countKeys (map ft_From rest)) (countKeys (map ft_To rest)) rest b w = aggregateGroups E gs b w) \<and>
       mset (concat gs) = mset rest \<and> list_all one_side gs"
  shows "\<exists>gs. (\<forall>b w. splitLoop E it (Suc fuel) n senders receivers txs b w = aggregateGroups E gs b w) \<and> mset (concat gs) = mset txs \<and> list_all one_side gs"
proof (cases "rest = []")
  case True
  then show ?thesis
    using pickGroup_partition [OF assms(1)] assms(1) by (intro exI [of _ "[g]"]) (auto split: option.splits)
next
  case False
  then obtain gs where gs: "\<forall>b w. splitLoop E it fuel (Suc n) (countKeys (map ft_From rest)) (countKeys (map ft_To rest)) rest b w = aggregateGroups E gs b w"
    "mset (concat gs) = mset rest" "list_all one_side gs" using assms(2) by blast
  then show ?thesis
    using pickGroup_partition [OF assms(1)] assms(1) False by (intro exI [of _ "g # gs"]) (auto split: option.splits)
qed

lemma splitLoop_counted:
  assumes "lists_map it" "txs \<noteq> []" "length txs \<le> fuel" "length txs < 2 ^ 32"
  shows "\<exists>gs. (\<forall>b w. splitLoop E it fuel n (countKeys (map ft_From txs)) (countKeys (map ft_To txs)) txs b w = aggregateGroups E gs b w) \<and>
    mset (concat gs) = mset txs \<and> list_all one_side gs"
  using assms(2-)
proof (induction fuel arbitrary: n txs)
  case (Suc fuel)
  obtain g rest where p: "pickGroup it n (countKeys (map ft_From txs)) (countKeys (map ft_To txs)) txs = (g, rest)" by force
  have "g \<noteq> []" by (rule pickGroup_progress [OF p assms(1) Suc.prems(1,3)])
  moreover have "size (mset g + mset rest) = length txs" using pickGroup_partition [OF p] by simp
  ultimately have "length rest < length txs" by (cases g) auto
  then show ?case using Suc.IH [of rest "Suc n"] Suc.prems by (intro splitLoop_step [OF p]) auto
qed simp

text \<open>
  C32: aggregation loses no transaction and always ends. Whatever the map iteration order and the counters left over from
  the choice of transactions, more rounds than there are waiting transactions are enough for \<^verbatim>\<open>splitSortedAggregatableTransactions\<close>; it
  does what aggregating the parts of a partition of the waiting transactions one after the other does, each part with one
  sender or one receiver.
\<close>

theorem splitSorted_partition:
  assumes "\<And>n m. mset (it n m) = mset m" "length (FundsTxBeforeAggregation w) < 2 ^ 32" "length (FundsTxBeforeAggregation w) < fuel"
  shows "\<exists>gs. mset (concat gs) = mset (FundsTxBeforeAggregation w) \<and>
    (\<forall>g \<in> set gs. (\<exists>s. \<forall>tx \<in> set g. ft_From tx = s) \<or> (\<exists>r. \<forall>tx \<in> set g. ft_To tx = r)) \<and>
    splitSortedAggregatableTransactions E it fuel senders receivers b w =
      bind_run (aggregateGroups E gs b w) (\<lambda>(b', w'). Done (b', w'\<lparr>FundsTxBeforeAggregation := []\<rparr>))"
proof -
  let ?txs = "sortTxBeforeAggregation (FundsTxBeforeAggregation w)"
  have ms: "mset ?txs = mset (FundsTxBeforeAggregation w)" by (simp add: sortTxBeforeAggregation_def)
  have len: "length ?txs = length (FundsTxBeforeAggregation w)" using ms by (metis size_mset)
  have it: "lists_map it" using assms(1) by (simp add: lists_map_def)
  obtain f where f: "fuel = Suc f" "length ?txs \<le> f" using assms(3) len by (cases fuel) auto
  obtain g rest where p: "pickGroup it 0 senders receivers ?txs = (g, rest)" by force
  have "size (mset g + mset rest) = length ?txs" using pickGroup_partition [OF p] by simp
  then have "length rest \<le> length ?txs" by simp
  then have "\<exists>gs. (\<forall>b w. splitLoop E it fuel 0 senders receivers ?txs b w = aggregateGroups E gs b w) \<and> mset (concat gs) = mset ?txs \<and> list_all one_side gs"
    unfolding f(1) using splitLoop_counted [OF it, of rest f E "Suc 0"] f(2) len assms(2) by (intro splitLoop_step [OF p]) auto
  then obtain gs where "\<forall>b w. splitLoop E it fuel 0 senders receivers ?txs b w = aggregateGroups E gs b w" "mset (concat gs) = mset ?txs" "list_all one_side gs"
    by blast
  then show ?thesis
    unfolding ms splitSortedAggregatableTransactions_def DeleteAllFundsTxBeforeAggregation_def
    by (intro exI [of _ gs]) (auto simp: list_all_iff one_side_def)
qed

subsection \<open>Entries of a block\<close>

text \<open>The search of the history changes the database only.\<close>

definition db_only :: "'d world \<Rightarrow> 'd world \<Rightarrow> bool" where
  "db_only w w' \<longleftrightarrow> State w' = State w \<and> ChamMap w' = ChamMap w \<and> parameterSlice w' = parameterSlice w \<and> txMemPool w' = txMemPool w \<and>
     FundsTxBeforeAggregation w' = FundsTxBeforeAggregation w \<and> RootKeys w' = RootKeys w \<and>
     ReceivedBlockStash w' = ReceivedBlockStash w \<and> lastBlock w' = lastBlock w"

lemma db_only_refl [simp]: "db_only w w"
  by (simp add: db_only_def)

lemma db_only_trans: "db_only w w1 \<Longrightarrow> db_only w1 w2 \<Longrightarrow> db_only w w2"
  by (simp add: db_only_def)

lemma WriteClosedTx_db_only: "WriteClosedTx E tx w = Some w' \<Longrightarrow> db_only w w'"
  by (auto simp: WriteClosedTx_def db_only_def)

lemma historicFunds_frame: "historicFunds E s r hs acc w = Some (res, w') \<Longrightarrow> db_only w w'"
proof (induction hs arbitrary: acc w)
  case (Cons h hs)
  then show ?case
    by (auto simp: Let_def split: option.splits Transaction.splits if_splits intro: db_only_trans [OF WriteClosedTx_db_only])
qed simp

lemma historicAggs_frame: "historicAggs E s r hs acc w = Some (res, w') \<Longrightarrow> db_only w w'"
proof (induction hs arbitrary: acc w)
  case (Cons h hs)
  then show ?case
    by (auto simp: Let_def split: option.splits Transaction.splits bool.splits intro: db_only_trans [OF WriteClosedTx_db_only])
qed simp

lemma historicBlocks_frame: "historicBlocks E s r bs acc w = Some (res, w') \<Longrightarrow> db_only w w'"
proof (induction bs arbitrary: acc w)
  case (Cons b bs)
  then show ?case
    by (auto split: option.splits dest!: historicFunds_frame historicAggs_frame) (blast intro: db_only_trans)+
qed simp

lemma historic_frame: "historicTransactions E senders receivers w = Some (res, w') \<Longrightarrow> db_only w w'"
  by (auto simp: historicTransactions_def searchTransactionsInHistoricBlocks_def Let_def split: option.splits if_splits dest!: historicBlocks_frame)

lemma WriteOpenTx_frame:
  assumes "WriteOpenTx E tx w = Some w'"
  shows "State w' = State w" "ChamMap w' = ChamMap w" "parameterSlice w' = parameterSlice w" "FundsTxBeforeAggregation w' = FundsTxBeforeAggregation w"
    "RootKeys w' = RootKeys w" "db w' = db w"
  using assms by (auto simp: WriteOpenTx_def WriteTxcntToTx_def Let_def split: option.splits Transaction.splits)

lemma openAll_frame:
  "openAll E txs w = Some (hs, w') \<Longrightarrow> map (\<lambda>tx. world_Hash E w (TFunds tx)) txs = map Some hs \<and> State w' = State w \<and> ChamMap w' = ChamMap w \<and>
     parameterSlice w' = parameterSlice w \<and> db w' = db w"
proof (induction E txs w arbitrary: hs rule: openAll.induct)
  case (2 E tx txs w)
  then show ?case by (auto simp: WriteOpenTx_frame world_Hash_def split: option.splits)
qed simp

text \<open>Before the first block is closed there is no history.\<close>

lemma historicTransactions_empty:
  "ReadLastClosedBlock E w = None \<Longrightarrow> historicTransactions E senders receivers w = Some ([], w)"
  by (simp add: historicTransactions_def searchTransactionsInHistoricBlocks_def ReadAllClosedBlocksWithTransactions_def Let_def)


subsection \<open>Examples\<close>

lemma ConstrAggTx_returns:
  assumes "\<exists>h \<in> set hs. h \<noteq> zero_hash"
  shows "\<exists>aggTx. ConstrAggTx C a f senders receivers hs = Some aggTx"
proof -
  have "hs \<noteq> []" using assms by auto
  then show ?thesis using newTree_Some [OF assms, of C] by (auto simp: ConstrAggTx_def BuildAggTxMerkleTree_def)
qed

text \<open>Two transfers of one sender with different hashes.\<close>

definition demo_trx1 :: FundsTx where
  "demo_trx1 = (demo_tx 1 2 10 1 0)\<lparr>ft_CheckString := Some (NewCheckString 1 1)\<rparr>"

definition demo_trx2 :: FundsTx where
  "demo_trx2 = (demo_tx 1 3 20 1 1)\<lparr>ft_CheckString := Some (NewCheckString 2 1)\<rparr>"

lemma demo_trx_Hash:
  "ChamMap w (demo_hash 1) = Some demo_cham \<Longrightarrow> world_Hash demo_E w (TFunds demo_trx1) = Some (4 # replicate 31 0)"
  "ChamMap w (demo_hash 1) = Some demo_cham \<Longrightarrow> world_Hash demo_E w (TFunds demo_trx2) = Some (5 # replicate 31 0)"
proof -
  have "ChameleonHash (\<lambda>_. [2]) (Some demo_cham) (Some (NewCheckString 1 1)) msg = Some (4 # replicate 31 0)"
    "ChameleonHash (\<lambda>_. [2]) (Some demo_cham) (Some (NewCheckString 2 1)) msg = Some (5 # replicate 31 0)" for msg
    unfolding chameleon_defs demo_cham_def zero_hash_def by (simp_all add: chameleon_eval)
  then show "ChamMap w (demo_hash 1) = Some demo_cham \<Longrightarrow> world_Hash demo_E w (TFunds demo_trx1) = Some (4 # replicate 31 0)"
    "ChamMap w (demo_hash 1) = Some demo_cham \<Longrightarrow> world_Hash demo_E w (TFunds demo_trx2) = Some (5 # replicate 31 0)"
    by (simp_all add: world_Hash_def FundsTx_Hash_def demo_trx1_def demo_trx2_def demo_tx_def ConstrFundsTx_def)
qed

theorem splitSorted_partition_witness:
  "\<exists>gs. mset (concat gs) = {#demo_trx1, demo_trx2#} \<and>
    splitSortedAggregatableTransactions demo_E (\<lambda>n m. m) 3 [] [] zero_block (demo_world Map.empty []\<lparr>FundsTxBeforeAggregation := [demo_trx1, demo_trx2]\<rparr>) =
      bind_run (aggregateGroups demo_E gs zero_block (demo_world Map.empty []\<lparr>FundsTxBeforeAggregation := [demo_trx1, demo_trx2]\<rparr>))
        (\<lambda>(b', w'). Done (b', w'\<lparr>FundsTxBeforeAggregation := []\<rparr>))"
  using splitSorted_partition [of "\<lambda>n m. m" "demo_world Map.empty []\<lparr>FundsTxBeforeAggregation := [demo_trx1, demo_trx2]\<rparr>" 3 demo_E "[]" "[]" zero_block]
  by auto

lemma demo_aggregate:
  "\<exists>b' w'. AggregateTransactions demo_E [demo_trx1, demo_trx2] zero_block (demo_world Map.empty []) = Some (True, b', w')"
proof -
  have 1: "openAll demo_E [demo_trx1, demo_trx2] (demo_world Map.empty []) = Some ([4 # replicate 31 0, 5 # replicate 31 0], w1)"
     if "w1 = demo_world Map.empty []\<lparr>txMemPool := [4 # replicate 31 0 \<mapsto> TFunds demo_trx1, 5 # replicate 31 0 \<mapsto> TFunds demo_trx2],
       TxcntToTxMap := (\<lambda>_. [])(0 := [4 # replicate 31 0], 1 := [5 # replicate 31 0])\<rparr>" for w1
    unfolding that by (simp add: WriteOpenTx_def WriteTxcntToTx_def demo_trx_Hash Let_def) (simp add: demo_trx1_def demo_trx2_def demo_world_def)
  obtain aggTx where "ConstrAggTx (crypto demo_E) (sum_list (map ft_Amount [demo_trx1, demo_trx2])) 0 (shorten (map ft_From [demo_trx1, demo_trx2]))
      (shorten (map ft_To [demo_trx1, demo_trx2])) ([4 # replicate 31 0, 5 # replicate 31 0] @ []) = Some aggTx"
  proof -
    have z: "zero_hash = 0 # replicate 31 0" by (simp add: zero_hash_def flip: replicate_Suc)
    have "4 # replicate 31 0 \<noteq> zero_hash" unfolding z list.inject by simp
    then have "\<exists>h \<in> set ([4 # replicate 31 0, 5 # replicate 31 0] @ []). h \<noteq> zero_hash" by simp
    from ConstrAggTx_returns [OF this] that show ?thesis by blast
  qed
  moreover have "ReadLastClosedBlock demo_E w = None" if "db w = []" for w
    using that by (simp add: ReadLastClosedBlock_def demo_E_def)
  ultimately show ?thesis
    unfolding AggregateTransactions_def 1 [OF refl] Let_def
    by (simp add: historicTransactions_empty WriteOpenTx_def world_Hash_def del: demo_E_simps(1))
qed


end
