(* ===== verification/PreparationProps.thy ===== *)
theory PreparationProps
  imports Preparation AggregationProps BuildingProps
begin

text \<open>
  Preparation of a block: the order of the open transactions, the choice of those that fit and what it gets wrong, and that
  preparing a block changes no account.
\<close>

subsection \<open>Sorting\<close>

text \<open>
  The insertion sort at the end of \<^verbatim>\<open>sort.Sort\<close>, on lists: an element moves left as long as it is less than its neighbour. The
  sorted part is kept in reverse.
\<close>

fun moveLeft :: "('a \<Rightarrow> 'a \<Rightarrow> bool option) \<Rightarrow> 'a \<Rightarrow> 'a list \<Rightarrow> 'a list option" where
  "moveLeft lt x [] = Some [x]"
| "moveLeft lt x (y # ys) = (case lt x y of None \<Rightarrow> None
     | Some True \<Rightarrow> map_option (\<lambda>zs. y # zs) (moveLeft lt x ys)
     | Some False \<Rightarrow> Some (x # y # ys))"

fun insertAll :: "('a \<Rightarrow> 'a \<Rightarrow> bool option) \<Rightarrow> 'a list \<Rightarrow> 'a list \<Rightarrow> 'a list option" where
  "insertAll lt acc [] = Some acc"
| "insertAll lt acc (x # xs) = (case moveLeft lt x acc of None \<Rightarrow> None | Some acc' \<Rightarrow> insertAll lt acc' xs)"

lemma shiftLeft_moveLeft:
  "shiftLeft lt 0 (length acc) (rev acc @ x # rest) = map_option (\<lambda>acc'. rev acc' @ rest) (moveLeft lt x acc)"
proof (induction acc arbitrary: rest)
  case (Cons y ys)
  have "Less_at lt (rev ys @ y # x # rest) (Suc (length ys)) (length ys) = lt x y"
    by (simp add: Less_at_def nth_append)
  moreover have "Swap_at (rev ys @ y # x # rest) (Suc (length ys)) (length ys) = Some (rev ys @ x # y # rest)"
    by (simp add: Swap_at_def nth_append list_update_append)
  ultimately show ?case
    using Cons.IH [of "y # rest"] by (auto split: option.split bool.split simp: option.map_comp o_def)
qed simp

lemma length_moveLeft: "moveLeft lt x acc = Some acc' \<Longrightarrow> length acc' = Suc (length acc)"
  by (induction acc arbitrary: acc') (auto split: option.splits bool.splits)

lemma foreach_insertAll:
  "foreach (shiftLeft lt 0) [length acc..<length acc + length rest] (rev acc @ rest) = map_option rev (insertAll lt acc rest)"
proof (induction rest arbitrary: acc)
  case (Cons x rest)
  have "[length acc..<length acc + length (x # rest)] = length acc # [Suc (length acc)..<Suc (length acc) + length rest]"
    by (simp add: upt_conv_Cons del: upt_Suc)
  moreover have "foreach (shiftLeft lt 0) [Suc (length acc)..<Suc (length acc) + length rest] (rev acc' @ rest) = map_option rev (insertAll lt acc' rest)"
    if "moveLeft lt x acc = Some acc'" for acc'
    using Cons.IH [of acc'] length_moveLeft [OF that] by simp
  ultimately show ?case
    by (simp add: shiftLeft_moveLeft del: upt_Suc add_Suc add_Suc_right split: option.split)
qed simp

lemma insertionSort_insertAll: "insertionSort lt 0 (length xs) xs = map_option rev (insertAll lt [] xs)"
proof (cases xs)
  case (Cons x rest)
  then show ?thesis using foreach_insertAll [of lt "[x]" rest] by (simp add: insertionSort_def)
qed (simp add: insertionSort_def)

lemma Sort_short:
  assumes "length xs \<le> 12"
  shows "Sort lt xs = shellPass lt 0 (length xs) xs \<bind> insertionSort lt 0 (length xs)"
proof -
  have "Sort lt xs = sortShort lt 0 (length xs) xs"
    using assms by (cases "maxDepth (length xs)") (simp_all add: Sort_def)
  moreover have "shellPass lt 0 (length xs) xs = Some xs \<and> insertionSort lt 0 (length xs) xs = Some xs" if "length xs \<le> 1"
    using that by (simp add: shellPass_def insertionSort_def)
  ultimately show ?thesis by (auto simp: sortShort_def)
qed

text \<open>The types that are placed at the beginning.\<close>

fun plainTx :: "Transaction \<Rightarrow> bool" where
  "plainTx (TFunds _) = False"
| "plainTx (TUpdate _) = False"
| "plainTx _ = True"

lemma Less_plain: "plainTx x \<Longrightarrow> openTxs_Less x y = Some True"
  by (cases x) (auto simp: openTxs_Less_def)

lemma Less_movable: "\<not> plainTx x \<Longrightarrow> plainTx y \<Longrightarrow> openTxs_Less x y = Some False"
  by (cases x; cases y) (auto simp: openTxs_Less_def)

lemma Less_funds: "openTxs_Less (TFunds a) (TFunds b) = Some (ft_TxCnt a < ft_TxCnt b)"
  by (simp add: openTxs_Less_def)

lemma Less_update: "openTxs_Less (TUpdate u) (TFunds b) = None" "openTxs_Less (TUpdate u) (TUpdate v) = None" "openTxs_Less (TFunds a) (TUpdate v) = None"
  by (simp_all add: openTxs_Less_def)

text \<open>The sorted part, in reverse: funds transactions with falling counters, or one update transaction, before the others.\<close>

definition sortedRev :: "Transaction list \<Rightarrow> bool" where
  "sortedRev acc \<longleftrightarrow> (\<exists>top pre. acc = top @ pre \<and> list_all plainTx pre \<and>
     ((\<exists>u. top = [TUpdate u]) \<or> (\<exists>fs. top = map TFunds fs \<and> sorted_wrt (\<lambda>a b. ft_TxCnt a \<ge> ft_TxCnt b) fs)))"

lemma moveLeft_plain: "plainTx x \<Longrightarrow> moveLeft openTxs_Less x acc = Some (acc @ [x])"
  by (induction acc) (simp_all add: Less_plain)

lemma moveLeft_funds:
  assumes "list_all plainTx pre" "sorted_wrt (\<lambda>a b. ft_TxCnt a \<ge> ft_TxCnt b) fs"
  shows "\<exists>gs. moveLeft openTxs_Less (TFunds f) (map TFunds fs @ pre) = Some (map TFunds gs @ pre) \<and> mset gs = add_mset f (mset fs) \<and>
    sorted_wrt (\<lambda>a b. ft_TxCnt a \<ge> ft_TxCnt b) gs"
  using assms(2)
proof (induction fs)
  case Nil
  then show ?case using assms(1) by (cases pre) (auto simp: Less_movable intro!: exI [of _ "[f]"])
next
  case (Cons a fs)
  show ?case
  proof (cases "ft_TxCnt f < ft_TxCnt a")
    case True
    obtain gs where gs: "moveLeft openTxs_Less (TFunds f) (map TFunds fs @ pre) = Some (map TFunds gs @ pre)" "mset gs = add_mset f (mset fs)"
      "sorted_wrt (\<lambda>a b. ft_TxCnt a \<ge> ft_TxCnt b) gs" using Cons by auto
    have "set gs = insert f (set fs)" using gs(2) by (metis set_mset_add_mset_insert set_mset_mset)
    then show ?thesis using gs Cons.prems True by (intro exI [of _ "a # gs"]) (auto simp: Less_funds)
  next
    case False
    then show ?thesis using Cons.prems by (intro exI [of _ "f # a # fs"]) (auto simp: Less_funds)
  qed
qed

lemma moveLeft_sortedRev:
  assumes "sortedRev acc"
  shows "(moveLeft openTxs_Less x acc = None \<longleftrightarrow> \<not> plainTx x \<and> list_ex (\<lambda>t. \<not> plainTx t) acc \<and> (\<exists>u. TUpdate u \<in> set (x # acc))) \<and>
    (\<forall>acc'. moveLeft openTxs_Less x acc = Some acc' \<longrightarrow> sortedRev acc' \<and> mset acc' = add_mset x (mset acc))"
proof -
  obtain top pre where acc: "acc = top @ pre" "list_all plainTx pre"
    and top: "(\<exists>u. top = [TUpdate u]) \<or> (\<exists>fs. top = map TFunds fs \<and> sorted_wrt (\<lambda>a b. ft_TxCnt a \<ge> ft_TxCnt b) fs)"
    using assms unfolding sortedRev_def by blast
  have pre: "TUpdate u \<notin> set pre" "TFunds f \<notin> set pre" for u f using acc(2) by (auto simp: list_all_iff dest: bspec)
  show ?thesis
  proof (cases "plainTx x")
    case True
    have "sortedRev (acc @ [x])"
      unfolding sortedRev_def using acc top True by (intro exI [of _ top] exI [of _ "pre @ [x]"]) auto
    then show ?thesis using True by (simp add: moveLeft_plain)
  next
    case False
    consider u where "top = [TUpdate u]" | fs f where "top = map TFunds fs" "sorted_wrt (\<lambda>a b. ft_TxCnt a \<ge> ft_TxCnt b) fs" "x = TFunds f"
      | fs u where "top = map TFunds fs" "sorted_wrt (\<lambda>a b. ft_TxCnt a \<ge> ft_TxCnt b) fs" "x = TUpdate u"
      using top False by (cases x) auto
    then show ?thesis
    proof cases
      case 1
      then show ?thesis using acc(1) False by (cases x) (auto simp: Less_update)
    next
      case (2 fs f)
      obtain gs where "moveLeft openTxs_Less (TFunds f) acc = Some (map TFunds gs @ pre)" "mset gs = add_mset f (mset fs)"
        "sorted_wrt (\<lambda>a b. ft_TxCnt a \<ge> ft_TxCnt b) gs" using moveLeft_funds [OF acc(2) 2(2), of f] acc(1) 2(1) by blast
      moreover from this have "sortedRev (map TFunds gs @ pre)" unfolding sortedRev_def using acc(2) by blast
      moreover have "TUpdate u \<notin> set (x # acc)" for u using 2 acc(1) pre by auto
      moreover have "mset (map TFunds gs) = add_mset (TFunds f) (mset (map TFunds fs))" using calculation(2) by simp
      ultimately show ?thesis using 2 acc(1) by auto
    next
      case (3 fs u)
      show ?thesis
      proof (cases fs)
        case Nil
        then have "moveLeft openTxs_Less x acc = Some (x # pre)" using acc 3 by (cases pre) (auto simp: Less_movable)
        moreover have "sortedRev (x # pre)" unfolding sortedRev_def using 3 acc(2) by (intro exI [of _ "[x]"] exI [of _ pre]) auto
        ultimately show ?thesis using Nil 3 acc by (auto simp: list_ex_iff list_all_iff)
      qed (use 3 acc in \<open>auto simp: Less_update\<close>)
    qed
  qed
qed

text \<open>Two transactions of which one is an update and the other one an update or a transfer cannot be compared.\<close>

definition clash :: "Transaction list \<Rightarrow> bool" where
  "clash txs \<longleftrightarrow> (\<exists>u. TUpdate u \<in> set txs) \<and> 2 \<le> length (filter (\<lambda>t. \<not> plainTx t) txs)"

lemma clash_mset: "mset txs = mset txs' \<Longrightarrow> clash txs \<longleftrightarrow> clash txs'"
  unfolding clash_def by (metis mset_eq_setD mset_filter size_mset)

lemma clash_append: "clash txs \<Longrightarrow> clash (txs @ txs')"
  by (auto simp: clash_def)

lemma sortedRev_clash:
  assumes "sortedRev acc"
  shows "\<not> clash acc"
proof -
  obtain top pre where acc: "acc = top @ pre" "list_all plainTx pre" and top: "(\<exists>u. top = [TUpdate u]) \<or> (\<exists>fs. top = map TFunds fs)"
    using assms unfolding sortedRev_def by blast
  have "filter (\<lambda>t. \<not> plainTx t) pre = []" "TUpdate u \<notin> set pre" for u using acc(2) by (auto simp: list_all_iff filter_empty_conv dest: bspec)
  then show ?thesis using acc(1) top by (auto simp: clash_def)
qed

lemma moveLeft_None: "sortedRev acc \<Longrightarrow> moveLeft openTxs_Less x acc = None \<longleftrightarrow> clash (x # acc)"
proof -
  assume acc: "sortedRev acc"
  have ex: "list_ex (\<lambda>t. \<not> plainTx t) acc \<longleftrightarrow> 1 \<le> length (filter (\<lambda>t. \<not> plainTx t) acc)"
    by (induction acc) auto
  show ?thesis
    using moveLeft_sortedRev [OF acc, of x] sortedRev_clash [OF acc] unfolding ex clash_def by auto
qed

lemma insertAll_result:
  "sortedRev acc \<Longrightarrow> (insertAll openTxs_Less acc txs = None \<longleftrightarrow> clash (acc @ txs)) \<and>
    (\<forall>r. insertAll openTxs_Less acc txs = Some r \<longrightarrow> sortedRev r \<and> mset r = mset acc + mset txs)"
proof (induction txs arbitrary: acc)
  case Nil
  then show ?case by (simp add: sortedRev_clash)
next
  case (Cons x txs)
  show ?case
  proof (cases "moveLeft openTxs_Less x acc")
    case None
    then have "clash ((x # acc) @ txs)" using moveLeft_None [OF Cons.prems] clash_append by blast
    then show ?thesis using None clash_mset [of "(x # acc) @ txs" "acc @ x # txs"] by simp
  next
    case (Some acc')
    then have acc': "sortedRev acc'" "mset acc' = add_mset x (mset acc)" using moveLeft_sortedRev [OF Cons.prems] by auto
    then show ?thesis using Cons.IH [OF acc'(1)] Some clash_mset [of "acc' @ txs" "acc @ x # txs"] by simp
  qed
qed

lemma Less_None:
  assumes "openTxs_Less x y = None"
  shows "\<not> plainTx x \<and> \<not> plainTx y \<and> ((\<exists>u. x = TUpdate u) \<or> (\<exists>u. y = TUpdate u))"
proof -
  have "\<not> plainTx x" using assms Less_plain [of x y] by auto
  moreover from this have "\<not> plainTx y" using assms Less_movable [of x y] by auto
  moreover have "x = TFunds a \<Longrightarrow> y \<noteq> TFunds b" for a b using assms Less_funds by auto
  ultimately show ?thesis by (cases x; cases y) auto
qed

lemma pair_clash:
  assumes "{#x, y#} \<subseteq># mset txs" "openTxs_Less x y = None"
  shows "clash txs"
proof -
  note np = Less_None [OF assms(2)]
  have mem: "x \<in> set txs" "y \<in> set txs" using mset_subset_eqD [OF assms(1)] by auto
  have "{#x, y#} \<subseteq># mset (filter (\<lambda>t. \<not> plainTx t) txs)"
    using multiset_filter_mono [OF assms(1), of "\<lambda>t. \<not> plainTx t"] np by simp
  from size_mset_mono [OF this] have "2 \<le> length (filter (\<lambda>t. \<not> plainTx t) txs)" by (simp del: mset_filter)
  then show ?thesis unfolding clash_def using np mem by blast
qed

lemma insertionSort_openTxs:
  "(insertionSort openTxs_Less 0 (length txs) txs = None \<longleftrightarrow> clash txs) \<and>
   (\<forall>r. insertionSort openTxs_Less 0 (length txs) txs = Some r \<longrightarrow>
      (\<exists>pre. list_all plainTx pre \<and> ((\<exists>u. r = pre @ [TUpdate u]) \<or> (\<exists>fs. r = pre @ map TFunds fs \<and> sorted (map ft_TxCnt fs)))))"
proof -
  have "sortedRev []" by (simp add: sortedRev_def)
  note res = insertAll_result [OF this, of txs]
  have "\<exists>pre. list_all plainTx pre \<and> ((\<exists>u. rev acc = pre @ [TUpdate u]) \<or> (\<exists>fs. rev acc = pre @ map TFunds fs \<and> sorted (map ft_TxCnt fs)))"
    if "sortedRev acc" for acc
  proof -
    obtain top pre where acc: "acc = top @ pre" "list_all plainTx pre"
      and top: "(\<exists>u. top = [TUpdate u]) \<or> (\<exists>fs. top = map TFunds fs \<and> sorted_wrt (\<lambda>a b. ft_TxCnt a \<ge> ft_TxCnt b) fs)"
      using \<open>sortedRev acc\<close> unfolding sortedRev_def by blast
    have "sorted (map ft_TxCnt (rev fs))" if "sorted_wrt (\<lambda>a b. ft_TxCnt a \<ge> ft_TxCnt b) fs" for fs
      using that by (simp add: sorted_wrt_map sorted_wrt_rev)
    then show ?thesis using acc top by (intro exI [of _ "rev pre"]) (auto simp: rev_map, blast)
  qed
  then show ?thesis using res by (auto simp: insertionSort_insertAll)
qed

lemma sortOpenTxs_short:
  assumes "length txs \<le> 12"
  shows "(sortOpenTxs txs = None \<longleftrightarrow> clash txs) \<and>
   (\<forall>r. sortOpenTxs txs = Some r \<longrightarrow>
      (\<exists>pre. list_all plainTx pre \<and> ((\<exists>u. r = pre @ [TUpdate u]) \<or> (\<exists>fs. r = pre @ map TFunds fs \<and> sorted (map ft_TxCnt fs)))))"
proof -
  have shell: "permutes openTxs_Less (mset txs) (shellPass openTxs_Less 0 (length txs) txs)"
    by (rule yields_shellPass) auto
  show ?thesis
  proof (cases "shellPass openTxs_Less 0 (length txs) txs")
    case None
    then have "clash txs" using shell pair_clash by (auto simp: yields_def)
    then show ?thesis using None by (simp add: sortOpenTxs_def Sort_short [OF assms])
  next
    case (Some ys)
    then have ys: "mset ys = mset txs" using shell by simp
    then have "length ys = length txs" by (metis size_mset)
    then show ?thesis
      using insertionSort_openTxs [of ys] Some clash_mset [OF ys] by (simp add: sortOpenTxs_def Sort_short [OF assms])
  qed
qed

text \<open>
  C34: how the open transactions are sorted before a block is filled. The result is a permutation of them, and the sort panics only if an update
  transaction is open together with a transfer or with another update transaction; this holds for any number of them. Up to twelve
  transactions, which \<^verbatim>\<open>sort.Sort\<close> orders without its quicksort, the panic is certain in that case, and otherwise account, configuration,
  staking and aggregation transactions come first, and then the transfers with rising counters, or a single update transaction.
\<close>

theorem sortOpenTxs_result:
  "(\<forall>r. sortOpenTxs txs = Some r \<longrightarrow> mset r = mset txs) \<and>
   (sortOpenTxs txs = None \<longrightarrow> (\<exists>u. TUpdate u \<in> set txs) \<and> 2 \<le> length (filter (\<lambda>t. \<not> plainTx t) txs)) \<and>
   (length txs \<le> 12 \<longrightarrow>
     (sortOpenTxs txs = None \<longleftrightarrow> (\<exists>u. TUpdate u \<in> set txs) \<and> 2 \<le> length (filter (\<lambda>t. \<not> plainTx t) txs)) \<and>
     (\<forall>r. sortOpenTxs txs = Some r \<longrightarrow>
       (\<exists>pre. list_all plainTx pre \<and> ((\<exists>u. r = pre @ [TUpdate u]) \<or> (\<exists>fs. r = pre @ map TFunds fs \<and> sorted (map ft_TxCnt fs))))))"
  unfolding clash_def [symmetric]
proof (intro conjI impI allI)
  show "mset r = mset txs" if "sortOpenTxs txs = Some r" for r
    using that Sort_mset unfolding sortOpenTxs_def by blast
  show "clash txs" if "sortOpenTxs txs = None"
    using that Sort_panics pair_clash unfolding sortOpenTxs_def by blast
qed (use sortOpenTxs_short in blast)+

subsection \<open>Selection\<close>

text \<open>What the first loop of a round adds to the chosen transactions.\<close>

lemma removeAt_frame:
  assumes "removeAt i s = Some s'" "se_len s \<le> length (se_arr s)"
  shows "set (se_arr s') \<subseteq> set (se_arr s)" "length (se_arr s') = length (se_arr s)" "se_len s' \<le> length (se_arr s')"
    "nonAggregatableTxCounter s' = nonAggregatableTxCounter s" "TxToAppend s' = TxToAppend s"
  using assms by (auto simp: removeAt_def split: if_splits dest!: in_set_takeD in_set_dropD)

definition isFunds :: "Transaction \<Rightarrow> bool" where
  "isFunds t \<longleftrightarrow> (\<exists>tx. t = TFunds tx)"

definition takeTx :: "Transaction \<Rightarrow> selection \<Rightarrow> selection" where
  "takeTx tx s = s\<lparr>nonAggregatableTxCounter := nonAggregatableTxCounter s + 1, TxToAppend := TxToAppend s @ [tx]\<rparr>"

lemma takeTx_simps [simp]:
  "se_arr (takeTx tx s) = se_arr s" "se_len (takeTx tx s) = se_len s" "TxToAppend (takeTx tx s) = TxToAppend s @ [tx]"
  "nonAggregatableTxCounter (takeTx tx s) = Suc (nonAggregatableTxCounter s)"
  by (simp_all add: takeTx_def)

lemma scanOpenTxs_other:
  assumes "\<not> isFunds (se_arr s ! i)" "\<nexists>tx. se_arr s ! i = TAgg tx"
  shows "scanOpenTxs B i (Suc k) s = (if (int (nonAggregatableTxCounter s) + 1) * 32 < B then
      (if i \<noteq> se_len s then Option.bind (removeAt i (takeTx (se_arr s ! i) s)) (scanOpenTxs B (Suc i) k)
       else scanOpenTxs B (Suc i) k (takeTx (se_arr s ! i) s))
    else Some (True, s))"
  using assms by (cases "se_arr s ! i") (auto simp: isFunds_def takeTx_def TRANSACTION_HASH_SIZE_def Let_def split: option.splits)

text \<open>What the first loop of a round adds to the chosen transactions.\<close>

definition scanned :: "int \<Rightarrow> selection \<Rightarrow> bool \<Rightarrow> selection \<Rightarrow> Transaction list \<Rightarrow> bool" where
  "scanned B s f s' others \<longleftrightarrow> TxToAppend s' = TxToAppend s @ others \<and> nonAggregatableTxCounter s' = nonAggregatableTxCounter s + length others \<and>
    set others \<subseteq> set (se_arr s) \<and> list_all (\<lambda>t. \<not> isFunds t) others \<and> (others = [] \<or> int (nonAggregatableTxCounter s') * 32 < B) \<and>
    set (se_arr s') \<subseteq> set (se_arr s) \<and> (list_all isFunds (se_arr s) \<longrightarrow> \<not> f \<and> others = [])"

lemma scanned_step:
  assumes "scanned B s1 f s' others" "TxToAppend s1 = TxToAppend s @ [tx]" "nonAggregatableTxCounter s1 = Suc (nonAggregatableTxCounter s)"
    "set (se_arr s1) \<subseteq> set (se_arr s)" "tx \<in> set (se_arr s)" "\<not> isFunds tx" "(int (nonAggregatableTxCounter s) + 1) * 32 < B"
  shows "scanned B s f s' (tx # others)"
  using assms by (auto simp: scanned_def list_all_iff)

lemma scanOpenTxs_result:
  assumes "scanOpenTxs B i k s = Some (f, s')" "i + k = length (se_arr s)" "se_len s \<le> length (se_arr s)"
  shows "\<exists>others. scanned B s f s' others"
  using assms
proof (induction k arbitrary: i s)
  case 0
  then show ?case by (intro exI [of _ "[]"]) (simp add: scanned_def)
next
  case (Suc k)
  let ?tx = "se_arr s ! i"
  have mem: "?tx \<in> set (se_arr s)" using Suc.prems(2) by auto
  consider (funds) tx where "?tx = TFunds tx" | (agg) tx where "?tx = TAgg tx" | (other) "\<not> isFunds ?tx" "\<nexists>tx. ?tx = TAgg tx"
    unfolding isFunds_def by blast
  then show ?case
  proof cases
    case (funds tx)
    let ?s = "s\<lparr>DifferentSenders := countKey (ft_From tx) (DifferentSenders s), DifferentReceivers := countKey (ft_To tx) (DifferentReceivers s)\<rparr>"
    have "\<exists>others. scanned B ?s f s' others" using Suc.prems funds by (intro Suc.IH [of "Suc i"]) auto
    then show ?thesis by (simp add: scanned_def)
  next
    case (agg tx)
    then show ?thesis using Suc.prems by (intro Suc.IH [of "Suc i"]) auto
  next
    case other
    note eq = scanOpenTxs_other [OF other, of B k]
    show ?thesis
    proof (cases "(int (nonAggregatableTxCounter s) + 1) * 32 < B")
      case True
      then obtain s1 where s1: "scanOpenTxs B (Suc i) k s1 = Some (f, s')" "s1 = takeTx ?tx s \<or> removeAt i (takeTx ?tx s) = Some s1"
        using Suc.prems(1) unfolding eq by (auto simp: bind_eq_Some_conv split: if_splits)
      have fr: "set (se_arr s1) \<subseteq> set (se_arr s)" "length (se_arr s1) = length (se_arr s)" "se_len s1 \<le> length (se_arr s1)"
        "nonAggregatableTxCounter s1 = Suc (nonAggregatableTxCounter s)" "TxToAppend s1 = TxToAppend s @ [?tx]"
        using s1(2) removeAt_frame [of i "takeTx ?tx s" s1] Suc.prems(3) by auto
      have "\<exists>others. scanned B s1 f s' others" using s1(1) fr Suc.prems(2) by (intro Suc.IH [of "Suc i"]) auto
      then show ?thesis using scanned_step [OF _ fr(5,4,1) mem other(1) True] by blast
    next
      case False
      then show ?thesis using Suc.prems(1) mem other(1) unfolding eq by (intro exI [of _ "[]"]) (auto simp: scanned_def list_all_iff)
    qed
  qed
qed

lemma fundsWith_group: "\<exists>g. fundsWith P txs = map TFunds g \<and> (\<forall>f \<in> set g. P f) \<and> set (map TFunds g) \<subseteq> set txs"
proof (induction txs)
  case (Cons t txs)
  then obtain g where g: "fundsWith P txs = map TFunds g" "\<forall>f \<in> set g. P f" "set (map TFunds g) \<subseteq> set txs" by blast
  show ?case
  proof (cases "\<exists>f. t = TFunds f \<and> P f")
    case True
    then obtain f where "t = TFunds f" "P f" by blast
    then show ?thesis using g by (intro exI [of _ "f # g"]) (auto simp: fundsWith_def)
  next
    case False
    then have "fundsWith P (t # txs) = fundsWith P txs" by (cases t) (auto simp: fundsWith_def)
    then show ?thesis using g by auto
  qed
qed (simp add: fundsWith_def)

lemma pickOpen_result:
  assumes "pickOpen it n s = (chosen, rest)"
  shows "\<exists>g. chosen = map TFunds g \<and> one_side g \<and> set chosen \<subseteq> set (se_arr s) \<and> set rest \<subseteq> set (se_arr s) \<and> list_all isFunds rest"
proof -
  let ?txs = "take (se_len s) (se_arr s)"
  obtain P Q where pq: "chosen = fundsWith P ?txs" "rest = fundsWith Q ?txs"
    and P: "(\<exists>a. P = (\<lambda>f. ft_From f = a)) \<or> (\<exists>a. P = (\<lambda>f. ft_To f = a))"
    using assms unfolding pickOpen_def Let_def by (auto split: prod.splits if_splits)
  obtain g g' where g: "chosen = map TFunds g" "\<forall>f \<in> set g. P f" "set chosen \<subseteq> set ?txs" "rest = map TFunds g'" "set rest \<subseteq> set ?txs"
    using fundsWith_group [of P ?txs] fundsWith_group [of Q ?txs] pq by auto
  moreover have "one_side g" using P g(2) unfolding one_side_def by auto
  moreover have "set ?txs \<subseteq> set (se_arr s)" by (rule set_take_subset)
  moreover have "list_all isFunds rest" unfolding g(4) by (simp add: list_all_iff isFunds_def)
  ultimately show ?thesis by blast
qed

text \<open>One round that goes on: its group fits.\<close>

lemma checkLoop_cases:
  assumes "checkLoop it B nr txs s = Some s'"
  obtains f s1 others where "scanned B (s\<lparr>se_arr := txs, se_len := length txs\<rparr>) f s1 others" "TxToAppend s' = TxToAppend s1"
      "nonAggregatableTxCounter s' = nonAggregatableTxCounter s1"
    | s1 others g rest where "scanned B (s\<lparr>se_arr := txs, se_len := length txs\<rparr>) False s1 others" "one_side g" "set (map TFunds g) \<subseteq> set txs"
      "set rest \<subseteq> set txs" "list_all isFunds rest" "(int (nr + 1) + int (nonAggregatableTxCounter s1)) * 32 < B"
      "rest = [] \<and> s' = s1\<lparr>DifferentSenders := [], DifferentReceivers := [], TxToAppend := TxToAppend s1 @ map TFunds g\<rparr> \<or>
       checkLoop it B (nr + 1) rest (s1\<lparr>DifferentSenders := [], DifferentReceivers := [], TxToAppend := TxToAppend s1 @ map TFunds g\<rparr>) = Some s'"
proof -
  let ?s = "s\<lparr>se_arr := txs, se_len := length txs\<rparr>"
  obtain f s1 where sc: "scanOpenTxs B 0 (length txs) ?s = Some (f, s1)"
    using assms by (subst (asm) checkLoop.simps) (auto split: option.splits)
  obtain others where others: "scanned B ?s f s1 others" using scanOpenTxs_result [OF sc] by auto
  obtain chosen rest where p: "pickOpen it nr s1 = (chosen, rest)" by force
  obtain g where g: "chosen = map TFunds g" "one_side g" "set chosen \<subseteq> set (se_arr s1)" "set rest \<subseteq> set (se_arr s1)" "list_all isFunds rest"
    using pickOpen_result [OF p] by blast
  have arr: "set (se_arr s1) \<subseteq> set txs" using others by (auto simp: scanned_def)
  show ?thesis
  proof (cases "\<not> f \<and> (int (nr + 1) + int (nonAggregatableTxCounter s1)) * 32 < B")
    case True
    then have "rest = [] \<and> s' = s1\<lparr>DifferentSenders := [], DifferentReceivers := [], TxToAppend := TxToAppend s1 @ map TFunds g\<rparr> \<or>
       checkLoop it B (nr + 1) rest (s1\<lparr>DifferentSenders := [], DifferentReceivers := [], TxToAppend := TxToAppend s1 @ map TFunds g\<rparr>) = Some s'"
      using assms sc p g(1) by (subst (asm) checkLoop.simps) (auto simp: TRANSACTION_HASH_SIZE_def Let_def split: if_splits)
    then show ?thesis using that(2) [of s1 others g rest] True others g arr by auto
  next
    case False
    then have "TxToAppend s' = TxToAppend s1 \<and> nonAggregatableTxCounter s' = nonAggregatableTxCounter s1"
      using assms sc p by (subst (asm) checkLoop.simps) (auto simp: TRANSACTION_HASH_SIZE_def Let_def split: bool.splits)
    then show ?thesis using that(1) others by blast
  qed
qed

lemma checkLoop_funds:
  assumes "checkLoop it B nr txs s = Some s'" "list_all isFunds txs"
  shows "\<exists>gs. TxToAppend s' = TxToAppend s @ map TFunds (concat gs) \<and> list_all one_side gs \<and> TFunds ` set (concat gs) \<subseteq> set txs \<and>
    (gs = [] \<or> (int (nr + length gs) + int (nonAggregatableTxCounter s)) * 32 < B)"
  using assms
proof (induction "nat (B - int nr * 32)" arbitrary: nr txs s rule: less_induct)
  case less
  show ?case
  proof (cases rule: checkLoop_cases [OF less.prems(1)])
    case (1 f s1 others)
    then show ?thesis using less.prems(2) by (intro exI [of _ "[]"]) (auto simp: scanned_def)
  next
    case (2 s1 others g rest)
    have sc: "TxToAppend s1 = TxToAppend s" "nonAggregatableTxCounter s1 = nonAggregatableTxCounter s"
      using 2(1) less.prems(2) by (auto simp: scanned_def)
    show ?thesis
    proof (cases "rest = [] \<and> s' = s1\<lparr>DifferentSenders := [], DifferentReceivers := [], TxToAppend := TxToAppend s1 @ map TFunds g\<rparr>")
      case True
      then show ?thesis using 2 sc by (intro exI [of _ "[g]"]) auto
    next
      case False
      let ?s = "s1\<lparr>DifferentSenders := [], DifferentReceivers := [], TxToAppend := TxToAppend s1 @ map TFunds g\<rparr>"
      have "checkLoop it B (nr + 1) rest ?s = Some s'" using 2(7) False by blast
      from less.hyps [OF _ this 2(5)] 2(6) obtain gs where "TxToAppend s' = TxToAppend ?s @ map TFunds (concat gs)" "list_all one_side gs"
        "TFunds ` set (concat gs) \<subseteq> set rest" "gs = [] \<or> (int (nr + 1 + length gs) + int (nonAggregatableTxCounter ?s)) * 32 < B" by auto
      then show ?thesis using 2(2-6) sc by (intro exI [of _ "g # gs"]) auto
    qed
  qed
qed

text \<open>
  C35: the chosen transactions fit into the block. \<^verbatim>\<open>checkBestCombination\<close> returns open transactions only: first those that cannot be
  aggregated, then the transfers in groups with one sender or one receiver; unless nothing is chosen, one hash for each of the former and one
  for each group take less space than the block has.
\<close>

theorem checkBestCombination_fits:
  assumes "checkBestCombination it blockSize txs = Some s"
  shows "set (TxToAppend s) \<subseteq> set txs \<and>
    (\<exists>others gs. TxToAppend s = others @ map TFunds (concat gs) \<and> (\<forall>t \<in> set others. \<nexists>tx. t = TFunds tx) \<and>
      (\<forall>g \<in> set gs. (\<exists>a. \<forall>tx \<in> set g. ft_From tx = a) \<or> (\<exists>a. \<forall>tx \<in> set g. ft_To tx = a)) \<and>
      (TxToAppend s = [] \<or> (int (length others) + int (length gs)) * TRANSACTION_HASH_SIZE < blockSize))"
proof -
  have "\<exists>others gs. TxToAppend s = others @ map TFunds (concat gs) \<and> list_all (\<lambda>t. \<not> isFunds t) others \<and> list_all one_side gs \<and>
      set others \<union> TFunds ` set (concat gs) \<subseteq> set txs \<and> (others = [] \<and> gs = [] \<or> (int (length others) + int (length gs)) * 32 < blockSize)"
  proof (cases rule: checkLoop_cases [OF assms [unfolded checkBestCombination_def]])
    case (1 f s1 others)
    then show ?thesis by (intro exI [of _ others] exI [of _ "[]"]) (auto simp: scanned_def noSelection_def)
  next
    case (2 s1 others g rest)
    let ?s = "s1\<lparr>DifferentSenders := [], DifferentReceivers := [], TxToAppend := TxToAppend s1 @ map TFunds g\<rparr>"
    have sc: "TxToAppend s1 = others" "nonAggregatableTxCounter s1 = length others" "set others \<subseteq> set txs" "list_all (\<lambda>t. \<not> isFunds t) others"
      using 2(1) by (auto simp: scanned_def noSelection_def)
    obtain gs where "TxToAppend s = TxToAppend ?s @ map TFunds (concat gs)" "list_all one_side gs" "TFunds ` set (concat gs) \<subseteq> set rest"
        "gs = [] \<or> (int (1 + length gs) + int (nonAggregatableTxCounter ?s)) * 32 < blockSize"
    proof (cases "rest = [] \<and> s = ?s")
      case True
      then show ?thesis using that [of "[]"] by simp
    next
      case False
      then have "checkLoop it blockSize (0 + 1) rest ?s = Some s" using 2(7) by blast
      from checkLoop_funds [OF this 2(5)] show ?thesis using that by auto
    qed
    then show ?thesis using 2(2-6) sc by (intro exI [of _ others] exI [of _ "g # gs"]) auto
  qed
  then obtain others gs where r: "TxToAppend s = others @ map TFunds (concat gs)" "list_all (\<lambda>t. \<not> isFunds t) others" "list_all one_side gs"
      "set others \<union> TFunds ` set (concat gs) \<subseteq> set txs" "others = [] \<and> gs = [] \<or> (int (length others) + int (length gs)) * 32 < blockSize" by blast
  have "set (TxToAppend s) \<subseteq> set txs" unfolding r(1) using r(4) by simp
  moreover have "\<forall>t \<in> set others. \<nexists>tx. t = TFunds tx" using r(2) by (simp add: list_all_iff isFunds_def)
  moreover have "\<forall>g \<in> set gs. (\<exists>a. \<forall>tx \<in> set g. ft_From tx = a) \<or> (\<exists>a. \<forall>tx \<in> set g. ft_To tx = a)" using r(3) by (simp add: list_all_iff one_side_def)
  moreover have "TxToAppend s = [] \<or> (int (length others) + int (length gs)) * TRANSACTION_HASH_SIZE < blockSize"
    using r(1,5) unfolding TRANSACTION_HASH_SIZE_def by auto
  ultimately show ?thesis using r(1) by blast
qed

text \<open>
  Removing entries while the loop runs goes wrong. On three open configuration transactions that fit into the block
  \<^verbatim>\<open>checkBestCombination\<close> panics; on two of them and a transfer it chooses the first and the transfer, and the second is skipped.
\<close>

theorem checkBestCombination_removal:
  assumes "128 < blockSize"
  shows "checkBestCombination it blockSize [TConfig c1, TConfig c2, TConfig c3] = None \<and>
    (\<exists>s. checkBestCombination (\<lambda>n m. m) blockSize [TConfig c1, TConfig c2, TFunds f] = Some s \<and> TxToAppend s = [TConfig c1, TFunds f])"
proof
  show "checkBestCombination it blockSize [TConfig c1, TConfig c2, TConfig c3] = None"
    unfolding checkBestCombination_def using assms
    by (subst checkLoop.simps) (simp add: noSelection_def removeAt_def TRANSACTION_HASH_SIZE_def numeral_eq_Suc Let_def)
  show "\<exists>s. checkBestCombination (\<lambda>n m. m) blockSize [TConfig c1, TConfig c2, TFunds f] = Some s \<and> TxToAppend s = [TConfig c1, TFunds f]"
    unfolding checkBestCombination_def using assms
    by (subst checkLoop.simps) (simp add: noSelection_def removeAt_def TRANSACTION_HASH_SIZE_def countKey_def pickOpen_def numeral_eq_Suc
        getMaxKeyAndValueFormMap_def fundsWith_def Let_def)
qed

theorem checkBestCombination_removal_witness:
  "blockSpace NewDefaultParameters = 4342 \<and> checkBestCombination (\<lambda>n m. m) 4342 [TConfig (ConfigTx.truncate undefined), TConfig (ConfigTx.truncate undefined), TConfig (ConfigTx.truncate undefined)] = None"
  using checkBestCombination_removal [of 4342] by (simp add: blockSpace_def NewDefaultParameters_def)

theorem checkBestCombination_fits_witness:
  "\<exists>s. checkBestCombination (\<lambda>n m. m) 4342 [TFunds (demo_tx 1 2 5 1 0)] = Some s \<and> set (TxToAppend s) \<subseteq> {TFunds (demo_tx 1 2 5 1 0)}"
proof -
  have "\<exists>s. checkBestCombination (\<lambda>n m. m) 4342 [TFunds (demo_tx 1 2 5 1 0)] = Some s"
    unfolding checkBestCombination_def
    by (subst checkLoop.simps) (simp add: noSelection_def TRANSACTION_HASH_SIZE_def countKey_def pickOpen_def numeral_eq_Suc
        getMaxKeyAndValueFormMap_def fundsWith_def Let_def)
  then show ?thesis using checkBestCombination_fits by fastforce
qed

theorem sortOpenTxs_result_witness:
  "\<exists>r. sortOpenTxs [TFunds (demo_tx 1 2 5 1 1), TFunds (demo_tx 1 2 5 1 0)] = Some r \<and> mset r = {#TFunds (demo_tx 1 2 5 1 1), TFunds (demo_tx 1 2 5 1 0)#}"
proof -
  have "sortOpenTxs [TFunds (demo_tx 1 2 5 1 1), TFunds (demo_tx 1 2 5 1 0)] = Some [TFunds (demo_tx 1 2 5 1 0), TFunds (demo_tx 1 2 5 1 1)]"
    by (simp add: sortOpenTxs_def Sort_short shellPass_def insertionSort_def Less_at_def Swap_at_def openTxs_Less_def)
  with sortOpenTxs_result [of "[TFunds (demo_tx 1 2 5 1 1), TFunds (demo_tx 1 2 5 1 0)]"] show ?thesis by auto
qed

subsection \<open>Accounts\<close>

text \<open>An account without its contract, whose code and variables a contract call during preparation writes in place.\<close>

definition strip :: "Account \<Rightarrow> Account" where
  "strip a = a\<lparr>acc_Contract := None, acc_ContractVariables := []\<rparr>"

definition keeps_accounts :: "'d world \<Rightarrow> 'd world \<Rightarrow> bool" where
  "keeps_accounts w w' \<longleftrightarrow> parameterSlice w' = parameterSlice w \<and> RootKeys w' = RootKeys w \<and> (\<forall>h. map_option strip (State w' h) = map_option strip (State w h)) \<and>
     ReceivedBlockStash w' = ReceivedBlockStash w \<and> lastBlock w' = lastBlock w"

lemma keeps_refl [simp]: "keeps_accounts w w"
  by (simp add: keeps_accounts_def)

lemma keeps_trans: "keeps_accounts w w1 \<Longrightarrow> keeps_accounts w1 w2 \<Longrightarrow> keeps_accounts w w2"
  by (simp add: keeps_accounts_def)

lemma keeps_touch [simp]: "keeps_accounts w (touch tx tx' w)"
  by (simp add: keeps_accounts_def touch_def)

lemma keeps_storage:
  "WriteOpenTx E tx w = Some w' \<Longrightarrow> keeps_accounts w w'"
  "WriteINVALIDOpenTx E tx w = Some w' \<Longrightarrow> keeps_accounts w w'"
  "DeleteOpenTx E tx w = Some w' \<Longrightarrow> keeps_accounts w w'"
  "DeleteINVALIDOpenTx E tx w = Some w' \<Longrightarrow> keeps_accounts w w'"
  "WriteClosedTx E tx w = Some w' \<Longrightarrow> keeps_accounts w w'"
  "db_only w w' \<Longrightarrow> keeps_accounts w w'"
  by (auto simp: keeps_accounts_def WriteOpenTx_def WriteTxcntToTx_def WriteINVALIDOpenTx_def DeleteOpenTx_def DeleteINVALIDOpenTx_def WriteClosedTx_def
      db_only_def Let_def split: option.splits Transaction.splits)

lemma callContract_keeps_accounts: "callContract V tx b w = Some (msg, tx', b', w') \<Longrightarrow> keeps_accounts w w'"
  by (auto simp: callContract_def keeps_accounts_def updAcc_def touch_def strip_def [abs_def] option.map_comp comp_def Let_def split: option.splits if_splits run.splits)

lemma invalid_keeps: "invalid E e tx b w = Some (r, b', w') \<Longrightarrow> keeps_accounts w w'"
  by (auto simp: invalid_def keeps_storage)

lemma addFundsTx_keeps: "addFundsTx E V b tx w = Some (r, b', w') \<Longrightarrow> keeps_accounts w w'"
  by (auto simp: addFundsTx_def bind_eq_Some_conv WriteFundsTxBeforeAggregation_def split: option.splits if_splits prod.splits
      dest!: invalid_keeps callContract_keeps_accounts keeps_storage(3,4) intro: keeps_trans) (auto simp: keeps_accounts_def)

lemma updateLocalTx_keeps: "updateLocalTx E h cs d w = Some (ok, w') \<Longrightarrow> keeps_accounts w w'"
  by (auto simp: updateLocalTx_def Let_def split: option.splits dest!: keeps_storage intro: keeps_trans [OF keeps_touch])

lemma addUpdateTx_keeps: "addUpdateTx E b u w = Some (r, b', w') \<Longrightarrow> keeps_accounts w w'"
  by (auto simp: addUpdateTx_def handleTxUpdate_def WriteClosedBlock_def DeleteOpenBlock_def delete_in_def split: option.splits
      dest!: updateLocalTx_keeps) (auto simp: keeps_accounts_def)

lemma addOther_keeps:
  "addAccTx E b a w = Some (r, b', w') \<Longrightarrow> w' = w" "addConfigTx E b c w = Some (r, b', w') \<Longrightarrow> w' = w" "addStakeTx E b s w = Some (r, b', w') \<Longrightarrow> w' = w"
  by (auto simp: addAccTx_def addConfigTx_def addStakeTx_def Let_def split: option.splits if_splits)

lemma addTx_keeps:
  assumes "addTx E V cfg b tx w = Some (r, b', w')"
  shows "keeps_accounts w w'"
proof -
  have add: "keeps_accounts v w'" if "(case tx' of TAcc a \<Rightarrow> addAccTx E b a v | TFunds f \<Rightarrow> addFundsTx E V b f v | TConfig c \<Rightarrow> addConfigTx E b c v
      | TStake s \<Rightarrow> addStakeTx E b s v | TUpdate u \<Rightarrow> addUpdateTx E b u v | TAgg g \<Rightarrow> Some (None, b, v)) = Some (r, b', w')" for tx' v
    using that by (cases tx') (auto dest: addOther_keeps addFundsTx_keeps addUpdateTx_keeps)
  show ?thesis
  proof (cases "(\<exists>g. tx = TAgg g) \<or> TxFee tx < FeeMinimum (activeParameters w)")
    case True
    then have "w' = w" using assms by (cases tx) (simp_all add: addTx_def)
    then show ?thesis by simp
  next
    case False
    have eq: "addTx E V cfg b tx w = (case verify E cfg w tx of None \<Rightarrow> None | Some (ok, tx') \<Rightarrow>
        if \<not> ok then Some (Some NotVerified, b, touch tx tx' w)
        else case tx' of TAcc a \<Rightarrow> addAccTx E b a (touch tx tx' w) | TFunds f \<Rightarrow> addFundsTx E V b f (touch tx tx' w)
          | TConfig c \<Rightarrow> addConfigTx E b c (touch tx tx' w) | TStake s \<Rightarrow> addStakeTx E b s (touch tx tx' w)
          | TUpdate u \<Rightarrow> addUpdateTx E b u (touch tx tx' w) | TAgg g \<Rightarrow> Some (None, b, touch tx tx' w))"
      using False unfolding addTx_def Let_def by (cases tx) simp_all
    obtain ok tx' where v: "verify E cfg w tx = Some (ok, tx')" using assms unfolding eq by (cases "verify E cfg w tx") auto
    show ?thesis
    proof (cases ok)
      case True
      with assms show ?thesis unfolding eq v by (intro keeps_trans [OF keeps_touch add]) simp
    next
      case False
      then show ?thesis using assms unfolding eq v by auto
    qed
  qed
qed

lemma addAll_keeps: "addAll E V cfg txs b w = Some (b', w') \<Longrightarrow> keeps_accounts w w'"
proof (induction txs arbitrary: b w)
  case (Cons tx txs)
  then show ?case
    by (auto split: option.splits dest!: addTx_keeps keeps_storage(3)) (blast intro: keeps_trans)+
qed simp

lemma fetchMissing_keeps: "fetchMissing E net sender c w = Some (r, w') \<Longrightarrow> keeps_accounts w w'"
  by (auto simp: fetchMissing_def split: option.splits special_reply.splits if_splits dest!: keeps_storage(1))

lemma fetchCounters_keeps: "fetchCounters E net blockIn sender cs w = Some (r, w') \<Longrightarrow> keeps_accounts w w'"
proof (induction cs arbitrary: w r)
  case (Cons c cs)
  then show ?case by (auto split: option.splits if_splits dest!: fetchMissing_keeps) (blast intro: keeps_trans)+
qed simp

lemma fetchSenders_keeps: "fetchSenders E net blockIn m w = Some (r, w') \<Longrightarrow> keeps_accounts w w'"
proof (induction m arbitrary: w r)
  case (Cons x m)
  then show ?case by (cases x) (auto split: option.splits if_splits dest!: fetchCounters_keeps, (blast intro: keeps_trans)+)
qed simp

lemma openAll_keeps: "openAll E txs w = Some (hs, w') \<Longrightarrow> keeps_accounts w w'"
proof (induction txs arbitrary: w hs)
  case (Cons tx txs)
  then show ?case by (auto split: option.splits dest!: keeps_storage(1)) (blast intro: keeps_trans)
qed simp

lemma AggregateTransactions_keeps: "AggregateTransactions E g b w = Some (ok, b', w') \<Longrightarrow> keeps_accounts w w'"
  by (auto simp: AggregateTransactions_def Let_def split: option.splits list.splits if_splits
      dest!: openAll_keeps historic_frame keeps_storage(1,6)) (blast intro: keeps_trans keeps_storage(6))+

lemma splitLoop_keeps: "splitLoop E it fuel n senders receivers txs b w = Done (b', w') \<Longrightarrow> keeps_accounts w w'"
proof (induction fuel arbitrary: n senders receivers txs b w)
  case (Suc fuel)
  then show ?case by (auto simp: Let_def split: prod.splits option.splits if_splits dest!: AggregateTransactions_keeps intro: keeps_trans)
qed simp

lemma prepareBlock_keeps:
  assumes "prepareBlock E V cfg it order net blockIn fuel opentxs b w = Done (b', w')"
  shows "keeps_accounts w w'"
proof -
  let ?w = "w\<lparr>FundsTxBeforeAggregation := []\<rparr>"
  obtain w2 w3 b3 missing opentxToAdd and s :: selection where w2: "fetchSenders E net blockIn (order (fold (noteMissing ?w) (TxToAppend s) [])) ?w = Some (missing, w2)"
    and w3: "addAll E V cfg opentxToAdd b w2 = Some (b3, w3)"
    and w': "w' = w3 \<or> splitSortedAggregatableTransactions E it fuel (DifferentSenders s) (DifferentReceivers s) b3 w3 = Done (b', w')"
    using assms by (auto simp: prepareBlock_def Let_def split: option.splits if_splits)
  have "keeps_accounts w3 w'"
    using w' by (auto simp: splitSortedAggregatableTransactions_def bind_run_def DeleteAllFundsTxBeforeAggregation_def split: run.splits
        dest!: splitLoop_keeps) (simp add: keeps_accounts_def)
  then have "keeps_accounts ?w w'" using fetchSenders_keeps [OF w2] addAll_keeps [OF w3] keeps_trans by blast
  then show ?thesis by (simp add: keeps_accounts_def strip_def [abs_def])
qed

text \<open>
  C36: preparing a block changes no account. Whatever is open, whatever the network answers and in whichever order maps are listed, when
  \<^verbatim>\<open>prepareBlock\<close> returns, the parameters, the root keys and every account are as before, but for the code and the variables of contracts,
  which the calls write in place.
\<close>

theorem prepareBlock_keeps_accounts:
  assumes "prepareBlock E V cfg it order net blockIn fuel opentxs b w = Done (b', w')"
  shows "parameterSlice w' = parameterSlice w \<and> RootKeys w' = RootKeys w \<and>
    map_option (\<lambda>a. a\<lparr>acc_Contract := None, acc_ContractVariables := []\<rparr>) (State w' h) =
    map_option (\<lambda>a. a\<lparr>acc_Contract := None, acc_ContractVariables := []\<rparr>) (State w h)"
  using prepareBlock_keeps [OF assms] by (simp add: keeps_accounts_def strip_def [abs_def])

text \<open>A pool with one transfer, nothing from the network.\<close>

lemma demo_verified: "addTx demo_E V cfg demo_copy (TFunds (demo_tx 9 2 5 1 0)) demo_paying = Some (None, payCopy (demo_tx 9 2 5 1 0) demo_copy,
     WriteFundsTxBeforeAggregation (demo_tx 9 2 5 1 0) demo_paying)"
proof -
  have "touch (TFunds (demo_tx 9 2 5 1 0)) (TFunds (demo_tx 9 2 5 1 0)) demo_paying = demo_paying"
    by (simp add: touch_def demo_paying_def demo_world_def)
  moreover have "verify demo_E cfg demo_paying (TFunds (demo_tx 9 2 5 1 0)) = Some (True, TFunds (demo_tx 9 2 5 1 0))"
    by (simp add: verify_def verifyFundsTx_def demo_paying_def world_Hash_def IsSigned_def MAX_MONEY_def)
      (simp add: demo_tx_def ConstrFundsTx_def be_nat_def le_nat_replicate_0)
  ultimately show ?thesis
    by (simp add: addTx_def demo_adds) (simp add: demo_paying_def activeParameters_def NewDefaultParameters_def)
qed

lemma demo_prepare:
  "\<exists>b' w'. prepareBlock demo_E V cfg (\<lambda>n m. m) id (\<lambda>s c. NotSent) (\<lambda>s c. False) 2 [TFunds (demo_tx 9 2 5 1 0)] demo_copy demo_paying = Done (b', w')"
proof -
  let ?tx = "demo_tx 9 2 5 1 0"
  have w: "demo_paying\<lparr>FundsTxBeforeAggregation := []\<rparr> = demo_paying" by (simp add: demo_paying_def demo_world_def)
  have sel: "checkBestCombination (\<lambda>n m. m) (blockSpace (activeParameters demo_paying)) [TFunds ?tx] =
      Some (noSelection\<lparr>se_arr := [TFunds ?tx], se_len := 1, TxToAppend := [TFunds ?tx]\<rparr>)"
    unfolding checkBestCombination_def
    by (subst checkLoop.simps) (simp add: noSelection_def TRANSACTION_HASH_SIZE_def countKey_def pickOpen_def
        getMaxKeyAndValueFormMap_def fundsWith_def Let_def demo_paying_def activeParameters_def blockSpace_def NewDefaultParameters_def)
  have note_: "noteMissing demo_paying (TFunds ?tx) [] = [(demo_hash 9, 0, [])]"
    by (simp add: noteMissing_def demo_paying_def gap_def)
  have fetch: "fetchSenders demo_E (\<lambda>s c. NotSent) (\<lambda>s c. False) [(demo_hash 9, 0, [])] demo_paying = Some ([], demo_paying)"
    by (simp add: limitMissing_def demo_paying_def activeParameters_def NewDefaultParameters_def)
  have sort: "sortOpenTxs [TFunds ?tx] = Some [TFunds ?tx]" by (simp add: sortOpenTxs_def Sort_short shellPass_def insertionSort_def)
  let ?w = "WriteFundsTxBeforeAggregation ?tx demo_paying"
  have wf: "FundsTxBeforeAggregation ?w = [?tx]" by (simp add: WriteFundsTxBeforeAggregation_def demo_paying_def demo_world_def)
  have last: "db v = [] \<Longrightarrow> ReadLastClosedBlock demo_E v = None" for v by (simp add: ReadLastClosedBlock_def demo_E_def)
  have dbw: "db ?w = []" by (simp add: WriteFundsTxBeforeAggregation_def demo_paying_def)
  have a0: "AggregateTransactions demo_E [] b ?w = Some (False, b, ?w)" for b
    by (simp add: AggregateTransactions_def historicTransactions_empty [OF last [OF dbw]])
  have h: "world_Hash demo_E ?w (TFunds ?tx) = Some zero_hash" by (simp add: world_Hash_def WriteFundsTxBeforeAggregation_def demo_paying_def)
  then obtain w1 where w1: "WriteOpenTx demo_E (TFunds ?tx) ?w = Some w1" by (simp add: WriteOpenTx_def WriteTxcntToTx_def world_Hash_def Let_def)
  have "db w1 = []" "world_Hash demo_E w1 (TFunds ?tx) = Some zero_hash"
    using w1 h dbw by (auto simp: WriteOpenTx_def WriteTxcntToTx_def world_Hash_def Let_def)
  then have a1: "\<exists>b' w'. AggregateTransactions demo_E [?tx] b ?w = Some (True, b', w')" for b
    by (simp add: AggregateTransactions_def h w1 historicTransactions_empty [OF last] addFundsTxFinal_def Let_def)
  have split: "\<exists>b' w'. splitSortedAggregatableTransactions demo_E (\<lambda>n m. m) 2 [] [] b ?w = Done (b', w')" for b
  proof -
    have "splitLoop demo_E (\<lambda>n m. m) (Suc (Suc 0)) 0 [] [] [?tx] b ?w = splitLoop demo_E (\<lambda>n m. m) (Suc 0) (Suc 0) [(demo_hash 9, 1)] [(demo_hash 2, 1)] [?tx] b ?w"
      by (simp add: pickGroup_def getMaxKeyAndValueFormMap_def a0 countKeys_def countKey_def)
    moreover have "\<exists>b' w'. splitLoop demo_E (\<lambda>n m. m) (Suc 0) (Suc 0) [(demo_hash 9, 1)] [(demo_hash 2, 1)] [?tx] b ?w = Done (b', w')"
      using a1 [of b] by (auto simp: pickGroup_def getMaxKeyAndValueFormMap_def countKeys_def Let_def)
    ultimately show ?thesis
      by (auto simp: numeral_2_eq_2 splitSortedAggregatableTransactions_def wf sortTxBeforeAggregation_def bind_run_def)
  qed
  have "prepareBlock demo_E V cfg (\<lambda>n m. m) id (\<lambda>s c. NotSent) (\<lambda>s c. False) 2 [TFunds ?tx] demo_copy demo_paying =
      splitSortedAggregatableTransactions demo_E (\<lambda>n m. m) 2 [] [] (payCopy ?tx demo_copy) ?w"
  proof -
    have "TxToAppend (noSelection\<lparr>se_arr := [TFunds ?tx], se_len := 1, TxToAppend := [TFunds ?tx]\<rparr>) = [TFunds ?tx]"
      "DifferentSenders (noSelection\<lparr>se_arr := [TFunds ?tx], se_len := 1, TxToAppend := [TFunds ?tx]\<rparr>) = []"
      "DifferentReceivers (noSelection\<lparr>se_arr := [TFunds ?tx], se_len := 1, TxToAppend := [TFunds ?tx]\<rparr>) = []"
      "id (fold (noteMissing demo_paying) [TFunds ?tx] []) = [(demo_hash 9, 0, [])]" "[TFunds ?tx] @ [] = [TFunds ?tx]"
      "addAll demo_E V cfg [TFunds ?tx] demo_copy demo_paying = Some (payCopy ?tx demo_copy, ?w)"
      by (simp_all add: noSelection_def note_ demo_verified)
    then show ?thesis unfolding prepareBlock_def Let_def by (simp only: sort option.case sel w fetch prod.case wf list.distinct if_False)
  qed
  then show ?thesis using split by simp
qed

theorem prepareBlock_keeps_accounts_witness:
  "\<exists>b' w'. prepareBlock demo_E demo_env \<lparr>multisigPubKey = (0, 0), validatorAccAddress = []\<rparr> (\<lambda>n m. m) id (\<lambda>s c. NotSent) (\<lambda>s c. False) 2
       [TFunds (demo_tx 9 2 5 1 0)] demo_copy demo_paying = Done (b', w') \<and>
     parameterSlice w' = parameterSlice demo_paying \<and> RootKeys w' = RootKeys demo_paying"
  using demo_prepare [of demo_env] prepareBlock_keeps_accounts by blast

end
