(* ===== verification/FetchingProps.thy ===== *)
theory FetchingProps
  imports Fetching BuildingProps
begin

text \<open>
  What fetching guarantees: the transactions of a block are the ones it lists, whatever the network answers, and outside the initial
  setup none of them, but for aggregation transactions, was in an earlier block.
\<close>

subsection \<open>Storage filed under hashes\<close>

text \<open>
  Every stored transaction is filed under its hash. Closed account transactions are exempt: their encoding drops the contract, so what
  is read back may have another hash.
\<close>

definition keyed :: "'d env \<Rightarrow> 'd world \<Rightarrow> bool" where
  "keyed E w \<longleftrightarrow> pool_keyed E w \<and> (\<forall>h t. txINVALIDMemPool w h = Some t \<longrightarrow> world_Hash E w t = Some h) \<and>
     (\<forall>h t. ReadClosedTx E w h = Some t \<longrightarrow> (\<forall>a. t \<noteq> TAcc a) \<longrightarrow> world_Hash E w t = Some h)"

lemma keyed_read:
  "keyed E w \<Longrightarrow> ReadOpenTx w h = Some t \<Longrightarrow> world_Hash E w t = Some h"
  "keyed E w \<Longrightarrow> ReadINVALIDOpenTx w h = Some t \<Longrightarrow> world_Hash E w t = Some h"
  "keyed E w \<Longrightarrow> ReadClosedTx E w h = Some t \<Longrightarrow> \<forall>a. t \<noteq> TAcc a \<Longrightarrow> world_Hash E w t = Some h"
  by (simp_all add: keyed_def pool_keyed_def ReadOpenTx_def ReadINVALIDOpenTx_def)

text \<open>A change of the pools that leaves the database and the keys of accounts alone.\<close>

definition pools_only :: "'d world \<Rightarrow> 'd world \<Rightarrow> bool" where
  "pools_only w w' \<longleftrightarrow> db w' = db w \<and> ChamMap w' = ChamMap w \<and> State w' = State w \<and> txINVALIDMemPool w' = txINVALIDMemPool w \<and>
     parameterSlice w' = parameterSlice w \<and> ReceivedBlockStash w' = ReceivedBlockStash w \<and> lastBlock w' = lastBlock w"

lemma pools_only_refl [simp]: "pools_only w w"
  by (simp add: pools_only_def)

lemma pools_only_trans: "pools_only w w1 \<Longrightarrow> pools_only w1 w2 \<Longrightarrow> pools_only w w2"
  by (simp add: pools_only_def)

lemma pools_only_read:
  assumes "pools_only w w'"
  shows "world_Hash E w' t = world_Hash E w t" "ReadClosedTx E w' h = ReadClosedTx E w h"
proof -
  have "db w' = db w" "ChamMap w' = ChamMap w" using assms by (simp_all add: pools_only_def)
  then show "world_Hash E w' t = world_Hash E w t" "ReadClosedTx E w' h = ReadClosedTx E w h"
    unfolding world_Hash_def ReadClosedTx_def by (simp_all only:)
qed

lemma WriteOpenTx_pools:
  assumes "WriteOpenTx E t w = Some w'"
  shows "pools_only w w'" "keyed E w \<Longrightarrow> keyed E w'"
proof -
  obtain h where h: "world_Hash E w t = Some h" using assms by (auto simp: WriteOpenTx_def split: option.splits)
  show p: "pools_only w w'"
    using assms by (auto simp: WriteOpenTx_def WriteTxcntToTx_def pools_only_def Let_def split: option.splits Transaction.splits)
  have "txMemPool w' = (txMemPool w)(h \<mapsto> t)"
    using assms h by (auto simp: WriteOpenTx_def WriteTxcntToTx_def Let_def split: Transaction.splits)
  then show "keyed E w \<Longrightarrow> keyed E w'"
    using p h by (auto simp: keyed_def pool_keyed_def pools_only_read [OF p] pools_only_def)
qed

lemma WriteBootstrap_pools:
  assumes "WriteBootstrapTxReceived E t w = Some w'"
  shows "pools_only w w'" "keyed E w \<Longrightarrow> keyed E w'"
proof -
  show p: "pools_only w w'" using assms by (auto simp: WriteBootstrapTxReceived_def pools_only_def)
  have "txMemPool w' = txMemPool w" using assms by (auto simp: WriteBootstrapTxReceived_def)
  then show "keyed E w \<Longrightarrow> keyed E w'" using p by (simp add: keyed_def pool_keyed_def pools_only_read [OF p] pools_only_def)
qed

text \<open>What every step of fetching does to the world.\<close>

definition fetch_step :: "'d env \<Rightarrow> 'd world \<Rightarrow> 'd world \<Rightarrow> bool" where
  "fetch_step E w w' \<longleftrightarrow> pools_only w w' \<and> (keyed E w \<longrightarrow> keyed E w')"

lemma fetch_step_refl [simp]: "fetch_step E w w"
  by (simp add: fetch_step_def)

lemma fetch_step_trans: "fetch_step E w w1 \<Longrightarrow> fetch_step E w1 w2 \<Longrightarrow> fetch_step E w w2"
  unfolding fetch_step_def using pools_only_trans by blast

lemma WriteOpenTx_step: "WriteOpenTx E t w = Some w' \<Longrightarrow> fetch_step E w w'"
  by (simp add: fetch_step_def WriteOpenTx_pools)

lemma fetch_step_read:
  assumes "fetch_step E w w'"
  shows "world_Hash E w' t = world_Hash E w t" "ReadClosedTx E w' h = ReadClosedTx E w h" "keyed E w \<Longrightarrow> keyed E w'"
  using assms pools_only_read unfolding fetch_step_def by auto

lemma findHashed_Some: "findHashed hash ts h = Some (Some t) \<Longrightarrow> hash t = Some h"
  by (induction ts) (auto split: option.splits if_splits)

subsection \<open>One kind of transaction\<close>

lemma fetchPlain_matches:
  assumes "fetchPlain cast hash onTimeout net E w initialSetup room hs = Some ([], ts)" "keyed E w" "\<And>t a. cast t = Some a \<Longrightarrow> world_Hash E w t = hash a"
    "\<And>a. initialSetup \<Longrightarrow> cast (TAcc a) = None"
  shows "map hash ts = map Some hs \<and> (\<not> initialSetup \<longrightarrow> (\<forall>h \<in> set hs. ReadClosedTx E w h = None))"
  using assms(1)
proof (induction hs arbitrary: room ts)
  case (Cons h hs)
  let ?rec = "fetchPlain cast hash onTimeout net E w initialSetup (room - 1) hs"
  consider (closed) tx t where "initialSetup" "ReadClosedTx E w h = Some tx" "cast tx = Some t" "\<exists>ts'. ?rec = Some ([], ts') \<and> ts = t # ts'"
    | (pool) tx t where "ReadClosedTx E w h = None" "ReadOpenTx w h = Some tx" "cast tx = Some t" "\<exists>ts'. ?rec = Some ([], ts') \<and> ts = t # ts'"
    | (net) t where "ReadClosedTx E w h = None" "hash t = Some h" "\<exists>ts'. ?rec = Some ([], ts') \<and> ts = t # ts'"
    using Cons.prems by (auto simp: Let_def bind_eq_Some_conv split: option.splits answer.splits if_splits)
  then show ?case
  proof cases
    case closed
    then have "\<forall>a. tx \<noteq> TAcc a" using assms(4) by auto
    then show ?thesis using closed Cons.IH assms(3) keyed_read(3) [OF assms(2) closed(2)] by fastforce
  next
    case pool
    then show ?thesis using Cons.IH assms(3) keyed_read(1) [OF assms(2)] by fastforce
  next
    case net
    then show ?thesis using Cons.IH by fastforce
  qed
qed simp

lemma touch_same [simp]: "touch tx tx w = w"
proof -
  have "(\<lambda>h. if P h then P' h else P'' h) = P''" if "\<And>h. P h \<Longrightarrow> P' h = P'' h" for P and P' P'' :: "hash \<Rightarrow> Transaction option" using that by auto
  moreover have "map (\<lambda>f. case (TFunds f = tx, tx) of (True, TFunds f') \<Rightarrow> f' | _ \<Rightarrow> f) fs = fs" for fs
    by (induction fs) (auto split: bool.splits Transaction.splits)
  ultimately show ?thesis by (cases w) (auto simp: touch_def)
qed

lemma verify_funds: "verify E cfg w tx = Some (ok, TFunds f) \<Longrightarrow> tx = TFunds f"
  by (cases tx) (auto simp: verify_def split: prod.splits)

lemma asFunds_Some: "asFunds t = Some f \<longleftrightarrow> t = TFunds f"
  by (cases t) auto

lemma fetchedFunds_step:
  assumes "fetchedFunds E initialSetup t w = Some w'"
  shows "fetch_step E w w'"
proof -
  obtain w1 where w1: "WriteOpenTx E (TFunds t) w = Some w1" "w' = w1 \<or> WriteBootstrapTxReceived E (TFunds t) w1 = Some w'"
    using assms by (auto simp: fetchedFunds_def bind_eq_Some_conv split: if_splits)
  have "fetch_step E w1 w'" using w1(2) by (auto simp: fetch_step_def WriteBootstrap_pools)
  then show ?thesis using WriteOpenTx_step [OF w1(1)] fetch_step_trans by blast
qed

lemma fetchFundsNet_matches:
  assumes "fetchFundsNet N E initialSetup h w = Some (es, r, w')"
  shows "fetch_step E w w' \<and> (es = [] \<longrightarrow> (\<exists>t. r = Some t \<and> world_Hash E w (TFunds t) = Some h))"
proof (cases "fundsNet N h")
  case (Answered t)
  then obtain k where k: "fetchedFunds E initialSetup t w = Some w'" "world_Hash E w' (TFunds t) = Some k" "r = Some t" "es = (if k \<noteq> h then [WrongTxHash] else [])"
    using assms by (auto simp: fetchFundsNet_def split: option.splits)
  show ?thesis using k fetchedFunds_step [OF k(1)] fetch_step_read(1) [OF fetchedFunds_step [OF k(1)]] by auto
next
  case (Expired s)
  then obtain f where "findHashed (FundsTx_Hash (crypto E) (ChamMap w)) s h = Some f"
    "(es, r, w') = (case f of None \<Rightarrow> ([FetchTimeout], None, w) | Some t \<Rightarrow> ([], Some t, w))"
    using assms by (auto simp: fetchFundsNet_def)
  then show ?thesis using findHashed_Some by (cases f) (fastforce simp: world_Hash_def)+
qed (use assms in \<open>auto simp: fetchFundsNet_def\<close>)

lemma fetchFundsTx_matches:
  assumes "fetchFundsTx N E cfg initialSetup h w = Some (es, r, w')" "keyed E w"
  shows "fetch_step E w w' \<and> (es = [] \<longrightarrow> (\<exists>t. r = Some t \<and> world_Hash E w (TFunds t) = Some h) \<and> (\<not> initialSetup \<longrightarrow> ReadClosedTx E w h = None))"
proof -
  show ?thesis
  proof (cases "ReadClosedTx E w h")
    case (Some tx)
    then show ?thesis using assms(1) keyed_read(3) [OF assms(2) Some] by (cases initialSetup) (auto simp: fetchFundsTx_def asFunds_Some)
  next
    case None
    note closed = this
    show ?thesis
    proof (cases "ReadOpenTx w h")
      case (Some tx)
      then show ?thesis using assms(1) closed keyed_read(1) [OF assms(2) Some] by (auto simp: fetchFundsTx_def asFunds_Some)
    next
      case None
      then consider (net) "fetchFundsNet N E initialSetup h w = Some (es, r, w')"
        | (invalid) tx t where "ReadINVALIDOpenTx w h = Some tx" "verify E cfg w tx = Some (True, TFunds t)" "es = []" "r = Some t" "w' = touch tx (TFunds t) w"
        using assms(1) closed unfolding fetchFundsTx_def Let_def by (auto simp: asFunds_Some split: option.splits if_splits)
      then show ?thesis
      proof cases
        case net
        then show ?thesis using closed fetchFundsNet_matches by simp
      next
        case invalid
        then show ?thesis using closed verify_funds [OF invalid(2)] keyed_read(2) [OF assms(2) invalid(1)] by simp
      qed
    qed
  qed
qed

lemma fetchFunds_matches:
  "fetchFunds N E cfg initialSetup room hs w = Some (es, ts, w') \<Longrightarrow> keyed E w \<Longrightarrow>
     fetch_step E w w' \<and> (es = [] \<longrightarrow> map (\<lambda>t. world_Hash E w (TFunds t)) ts = map Some hs \<and> (\<not> initialSetup \<longrightarrow> (\<forall>h \<in> set hs. ReadClosedTx E w h = None)))"
proof (induction hs arbitrary: room w es ts)
  case (Cons h hs)
  obtain es1 r w1 where one: "fetchFundsTx N E cfg initialSetup h w = Some (es1, r, w1)"
    using Cons.prems(1) by (auto split: option.splits)
  note m = fetchFundsTx_matches [OF one Cons.prems(2)]
  show ?case
  proof (cases r)
    case None
    then show ?thesis using Cons.prems one m by auto
  next
    case (Some t)
    then obtain es2 ts2 where rest: "fetchFunds N E cfg initialSetup (room - 1) hs w1 = Some (es2, ts2, w')" "es = es1 @ es2" "ts = t # ts2"
      using Cons.prems(1) one by (auto split: if_splits)
    have s: "fetch_step E w w1" using m by simp
    note ih = Cons.IH [OF rest(1) fetch_step_read(3) [OF s Cons.prems(2)]]
    show ?thesis using m Some rest ih fetch_step_trans [OF s] by (auto simp: fetch_step_read(1,2) [OF s])
  qed
qed simp

subsection \<open>Aggregations\<close>

lemma fetchNew_step: "fetchNew N E hs w = Some (stop, es, fs, w') \<Longrightarrow> fetch_step E w w'"
proof (induction hs arbitrary: w stop es fs)
  case (Cons h hs)
  consider (stay) stop' es' fs' where "fetchNew N E hs w = Some (stop', es', fs', w')" | (over) "w' = w"
    | (wrote) t w1 stop' es' fs' where "WriteOpenTx E t w = Some w1" "fetchNew N E hs w1 = Some (stop', es', fs', w')"
    using Cons.prems by (auto simp: Let_def split: option.splits Transaction.splits sum.splits)
  then show ?case
  proof cases
    case wrote
    then show ?thesis using Cons.IH WriteOpenTx_step fetch_step_trans by blast
  qed (use Cons.IH in auto)
qed simp

lemma fetchNew_stop: "fetchNew N E hs w \<noteq> Some (True, [], fs, w')"
  by (induction hs arbitrary: w fs) (auto simp: Let_def split: option.splits Transaction.splits sum.splits)

lemma recursiveTx_step: "recursiveTx N E h w = Some (Inr (t, w')) \<Longrightarrow> fetch_step E w w'"
  unfolding recursiveTx_def using WriteOpenTx_step by (auto split: option.splits sum.splits)

lemma fetchRecursive_level:
  assumes "\<And>n hs e fs w w'. fuel = Suc n \<Longrightarrow> fetchRecursive N E n hs None [] w = Some (Some (e, fs, w')) \<Longrightarrow> fetch_step E w w'"
  shows "fetchRecursive N E fuel hs er acc w = Some (Some (e, fs, w')) \<Longrightarrow> fetch_step E w w'"
proof (induction hs arbitrary: er acc w)
  case (Cons h hs)
  consider (over) "w' = w" | (found) t w1 where "recursiveTx N E h w = Some (Inr (t, w1))"
    using Cons.prems by (cases "recursiveTx N E h w") (auto split: sum.splits)
  then show ?case
  proof cases
    case found
    have "fetch_step E w1 w'"
    proof (cases t)
      case (TAgg g)
      then obtain n e1 fs1 w2 where r: "fuel = Suc n" "fetchRecursive N E n (gt_AggregatedTxSlice g) None [] w1 = Some (Some (e1, fs1, w2))"
        "fetchRecursive N E fuel hs e1 (acc @ fs1) w2 = Some (Some (e, fs, w'))"
        using Cons.prems found by (auto split: nat.splits option.splits)
      show ?thesis using assms [OF r(1,2)] Cons.IH [OF r(3)] fetch_step_trans by blast
    qed (use Cons found in auto)
    then show ?thesis using recursiveTx_step [OF found] fetch_step_trans by blast
  qed simp
qed simp

lemma fetchRecursive_step: "fetchRecursive N E fuel hs None [] w = Some (Some (e, fs, w')) \<Longrightarrow> fetch_step E w w'"
proof (induction fuel arbitrary: hs e fs w w')
  case 0
  then show ?case using fetchRecursive_level [of 0] by blast
next
  case (Suc fuel)
  show ?case by (rule fetchRecursive_level [OF _ Suc.prems]) (use Suc.IH in simp)
qed

lemma requestAgg_step: "requestAgg N E tries left h w = Some (Inr (t, w')) \<Longrightarrow> fetch_step E w w'"
  by (induction N E tries left h w rule: requestAgg.induct) (auto simp: WriteOpenTx_step split: answer.splits option.splits)

lemma fetchAggTx_matches:
  assumes "fetchAggTx N E initialSetup h w = Some (es, r, w')" "keyed E w"
  shows "fetch_step E w w' \<and> (es = [] \<longrightarrow> (\<exists>t. r = Some t \<and> AggTx_Hash (crypto E) t = h))"
proof -
  have key: "AggTx_Hash (crypto E) g = h" if "world_Hash E w (TAgg g) = Some h" for g using that by (simp add: world_Hash_def)
  have agg: "asAgg t = Some g \<longleftrightarrow> t = TAgg g" for t g by (cases t) auto
  note reads = keyed_read [OF assms(2)]
  show ?thesis
  proof (cases "ReadClosedTx E w h")
    case (Some tx)
    then show ?thesis using assms(1) key reads(3) [OF Some]
      by (cases "asAgg tx") (auto simp: fetchAggTx_def agg split: if_splits)
  next
    case None
    note closed = this
    show ?thesis
    proof (cases "case ReadOpenTx w h of Some t \<Rightarrow> Some t | None \<Rightarrow> ReadINVALIDOpenTx w h")
      case (Some tx)
      then have "world_Hash E w tx = Some h" using reads(1,2) by (auto split: option.splits)
      then show ?thesis using assms(1) closed Some key by (auto simp: fetchAggTx_def agg)
    next
      case None
      then obtain x where "requestAgg N E 0 3 h w = Some x" "case x of Inl e \<Rightarrow> es = [e] \<and> w' = w
          | Inr (t, w1) \<Rightarrow> r = Some t \<and> w' = w1 \<and> es = (if AggTx_Hash (crypto E) t \<noteq> h then [WrongTxHash] else [])"
        using assms(1) closed by (auto simp: fetchAggTx_def split: option.splits sum.splits)
      then show ?thesis using requestAgg_step by (auto split: sum.splits if_splits)
    qed
  qed
qed

lemma fetchAggs_Cons:
  assumes "fetchAggTx N E initialSetup h w = Some (es1, r, w1)" "fetchAggs N E fuel initialSetup room (h # hs) trs w = Some (Some (es, ts, trs', w'))"
  obtains (none) "r = None" "es = es1" "w' = w1" | (over) "es \<noteq> []" "fetch_step E w1 w'"
    | (onward) t es1' es2 trs2 w2 ts2 where "r = Some t" "fetch_step E w1 w2" "es = es1 @ es1' @ es2" "ts = t # ts2"
        "fetchAggs N E fuel initialSetup (room - 1) hs trs2 w2 = Some (Some (es2, ts2, trs', w'))"
proof (cases r)
  case None
  then show ?thesis using assms none by simp
next
  case (Some t)
  let ?onward = "\<lambda>es' trs2 w2. map_option (map_option (\<lambda>(es'', ts, trs', w3). (es1 @ es' @ es'', t # ts, trs', w3)))
           (fetchAggs N E fuel initialSetup (room - 1) hs trs2 w2)"
  have "(\<exists>es' trs2 w2. fetch_step E w1 w2 \<and> ?onward es' trs2 w2 = Some (Some (es, ts, trs', w'))) \<or> es \<noteq> [] \<and> fetch_step E w1 w'"
  proof (cases initialSetup)
    case True
    note prem = assms(2) [unfolded fetchAggs.simps assms(1) Some Let_def, simplified True]
    show ?thesis
    proof (cases "gt_Aggregated t")
      case True
      then have "?onward [] trs w1 = Some (Some (es, ts, trs', w'))" using prem \<open>initialSetup\<close> by (simp split: if_splits)
      then show ?thesis using fetch_step_refl by blast
    next
      case False
      then obtain e fs w2 where f: "fetchRecursive N E fuel (gt_AggregatedTxSlice t) None [] w1 = Some (Some (e, fs, w2))"
        "(case e of Some e \<Rightarrow> Some (Some (es1 @ [e], [t], fs, w2)) | None \<Rightarrow> ?onward [] fs w2) = Some (Some (es, ts, trs', w'))"
        using prem \<open>initialSetup\<close> by (auto split: if_splits option.splits)
      show ?thesis
      proof (cases e)
        case None
        then show ?thesis using f(2) fetchRecursive_step [OF f(1)] by (simp only: option.case) blast
      qed (use f fetchRecursive_step [OF f(1)] in auto)
    qed
  next
    case False
    note prem = assms(2) [unfolded fetchAggs.simps assms(1) Some Let_def, simplified False]
    then obtain stop es' fs w2 where f: "fetchNew N E (gt_AggregatedTxSlice t) w1 = Some (stop, es', fs, w2)"
        "(if stop then Some (Some (es1 @ es', [t], trs @ fs, w2)) else ?onward es' (trs @ fs) w2) = Some (Some (es, ts, trs', w'))"
      using False by (auto split: if_splits option.splits bool.splits)
    show ?thesis
    proof (cases stop)
      case True
      then show ?thesis using f fetchNew_step [OF f(1)] by (cases es') (auto simp: fetchNew_stop)
    next
      case False
      then show ?thesis using f(2) fetchNew_step [OF f(1)] by (simp only: if_False) blast
    qed
  qed
  then show ?thesis using over onward [OF Some] by auto
qed

lemma fetchAggs_matches:
  "fetchAggs N E fuel initialSetup room hs trs w = Some (Some (es, ts, trs', w')) \<Longrightarrow> keyed E w \<Longrightarrow>
     fetch_step E w w' \<and> (es = [] \<longrightarrow> map (AggTx_Hash (crypto E)) ts = hs)"
proof (induction hs arbitrary: room trs w es ts)
  case (Cons h hs)
  obtain es1 r w1 where one: "fetchAggTx N E initialSetup h w = Some (es1, r, w1)"
    using Cons.prems(1) by (auto split: option.splits)
  note m = fetchAggTx_matches [OF one Cons.prems(2)]
  have s: "fetch_step E w w1" using m by simp
  from one Cons.prems(1) show ?case
  proof (cases rule: fetchAggs_Cons)
    case none
    then show ?thesis using m by auto
  next
    case over
    then show ?thesis using fetch_step_trans [OF s] by simp
  next
    case (onward t es1' es2 trs2 w2 ts2)
    have s2: "fetch_step E w w2" using fetch_step_trans [OF s onward(2)] .
    show ?thesis using m onward Cons.IH [OF onward(5) fetch_step_read(3) [OF s2 Cons.prems(2)]] fetch_step_trans [OF s2] by auto
  qed
qed simp

subsection \<open>The block\<close>

text \<open>
  C31: Whatever the network answers, if the transactions of a block are fetched without an error, and the pools and the closed transactions
  are filed under their hashes, then every slice holds the transactions that the block lists, in the order of the list; the account
  transactions are excepted during the initial setup, where a closed one may be read back without its contract. Outside the initial setup
  none of the listed account, funds, configuration, staking and update transactions was closed before; of the aggregation transactions this is
  not claimed, since the code accepts closed ones that were aggregated again.
\<close>

theorem fetchTransactions_matches:
  assumes "fetchTransactions N E cfg fuel initialSetup b w = Done (Inr data, w')" "keyed E w"
  shows "map (world_Hash E w \<circ> TFunds) (fundsTxSlice data) = map Some (bl_FundsTxData b) \<and>
    map (world_Hash E w \<circ> TConfig) (configTxSlice data) = map Some (bl_ConfigTxData b) \<and>
    map (world_Hash E w \<circ> TStake) (stakeTxSlice data) = map Some (bl_StakeTxData b) \<and>
    map (world_Hash E w \<circ> TUpdate) (updateTxSlice data) = map Some (bl_UpdateTxData b) \<and>
    map (world_Hash E w \<circ> TAgg) (aggTxSlice data) = map Some (bl_AggTxData b) \<and>
    bd_block data = b \<and> db w' = db w \<and> keyed E w' \<and>
    (\<not> initialSetup \<longrightarrow> map (world_Hash E w \<circ> TAcc) (accTxSlice data) = map Some (bl_AccTxData b) \<and>
      (\<forall>h \<in> set (bl_AccTxData b @ bl_FundsTxData b @ bl_ConfigTxData b @ bl_StakeTxData b @ bl_UpdateTxData b).
         ReadClosedTx E w h = None))"
proof -
  obtain as cs ss us fs w1 gs aggFs where p:
      "fetchAccTxData N E w initialSetup b = Some ([], as)" "fetchConfigTxData N E w initialSetup b = Some ([], cs)"
      "fetchStakeTxData N E w initialSetup b = Some ([], ss)" "fetchUpdateTxData N E w initialSetup b = Some ([], us)"
      "fetchFundsTxData N E cfg initialSetup b w = Some ([], fs, w1)" "fetchAggTxData N E fuel initialSetup b w1 = Some (Some ([], gs, aggFs, w'))"
      "accTxSlice data = as" "configTxSlice data = cs" "stakeTxSlice data = ss" "updateTxSlice data = us" "fundsTxSlice data = fs"
      "aggTxSlice data = gs" "bd_block data = b"
    using assms(1) unfolding fetchTransactions_def
    by (auto split: option.splits list.splits if_splits simp: append_eq_Cons_conv)
  have f: "fetch_step E w w1" using fetchFunds_matches [OF p(5) [unfolded fetchFundsTxData_def] assms(2)] by simp
  have g: "fetch_step E w1 w'" using fetchAggs_matches [OF p(6) [unfolded fetchAggTxData_def] fetch_step_read(3) [OF f assms(2)]] by simp
  have step: "fetch_step E w w'" using fetch_step_trans [OF f g] .
  have hash: "world_Hash E w (TAcc a) = AccTx_Hash (crypto E) a" "world_Hash E w (TConfig c) = Some (ConfigTx_Hash (crypto E) c)"
    "world_Hash E w (TStake s) = Some (StakeTx_Hash (crypto E) s)" "world_Hash E w (TUpdate u) = UpdateTx_Hash (crypto E) (ChamMap w) u"
    "world_Hash E w (TAgg g) = Some (AggTx_Hash (crypto E) g)" for a c s u g
    by (simp_all add: world_Hash_def)
  have casts: "asAcc t = Some a \<Longrightarrow> world_Hash E w t = AccTx_Hash (crypto E) a" "asConfig t = Some c \<Longrightarrow> world_Hash E w t = Some (ConfigTx_Hash (crypto E) c)"
    "asStake t = Some s \<Longrightarrow> world_Hash E w t = Some (StakeTx_Hash (crypto E) s)" "asUpdate t = Some u \<Longrightarrow> world_Hash E w t = UpdateTx_Hash (crypto E) (ChamMap w) u" for t a c s u
    by (cases t; simp add: hash)+
  have acc: "asConfig (TAcc a) = None" "asStake (TAcc a) = None" "asUpdate (TAcc a) = None" for a by simp_all
  note plain = fetchPlain_matches [OF _ assms(2)]
  have aggs: "map (AggTx_Hash (crypto E)) gs = bl_AggTxData b"
    using fetchAggs_matches [OF p(6) [unfolded fetchAggTxData_def] fetch_step_read(3) [OF f assms(2)]] by simp
  have "map (world_Hash E w \<circ> TAgg) gs = map Some (map (AggTx_Hash (crypto E)) gs)" by (simp add: hash)
  then have g2: "map (world_Hash E w \<circ> TAgg) gs = map Some (bl_AggTxData b)" by (simp only: aggs)
  have comps: "map (world_Hash E w \<circ> TAcc) as = map (AccTx_Hash (crypto E)) as" "map (world_Hash E w \<circ> TConfig) cs = map (\<lambda>t. Some (ConfigTx_Hash (crypto E) t)) cs"
    "map (world_Hash E w \<circ> TStake) ss = map (\<lambda>t. Some (StakeTx_Hash (crypto E) t)) ss" "map (world_Hash E w \<circ> TUpdate) us = map (UpdateTx_Hash (crypto E) (ChamMap w)) us"
    by (simp_all add: hash)
  note slices = plain [OF p(2) [unfolded fetchConfigTxData_def] casts(2) acc(1)]
    plain [OF p(3) [unfolded fetchStakeTxData_def] casts(3) acc(2)] plain [OF p(4) [unfolded fetchUpdateTxData_def] casts(4) acc(3)]
  have accs: "map (AccTx_Hash (crypto E)) as = map Some (bl_AccTxData b) \<and> (\<forall>h \<in> set (bl_AccTxData b). ReadClosedTx E w h = None)" if "\<not> initialSetup"
    using plain [OF p(1) [unfolded fetchAccTxData_def] casts(1)] that by blast
  have funds: "map (world_Hash E w \<circ> TFunds) fs = map Some (bl_FundsTxData b) \<and> (\<not> initialSetup \<longrightarrow> (\<forall>h \<in> set (bl_FundsTxData b). ReadClosedTx E w h = None))"
    using fetchFunds_matches [OF p(5) [unfolded fetchFundsTxData_def] assms(2)] by (simp add: comp_def)
  have world: "db w' = db w" "keyed E w'" using step assms(2) by (simp_all add: fetch_step_def pools_only_def)
  show ?thesis
    unfolding p comps set_append ball_Un using slices accs funds g2 world by blast
qed

definition demo_answers :: fetch_net where
  "demo_answers = \<lparr>accNet = \<lambda>_. Unsent, fundsNet = \<lambda>_. Answered (demo_tx 1 2 5 1 0), configNet = \<lambda>_. Unsent, stakeNet = \<lambda>_. Unsent,
     updateNet = \<lambda>_. Unsent, aggNet = \<lambda>_ _. Unsent, unknownNet = \<lambda>_ _. UUnsent\<rparr>"

definition demo_listing :: Block where
  "demo_listing = zero_block\<lparr>bl_NrFundsTx := 1, bl_FundsTxData := [zero_hash]\<rparr>"

lemma demo_listing_simps:
  "bl_NrFundsTx demo_listing = 1" "bl_FundsTxData demo_listing = [zero_hash]" "bl_NrAccTx demo_listing = 0" "bl_AccTxData demo_listing = []"
  "bl_NrConfigTx demo_listing = 0" "bl_ConfigTxData demo_listing = []" "bl_NrStakeTx demo_listing = 0" "bl_StakeTxData demo_listing = []"
  "bl_NrUpdateTx demo_listing = 0" "bl_UpdateTxData demo_listing = []" "bl_NrAggTx demo_listing = 0" "bl_AggTxData demo_listing = []"
  by (simp_all add: demo_listing_def zero_block_def)

definition demo_cfg :: miner_config where
  "demo_cfg = \<lparr>multisigPubKey = (0, 0), validatorAccAddress = []\<rparr>"

lemma demo_fetchFunds: "\<exists>w'. fetchFundsTx demo_answers demo_E cfg False zero_hash (demo_closed_world Map.empty []) = Some ([], Some (demo_tx 1 2 5 1 0), w')"
proof -
  have w: "ReadClosedTx demo_E (demo_closed_world Map.empty []) zero_hash = None" "ReadOpenTx (demo_closed_world Map.empty []) zero_hash = None"
    "ReadINVALIDOpenTx (demo_closed_world Map.empty []) zero_hash = None"
    by (simp_all add: ReadOpenTx_def ReadINVALIDOpenTx_def demo_closed_world_def demo_world_def)
  have h: "world_Hash demo_E w (TFunds (demo_tx 1 2 5 1 0)) = Some zero_hash" if "\<And>h. ChamMap w h = Some demo_cham" for w
    using that by (simp add: world_Hash_def)
  obtain w1 where f: "fetchedFunds demo_E False (demo_tx 1 2 5 1 0) (demo_closed_world Map.empty []) = Some w1" "\<And>h. ChamMap w1 h = Some demo_cham"
    by (simp add: fetchedFunds_def WriteOpenTx_def WriteTxcntToTx_def h)
  have net: "fundsNet demo_answers zero_hash = Answered (demo_tx 1 2 5 1 0)" by (simp add: demo_answers_def)
  show ?thesis by (simp add: fetchFundsTx_def fetchFundsNet_def w net f h)
qed

lemma demo_fetch:
  "\<exists>data w'. fetchTransactions demo_answers demo_E cfg 0 False demo_listing (demo_closed_world Map.empty []) = Done (Inr data, w')"
proof -
  obtain w' where "fetchFundsTx demo_answers demo_E cfg False zero_hash (demo_closed_world Map.empty []) = Some ([], Some (demo_tx 1 2 5 1 0), w')"
    using demo_fetchFunds by blast
  then show ?thesis
    by (simp add: fetchTransactions_def demo_listing_simps fetchAccTxData_def fetchConfigTxData_def fetchStakeTxData_def fetchUpdateTxData_def
        fetchFundsTxData_def fetchAggTxData_def)
qed

theorem fetchTransactions_matches_witness:
  "\<exists>data w'. fetchTransactions demo_answers demo_E demo_cfg 0 False demo_listing (demo_closed_world Map.empty []) = Done (Inr data, w') \<and>
     map (world_Hash demo_E (demo_closed_world Map.empty []) \<circ> TFunds) (fundsTxSlice data) = [Some zero_hash]"
proof -
  have i: "txINVALIDMemPool (demo_closed_world Map.empty []) h = None" "txMemPool (demo_closed_world Map.empty []) h = None" for h
    by (simp_all add: demo_closed_world_def demo_world_def)
  have c: "t = TFunds demo_closed \<and> h = 1 # replicate 31 0" if "ReadClosedTx demo_E (demo_closed_world Map.empty []) h = Some t" for h t
    using that by (auto simp: ReadClosedTx_def demo_store_def split: if_splits)
  have k: "keyed demo_E (demo_closed_world Map.empty [])" unfolding keyed_def pool_keyed_def by (auto simp: i world_Hash_def dest!: c)
  obtain data w' where d: "fetchTransactions demo_answers demo_E demo_cfg 0 False demo_listing (demo_closed_world Map.empty []) = Done (Inr data, w')"
    using demo_fetch by blast
  have "map (world_Hash demo_E (demo_closed_world Map.empty []) \<circ> TFunds) (fundsTxSlice data) = map Some (bl_FundsTxData demo_listing)"
    using fetchTransactions_matches [OF d k] by (elim conjE)
  then have m: "map (world_Hash demo_E (demo_closed_world Map.empty []) \<circ> TFunds) (fundsTxSlice data) = [Some zero_hash]"
    unfolding demo_listing_simps list.map .
  show ?thesis using d m by (intro exI conjI)
qed

end
