(* ===== verification/MiningFrame.thy ===== *)
theory MiningFrame
  imports Mining PreparationProps FetchingProps NetworkProps BlockProps
begin

text \<open>
  What every operation of a miner leaves alone: the parameters in force, the stash of received blocks and the last block. Only
  the closing and the rollback of a block change the first and the last, and only received blocks change the stash.
\<close>

definition same_core :: "'d world \<Rightarrow> 'd world \<Rightarrow> bool" where
  "same_core w w' \<longleftrightarrow> parameterSlice w' = parameterSlice w \<and> ReceivedBlockStash w' = ReceivedBlockStash w \<and> lastBlock w' = lastBlock w"

lemma same_core_refl [simp]: "same_core w w"
  by (simp add: same_core_def)

lemma same_core_trans: "same_core w w1 \<Longrightarrow> same_core w1 w2 \<Longrightarrow> same_core w w2"
  by (simp add: same_core_def)

lemma same_core_updates [simp]:
  "same_core w (updAcc h f w)" "same_core w (w\<lparr>State := s\<rparr>)" "same_core w (w\<lparr>RootKeys := r\<rparr>)" "same_core w (w\<lparr>db := d\<rparr>)"
  "same_core w (w\<lparr>State := s, ChamMap := c\<rparr>)" "same_core w (w\<lparr>slashingDict := sl\<rparr>)"
  by (simp_all add: same_core_def updAcc_def)

lemma run_each_core:
  assumes "\<And>x w e w'. step x w = Some (e, w') \<Longrightarrow> same_core w w'"
  shows "run_each step xs w = Some (e, w') \<Longrightarrow> same_core w w'"
proof (induction xs arbitrary: w)
  case (Cons x xs)
  then show ?case by (auto split: option.splits dest!: assms intro: same_core_trans)
qed simp

lemma do_each_core:
  assumes "\<And>x w w'. step x w = Some w' \<Longrightarrow> same_core w w'"
  shows "do_each step xs w = Some w' \<Longrightarrow> same_core w w'"
proof (induction xs arbitrary: w)
  case (Cons x xs)
  then show ?case by (auto split: option.splits dest!: assms intro: same_core_trans)
qed simp

text \<open>A list of operations, one after the other.\<close>

lemma do_seq_core:
  assumes "list_all (\<lambda>f. \<forall>w w'. f w = Some w' \<longrightarrow> same_core w w') fs" "do_each (\<lambda>f. f) fs w = Some w'"
  shows "same_core w w'"
  using assms
proof (induction fs arbitrary: w)
  case (Cons f fs)
  then show ?case by (auto split: option.splits) (blast intro: same_core_trans)
qed simp

lemma fee_loop_core:
  assumes "\<And>x w e w'. step x w = Some (e, w') \<Longrightarrow> same_core w w'" "\<And>tmp w w'. undo tmp w = Some w' \<Longrightarrow> same_core w w'"
  shows "fee_loop step undo tmp xs w = Some (e, w') \<Longrightarrow> same_core w w'"
proof (induction xs arbitrary: w tmp)
  case (Cons x xs)
  then show ?case by (auto split: option.splits dest!: assms intro: same_core_trans)
qed simp

lemma attempt_core:
  assumes "\<And>w e w'. opn w = Some (e, w') \<Longrightarrow> same_core w w'" "list_all (\<lambda>f. \<forall>w w'. f w = Some w' \<longrightarrow> same_core w w') undos"
    "\<And>w e w'. after w = Some (e, w') \<Longrightarrow> same_core w w'" "attempt opn undos after w = Some (e, w')"
  shows "same_core w w'"
  using assms(4) do_seq_core [OF assms(2)]
  by (auto simp: attempt_def split: option.splits dest!: assms(1,3)) (blast intro: same_core_trans)+

subsection \<open>State changes\<close>

lemma change_core:
  "accTxChange E tx w = Some (e, w') \<Longrightarrow> same_core w w'"
  "fundsTxChange E i ftx w = Some (e, w') \<Longrightarrow> same_core w w'"
  "stakeTxChange h i stx w = Some (e, w') \<Longrightarrow> same_core w w'"
  "mintFee m f w = Some (e, w') \<Longrightarrow> same_core w w'"
  "moveFee m p w = Some (e, w') \<Longrightarrow> same_core w w'"
  "withAcc a g w = Some w' \<Longrightarrow> same_core w w'"
  "minusFee m f w = Some w' \<Longrightarrow> same_core w w'"
  "returnFee m p w = Some w' \<Longrightarrow> same_core w w'"
  "collectBlockReward r m i w = Some (e, w') \<Longrightarrow> same_core w w'"
  "collectSlashReward r b w = Some (e, w') \<Longrightarrow> same_core w w'"
  "updateStakingHeight b w = Some (e, w') \<Longrightarrow> same_core w w'"
  "accTxRollback E tx w = Some w' \<Longrightarrow> same_core w w'"
  "fundsTxRollback ftx w = Some w' \<Longrightarrow> same_core w w'"
  "stakeTxRollback stx w = Some w' \<Longrightarrow> same_core w w'"
  "collectBlockRewardRollback r m w = Some w' \<Longrightarrow> same_core w w'"
  "collectSlashRewardRollback r b w = Some w' \<Longrightarrow> same_core w w'"
  by (auto simp: same_core_def updAcc_def accTxChange_def fundsTxChange_def stakeTxChange_def mintFee_def moveFee_def withAcc_def minusFee_def
      returnFee_def collectBlockReward_def collectSlashReward_def updateStakingHeight_def accTxRollback_def fundsTxRollback_def stakeTxRollback_def
      collectBlockRewardRollback_def collectSlashRewardRollback_def Let_def split: if_splits option.splits prod.splits sum.splits)

lemma changes_core:
  "accStateChange E as w = Some (e, w') \<Longrightarrow> same_core w w'"
  "fundsStateChange E i fs w = Some (e, w') \<Longrightarrow> same_core w w'"
  "aggTxStateChange E i fs w = Some (e, w') \<Longrightarrow> same_core w w'"
  "stakeStateChange ss h i w = Some (e, w') \<Longrightarrow> same_core w w'"
  "accStateChangeRollback E as w = Some w' \<Longrightarrow> same_core w w'"
  "fundsStateChangeRollback fs w = Some w' \<Longrightarrow> same_core w w'"
  "stakeStateChangeRollback ss w = Some w' \<Longrightarrow> same_core w w'"
  unfolding accStateChange_def fundsStateChange_def aggTxStateChange_def stakeStateChange_def accStateChangeRollback_def
    fundsStateChangeRollback_def stakeStateChangeRollback_def
  by (auto elim!: run_each_core [rotated] do_each_core [rotated] dest: change_core)

lemma collectTxFeesRollback_core: "collectTxFeesRollback as fs cs ss m w = Some w' \<Longrightarrow> same_core w w'"
proof -
  have m: "do_each (minusFee m) xs v = Some v' \<Longrightarrow> same_core v v'" for xs and v v' :: "'a world" by (rule do_each_core [OF change_core(7)])
  have r: "do_each (returnFee m) xs v = Some v' \<Longrightarrow> same_core v v'" for xs and v v' :: "'a world" by (rule do_each_core [OF change_core(8)])
  show "collectTxFeesRollback as fs cs ss m w = Some w' \<Longrightarrow> same_core w w'"
    by (auto simp: collectTxFeesRollback_def split: option.splits dest!: m r) (blast intro: same_core_trans)
qed

lemma mintLoop_core:
  assumes "\<And>tmp w w'. undo tmp w = Some w' \<Longrightarrow> same_core w w'" "fee_loop (\<lambda>tx. mintFee m (f tx)) undo [] xs w = Some (e, w')"
  shows "same_core w w'"
  using fee_loop_core [OF change_core(4) assms(1) assms(2)] by simp

lemma moveLoop_core:
  assumes "\<And>tmp w w'. undo tmp w = Some w' \<Longrightarrow> same_core w w'" "fee_loop (\<lambda>tx. moveFee m (f tx)) undo [] xs w = Some (e, w')"
  shows "same_core w w'"
  using fee_loop_core [OF change_core(5) assms(1) assms(2)] by simp

lemma fee_loops_core:
  "fee_loop (\<lambda>tx. mintFee m (f tx)) (\<lambda>tmp. collectTxFeesRollback tmp [] [] [] m) [] xs w = Some (e, w') \<Longrightarrow> same_core w w'"
  "fee_loop (\<lambda>tx. moveFee m (g tx)) (\<lambda>tmp. collectTxFeesRollback as tmp [] [] m) [] ys w = Some (e, w') \<Longrightarrow> same_core w w'"
  "fee_loop (\<lambda>tx. mintFee m (h tx)) (\<lambda>tmp. collectTxFeesRollback as fs tmp [] m) [] zs w = Some (e, w') \<Longrightarrow> same_core w w'"
  "fee_loop (\<lambda>tx. moveFee m (k tx)) (\<lambda>tmp. collectTxFeesRollback as fs cs tmp m) [] us w = Some (e, w') \<Longrightarrow> same_core w w'"
  by (erule mintLoop_core [rotated] moveLoop_core [rotated], erule collectTxFeesRollback_core)+

lemma outcome_core:
  assumes "(case r of Some (None, w1) \<Rightarrow> g w1 | r \<Rightarrow> r) = Some (e, w')" "\<And>e w1. r = Some (e, w1) \<Longrightarrow> same_core w w1"
    "\<And>e w1 w'. g w1 = Some (e, w') \<Longrightarrow> same_core w1 w'"
  shows "same_core w w'"
  using assms(1,2) by (auto split: option.splits dest!: assms(3) intro: same_core_trans)

lemma collectTxFees_core:
  assumes "collectTxFees as fs cs ss gs m w = Some (e, w')"
  shows "same_core w w'"
proof (cases "GetAccount w m = None")
  case True
  then show ?thesis using assms by (simp add: collectTxFees_def)
next
  case False
  show ?thesis
    by (rule outcome_core [OF assms [unfolded collectTxFees_def if_not_P [OF False] Let_def]], erule fee_loops_core,
        erule outcome_core, erule fee_loops_core, erule outcome_core, erule fee_loops_core, erule fee_loops_core)
qed

subsection \<open>Storage\<close>

lemma storage_core:
  "WriteClosedTx E tx w = Some w' \<Longrightarrow> same_core w w'"
  "DeleteClosedTx E tx w = Some w' \<Longrightarrow> same_core w w'"
  "WriteOpenTx E tx w = Some w' \<Longrightarrow> same_core w w'"
  "DeleteOpenTx E tx w = Some w' \<Longrightarrow> same_core w w'"
  "DeleteINVALIDOpenTx E tx w = Some w' \<Longrightarrow> same_core w w'"
  "UpdateBlocksToBlocksWithoutTx E b w = Some w' \<Longrightarrow> same_core w w'"
  by (auto simp: same_core_def WriteClosedTx_def DeleteClosedTx_def WriteOpenTx_def WriteTxcntToTx_def DeleteOpenTx_def DeleteINVALIDOpenTx_def
      UpdateBlocksToBlocksWithoutTx_def WriteClosedBlockWithoutTx_def DeleteClosedBlock_def delete_in_def Let_def
      split: option.splits Transaction.splits if_splits bool.splits)

lemma empty_bucket_core: "same_core w (empty_bucket E bucket w)"
proof -
  have "same_core v (fold (\<lambda>(k, x). delete_in E bucket k) kvs v)" for kvs v
    by (induction kvs arbitrary: v) (auto simp: same_core_def delete_in_def)
  then show ?thesis unfolding empty_bucket_def by blast
qed

lemma blocks_core [simp]:
  "same_core w (WriteClosedBlock E b w)" "same_core w (WriteClosedBlockWithoutTx E b w)" "same_core w (DeleteOpenBlock E h w)"
  "same_core w (DeleteClosedBlock E h w)" "same_core w (DeleteClosedBlockWithoutTx E h w)" "same_core w (WriteLastClosedBlock E b w)"
  "same_core w (DeleteAllFundsTxBeforeAggregation w)" "same_core w (DeleteBootstrapReceivedMempool w)"
  by (simp_all add: same_core_def WriteClosedBlock_def WriteClosedBlockWithoutTx_def DeleteOpenBlock_def DeleteClosedBlock_def
      DeleteClosedBlockWithoutTx_def WriteLastClosedBlock_def DeleteAllFundsTxBeforeAggregation_def
      DeleteBootstrapReceivedMempool_def delete_in_def)

lemma DeleteAllLastClosedBlock_core [simp]: "same_core w (DeleteAllLastClosedBlock E w)"
  by (simp add: DeleteAllLastClosedBlock_def empty_bucket_core)

lemma storeBlockByTxs_core [simp]: "same_core w (storeBlockByTxs E b w)"
proof -
  have "same_core v (fold (\<lambda>h. WriteBlockHashByTxHash E h (bl_Hash b)) hs v)" for hs v
    by (induction hs arbitrary: v) (auto intro: same_core_trans [rotated] simp: WriteBlockHashByTxHash_def same_core_def)
  then show ?thesis unfolding storeBlockByTxs_def by blast
qed

subsection \<open>Rollback of aggregations\<close>

lemma reactivateAll_core: "reactivateAll E h txs (b, w) = Some (b', w') \<Longrightarrow> same_core w w'"
proof (induction txs arbitrary: b w)
  case (Cons tx txs)
  obtain b1 w1 where one: "reactivateTx E h tx (b, w) = Some (b1, w1)" "reactivateAll E h txs (b1, w1) = Some (b', w')"
    using Cons.prems by (auto split: option.splits)
  have "same_core w w1" using one(1) by (auto simp: reactivateTx_def split: Transaction.splits option.splits if_splits dest: storage_core(1))
  then show ?case using Cons.IH [OF one(2)] same_core_trans by blast
qed simp

lemma reactivate_core:
  assumes "reactivateHistoricBlockDueToRollback E tx w = Some w'"
  shows "same_core w w'"
proof -
  define p where "p = (case tx of TFunds f \<Rightarrow> (ft_Block f, WriteClosedTx E (TFunds (f\<lparr>ft_Aggregated := False\<rparr>)) w)
    | TAgg g \<Rightarrow> (gt_Block g, WriteClosedTx E (TAgg (g\<lparr>gt_Aggregated := False\<rparr>)) w) | _ \<Rightarrow> (zero_hash, Some w))"
  obtain h w1 where p': "p = (h, Some w1)"
    using assms unfolding reactivateHistoricBlockDueToRollback_def p_def [symmetric] by (cases p) (auto split: option.splits)
  have w1: "same_core w w1" using p' unfolding p_def by (cases tx) (auto dest: storage_core(1))
  have rest: "(case ReadClosedBlockWithoutTx E w1 h of None \<Rightarrow> Some w1 | Some b \<Rightarrow>
          (case reactivateAll E h (ReadAllClosedFundsAndAggTransactions E w1) (b, w1) of None \<Rightarrow> None | Some (b', w2) \<Rightarrow>
             Some (DeleteClosedBlockWithoutTx E h (WriteClosedBlock E (b'\<lparr>bl_AggTxData := sort_by ByHash_Less (bl_AggTxData b'), bl_Aggregated := False\<rparr>) w2)))) = Some w'"
    using assms unfolding reactivateHistoricBlockDueToRollback_def p_def [symmetric] p' Let_def by simp
  have tail: "same_core v (DeleteClosedBlockWithoutTx E h (WriteClosedBlock E b v))" for v b
    by (rule same_core_trans [OF blocks_core(1) blocks_core(5)])
  have "same_core w1 w'"
    using rest by (auto split: option.splits dest!: reactivateAll_core intro: same_core_trans [OF _ tail])
  then show ?thesis using w1 same_core_trans by blast
qed

lemma collectAggregated_core: "collectAggregated E h hs fs w = Some (r, w') \<Longrightarrow> same_core w w'"
proof (induction hs arbitrary: fs w)
  case (Cons x xs)
  then show ?case by (auto split: option.splits Transaction.splits if_splits dest!: reactivate_core intro: same_core_trans)
qed simp

lemma aggregatedStateRollback_core: "aggregatedStateRollback E gs h m w = Some w' \<Longrightarrow> same_core w w'"
proof -
  have "aggTxRollback E h m g v = Some v' \<Longrightarrow> same_core v v'" for g v v'
    by (auto simp: aggTxRollback_def Let_def split: option.splits dest!: collectAggregated_core changes_core(6) collectTxFeesRollback_core)
      (blast intro: same_core_trans)
  then show "aggregatedStateRollback E gs h m w = Some w' \<Longrightarrow> same_core w w'"
    unfolding aggregatedStateRollback_def by (rule do_each_core)
qed

text \<open>The operations as functions that keep the core.\<close>

definition keeps :: "('d world \<Rightarrow> 'd world option) \<Rightarrow> bool" where
  "keeps f \<longleftrightarrow> (\<forall>w w'. f w = Some w' \<longrightarrow> same_core w w')"

definition outcome_keeps :: "('d world \<Rightarrow> 'd Ledger.outcome) \<Rightarrow> bool" where
  "outcome_keeps f \<longleftrightarrow> (\<forall>w e w'. f w = Some (e, w') \<longrightarrow> same_core w w')"

lemma attempt_keeps: "outcome_keeps f \<Longrightarrow> list_all keeps undos \<Longrightarrow> outcome_keeps after \<Longrightarrow> outcome_keeps (attempt f undos after)"
  unfolding outcome_keeps_def using attempt_core [of f undos after] unfolding keeps_def [abs_def] by blast

lemma seq_keeps: "list_all keeps fs \<Longrightarrow> keeps (do_each (\<lambda>f. f) fs)"
  unfolding keeps_def using do_seq_core [of fs] unfolding keeps_def [abs_def] by blast

lemma do_each_keeps: "(\<And>x. keeps (step x)) \<Longrightarrow> keeps (do_each step xs)"
  unfolding keeps_def using do_each_core [of step] by blast

lemma undo_keeps:
  "keeps (accStateChangeRollback E as)" "keeps (fundsStateChangeRollback fs)" "keeps (stakeStateChangeRollback ss)"
  "keeps (collectTxFeesRollback as fs cs ss m)" "keeps (aggregatedStateRollback E gs h m)"
  "keeps (\<lambda>w. collectBlockRewardRollback (r w) m w)" "keeps (\<lambda>w. collectSlashRewardRollback (r w) b w)"
  unfolding keeps_def by (blast dest: changes_core collectTxFeesRollback_core aggregatedStateRollback_core change_core)+

lemma change_keeps:
  "outcome_keeps (accStateChange E as)" "outcome_keeps (fundsStateChange E i fs)" "outcome_keeps (aggTxStateChange E i fs)"
  "outcome_keeps (stakeStateChange ss h i)" "outcome_keeps (collectTxFees as fs cs ss gs m)" "outcome_keeps (\<lambda>w. collectBlockReward (r w) m i w)"
  "outcome_keeps (\<lambda>w. collectSlashReward (r w) b w)" "outcome_keeps (updateStakingHeight b)" "outcome_keeps (\<lambda>w. Some (None, w))"
  unfolding outcome_keeps_def by (blast dest: changes_core collectTxFees_core change_core) + simp

lemma validateState_core: "validateState E data i w = Some (e, w') \<Longrightarrow> same_core w w'"
proof -
  have "outcome_keeps (validateState E data i)"
    unfolding validateState_def Let_def by (intro attempt_keeps change_keeps) (simp_all add: undo_keeps)
  then show "validateState E data i w = Some (e, w') \<Longrightarrow> same_core w w'" unfolding outcome_keeps_def by blast
qed

lemma validateStateRollback_core: "validateStateRollback E data w = Some w' \<Longrightarrow> same_core w w'"
proof -
  have "keeps (validateStateRollback E data)"
    unfolding validateStateRollback_def Let_def by (intro seq_keeps) (simp add: undo_keeps)
  then show "validateStateRollback E data w = Some w' \<Longrightarrow> same_core w w'" unfolding keeps_def by blast
qed

subsection \<open>Closing and reopening\<close>

lemma bind_keeps: "keeps f \<Longrightarrow> keeps g \<Longrightarrow> keeps (\<lambda>w. Option.bind (f w) g)"
  unfolding keeps_def by (auto simp: bind_eq_Some_conv) (blast intro: same_core_trans)

lemma storage_keeps:
  "keeps (WriteClosedTx E tx)" "keeps (DeleteClosedTx E tx)" "keeps (WriteOpenTx E tx)" "keeps (DeleteOpenTx E tx)" "keeps (DeleteINVALIDOpenTx E tx)"
  "keeps (UpdateBlocksToBlocksWithoutTx E b)"
  unfolding keeps_def by (blast dest: storage_core)+

lemma closing_keeps:
  "keeps (closeTx E tx)" "keeps (closeFundsTx E h f)" "keeps (emptyOldBlock E n b)" "keeps (reopenTx E tx)" "keeps (reopenAggregated E h x)"
  "keeps (closeBootstrapTx E tx)"
proof -
  show c: "keeps (closeTx E tx)" and r: "keeps (reopenTx E tx)" and "keeps (closeFundsTx E h f)" and "keeps (closeBootstrapTx E tx)" for tx
    unfolding closeTx_def [abs_def] reopenTx_def [abs_def] closeFundsTx_def [abs_def] closeBootstrapTx_def [abs_def] Let_def
    by (intro bind_keeps storage_keeps)+
  show "keeps (emptyOldBlock E n b)" using storage_keeps(6) unfolding keeps_def emptyOldBlock_def by auto
  show "keeps (reopenAggregated E h x)" using r unfolding keeps_def reopenAggregated_def by (auto split: option.splits Transaction.splits if_splits)
qed

lemma closeAggregated_core: "closeAggregated E agg h fs hs w = Some w' \<Longrightarrow> same_core w w'"
proof (induction hs arbitrary: w)
  case (Cons x xs)
  show ?case
  proof (cases "findAggregated E h fs x w")
    case (Some r)
    show ?thesis
    proof (cases r)
      case (Some tx)
      then obtain w1 where w1: "Option.bind (closeTx E tx w) (DeleteINVALIDOpenTx E (TAgg agg)) = Some w1" "closeAggregated E agg h fs xs w1 = Some w'"
        using Cons.prems \<open>findAggregated E h fs x w = Some r\<close> by (auto split: option.splits)
      have "same_core w w1" using bind_keeps [OF closing_keeps(1) storage_keeps(5)] w1(1) unfolding keeps_def by blast
      then show ?thesis using Cons.IH [OF w1(2)] same_core_trans by blast
    qed (use Cons.prems Some in simp)
  qed (use Cons.prems in simp)
qed simp

lemma aggregation_keeps: "keeps (closeAggTx E h fs tx)" "keeps (reopenAggTx E h tx)"
proof -
  have "keeps (closeAggregated E tx h fs hs)" for hs unfolding keeps_def using closeAggregated_core by blast
  then show "keeps (closeAggTx E h fs tx)" unfolding closeAggTx_def [abs_def] Let_def by (intro bind_keeps closing_keeps storage_keeps)
  show "keeps (reopenAggTx E h tx)" unfolding reopenAggTx_def [abs_def] by (intro bind_keeps do_each_keeps closing_keeps)
qed

subsection \<open>Fetching and preparing\<close>

lemma fetch_step_core: "fetch_step E w w' \<Longrightarrow> same_core w w'"
  by (simp add: fetch_step_def pools_only_def same_core_def)

lemma touch_core [simp]: "same_core w (touch tx tx' w)"
  by (simp add: same_core_def touch_def)

lemma fetchFundsTx_core:
  assumes "fetchFundsTx N E cfg initialSetup h w = Some (es, r, w')"
  shows "same_core w w'"
proof -
  consider "w' = w" | "fetchFundsNet N E initialSetup h w = Some (es, r, w')" | tx tx' where "w' = touch tx tx' w"
    using assms by (auto simp: fetchFundsTx_def split: option.splits if_splits prod.splits)
  then show ?thesis by cases (auto dest: fetchFundsNet_matches fetch_step_core)
qed

lemma fetchFunds_core: "fetchFunds N E cfg initialSetup room hs w = Some (es, ts, w') \<Longrightarrow> same_core w w'"
proof (induction hs arbitrary: room w es ts)
  case (Cons h hs)
  then show ?case
    by (auto split: option.splits if_splits dest!: fetchFundsTx_core) (blast intro: same_core_trans)
qed simp

lemma fetchAggTx_core:
  assumes "fetchAggTx N E initialSetup h w = Some (es, r, w')"
  shows "same_core w w'"
proof -
  consider "w' = w" | t where "requestAgg N E 0 3 h w = Some (Inr (t, w'))"
    using assms by (auto simp: fetchAggTx_def Let_def split: option.splits if_splits sum.splits)
  then show ?thesis by cases (auto dest: requestAgg_step fetch_step_core)
qed

lemma fetchAggs_core:
  "fetchAggs N E fuel initialSetup room hs trs w = Some (Some (es, ts, trs', w')) \<Longrightarrow> same_core w w'"
proof (induction hs arbitrary: room trs w es ts)
  case (Cons h hs)
  obtain es1 r w1 where one: "fetchAggTx N E initialSetup h w = Some (es1, r, w1)"
    using Cons.prems by (auto split: option.splits)
  note s = fetchAggTx_core [OF one]
  from one Cons.prems show ?case
  proof (cases rule: fetchAggs_Cons)
    case (onward t es1' es2 trs2 w2 ts2)
    show ?thesis using Cons.IH [OF onward(5)] fetch_step_core [OF onward(2)] s same_core_trans by blast
  qed (use s fetch_step_core same_core_trans in \<open>blast+\<close>)
qed simp

lemma fetchTransactions_core: "fetchTransactions N E cfg fuel i b w = Done (r, w') \<Longrightarrow> same_core w w'"
  by (auto simp: fetchTransactions_def fetchFundsTxData_def fetchAggTxData_def Let_def split: option.splits list.splits if_splits
      dest!: fetchFunds_core fetchAggs_core) (blast intro: same_core_trans)+

lemma keeps_accounts_core: "keeps_accounts w w' \<Longrightarrow> same_core w w'"
  by (simp add: keeps_accounts_def same_core_def)

subsection \<open>The end of a validation\<close>

lemma const_keeps:
  "keeps (\<lambda>w. Some (WriteClosedBlock E b (DeleteOpenBlock E h w)))" "keeps (\<lambda>w. do_each (emptyOldBlock E n) (ReadAllClosedBlocks E w) w)"
  "keeps (\<lambda>w. Some (WriteLastClosedBlock E b (DeleteAllLastClosedBlock E w)))" "keeps Some"
proof -
  show "keeps (\<lambda>w. Some (WriteClosedBlock E b (DeleteOpenBlock E h w)))" "keeps (\<lambda>w. Some (WriteLastClosedBlock E b (DeleteAllLastClosedBlock E w)))"
    unfolding keeps_def by (auto intro: same_core_trans [OF blocks_core(3) blocks_core(1)] same_core_trans [OF DeleteAllLastClosedBlock_core blocks_core(6)])
  show "keeps (\<lambda>w. do_each (emptyOldBlock E n) (ReadAllClosedBlocks E w) w)"
    using do_each_keeps [of "emptyOldBlock E n", OF closing_keeps(3)] unfolding keeps_def by blast
qed (simp add: keeps_def)

text \<open>After the configuration and the statistics, \<^verbatim>\<open>postValidate\<close> keeps the core.\<close>

lemma postValidate_core:
  assumes "postValidate E newDiff boot data i w = Some w'"
  obtains w1 where "collectStatistics newDiff (bd_block data) (configStateChange (configTxSlice data) (bl_Hash (bd_block data)) w) = Some w1" "same_core w1 w'"
proof -
  let ?b = "bd_block data"
  obtain w1 where w1: "collectStatistics newDiff ?b (configStateChange (configTxSlice data) (bl_Hash ?b) w) = Some w1"
    using assms by (auto simp: postValidate_def Let_def bind_eq_Some_conv)
  have "same_core w1 w'"
  proof (cases "boot \<and> i")
    case False
    obtain fs where "do_each (\<lambda>f. f) fs w1 = Some w'" "list_all keeps fs"
    proof
      let ?aggFunds = "if i then map (\<lambda>f. f\<lparr>ft_Aggregated := True\<rparr>) (aggregatedFundsTxSlice data) else aggregatedFundsTxSlice data"
      let ?fs = "[do_each (closeTx E) (map TAcc (accTxSlice data)),
           do_each (closeFundsTx E (bl_HashWithoutTx ?b)) (fundsTxSlice data),
           do_each (closeTx E) (map TConfig (configTxSlice data)),
           do_each (closeTx E) (map TStake (stakeTxSlice data)),
           do_each (closeTx E) (map TUpdate (updateTxSlice data)),
           (if i then do_each (closeTx E) (map TFunds ?aggFunds) else Some),
           do_each (closeAggTx E (bl_HashWithoutTx ?b) ?aggFunds) (aggTxSlice data),
           (\<lambda>w. Some (WriteClosedBlock E ?b (DeleteOpenBlock E (bl_Hash ?b) w))),
           (\<lambda>w. do_each (emptyOldBlock E (bl_Height ?b)) (ReadAllClosedBlocks E w) w),
           (\<lambda>w. Some (WriteLastClosedBlock E ?b (DeleteAllLastClosedBlock E w)))]"
      show "do_each (\<lambda>f. f) ?fs w1 = Some w'" using assms False w1 unfolding postValidate_def Let_def by simp
      show "list_all keeps ?fs" by (simp add: do_each_keeps closing_keeps aggregation_keeps const_keeps)
    qed
    then show ?thesis using seq_keeps unfolding keeps_def by blast
  qed (use assms w1 in \<open>simp add: postValidate_def Let_def\<close>)
  then show ?thesis using that w1 by blast
qed

end
