(* ===== verification/MiningProps.thy ===== *)
theory MiningProps
  imports MiningFrame ConsensusProps
begin

text \<open>
  What holds of a miner as a whole: an invariant of every state it can reach, whatever the network sends and in which order,
  and what becomes of a received block whose hash is closed.
\<close>

subsection \<open>Invariants of the core\<close>

text \<open>
  A property of the parameters and the stash that starts true and that its three writers keep: received blocks, the closing of a
  block and its rollback.
\<close>

locale core_invariant =
  fixes P :: "'d world \<Rightarrow> bool"
  assumes core: "same_core w w' \<Longrightarrow> P w \<Longrightarrow> P w'"
    and last_block: "P w \<Longrightarrow> P (w\<lparr>lastBlock := l\<rparr>)"
    and received: "P w \<Longrightarrow> P (WriteToReceivedStash b w)"
    and config: "P w \<Longrightarrow> P (configStateChange txs h w)"
    and config_undo: "P w \<Longrightarrow> configStateChangeRollback txs h w = Some w' \<Longrightarrow> P w'"
    and start: "parameterSlice w = [] \<Longrightarrow> ReceivedBlockStash w = [] \<Longrightarrow> P (w\<lparr>parameterSlice := [NewDefaultParameters]\<rparr>)"
begin

lemma stashed: "P w \<Longrightarrow> P (fold WriteToReceivedStash bs w)"
  by (induction bs arbitrary: w) (auto intro: received)

lemma getNewChain_keeps: "getNewChain E net fuel k b chain w = Done (r, k', w') \<Longrightarrow> P w \<Longrightarrow> P w'"
proof (induction fuel arbitrary: k b chain w)
  case (Suc fuel)
  show ?case
    using Suc.prems stashed received
    by (auto simp: Let_def split: option.splits if_splits reply.splits dest: Suc.IH)
qed simp

lemma getBlockSequences_keeps: "getBlockSequences E net fuel k b w = Done (r, k', w') \<Longrightarrow> P w \<Longrightarrow> P w'"
  by (auto simp: getBlockSequences_def bind_run_Done split: option.splits if_splits dest!: getNewChain_keeps)

lemma sameChainLoop_keeps: "sameChainLoop E net fuel k hi lo w = Done (r, k', w') \<Longrightarrow> P w \<Longrightarrow> P w'"
proof (induction fuel arbitrary: k hi lo w)
  case (Suc fuel)
  show ?case
    using Suc.prems stashed received
    by (auto simp: Let_def split: option.splits if_splits reply.splits dest: Suc.IH)
qed simp

lemma IsInSameChain_keeps: "IsInSameChain E net fuel k b1 b2 w = Done (r, k', w') \<Longrightarrow> P w \<Longrightarrow> P w'"
  by (auto simp: IsInSameChain_def split: if_splits dest: sameChainLoop_keeps)

lemma slashing_written: "P w \<Longrightarrow> P (w\<lparr>slashingDict := d\<rparr>)"
  by (rule core [OF same_core_updates(6)])

lemma recordProof_keeps: "P w \<Longrightarrow> P (recordProof b p w)"
  unfolding recordProof_def by (rule slashing_written)

lemma seekLoop_keeps: "seekLoop E net fuel k b ps w = Done (k', w') \<Longrightarrow> P w \<Longrightarrow> P w'"
proof (induction ps arbitrary: k w)
  case (Cons p ps)
  then show ?case by (auto simp: bind_run_Done split: if_splits dest!: IsInSameChain_keeps intro: recordProof_keeps)
qed simp

lemma seekSlashingProof_keeps: "seekSlashingProof E net fuel k b w = Done (k', w') \<Longrightarrow> P w \<Longrightarrow> P w'"
  by (auto simp: seekSlashingProof_def split: option.splits if_splits dest: seekLoop_keeps)

lemma slashingCheck_keeps: "slashingCheck E net fuel k a h1 h2 hw1 hw2 w = Done (r, k', w') \<Longrightarrow> P w \<Longrightarrow> P w'"
  by (auto simp: slashingCheck_def bind_run_Done split: option.splits if_splits dest!: IsInSameChain_keeps intro: slashing_written)

lemma preValidate_keeps: "preValidate E rsa clk net fuel k b i w = Done (r, k', w') \<Longrightarrow> P w \<Longrightarrow> P w'"
  by (auto simp: preValidate_def bind_run_Done split: option.splits if_splits bool.splits dest!: slashingCheck_keeps)

lemma statistics: "parameterSlice w' = parameterSlice w \<Longrightarrow> ReceivedBlockStash w' = ReceivedBlockStash w \<Longrightarrow> P w \<Longrightarrow> P w'"
  using core [of "w\<lparr>lastBlock := lastBlock w'\<rparr>" w'] last_block [of w "lastBlock w'"] by (simp add: same_core_def)

lemma collectStatistics_keeps: "collectStatistics newDiff b w = Some w' \<Longrightarrow> P w \<Longrightarrow> P w'"
  by (erule statistics [rotated -1]) (auto simp: collectStatistics_def Let_def split: if_splits)

lemma postValidate_keeps: "postValidate E newDiff boot data i w = Some w' \<Longrightarrow> P w \<Longrightarrow> P w'"
  by (elim postValidate_core core collectStatistics_keeps) (rule config)

lemma collectStatisticsRollback_keeps: "collectStatisticsRollback E b w = Some w' \<Longrightarrow> P w \<Longrightarrow> P w'"
  by (erule statistics [rotated -1]) (auto simp: collectStatisticsRollback_def Let_def split: if_splits)

lemma postValidateRollback_keeps:
  assumes "postValidateRollback E data w = Some w'" "P w"
  shows "P w'"
proof -
  let ?b = "bd_block data"
  obtain w1 w2 where w: "do_each (\<lambda>f. f) [do_each (reopenTx E) (map TAcc (accTxSlice data)), do_each (reopenTx E) (map TFunds (fundsTxSlice data)),
        do_each (reopenTx E) (map TConfig (configTxSlice data)), do_each (reopenTx E) (map TStake (stakeTxSlice data)),
        do_each (reopenAggTx E (bl_HashWithoutTx ?b)) (aggTxSlice data)] w = Some w1" "collectStatisticsRollback E ?b w1 = Some w2"
    "same_core (WriteToReceivedStash ?b (DeleteClosedBlock E (bl_Hash ?b) w2)) w'"
    using assms(1) unfolding postValidateRollback_def Let_def
    by (auto split: option.splits intro: same_core_trans [OF DeleteAllLastClosedBlock_core blocks_core(6)])
  have "same_core w w1" using seq_keeps [THEN keeps_def [THEN iffD1, rule_format], OF _ w(1)]
    by (simp add: do_each_keeps closing_keeps aggregation_keeps)
  then show ?thesis using assms(2) collectStatisticsRollback_keeps [OF w(2)] core w(3) received blocks_core(4) by metis
qed

lemma rollback_keeps:
  assumes "rollback E b w = Some (e, w')" "P w"
  shows "P w'"
proof -
  consider "w' = w" | data w1 w2 where "configStateChangeRollback (configTxSlice data) (bl_Hash b) w = Some w1" "validateStateRollback E data w1 = Some w2"
      "postValidateRollback E data w2 = Some w'"
    using assms(1) by (auto simp: rollback_def split: option.splits sum.splits)
  then show ?thesis
  proof cases
    case 2
    then show ?thesis using assms(2) config_undo core [OF validateStateRollback_core] postValidateRollback_keeps by blast
  qed (use assms(2) in simp)
qed

lemma rollbackBlocks_keeps: "rollbackBlocks E bs w = Some (e, w') \<Longrightarrow> P w \<Longrightarrow> P w'"
proof (induction bs arbitrary: w)
  case (Cons b bs)
  then show ?case by (auto split: option.splits dest!: rollback_keeps)
qed simp

lemma validateBlock_keeps: "validateBlock N clk net fnet fuel k i seek b w = Done (e, k', w') \<Longrightarrow> P w \<Longrightarrow> P w'"
proof -
  assume v: "validateBlock N clk net fnet fuel k i seek b w = Done (e, k', w')" and P: "P w"
  obtain e1 k1 w1 where pre: "preValidate (nE N) (rsaCheck N) clk net fuel k b i w = Done (e1, k1, w1)"
    using v by (auto simp: validateBlock_def bind_run_Done)
  have w1: "P w1" using preValidate_keeps [OF pre P] .
  show "P w'"
  proof (cases e1)
    case None
    then obtain r w2 where fetch: "fetchTransactions fnet (nE N) (nCfg N) fuel i b w1 = Done (r, w2)"
      using v pre by (auto simp: validateBlock_def bind_run_Done)
    have w2: "P w2" using core [OF fetchTransactions_core [OF fetch] w1] .
    show ?thesis
    proof (cases r)
      case (Inr data)
      define q where "q = (if seek then seekSlashingProof (nE N) net fuel k1 b w2 else Done (k1, w2))"
      obtain k3 w3 where seek: "q = Done (k3, w3)"
        and rest: "(case validateState (nE N) data i w3 of None \<Rightarrow> Crash | Some (Some e', w4) \<Rightarrow> Done (Some (StateError e'), k3, w4)
           | Some (None, w4) \<Rightarrow> (case postValidate (nE N) (newDifficulty N) (bootstrap N) data i w4 of
               None \<Rightarrow> Crash | Some w5 \<Rightarrow> Done (None, k3, w5))) = Done (e, k', w')"
        using v pre None fetch Inr by (auto simp: validateBlock_def bind_run_Done q_def [symmetric])
      obtain e4 w4 where state: "validateState (nE N) data i w3 = Some (e4, w4)"
        and post: "w' = w4 \<or> postValidate (nE N) (newDifficulty N) (bootstrap N) data i w4 = Some w'"
        using rest by (auto split: option.splits)
      have "P w3" using seek w2 seekSlashingProof_keeps unfolding q_def by (auto split: if_splits)
      then have "P w4" using core validateState_core [OF state] by blast
      then show ?thesis using post postValidate_keeps by blast
    qed (use v pre None fetch w2 in \<open>auto simp: validateBlock_def bind_run_Done\<close>)
  qed (use v pre w1 in \<open>auto simp: validateBlock_def bind_run_Done\<close>)
qed

lemma validateBlocks_keeps: "validateBlocks N clk net fnet fuel j k i bs w = Done (e, w') \<Longrightarrow> P w \<Longrightarrow> P w'"
proof (induction bs arbitrary: j k w)
  case (Cons b bs)
  then show ?case by (auto simp: bind_run_Done split: option.splits dest!: validateBlock_keeps)
qed simp

lemma validate_keeps:
  assumes "validate N clk net fnet fuel b i w = Done (e, w')" "P w"
  shows "P w'"
proof (cases "ReadClosedBlock (nE N) w (bl_Hash b) \<noteq> None")
  case True
  then show ?thesis using assms by (simp add: validate_def)
next
  case False
  obtain r k w1 where seq: "getBlockSequences (nE N) net fuel 0 b w = Done (r, k, w1)"
    using assms(1) False by (auto simp: validate_def bind_run_Done)
  have w1: "P w1" using getBlockSequences_keeps [OF seq assms(2)] .
  show ?thesis
  proof (cases r)
    case (Inr p)
    then obtain rb vb e2 w2 where p: "p = (rb, vb)" "rollbackBlocks (nE N) rb w1 = Some (e2, w2)"
      using assms(1) False seq by (cases p) (auto simp: validate_def bind_run_Done split: option.splits)
    have "P w2" using rollbackBlocks_keeps [OF p(2) w1] .
    then show ?thesis
      using assms(1) False seq Inr p validateBlocks_keeps by (cases e2) (auto simp: validate_def bind_run_Done)
  qed (use assms False seq w1 in \<open>auto simp: validate_def bind_run_Done\<close>)
qed

lemma processBlock_keeps: "processBlock N clk net fnet fuel payload w = Done (r, w') \<Longrightarrow> P w \<Longrightarrow> P w'"
  by (auto simp: processBlock_def Let_def bind_run_Done split: option.splits if_splits dest!: validate_keeps intro: core [OF blocks_core(1)] received)

lemma finalizeBlock_keeps: "finalizeBlock N order ticks b w0 w = Done (e, b', w') \<Longrightarrow> P w \<Longrightarrow> P w'"
proof -
  assume f: "finalizeBlock N order ticks b w0 w = Done (e, b', w')" and "P w"
  moreover have "keeps (\<lambda>w. map_option DeleteAllFundsTxBeforeAggregation (do_each (WriteOpenTx (nE N)) (map TFunds fs) w))" for fs
    using do_each_keeps [of "WriteOpenTx (nE N)", OF storage_keeps(3)] unfolding keeps_def by (auto intro: same_core_trans [OF _ blocks_core(7)])
  ultimately have "same_core w w'"
    unfolding finalizeBlock_def Let_def keeps_def by (auto split: option.splits sum.splits if_splits)
  then show "P w'" using core \<open>P w\<close> by blast
qed

lemma fetchChain_keeps: "fetchChain E net fuel k lb bs w = Done (r, k', w') \<Longrightarrow> P w \<Longrightarrow> P w'"
proof (induction fuel arbitrary: k lb bs w)
  case (Suc fuel)
  have c: "P (closeReceived E b v)" if "P v" for b v using that core [OF blocks_core(1)] core [OF blocks_core(2)] by (simp add: closeReceived_def)
  show ?case
    using Suc.prems stashed c by (auto simp: Let_def split: option.splits if_splits reply.splits dest: Suc.IH)
qed simp

lemma initBlocks_keeps: "initBlocks N clk net fnet fuel j k bs w = Done (e, w') \<Longrightarrow> P w \<Longrightarrow> P w'"
proof (induction bs arbitrary: j k w)
  case (Cons b bs)
  then show ?case by (auto simp: bind_run_Done split: option.splits if_splits dest!: validateBlock_keeps postValidate_keeps)
qed simp

lemma initialChain_keeps: "initialChain N net fuel w = Done (r, k, w') \<Longrightarrow> P w \<Longrightarrow> P w'"
  using stashed core [OF same_core_trans [OF blocks_core(1) blocks_core(6)]]
  by (auto simp: initialChain_def bind_run_Done split: if_splits reply.splits dest!: fetchChain_keeps)

lemma initState_keeps:
  assumes "initState N clk net fnet fuel w = Done (r, w')" "P w"
  shows "P w'"
proof -
  obtain c k w1 where chain: "initialChain N net fuel w = Done (c, k, w1)"
    using assms(1) by (auto simp: initState_def bind_run_Done)
  note w1 = initialChain_keeps [OF chain assms(2)]
  consider "w' = w1" | blocks w2 e w3 l where "same_core w1 w2" "initBlocks N clk net fnet fuel 0 k blocks w2 = Done (e, w3)"
      "w' = w3 \<or> w' = w3\<lparr>lastBlock := l\<rparr>"
  proof (cases c)
    case (Inl e)
    then show ?thesis using that(1) assms(1) chain by (auto simp: initState_def bind_run_Done)
  next
    case (Inr bs)
    define g where "g = newBlock zero_hash zero_hash (replicate 256 0) 0"
    define start where "start = (case bs of c # cs \<Rightarrow> Some (highest c bs, bs, w1)
        | [] \<Rightarrow> map_option (\<lambda>proof. let b = g\<lparr>bl_CommitmentProof := proof\<rparr> in (b, [b], WriteClosedBlock (nE N) b (WriteLastClosedBlock (nE N) b w1)))
              (SignMessageWithRSAKey (rsaSignRoot N) (crypto (nE N)) (digits (unat (bl_Height g)))))"
    have core2: "same_core w1 w2" if "start = Some (ib, blocks, w2)" for ib blocks w2
      using that same_core_trans [OF blocks_core(6) blocks_core(1)] by (auto simp: start_def Let_def split: list.splits)
    show ?thesis
    proof (cases start)
      case None
      then show ?thesis using that(1) assms(1) chain Inr
        unfolding initState_def g_def [symmetric] Let_def by (auto simp: bind_run_Done start_def Let_def split: list.splits)
    next
      case (Some p)
      obtain ib blocks w2 where p: "p = (ib, blocks, w2)" by (cases p)
      have "bind_run (initBlocks N clk net fnet fuel 0 k (if bootstrap N then blocks else InvertBlockArray blocks) w2) (\<lambda>(e, w3). case e of
            Some e' \<Rightarrow> Done (Inl e', w3)
          | None \<Rightarrow> (case lastBlock w3 of None \<Rightarrow> Crash
              | Some l \<Rightarrow> Done (Inr ib, w3\<lparr>lastBlock := Some (highest l (if bootstrap N then blocks else InvertBlockArray blocks))\<rparr>))) = Done (r, w')"
        using assms(1) chain Inr Some p unfolding initState_def g_def [symmetric] start_def Let_def
        by (simp add: bind_run_def)
      then show ?thesis using that(2) [OF core2 [OF Some [unfolded p]]] by (auto simp: bind_run_Done split: option.splits)
    qed
  qed
  then show ?thesis
  proof cases
    case 2
    have "P w3" using initBlocks_keeps [OF 2(2) core [OF 2(1) w1]] .
    then show ?thesis using 2(3) last_block by auto
  qed (use w1 in simp)
qed

lemma Init_keeps:
  assumes "Init N ra rm rc clk net fnet fuel hashes w = Done (r, w')" "parameterSlice w = []" "ReceivedBlockStash w = []"
  shows "P w'"
proof -
  let ?w1 = "initRootKey (nE N) ra rm rc (w\<lparr>parameterSlice := [NewDefaultParameters]\<rparr>)"
  obtain r1 w3 where i: "initState N clk net fnet fuel (?w1\<lparr>currentTargetTime := \<lparr>tr_first = 0, tr_last = 0\<rparr>, target := target ?w1 @ [13]\<rparr>) = Done (r1, w3)"
    and r1: "(case r1 of Inl e \<Rightarrow> Done (Inl e, w3)
         | Inr initialBlock \<Rightarrow> (case do_each (closeBootstrapTx (nE N)) (ReadAllBootstrapReceivedTransactions (hashes w3) w3) w3 of
             None \<Rightarrow> Crash | Some w4 \<Rightarrow> Done (Inr initialBlock, DeleteBootstrapReceivedMempool w4))) = Done (r, w')"
    using assms(1,2) unfolding Init_def Let_def bind_run_Done by auto
  have "keeps (do_each (closeBootstrapTx (nE N)) txs)" for txs by (intro do_each_keeps closing_keeps)
  then have rest: "same_core w3 w'"
    using r1 same_core_trans [OF _ blocks_core(8)] unfolding keeps_def by (cases r1) (auto split: option.splits, blast)
  have "P (w\<lparr>parameterSlice := [NewDefaultParameters]\<rparr>)" using assms(2,3) by (rule start)
  then have "P (?w1\<lparr>currentTargetTime := \<lparr>tr_first = 0, tr_last = 0\<rparr>, target := target ?w1 @ [13]\<rparr>)"
    by (rule core [rotated]) (simp add: same_core_def initRootKey_def Let_def)
  then show ?thesis using initState_keeps [OF i] core [OF rest] by blast
qed

lemma message_keeps:
  assumes "processIncomingMsg E G p header payload n = Some (ms, n')" "P (nworld n)"
  shows "P (nworld n')"
  using assms(1)
proof (cases rule: processIncomingMsg_cases)
  case (2 t)
  then show ?thesis using assms(2) core [OF storage_core(3)] by (auto simp: processTxBrdcst_def Let_def split: option.splits if_splits)
next
  case 3
  then show ?thesis using assms(2) received by (auto simp: forwardBlockReqToMiner_def Let_def split: if_splits)
qed (use assms(2) in simp)

lemma node_step_keeps: "node_step N s s' \<Longrightarrow> P (snd s) \<Longrightarrow> P (snd s')"
proof (induction rule: node_step.induct)
  case (NextBlock w b it order snet blockIn fuel opentxs b' w')
  then show ?case using core [OF keeps_accounts_core [OF prepareBlock_keeps]] by simp
qed (auto dest: finalizeBlock_keeps validate_keeps processBlock_keeps message_keeps)

lemma reachable_keeps: "reachable N s \<Longrightarrow> P (snd s)"
  by (induction rule: reachable.induct) (auto dest: Init_keeps node_step_keeps)

end

subsection \<open>The states a miner reaches\<close>

definition node_ok :: "'d world \<Rightarrow> bool" where
  "node_ok w \<longleftrightarrow> parameterSlice w \<noteq> [] \<and> (\<forall>p \<in> set (parameterSlice w). params_ok p) \<and> stash_ok w"

lemma configStateChange_ok:
  assumes "parameterSlice w \<noteq> []" "\<forall>p \<in> set (parameterSlice w). params_ok p"
  shows "parameterSlice (configStateChange txs h w) \<noteq> []" "\<forall>p \<in> set (parameterSlice (configStateChange txs h w)). params_ok p"
    "ReceivedBlockStash (configStateChange txs h w) = ReceivedBlockStash w"
proof -
  obtain p S c where r: "CheckAndChangeParameters (activeParameters w) (State w) txs = (p, S, c)"
    by (cases "CheckAndChangeParameters (activeParameters w) (State w) txs")
  have "params_ok (activeParameters w)" using assms by (simp add: activeParameters_def)
  then have "params_ok p" using r fold_changeParameter_ok by (fastforce simp: CheckAndChangeParameters_def)
  then show "parameterSlice (configStateChange txs h w) \<noteq> []" "\<forall>p \<in> set (parameterSlice (configStateChange txs h w)). params_ok p"
    "ReceivedBlockStash (configStateChange txs h w) = ReceivedBlockStash w"
    using assms r by (auto simp: configStateChange_def Let_def)
qed

interpretation core_inv: core_invariant node_ok
proof
  fix w w' :: "'d world" and l b txs h
  show "node_ok w'" if "same_core w w'" "node_ok w" using that by (simp add: node_ok_def same_core_def stash_ok_def)
  show "node_ok (w\<lparr>lastBlock := l\<rparr>)" if "node_ok w" using that by (simp add: node_ok_def stash_ok_def)
  show "node_ok (WriteToReceivedStash b w)" if "node_ok w"
    using that WriteToReceivedStash_ok [of w b] by (simp add: node_ok_def WriteToReceivedStash_def Let_def)
  show "node_ok (configStateChange txs h w)" if "node_ok w" using that configStateChange_ok [of w txs h] by (simp add: node_ok_def stash_ok_def)
  show "node_ok w'" if "node_ok w" "configStateChangeRollback txs h w = Some w'"
    using that by (auto simp: configStateChangeRollback_def node_ok_def stash_ok_def split: if_splits) (blast dest: in_set_butlastD)
  show "node_ok (w\<lparr>parameterSlice := [NewDefaultParameters]\<rparr>)" if "parameterSlice w = []" "ReceivedBlockStash w = []"
    using that params_ok_default by (simp add: node_ok_def stash_ok_def)
qed

text \<open>
  C4: a running miner. In every state that a miner reaches from its start, whatever blocks, transactions and messages arrive and
  however they interleave with mining, validation and rollbacks, all parameter sets of the history, the ones in force included, are
  within the bounds of \<^verbatim>\<open>configtx.go\<close>, and the stash holds at most 100 received blocks with distinct hashes.
\<close>

theorem reachable_in_bounds:
  assumes "reachable N (ph, w)"
  shows "(\<forall>p \<in> set (parameterSlice w). params_ok p) \<and> params_ok (activeParameters w) \<and>
    length (ReceivedBlockStash w) \<le> 100 \<and> distinct (map bl_Hash (ReceivedBlockStash w))"
  using core_inv.reachable_keeps [OF assms] by (simp add: node_ok_def stash_ok_def activeParameters_def)

subsection \<open>Received blocks\<close>

text \<open>
  A closed block can be replaced without a check. When a block arrives whose hash is the one of a closed block but whose number
  of updates differs, \<^verbatim>\<open>processBlock\<close> writes it over the closed one, whatever its transactions, beneficiary, proof or
  Merkle root are, and nothing else changes.
\<close>

theorem processBlock_replaces:
  assumes "bolt_laws (nE N)" "ReadClosedBlock (nE N) w (bl_Hash block) = Some old" "gobBlock (nG N) payload = block" "bl_NrUpdates old \<noteq> bl_NrUpdates block"
  shows "\<exists>w'. processBlock N clk net fnet fuel payload w = Done (Replaced, w') \<and>
    ReadClosedBlock (nE N) w' (bl_Hash block) = Some (block\<lparr>bl_StateCopy := Map.empty\<rparr>) \<and> w' = w\<lparr>db := db w'\<rparr>"
  using assms
  by (auto simp: processBlock_def Let_def WriteClosedBlock_def ReadClosedBlock_def read_block_def bolt_laws_def Block_Encode_def)

subsection \<open>A small node\<close>

text \<open>A bootstrap node whose signatures are all accepted, and a chain of two blocks without transactions.\<close>

definition demo_node :: "demo_db node_env" where
  "demo_node = \<lparr>nE = demo_E, nV = demo_env, nG = demo_gob, nCfg = \<lparr>multisigPubKey = (0, 0), validatorAccAddress = replicate 63 0 @ [9]\<rparr>,
     rsaCheck = (\<lambda>_ _ _ _. True), rsaSign = (\<lambda>_. Some []), rsaSignRoot = (\<lambda>_. Some []), newDifficulty = (\<lambda>_ _. 10), bootstrap = True\<rparr>"

lemma demo_node_simps [simp]:
  "nE demo_node = demo_E" "nG demo_node = demo_gob" "rsaCheck demo_node = (\<lambda>_ _ _ _. True)" "rsaSign demo_node = (\<lambda>_. Some [])"
  "rsaSignRoot demo_node = (\<lambda>_. Some [])" "bootstrap demo_node" "validatorAccAddress (nCfg demo_node) = replicate 63 0 @ [9]"
  by (simp_all add: demo_node_def)

definition demo_clock' :: clock where
  "demo_clock' = \<lparr>systemTime = 1600000000, unixNow = 1600000000, uptodate = True\<rparr>"

lemma demo_collect: "target w \<noteq> [] \<Longrightarrow> \<exists>w'. collectStatistics f b w = Some w' \<and> lastBlock w' = Some b"
  by (simp add: collectStatistics_def Let_def)

definition demo_empty :: "demo_db world" where
  "demo_empty = (demo_world Map.empty [])\<lparr>parameterSlice := [], target := []\<rparr>"

lemma demo_Init:
  "\<exists>b w'. Init demo_node [] [] None demo_clock' net fnet 0 (\<lambda>_. []) demo_empty = Done (Inr b, w')"
proof -
  define w2 where "w2 = (initRootKey demo_E [] [] None (demo_empty\<lparr>parameterSlice := parameterSlice demo_empty @ [NewDefaultParameters]\<rparr>))
      \<lparr>currentTargetTime := \<lparr>tr_first = 0, tr_last = 0\<rparr>, target := target (initRootKey demo_E [] [] None (demo_empty\<lparr>parameterSlice := parameterSlice demo_empty @ [NewDefaultParameters]\<rparr>)) @ [13]\<rparr>"
  have w2: "db w2 = []" "target w2 \<noteq> []" by (simp_all add: w2_def initRootKey_def demo_empty_def demo_world_def Let_def)
  have r: "ReadAllClosedBlocks demo_E w2 = []"
    using w2(1) by (simp add: ReadAllClosedBlocks_def ReadLastClosedBlock_def demo_E_def)
  have init: "\<exists>b w'. initState demo_node demo_clock' net fnet 0 w2 = Done (Inr b, w')"
  proof -
    define g where "g = (newBlock zero_hash zero_hash (replicate 256 0) 0)\<lparr>bl_CommitmentProof := copy256 []\<rparr>"
    define w3 where "w3 = WriteClosedBlock demo_E g (WriteLastClosedBlock demo_E g w2)"
    have t: "target w3 \<noteq> []" using w2(2) by (simp add: w3_def WriteClosedBlock_def WriteLastClosedBlock_def)
    obtain w4 where w4: "collectStatistics (newDifficulty demo_node) g w3 = Some w4" "lastBlock w4 = Some g" using demo_collect [OF t] by blast
    have z: "bl_Hash g = zero_hash" by (simp add: g_def newBlock_def zero_block_def)
    have pv: "postValidate demo_E (newDifficulty demo_node) True (genesisData g) True w3 = Some w4"
      using w4(1) by (simp add: postValidate_def genesisData_def configStateChange_def Let_def)
    have sign: "SignMessageWithRSAKey (\<lambda>_. Some []) C m = Some (copy256 [])" for C m by (simp add: SignMessageWithRSAKey_def)
    show ?thesis
      by (simp add: initState_def initialChain_def r bind_run_def sign g_def [symmetric] w3_def [symmetric] z pv w4(2) Let_def)
  qed
  then obtain b w4 where w4: "initState demo_node demo_clock' net fnet 0 w2 = Done (Inr b, w4)" by blast
  show ?thesis unfolding Init_def Let_def demo_node_simps w2_def [symmetric] bind_run_def
    by (simp add: w4 ReadAllBootstrapReceivedTransactions_def List.map_filter_def)
qed

theorem reachable_in_bounds_witness:
  "\<exists>ph w. reachable demo_node (ph, w) \<and> params_ok (activeParameters w) \<and> length (ReceivedBlockStash w) \<le> 100"
proof -
  obtain b w' where "Init demo_node [] [] None demo_clock' (\<lambda>_. Timeout []) (\<lambda>_. demo_answers) 0 (\<lambda>_. []) demo_empty = Done (Inr b, w')"
    using demo_Init by blast
  then have "reachable demo_node (Searching (newBlock (bl_Hash b) (bl_HashWithoutTx b) (replicate 256 0) (bl_Height b + 1)) w', w')"
    by (rule reachable.Started [rotated 3]) (simp_all add: demo_empty_def demo_world_def)
  from reachable_in_bounds [OF this] this show ?thesis by blast
qed

definition demo_closed :: "demo_db world" where
  "demo_closed = (demo_world Map.empty [])\<lparr>db := [((''closedblocks'', zero_hash), Block_Encode (zero_block\<lparr>bl_NrUpdates := 1\<rparr>))]\<rparr>"

theorem processBlock_replaces_witness:
  "\<exists>w'. processBlock demo_node demo_clock' (\<lambda>_. Timeout []) (\<lambda>_. demo_answers) 0 [] demo_closed = Done (Replaced, w') \<and>
     ReadClosedBlock demo_E w' zero_hash = Some zero_block"
proof -
  have a: "bolt_laws (nE demo_node)" "gobBlock (nG demo_node) [] = zero_block" using bolt_laws_demo by (simp_all add: demo_gob_def)
  have b: "ReadClosedBlock (nE demo_node) demo_closed (bl_Hash zero_block) = Some (zero_block\<lparr>bl_NrUpdates := 1\<rparr>)"
    by (simp add: demo_closed_def ReadClosedBlock_def read_block_def Block_Encode_def zero_block_def)
  have c: "bl_NrUpdates (zero_block\<lparr>bl_NrUpdates := 1\<rparr>) \<noteq> bl_NrUpdates zero_block" by (simp add: zero_block_def)
  have "zero_block\<lparr>bl_StateCopy := Map.empty\<rparr> = zero_block" "bl_Hash zero_block = zero_hash" by (simp_all add: zero_block_def)
  then show ?thesis using processBlock_replaces [OF a(1) b a(2) c, of demo_clock' "\<lambda>_. Timeout []" "\<lambda>_. demo_answers" 0] by auto
qed

end
