(* ===== verification/MiningBlocks.thy ===== *)
theory MiningBlocks
  imports MiningProps
begin

text \<open>
  Validation and construction of blocks as a whole: the place of a validated block in the chain (\<^verbatim>\<open>validate\<close>), and the agreement between
  \<^verbatim>\<open>finalizeBlock\<close> and \<^verbatim>\<open>preValidate\<close>: what another node can object to in a block that a miner has built.
\<close>

subsection \<open>The place of a validated block\<close>

lemma getNewChain_last:
  "getNewChain E net fuel k b chain w = Done (Some (a, bs), k', w') \<Longrightarrow> bs \<noteq> [] \<and> last bs = hd (chain @ [b])"
proof (induction fuel arbitrary: k b chain w)
  case (Suc fuel)
  have ih: "bs \<noteq> [] \<and> last bs = hd (chain @ [b])" if "getNewChain E net fuel j b' (chain @ [b]) v = Done (Some (a, bs), k', w')" for j b' v
    using Suc.IH [OF that] by (cases chain) auto
  consider "bs = rev (chain @ [b])" | j b' v where "getNewChain E net fuel j b' (chain @ [b]) v = Done (Some (a, bs), k', w')"
    using Suc.prems by (auto simp: Let_def InvertBlockArray_rev split: option.splits if_splits reply.splits)
  then show ?case by cases (use ih in \<open>auto simp: last_rev simp del: rev_append rev.simps\<close>)
qed simp

lemma getBlockSequences_last:
  assumes "getBlockSequences E net fuel k b w = Done (Inr (rb, vb), k', w')"
  shows "vb \<noteq> [] \<and> last vb = b \<and> length rb < length vb"
  using assms getNewChain_last [where chain = "[]"]
  by (auto simp: getBlockSequences_def bind_run_Done split: option.splits if_splits) fastforce+

lemma validateBlock_accepted:
  assumes "validateBlock N clk net fnet fuel k i seek b w = Done (None, k', w')"
  obtains k1 w1 data w2 w3 w4 where "preValidate (nE N) (rsaCheck N) clk net fuel k b i w = Done (None, k1, w1)"
    "fetchTransactions fnet (nE N) (nCfg N) fuel i b w1 = Done (Inr data, w2)" "validateState (nE N) data i w3 = Some (None, w4)"
    "postValidate (nE N) (newDifficulty N) (bootstrap N) data i w4 = Some w'"
proof -
  define q where "q = (\<lambda>k1 w2. if seek then seekSlashingProof (nE N) net fuel k1 b w2 else Done (k1, w2))"
  note v = assms [unfolded validateBlock_def q_def [symmetric, THEN fun_cong, THEN fun_cong]]
  obtain k1 w1 where pre: "preValidate (nE N) (rsaCheck N) clk net fuel k b i w = Done (None, k1, w1)"
    and v1: "bind_run (fetchTransactions fnet (nE N) (nCfg N) fuel i b w1) (\<lambda>(r, w2). case r of
         Inl e' \<Rightarrow> Done (Some (FetchError e'), k1, w2)
       | Inr data \<Rightarrow> bind_run (q k1 w2) (\<lambda>(k2, w3).
           case validateState (nE N) data i w3 of
             None \<Rightarrow> Crash
           | Some (Some e', w4) \<Rightarrow> Done (Some (StateError e'), k2, w4)
           | Some (None, w4) \<Rightarrow> (case postValidate (nE N) (newDifficulty N) (bootstrap N) data i w4 of
               None \<Rightarrow> Crash | Some w5 \<Rightarrow> Done (None, k2, w5)))) = Done (None, k', w')"
    using v by (auto simp: bind_run_Done [where r = "preValidate E rsa clk n f k b i w" for E rsa clk n f k b i w] split: option.splits)
  obtain data w2 where fetch: "fetchTransactions fnet (nE N) (nCfg N) fuel i b w1 = Done (Inr data, w2)"
    and v2: "bind_run (q k1 w2) (\<lambda>(k2, w3).
           case validateState (nE N) data i w3 of
             None \<Rightarrow> Crash
           | Some (Some e', w4) \<Rightarrow> Done (Some (StateError e'), k2, w4)
           | Some (None, w4) \<Rightarrow> (case postValidate (nE N) (newDifficulty N) (bootstrap N) data i w4 of
               None \<Rightarrow> Crash | Some w5 \<Rightarrow> Done (None, k2, w5))) = Done (None, k', w')"
  proof -
    obtain r w2 where r: "fetchTransactions fnet (nE N) (nCfg N) fuel i b w1 = Done (r, w2)" using v1 by (auto simp: bind_run_Done)
    then show ?thesis using that v1 by (cases r) (auto simp: bind_run_def)
  qed
  obtain w3 w4 where "validateState (nE N) data i w3 = Some (None, w4)" "postValidate (nE N) (newDifficulty N) (bootstrap N) data i w4 = Some w'"
  proof -
    obtain k2 w3 where r: "q k1 w2 = Done (k2, w3)" using v2 by (auto simp: bind_run_Done)
    obtain e w4 where st: "validateState (nE N) data i w3 = Some (e, w4)"
      using v2 unfolding r by (cases "validateState (nE N) data i w3") (auto simp: bind_run_def)
    show ?thesis using that [of w3 w4] v2 unfolding r by (cases e) (auto simp: bind_run_def st split: option.splits)
  qed
  with pre fetch show ?thesis using that by blast
qed

lemma validateBlock_head:
  assumes "validateBlock N clk net fnet fuel k i seek b w = Done (None, k', w')"
  shows "lastBlock w' = Some b"
  using assms
proof (cases rule: validateBlock_accepted)
  case (1 k1 w1 data w2 w3 w4)
  have b: "bd_block data = b" using 1(2) by (auto simp: fetchTransactions_def Let_def split: option.splits list.splits if_splits)
  obtain v where "collectStatistics (newDifficulty N) (bd_block data) (configStateChange (configTxSlice data) (bl_Hash (bd_block data)) w4) = Some v" "same_core v w'"
    using postValidate_core [OF 1(4)] .
  then show ?thesis using b by (auto simp: collectStatistics_def same_core_def Let_def split: if_splits)
qed

lemma validateBlocks_head: "validateBlocks N clk net fnet fuel j k i bs w = Done (None, w') \<Longrightarrow> bs \<noteq> [] \<Longrightarrow> lastBlock w' = Some (last bs)"
proof (induction bs arbitrary: j k w)
  case (Cons b bs)
  obtain k1 w1 where one: "validateBlock N clk net (fnet j) fuel k i (bl_Height b > 0) b w = Done (None, k1, w1)"
    "validateBlocks N clk net fnet fuel (Suc j) k1 i bs w1 = Done (None, w')"
    using Cons.prems(1) by (auto simp: bind_run_Done split: option.splits)
  show ?case using Cons.IH [OF one(2)] validateBlock_head [OF one(1)] one(2) by (cases bs) auto
qed simp

text \<open>
  C23: a validated block is the head of the chain. When \<^verbatim>\<open>validate\<close> returns without an error the block was not closed before, the
  rollback was of fewer blocks than were validated, the last of which is the block itself, and the block is the last
  block of the node.
\<close>

theorem validate_head:
  assumes "validate N clk net fnet fuel b initialSetup w = Done (None, w')"
  shows "ReadClosedBlock (nE N) w (bl_Hash b) = None \<and> lastBlock w' = Some b \<and>
    (\<exists>blocksToRollback blocksToValidate k w1. getBlockSequences (nE N) net fuel 0 b w = Done (Inr (blocksToRollback, blocksToValidate), k, w1) \<and>
       last blocksToValidate = b \<and> length blocksToRollback < length blocksToValidate)"
proof -
  have c: "ReadClosedBlock (nE N) w (bl_Hash b) = None" using assms by (auto simp: validate_def split: if_splits)
  obtain rb vb k w1 where seq: "getBlockSequences (nE N) net fuel 0 b w = Done (Inr (rb, vb), k, w1)"
    and rest: "(case rollbackBlocks (nE N) rb w1 of None \<Rightarrow> Crash | Some (Some e, w2) \<Rightarrow> Done (Some (RollbackError e), w2)
        | Some (None, w2) \<Rightarrow> validateBlocks N (clk\<lparr>uptodate := length vb < DELAYED_BLOCKS\<rparr>) net fnet fuel 0 k initialSetup vb w2) = Done (None, w')"
  proof -
    obtain r k w1 where r: "getBlockSequences (nE N) net fuel 0 b w = Done (r, k, w1)" using assms c by (auto simp: validate_def bind_run_Done)
    then show ?thesis using that assms c unfolding validate_def by (cases r) (auto simp: bind_run_def)
  qed
  note last_ = getBlockSequences_last [OF seq]
  obtain w2 where "validateBlocks N (clk\<lparr>uptodate := length vb < DELAYED_BLOCKS\<rparr>) net fnet fuel 0 k initialSetup vb w2 = Done (None, w')"
    using rest by (auto split: option.splits)
  then have "lastBlock w' = Some (last vb)" using validateBlocks_head last_ by blast
  then show ?thesis using c seq last_ by auto
qed

subsection \<open>A mined block is accepted\<close>

lemma GetLatestProofs_cong:
  assumes "bl_Height a = bl_Height b" "bl_PrevHash a = bl_PrevHash b" "bl_PrevHashWithoutTx a = bl_PrevHashWithoutTx b"
  shows "GetLatestProofs E w n a = GetLatestProofs E w n b"
proof -
  have "closedPrev E w a = closedPrev E w b" unfolding closedPrev_def assms ..
  then show ?thesis using assms(1) by (cases n) simp_all
qed

text \<open>What \<^verbatim>\<open>finalizeBlock\<close> has found when it succeeds.\<close>

lemma finalizeBlock_sealed:
  assumes "finalizeBlock N order ticks b w0 w = Done (None, b', w')" "slashingDict w0 = []"
  obtains tree acc cp nonce where "BuildMerkleTree (crypto (nE N)) b = Some tree"
    "State w0 (SerializeHashContent (crypto (nE N)) (fbytes (validatorAccAddress (nCfg N)))) = Some acc"
    "SignMessageWithRSAKey (rsaSign N) (crypto (nE N)) (digits (unat (bl_Height b))) = Some cp"
    "validateProofOfStake (crypto (nE N)) (getDifficulty w0) (GetLatestProofs (nE N) w0 (nat (numIncludedPrevProofs (activeParameters w0))) b)
       (bl_Height b) (acc_Balance acc) cp nonce = Some True"
    "b' = sealBlock (crypto (nE N)) nonce cp (b\<lparr>bl_MerkleRoot := MerkleRoot tree, bl_Beneficiary := Account_Hash (crypto (nE N)) acc\<rparr>)"
proof -
  let ?C = "crypto (nE N)"
  obtain tree where tree: "BuildMerkleTree ?C b = Some tree"
    using assms by (cases "BuildMerkleTree ?C b") (auto simp: finalizeBlock_def)
  obtain acc where acc: "State w0 (SerializeHashContent ?C (fbytes (validatorAccAddress (nCfg N)))) = Some acc"
    using assms tree by (cases "State w0 (SerializeHashContent ?C (fbytes (validatorAccAddress (nCfg N))))") (auto simp: finalizeBlock_def Let_def GetAccount_def)
  obtain cp where cp: "SignMessageWithRSAKey (rsaSign N) ?C (digits (unat (bl_Height b))) = Some cp"
    using assms tree acc
    by (cases "SignMessageWithRSAKey (rsaSign N) ?C (digits (unat (bl_Height b)))") (auto simp: finalizeBlock_def Let_def GetAccount_def simp del: digits.simps)
  let ?b = "b\<lparr>bl_MerkleRoot := MerkleRoot tree, bl_Beneficiary := Account_Hash ?C acc\<rparr>"
  have latest: "GetLatestProofs (nE N) w0 n ?b = GetLatestProofs (nE N) w0 n b" for n
    by (rule GetLatestProofs_cong) simp_all
  have g: "GetAccount w0 (SerializeHashContent ?C (fbytes (validatorAccAddress (nCfg N)))) = Some acc" using acc by (simp add: GetAccount_def)
  note fin = assms(1) [unfolded finalizeBlock_def Let_def assms(2), simplified, unfolded tree g option.case, simplified, unfolded cp option.case]
  obtain nonce where pos: "posLoop (nE N) (getDifficulty w0) (bl_PrevHash b) (GetLatestProofs (nE N) w0 (nat (numIncludedPrevProofs (activeParameters w0))) b)
      (bl_Height b) (acc_Balance acc) cp 0 ticks = Some (Inr nonce)" "b' = sealBlock ?C nonce cp ?b"
    using fin by (auto simp: proofOfStake_def latest split: option.splits sum.splits simp del: digits.simps)
  show ?thesis using that [OF tree acc cp] posLoop_validates [OF pos(1)] pos(2) by blast
qed

lemma sealBlock_keeps:
  "BuildMerkleTree C (sealBlock C n cp b) = BuildMerkleTree C b" "bl_Height (sealBlock C n cp b) = bl_Height b"
  "bl_Beneficiary (sealBlock C n cp b) = bl_Beneficiary b" "bl_MerkleRoot (sealBlock C n cp b) = bl_MerkleRoot b"
  "bl_CommitmentProof (sealBlock C n cp b) = cp" "bl_Timestamp (sealBlock C n cp b) = n" "bl_SlashedAddress (sealBlock C n cp b) = bl_SlashedAddress b"
  "block_lists (sealBlock C n cp b) = block_lists b" "GetLatestProofs E w k (sealBlock C n cp b) = GetLatestProofs E w k b"
  by (simp_all add: sealBlock_def Let_def BuildMerkleTree_def block_txHashes_def block_lists_def) (rule GetLatestProofs_cong; simp)

text \<open>
  C3: what \<^verbatim>\<open>preValidate\<close> says of a block that a miner has built, in the same state. Let \<^verbatim>\<open>finalizeBlock\<close> return without an error for
  a validator whose account is filed under its address and whose commitment key verifies the signatures of its private key, with no
  slashing proof at hand. Then \<^verbatim>\<open>preValidate\<close> returns without using the network, and it never objects to the beneficiary, the commitment proof, the
  proof of stake, the slashing proof or the Merkle root: these are as it computes them. It accepts the block exactly if the miner's
  account is staking and has waited long enough, the time of the block is within the accepted differences, and the block is within
  the size limit and contains no transaction twice, which \<^verbatim>\<open>finalizeBlock\<close> does not check.
\<close>

theorem finalizeBlock_accepted:
  assumes "finalizeBlock N order ticks b w0 w = Done (None, b', w')"
    and "State w0 (SerializeHashContent (crypto (nE N)) (fbytes (validatorAccAddress (nCfg N)))) = Some acc"
    and "acc_Address acc = validatorAccAddress (nCfg N)"
    and "\<forall>d s. rsaSign N d = Some s \<longrightarrow> rsaCheck N (be_nat (acc_CommitmentKey acc)) COMM_PUBLIC_EXPONENT d (copy256 s)"
    and "slashingDict w0 = []" "bl_SlashedAddress b = zero_hash"
  shows "\<exists>e. preValidate (nE N) (rsaCheck N) clk net fuel k b' False w0 = Done (e, k, w0) \<and>
    e \<notin> {Some NoBeneficiary, Some BadCommitment, Some BadNonce, Some BadMerkleRoot} \<and> (\<forall>s. e \<noteq> Some (BadSlashing s)) \<and>
    (e = None \<longleftrightarrow> acc_IsStaking acc \<and>
       (uptodate clk \<longrightarrow> timestampCheck (systemTime clk) (bl_Timestamp b') = None) \<and>
       GetSize b' \<le> BlockSize (activeParameters w0) \<and> distinct (block_lists b) \<and>
       bl_Timestamp b' \<le> add64 (unixNow clk) (sint (AcceptedTimeDiff (activeParameters w0))) \<and>
       bl_Height b - acc_StakingBlockHeight acc \<ge> ucast (WaitingMinimum (activeParameters w0)))"
  using assms(1,5)
proof (cases rule: finalizeBlock_sealed)
  case (1 tree acc' cp nonce)
  let ?C = "crypto (nE N)"
  have acc': "acc' = acc" using 1(2) assms(2) by simp
  let ?b = "b\<lparr>bl_MerkleRoot := MerkleRoot tree, bl_Beneficiary := Account_Hash ?C acc\<rparr>"
  have b': "b' = sealBlock ?C nonce cp ?b" using 1(5) acc' by simp
  have ben: "GetAccount w0 (bl_Beneficiary b') = Some acc"
    using assms(2,3) by (simp add: b' sealBlock_keeps Account_Hash_def GetAccount_def)
  obtain s where s: "rsaSign N (sha256 ?C (digits (unat (bl_Height b)))) = Some s" "cp = copy256 s"
    using 1(3) by (auto simp: SignMessageWithRSAKey_def simp del: digits.simps)
  have sig: "VerifyMessageWithRSAKey (rsaCheck N) ?C (CreateRSAPubKeyFromBytes (acc_CommitmentKey acc)) (digits (unat (bl_Height b'))) (bl_CommitmentProof b')"
    using assms(4) s by (simp add: VerifyMessageWithRSAKey_def CreateRSAPubKeyFromBytes_def b' sealBlock_keeps del: digits.simps)
  have dup: "validateNoDuplicateTx b' = None \<longleftrightarrow> distinct (block_lists b)"
    by (simp add: noDuplicate_distinct b' sealBlock_keeps) (simp add: block_lists_def)
  have proofs: "GetLatestProofs (nE N) w0 n b' = GetLatestProofs (nE N) w0 n b" for n
    unfolding b' sealBlock_keeps by (rule GetLatestProofs_cong) simp_all
  have pos: "validateProofOfStake ?C (getDifficulty w0) (GetLatestProofs (nE N) w0 (nat (numIncludedPrevProofs (activeParameters w0))) b')
      (bl_Height b') (acc_Balance acc) (bl_CommitmentProof b') (bl_Timestamp b') = Some True"
    using 1(4) unfolding proofs acc' by (simp add: b' sealBlock_keeps)
  have "BuildMerkleTree ?C ?b = BuildMerkleTree ?C b" by (simp add: BuildMerkleTree_def block_txHashes_def)
  then have "BuildMerkleTree ?C b' = Some tree" unfolding b' sealBlock_keeps using 1(1) by simp
  then have merkle: "merkleCheck ?C b' = Done True" by (simp add: merkleCheck_def b' sealBlock_keeps)
  have rest: "bl_SlashedAddress b' = zero_hash" "bl_Height b' = bl_Height b" using assms(6) by (simp_all add: b' sealBlock_keeps)
  show ?thesis
    unfolding preValidate_def ben option.case pos dup [symmetric]
    using sig merkle rest by (auto simp: bind_run_def not_less split: option.splits simp del: digits.simps)
qed

subsection \<open>A block on the tip\<close>

definition demo_tip :: "demo_db world" where
  "demo_tip = (demo_world [zero_hash \<mapsto> demo_acc 9 5 0 True] [])\<lparr>db := [((''closedblocks'', demo_hash 1), Block_Encode (demo_chain 1 0 0))],
     lastBlock := Some (demo_chain 1 0 0)\<rparr>"

lemma demo_tip_simps [simp]:
  "State demo_tip = [zero_hash \<mapsto> demo_acc 9 5 0 True]" "parameterSlice demo_tip = [NewDefaultParameters]" "target demo_tip = [10]"
  "db demo_tip = [((''closedblocks'', demo_hash 1), Block_Encode (demo_chain 1 0 0))]" "lastBlock demo_tip = Some (demo_chain 1 0 0)"
  by (simp_all add: demo_tip_def demo_world_def)

lemma demo_chain_fields [simp]:
  "bl_Beneficiary (demo_chain h p n) = zero_hash" "bl_SlashedAddress (demo_chain h p n) = zero_hash" "bl_Timestamp (demo_chain h p n) = 0"
  "bl_MerkleRoot (demo_chain h p n) = zero_hash" "GetSize (demo_chain h p n) = 650" "block_txHashes (demo_chain h p n) = []" "block_lists (demo_chain h p n) = []"
  "bl_AccTxData (demo_chain h p n) = []" "bl_NrAccTx (demo_chain h p n) = 0" "bl_FundsTxData (demo_chain h p n) = []" "bl_NrFundsTx (demo_chain h p n) = 0"
  "bl_ConfigTxData (demo_chain h p n) = []" "bl_NrConfigTx (demo_chain h p n) = 0" "bl_StakeTxData (demo_chain h p n) = []" "bl_NrStakeTx (demo_chain h p n) = 0"
  "bl_UpdateTxData (demo_chain h p n) = []" "bl_NrUpdateTx (demo_chain h p n) = 0" "bl_AggTxData (demo_chain h p n) = []" "bl_NrAggTx (demo_chain h p n) = 0"
  "hasSlashingProof (demo_chain h p n) = False"
  by (simp_all add: demo_chain_def zero_block_def GetSize_def GetTxDataSize_def GetBloomFilterSize_def block_txHashes_def block_lists_def hasSlashingProof_def)

lemma demo_chain_distinct: "validateNoDuplicateTx (demo_chain h p n) = None"
  by (simp add: noDuplicate_distinct)

lemma demo_tip_preValidate: "preValidate demo_E (\<lambda>_ _ _ _. True) demo_clock' net fuel k (demo_chain 2 1 1) True demo_tip = Done (None, k, demo_tip)"
  by (simp add: preValidate_def GetAccount_def activeParameters_def NewDefaultParameters_def demo_chain_distinct demo_clock'_def add64_def
      VerifyMessageWithRSAKey_def bind_run_def merkleCheck_def BuildMerkleTree_def MerkleRoot_def del: digits.simps)

lemma demo_chain_fetch: "fetchTransactions fnet demo_E cfg fuel i (demo_chain h p n) w = Done (Inr (genesisData (demo_chain h p n)), w)"
  by (simp add: fetchTransactions_def genesisData_def fetchAccTxData_def fetchConfigTxData_def fetchStakeTxData_def fetchUpdateTxData_def
      fetchFundsTxData_def fetchAggTxData_def)

lemma demo_tip_state: "\<exists>w'. validateState demo_E (genesisData (demo_chain 2 1 1)) True demo_tip = Some (None, w') \<and> target w' \<noteq> []"
proof -
  let ?r = "updAcc zero_hash (addBalance (BlockReward (activeParameters demo_tip))) demo_tip"
  have ops: "accStateChange demo_E [] demo_tip = Some (None, demo_tip)" "fundsStateChange demo_E True [] demo_tip = Some (None, demo_tip)"
    "aggTxStateChange demo_E True [] demo_tip = Some (None, demo_tip)" "stakeStateChange [] h True demo_tip = Some (None, demo_tip)"
    "collectTxFees [] [] [] [] [] zero_hash demo_tip = Some (None, demo_tip)" for h
    by (simp_all add: accStateChange_def fundsStateChange_def aggTxStateChange_def stakeStateChange_def collectTxFees_def GetAccount_def)
  have reward: "collectBlockReward (BlockReward (activeParameters demo_tip)) zero_hash True demo_tip = Some (None, ?r)"
    by (simp add: collectBlockReward_def GetAccount_def)
  have slash: "collectSlashReward x (demo_chain 2 1 1) w = Some (None, w)" for x w by (simp add: collectSlashReward_def)
  have height: "\<exists>w'. updateStakingHeight (demo_chain 2 1 1) ?r = Some (None, w') \<and> target w' \<noteq> []"
    by (simp add: updateStakingHeight_def GetAccount_def updAcc_def)
  then obtain w' where w': "updateStakingHeight (demo_chain 2 1 1) ?r = Some (None, w')" "target w' \<noteq> []" by blast
  have "validateState demo_E (genesisData (demo_chain 2 1 1)) True demo_tip = Some (None, w')"
    unfolding validateState_def genesisData_def Let_def blockData.simps demo_chain_fields demo_chain_simps
    by (simp add: attempt_def ops reward slash w'(1) del: demo_E_simps(1))
  then show ?thesis using w'(2) by blast
qed

lemma demo_tip_block: "\<exists>w'. validateBlock demo_node demo_clock' net fnet fuel k True True (demo_chain 2 1 1) demo_tip = Done (None, k, w')"
proof -
  obtain w1 where w1: "validateState demo_E (genesisData (demo_chain 2 1 1)) True demo_tip = Some (None, w1)" "target w1 \<noteq> []"
    using demo_tip_state by blast
  obtain w2 where w2: "collectStatistics (newDifficulty demo_node) (demo_chain 2 1 1) w1 = Some w2" using demo_collect [OF w1(2)] by blast
  have "seekSlashingProof demo_E net fuel k (demo_chain 2 1 1) demo_tip = Done (k, demo_tip)"
    by (simp add: seekSlashingProof_def ReadLastClosedBlock_def demo_E_def)
  moreover have "postValidate demo_E (newDifficulty demo_node) True (genesisData (demo_chain 2 1 1)) True w1 = Some w2"
    using w2 by (simp add: postValidate_def genesisData_def configStateChange_def Let_def)
  ultimately show ?thesis
    by (simp add: validateBlock_def demo_tip_preValidate demo_chain_fetch w1(1) bind_run_def del: demo_E_simps(1))
qed

theorem validate_head_witness:
  "\<exists>w'. validate demo_node demo_clock' (\<lambda>_. Timeout []) (\<lambda>_. demo_answers) 1 (demo_chain 2 1 1) True demo_tip = Done (None, w') \<and>
     lastBlock w' = Some (demo_chain 2 1 1)"
proof -
  have seq: "getBlockSequences demo_E (\<lambda>_. Timeout []) 1 0 (demo_chain 2 1 1) demo_tip = Done (Inr ([], [demo_chain 2 1 1]), 0, demo_tip)"
    by (simp add: chain_eval Let_def)
  obtain w' where w': "validateBlock demo_node (demo_clock'\<lparr>uptodate := True\<rparr>) (\<lambda>_. Timeout []) demo_answers 1 0 True True (demo_chain 2 1 1) demo_tip = Done (None, 0, w')"
    using demo_tip_block [of "\<lambda>_. Timeout []" demo_answers 1 0] by (auto simp: demo_clock'_def)
  have new: "ReadClosedBlock demo_E demo_tip (demo_hash 2) = None" by (simp add: ReadClosedBlock_def read_block_def demo_hash_def)
  have v: "validate demo_node demo_clock' (\<lambda>_. Timeout []) (\<lambda>_. demo_answers) 1 (demo_chain 2 1 1) True demo_tip = Done (None, w')"
    using w' by (simp add: validate_def new seq [simplified] bind_run_def DELAYED_BLOCKS_def del: demo_E_simps(1))
  from validate_head [OF v] v show ?thesis by blast
qed

subsection \<open>A block that is mined\<close>

definition demo_start :: "demo_db world" where
  "demo_start = (demo_world [demo_hash 9 \<mapsto> demo_acc 9 5 0 True] [])\<lparr>lastBlock := Some zero_block\<rparr>"

definition demo_next :: Block where
  "demo_next = newBlock zero_hash zero_hash (replicate 256 0) 1"

lemma demo_next_simps [simp]:
  "bl_Height demo_next = 1" "bl_PrevHash demo_next = zero_hash" "bl_SlashedAddress demo_next = zero_hash" "block_lists demo_next = []"
  "block_txHashes demo_next = []" "bl_Aggregated demo_next = False"
  by (simp_all add: demo_next_def newBlock_def zero_block_def block_lists_def block_txHashes_def)

lemma demo_start_simps [simp]:
  "State demo_start = [demo_hash 9 \<mapsto> demo_acc 9 5 0 True]" "parameterSlice demo_start = [NewDefaultParameters]" "target demo_start = [10]"
  "db demo_start = []" "lastBlock demo_start = Some zero_block" "slashingDict demo_start = []"
  by (simp_all add: demo_start_def demo_world_def)

lemma demo_mined:
  obtains b' w' where "finalizeBlock demo_node id [(demo_start, 1600000000)] demo_next demo_start demo_start = Done (None, b', w')"
    "GetSize b' = 650" "bl_Timestamp b' = 1600000000"
proof -
  have "bytesZero (posScaled (demo_hash 9) 5) 0 1" "posScaled (demo_hash 9) 5 ! 1 = 0"
    unfolding posScaled_def demo_hash_head by (simp_all add: be64_def be_fixed_def le_fixed_def nth_append rev_nth)
  then have lz: "leadingZeros 10 (posScaled (demo_hash 9) 5)" by (simp add: leadingZeros_def)
  have proofs: "GetLatestProofs demo_E demo_start 5 b = []" if "bl_Height b = 1" for b
    using that by (simp add: numeral_eq_Suc closedPrev_def ReadClosedBlock_def ReadClosedBlockWithoutTx_def read_block_def)
  let ?b = "demo_next\<lparr>bl_MerkleRoot := zero_hash, bl_Beneficiary := demo_hash 9\<rparr>"
  have fin: "\<exists>w'. finalizeBlock demo_node id [(demo_start, 1600000000)] demo_next demo_start demo_start =
      Done (None, sealBlock (crypto demo_E) 1600000000 (copy256 []) ?b, w')"
    by (simp add: finalizeBlock_def Let_def BuildMerkleTree_def MerkleRoot_def GetAccount_def SerializeHashContent_def SignMessageWithRSAKey_def
        Account_Hash_def proofOfStake_def posHash_def getDifficulty_def proofs lz activeParameters_def NewDefaultParameters_def zero_block_def del: digits.simps)
  moreover have "GetSize (sealBlock (crypto demo_E) 1600000000 (copy256 []) ?b) = 650" "bl_Timestamp (sealBlock (crypto demo_E) 1600000000 (copy256 []) ?b) = 1600000000"
    by (simp_all add: sealBlock_def Let_def GetSize_def GetTxDataSize_def GetBloomFilterSize_def demo_next_def newBlock_def zero_block_def)
  ultimately show ?thesis using that by blast
qed

theorem finalizeBlock_accepted_witness:
  "\<exists>b' w'. finalizeBlock demo_node id [(demo_start, 1600000000)] demo_next demo_start demo_start = Done (None, b', w') \<and>
     preValidate demo_E (\<lambda>_ _ _ _. True) demo_clock' (\<lambda>_. Timeout []) 0 0 b' False demo_start = Done (None, 0, demo_start)"
proof -
  obtain b' w' where b': "finalizeBlock demo_node id [(demo_start, 1600000000)] demo_next demo_start demo_start = Done (None, b', w')"
    "GetSize b' = 650" "bl_Timestamp b' = 1600000000"
    by (rule demo_mined)
  have acc: "State demo_start (SerializeHashContent (crypto (nE demo_node)) (fbytes (validatorAccAddress (nCfg demo_node)))) = Some (demo_acc 9 5 0 True)"
    by (simp add: SerializeHashContent_def)
  have p: "BlockSize (activeParameters demo_start) = 5000" "AcceptedTimeDiff (activeParameters demo_start) = 60" "WaitingMinimum (activeParameters demo_start) = 0"
    by (simp_all add: activeParameters_def NewDefaultParameters_def)
  have r: "acc_Address (demo_acc 9 5 0 True) = validatorAccAddress (nCfg demo_node)" "\<forall>d s. rsaSign demo_node d = Some s \<longrightarrow>
      rsaCheck demo_node (be_nat (acc_CommitmentKey (demo_acc 9 5 0 True))) COMM_PUBLIC_EXPONENT d (copy256 s)"
    "slashingDict demo_start = []" "bl_SlashedAddress demo_next = zero_hash" by simp_all
  have "distinct (block_lists demo_next)" "bl_Height demo_next - acc_StakingBlockHeight (demo_acc 9 5 0 True) \<ge> 0"
    "timestampCheck (systemTime demo_clock') (bl_Timestamp b') = None" "bl_Timestamp b' \<le> add64 (unixNow demo_clock') 60"
    by (simp_all add: b'(3) demo_clock'_def timestampCheck_def sub64_def add64_def)
  moreover have "\<exists>e. preValidate (nE demo_node) (rsaCheck demo_node) demo_clock' (\<lambda>_. Timeout []) 0 0 b' False demo_start = Done (e, 0, demo_start) \<and>
      (e = None \<longleftrightarrow> acc_IsStaking (demo_acc 9 5 0 True) \<and>
       (uptodate demo_clock' \<longrightarrow> timestampCheck (systemTime demo_clock') (bl_Timestamp b') = None) \<and>
       GetSize b' \<le> BlockSize (activeParameters demo_start) \<and> distinct (block_lists demo_next) \<and>
       bl_Timestamp b' \<le> add64 (unixNow demo_clock') (sint (AcceptedTimeDiff (activeParameters demo_start))) \<and>
       bl_Height demo_next - acc_StakingBlockHeight (demo_acc 9 5 0 True) \<ge> ucast (WaitingMinimum (activeParameters demo_start)))"
    using finalizeBlock_accepted [OF b'(1) acc r, of demo_clock' "\<lambda>_. Timeout []" 0 0] by blast
  ultimately have "preValidate (nE demo_node) (rsaCheck demo_node) demo_clock' (\<lambda>_. Timeout []) 0 0 b' False demo_start = Done (None, 0, demo_start)"
    by (auto simp: b'(2) p)
  then show ?thesis using b'(1) by (intro exI conjI) (assumption, simp del: demo_E_simps(1))
qed

end
