(* ===== verification/Spec2Isabelle.thy ===== *)
theory Spec2Isabelle
  imports VMRuns LedgerRuns BlockProps ServicesProps MiningBlocks
begin

text \<open>
  A model of the Bazo miner, a proof-of-stake blockchain node written in Go, and the theorems that make its parts correct. The package
  \<^verbatim>\<open>src/miner\<close> builds, validates and chooses blocks over the state that \<^verbatim>\<open>src/storage\<close> keeps; \<^verbatim>\<open>src/protocol\<close> holds accounts,
  transactions, blocks and Merkle trees, \<^verbatim>\<open>src/crypto\<close> the hashes and keys, \<^verbatim>\<open>src/vm\<close> runs the contracts of funds transactions, and
  \<^verbatim>\<open>src/p2p\<close> exchanges blocks and transactions with other nodes and calls the others through the open transactions and received blocks.

  Conventions. A Go struct is a record with the fields of the source, prefixed by its type; integers have the width of the code (words that wrap);
  a function that may panic returns an option with \<open>None\<close> for the panic; errors are datatypes with one constructor per message of the
  source; the globals of \<^verbatim>\<open>src/storage/storage.go\<close> and \<^verbatim>\<open>src/miner\<close> form the record \<open>world\<close>, those of \<^verbatim>\<open>src/p2p\<close> the record \<open>net\<close> around
  it. Code outside the repository is an argument: the hash functions (\<open>crypto\<close>), signatures, the database (\<open>env\<close>), gob streams
  (\<open>gob_env\<close>), the clock, the orders in which Go lists a map, and the answers of the network.

  \<^bold>\<open>Ground.\<close> \<open>Prelude\<close>: machine types and byte codecs. \<open>GoSlice\<close>: byte slices that share arrays. \<open>GoSort\<close>: \<^verbatim>\<open>sort.Sort\<close>
  with a comparison that may panic or contradict itself. \<open>Fmt\<close>: the text of \<^verbatim>\<open>%v\<close>, which the hashes are made of.

  \<^bold>\<open>Virtual machine\<close> (\<^verbatim>\<open>src/vm\<close>, \<^verbatim>\<open>src/protocol/vm_context.go\<close>). \<open>VMUtils\<close>, \<open>VMStack\<close>, \<open>VMArray\<close>, \<open>VMMap\<close>, \<open>VMOpCodes\<close> and \<open>VMContext\<close>
  follow the files of these names, \<open>VMCore\<close> has one definition per instruction, \<open>VMExec\<close> the loop, \<open>VMObjects\<close> and \<open>VMSafe\<close> the
  invariant of every instruction, \<open>VMProps\<close> and \<open>VMRuns\<close> the properties: bounded execution, memory accounting, arithmetic, calls, maps.

  \<^bold>\<open>Data\<close> (\<^verbatim>\<open>src/protocol\<close>, \<^verbatim>\<open>src/crypto\<close>). \<open>Protocol\<close>: the structs. \<open>Chameleon\<close>: the chameleon hash and its collisions. \<open>Transactions\<close>,
  \<open>Encoding\<close>: constructors, hashes, sizes, encodings. \<open>Merkle\<close>, \<open>MerkleProof\<close>: trees, their binding, proofs. \<open>Params\<close>: system parameters.

  \<^bold>\<open>Ledger\<close> (\<^verbatim>\<open>src/storage\<close>, \<^verbatim>\<open>state.go\<close>, \<^verbatim>\<open>staterollback.go\<close>, \<^verbatim>\<open>block_validation.go\<close>, \<^verbatim>\<open>blockrollback.go\<close>, \<^verbatim>\<open>blockchainparam.go\<close> of
  \<^verbatim>\<open>src/miner\<close>). \<open>Storage\<close>: buckets and pools. \<open>Ledger\<close>: state changes and rollbacks. \<open>LedgerRollback\<close>: each
  rollback undoes its change. \<open>Validation\<close>: \<^verbatim>\<open>validateState\<close>, \<^verbatim>\<open>postValidate\<close>, \<^verbatim>\<open>rollback\<close>. \<open>ValidationProps\<close>, \<open>Money\<close>, \<open>BlockProps\<close>,
  \<open>LedgerRuns\<close>: rollback, money supply, statistics, stores, and runs that lose money or state.

  \<^bold>\<open>Blocks\<close> (the rest of \<^verbatim>\<open>src/miner\<close>). \<open>Consensus\<close>, \<open>ConsensusProps\<close>: proof of stake, choice of the chain, slashing, \<^verbatim>\<open>preValidate\<close>.
  \<open>Building\<close>, \<open>BuildingProps\<close>: verification of transactions and adding them to a block. \<open>Fetching\<close>, \<open>FetchingProps\<close>: the transactions of a received
  block. \<open>Aggregation\<close>, \<open>AggregationProps\<close>: funds transactions joined into one. \<open>Preparation\<close>, \<open>PreparationProps\<close>: choice of transactions. \<open>Mining\<close>:
  construction and validation of blocks, start and loop of the miner as a step relation \<open>reachable\<close>, beside the handlers of the network;
  \<open>MiningFrame\<close>, \<open>MiningProps\<close>, \<open>MiningBlocks\<close>: what every step keeps, and the fate of built and received blocks.

  \<^bold>\<open>Network\<close> (\<^verbatim>\<open>src/p2p\<close>). \<open>Wire\<close>: packets, addresses, the common time. \<open>Network\<close>: a function per handler, from the state to the messages sent
  and the new state. \<open>Services\<close>: requests, broadcasts with queues for absent peers, connections. \<open>NetworkProps\<close>, \<open>ServicesProps\<close>: properties.

  \<^bold>\<open>Interfaces.\<close> Locales state contracts that the model's definitions are shown to meet: \<open>rollbackable\<close> and \<open>adjusting\<close> (a change and its
  rollback), \<open>conserving\<close> (a change that moves money), \<open>lifo\<close> (the two stacks), \<open>byte_seq\<close> and \<open>map_obj\<close> (contract arrays and maps),
  \<open>bounded_loop\<close> (execution by gas), \<open>core_invariant\<close> (what a state predicate needs to hold in every reachable state).

  \<^bold>\<open>Bounds.\<close> \<open>Exec\<close> takes a number of rounds; one more than the fee decides the outcome, in which an instruction that never ends is
  the value \<open>Diverge\<close>. The search for a nonce ends after 450 ticks, the aggregation loop after one round per transaction; both are proved.
  Loops that may not end for lack of a proof of the contrary (\<^verbatim>\<open>getNewChain\<close>, the recursive fetch of aggregated transactions, the first
  chain of a new node) carry fuel, and running out of it is a result of its own, never an answer.
  The recursion of \<open>Sort\<close> is bounded by the depth at which \<^verbatim>\<open>sort.Sort\<close> itself turns to its heapsort.

  \<^bold>\<open>Not modelled.\<close> The command line, key and parameter files, sockets and the log; the floating-point computations of a new difficulty and of the Bloom
  filter, which are arguments; interleaving inside a step that the code protects with a mutex. \<^verbatim>\<open>big.Int.SetString\<close> leaves the value
  undefined when it fails; the model takes what the Go releases leave, the value of the longest hexadecimal prefix.
  \<open>Scenario\<close> holds the concrete worlds of the witnesses and models no code.
\<close>

section \<open>Blocks that pass the first validation\<close>

text \<open>
  C5: what a block needs to pass \<^verbatim>\<open>preValidate\<close> on a running node. The beneficiary is a staking account with a
  balance, and the hash of its proofs, height and time, scaled by that balance, is below the threshold of the current
  difficulty; the block is within the size limit; no transaction occurs twice in it; its time is at most the accepted
  difference ahead of the clock; and unless the block is aggregated, its Merkle root is the root of its transactions.
\<close>

theorem preValidate_sound:
  assumes "preValidate E rsa clk net fuel k block False w = Done (None, k', w')" "\<forall>x. length (sha3 (crypto E) x) = 32"
  shows "\<exists>acc. State w (bl_Beneficiary block) = Some acc \<and> acc_IsStaking acc \<and> acc_Balance acc \<noteq> 0 \<and>
      be_nat (posScaled (posHash (crypto E) (GetLatestProofs E w (nat (numIncludedPrevProofs (activeParameters w))) block)
         (bl_Height block) (bl_CommitmentProof block) (bl_Timestamp block)) (acc_Balance acc)) < 2 ^ (256 - unat (getDifficulty w)) \<and>
      GetSize block \<le> BlockSize (activeParameters w) \<and> distinct (block_lists block) \<and>
      bl_Timestamp block \<le> add64 (unixNow clk) (sint (AcceptedTimeDiff (activeParameters w))) \<and>
      (\<not> bl_Aggregated block \<longrightarrow> (\<exists>t. BuildMerkleTree (crypto E) block = Some t \<and> MerkleRoot t = bl_MerkleRoot block))"
proof -
  note a = preValidate_accepts [OF assms(1)]
  obtain acc where acc: "GetAccount w (bl_Beneficiary block) = Some acc" "acc_IsStaking acc"
    "validateProofOfStake (crypto E) (getDifficulty w) (GetLatestProofs E w (nat (numIncludedPrevProofs (activeParameters w))) block)
         (bl_Height block) (acc_Balance acc) (bl_CommitmentProof block) (bl_Timestamp block) = Some True"
    using a(1) by auto
  have time: "bl_Timestamp block \<le> add64 (unixNow clk) (sint (AcceptedTimeDiff (activeParameters w)))"
    using assms(1) by (auto simp: preValidate_def bind_run_Done not_less split: option.splits if_splits bool.splits)
  have len: "length (posScaled (posHash (crypto E) ps h p t) v) = 32" for ps h p t v
    using assms(2) by (simp add: posScaled_def posHash_def)
  have "acc_Balance acc \<noteq> 0 \<and> leadingZeros (getDifficulty w) (posScaled (posHash (crypto E) (GetLatestProofs E w (nat (numIncludedPrevProofs (activeParameters w))) block)
         (bl_Height block) (bl_CommitmentProof block) (bl_Timestamp block)) (acc_Balance acc))"
    using acc(3) by (simp add: validateProofOfStake_def split: if_splits)
  moreover have "\<exists>t. BuildMerkleTree (crypto E) block = Some t \<and> MerkleRoot t = bl_MerkleRoot block" if "\<not> bl_Aggregated block"
    using a(4) that by (auto simp: merkleCheck_def split: option.splits)
  moreover have "distinct (block_lists block)" using a(3) by (simp add: noDuplicate_distinct)
  ultimately show ?thesis
    using acc(1,2) a(2) time unfolding GetAccount_def leadingZeros_less [OF len] by blast
qed

definition mix_E :: "demo_db env" where
  "mix_E = demo_E\<lparr>crypto := mix_crypto\<rparr>"

definition demo_miner :: "demo_db world" where
  "demo_miner = demo_world [demo_hash 3 \<mapsto> demo_acc 3 5000 0 True] []"

definition demo_clock :: clock where
  "demo_clock = \<lparr>systemTime = 1600000000, unixNow = 1600000000, uptodate = True\<rparr>"

definition demo_proposal :: "Block \<Rightarrow> Block" where
  "demo_proposal b = b\<lparr>bl_Beneficiary := demo_hash 3, bl_Height := 1, bl_Timestamp := 1600000001, bl_MerkleRoot := demo_hash 81\<rparr>"

lemma demo_preValidate:
  assumes "b = demo_tx_block \<or> b = demo_tx_block2"
  shows "preValidate mix_E (\<lambda>_ _ _ _. True) demo_clock net fuel k (demo_proposal b) False demo_miner = Done (None, k, demo_miner)"
proof -
  have "block_txHashes (demo_proposal b) = [demo_hash 1, demo_hash 2, demo_hash 3]"
    using assms demo_tx_block_hashes demo_tx_block2_hashes by (auto simp: demo_proposal_def block_txHashes_def)
  then have m: "BuildMerkleTree mix_crypto (demo_proposal b) = Some (Some \<lparr>mt_Root = demo_root, mt_merkleRoot = demo_hash 81,
      mt_Leafs = map LeafNode [demo_hash 1, demo_hash 2, demo_hash 3, demo_hash 3]\<rparr>)"
    by (simp add: BuildMerkleTree_def demo_tree tree_or_nil_def)
  have "distinct (block_lists (demo_proposal b))"
    using assms by (auto simp: demo_proposal_def block_lists_def demo_tx_block_def demo_tx_block2_def zero_block_def)
  then have d: "validateNoDuplicateTx (demo_proposal b) = None" by (simp add: noDuplicate_distinct)
  have s: "GetSize (demo_proposal b) \<le> 5000"
    using assms by (auto simp: demo_proposal_def GetSize_def GetTxDataSize_def GetBloomFilterSize_def demo_tx_block_def demo_tx_block2_def zero_block_def)
  have p: "validateProofOfStake mix_crypto 10 ps 1 5000 pr t = Some True" for ps pr t
  proof -
    obtain c where c: "posHash mix_crypto ps 1 pr t = demo_hash c" by (simp add: posHash_def mix_crypto_def)
    have "be64 0 = replicate 8 0" by (simp add: be64_def be_fixed_def le_fixed_def map_replicate_const)
    moreover have "leadingZeros 10 (replicate 8 0 @ ys)" for ys by (simp add: leadingZeros_def nth_append)
    ultimately show ?thesis by (simp add: validateProofOfStake_def c posScaled_def demo_hash_head)
  qed
  have f: "bl_Beneficiary (demo_proposal b) = demo_hash 3" "bl_Height (demo_proposal b) = 1" "bl_Timestamp (demo_proposal b) = 1600000001"
    "bl_MerkleRoot (demo_proposal b) = demo_hash 81" "bl_SlashedAddress (demo_proposal b) = zero_hash"
    using assms by (auto simp: demo_proposal_def demo_tx_block_def demo_tx_block2_def zero_block_def)
  have w: "activeParameters demo_miner = NewDefaultParameters" "getDifficulty demo_miner = 10"
    "State demo_miner (demo_hash 3) = Some (demo_acc 3 5000 0 True)"
    by (simp_all add: demo_miner_def activeParameters_def getDifficulty_def demo_world_def)
  have t: "timestampCheck 1600000000 1600000001 = None" "add64 1600000000 60 = 1600000060"
    by (simp_all add: timestampCheck_def sub64_def add64_def sint_word_ariths)
  have e: "crypto mix_E = mix_crypto" by (simp add: mix_E_def)
  have c: "systemTime demo_clock = 1600000000" "unixNow demo_clock = 1600000000" by (simp_all add: demo_clock_def)
  show ?thesis
    unfolding preValidate_def GetAccount_def f w option.case demo_acc_simps c e d p merkleCheck_def m
    using s by (simp add: t VerifyMessageWithRSAKey_def NewDefaultParameters_def bind_run_def MerkleRoot_def f)
qed

lemma mix_sha3 [simp]: "length (sha3 (crypto mix_E) x) = 32"
  by (simp add: mix_E_def mix_crypto_def)

theorem preValidate_sound_witness:
  "\<exists>acc. State demo_miner (demo_hash 3) = Some acc \<and> acc_Balance acc = 5000 \<and> distinct (block_lists (demo_proposal demo_tx_block)) \<and>
     (\<exists>t. BuildMerkleTree mix_crypto (demo_proposal demo_tx_block) = Some t \<and> MerkleRoot t = demo_hash 81)"
proof -
  have "\<not> bl_Aggregated (demo_proposal demo_tx_block)" by (simp add: demo_proposal_def demo_tx_block_def zero_block_def)
  moreover have "bl_Beneficiary (demo_proposal b) = demo_hash 3" "bl_MerkleRoot (demo_proposal b) = demo_hash 81" for b
    by (simp_all add: demo_proposal_def)
  moreover have "crypto mix_E = mix_crypto" "State demo_miner (demo_hash 3) = Some (demo_acc 3 5000 0 True)"
    by (simp_all add: mix_E_def demo_miner_def)
  moreover have "\<forall>x. length (sha3 (crypto mix_E) x) = 32" by simp
  note preValidate_sound [OF demo_preValidate [OF disjI1 [OF refl], of "\<lambda>_. Timeout []" 0 0] this]
  ultimately show ?thesis by auto
qed

end
